(* ===== verification/Prelude.thy ===== *)
theory Prelude
  imports Main "HOL-Library.Word"
begin

text \<open>
  Shared vocabulary of the development: the machine integers of the C code, the outcome of a
  C function that may abort, and the generic list lemmas the components use.

  A C function that can fail an \<open>assert\<close>, dereference a null pointer, access memory outside
  an object or loop forever returns an \<open>outcome\<close>: \<open>Inl\<close> of the fault, or \<open>Inr\<close> of what
  it computes. Error codes that the code itself returns are ordinary values.
\<close>

unbundle bit_operations_syntax

section \<open>Machine integers\<close>

type_synonym u8 = "8 word"
type_synonym u16 = "16 word"
type_synonym u32 = "32 word"
type_synonym bytes = "u8 list"

section \<open>Outcomes\<close>

datatype fault =
    Assertion        \<comment> \<open>a failed \<open>assert\<close>\<close>
  | Null_deref       \<comment> \<open>a null pointer is dereferenced\<close>
  | Out_of_bounds    \<comment> \<open>an access outside the object it is made in\<close>
  | Dangling         \<comment> \<open>an object is used after it was freed\<close>
  | Diverges         \<comment> \<open>the call does not return\<close>
  | Halted           \<comment> \<open>the error handler, which loops for ever\<close>
  | Div_by_zero      \<comment> \<open>an integer is divided by zero\<close>

type_synonym 'a outcome = "fault + 'a"

fun obind :: "'a outcome \<Rightarrow> ('a \<Rightarrow> 'b outcome) \<Rightarrow> 'b outcome" where
  "obind (Inl e) f = Inl e"
| "obind (Inr x) f = f x"

fun oassert :: "bool \<Rightarrow> unit outcome" where
  "oassert True = Inr ()"
| "oassert False = Inl Assertion"

fun ok :: "'a outcome \<Rightarrow> bool" where
  "ok (Inl e) = False"
| "ok (Inr x) = True"

named_theorems outcome_simps \<open>rewriting of outcomes\<close>

lemma obind_assoc [outcome_simps]: "obind (obind m f) g = obind m (\<lambda>x. obind (f x) g)"
  by (cases m) auto

lemma obind_Inr_iff [outcome_simps]: "obind m f = Inr y \<longleftrightarrow> (\<exists>x. m = Inr x \<and> f x = Inr y)"
  by (cases m) auto

lemma obind_oassert [outcome_simps]: "obind (oassert b) f = (if b then f () else Inl Assertion)"
  by (cases b) auto

lemma oassert_Inr_iff [outcome_simps]: "oassert b = Inr u \<longleftrightarrow> b"
  by (cases b) auto

lemma ok_iff: "ok m \<longleftrightarrow> (\<exists>x. m = Inr x)"
  by (cases m) auto

lemma ok_obind [intro]: "ok m \<Longrightarrow> (\<And>x. m = Inr x \<Longrightarrow> ok (f x)) \<Longrightarrow> ok (obind m f)"
  by (cases m) auto

text \<open>What holds of every value an outcome can give.\<close>

definition post :: "'a outcome \<Rightarrow> ('a \<Rightarrow> bool) \<Rightarrow> bool" where
  "post m P \<longleftrightarrow> (\<forall>x. m = Inr x \<longrightarrow> P x)"

named_theorems post_simps \<open>postconditions of outcomes\<close>

lemma post_Inr [post_simps]: "post (Inr x) P \<longleftrightarrow> P x"
  by (simp add: post_def)

lemma post_Inl [post_simps]: "post (Inl e) P"
  by (simp add: post_def)

lemma post_obind [post_simps]: "post (obind m f) P \<longleftrightarrow> post m (\<lambda>x. post (f x) P)"
  by (cases m) (auto simp: post_def)

lemma post_True [post_simps]: "post m (\<lambda>x. True)"
  by (simp add: post_def)

lemma post_mono: "post m Q \<Longrightarrow> (\<And>x. Q x \<Longrightarrow> P x) \<Longrightarrow> post m P"
  by (simp add: post_def)

lemma postD: "post m P \<Longrightarrow> m = Inr x \<Longrightarrow> P x"
  by (simp add: post_def)

section \<open>C memory operations on buffers\<close>

text \<open>
  \<open>buf_write off bs buf\<close> is \<open>memcpy(buf + off, bs, length bs)\<close> into an object of
  \<open>length buf\<close> bytes.
\<close>

definition buf_write :: "nat \<Rightarrow> 'a list \<Rightarrow> 'a list \<Rightarrow> 'a list outcome" where
  "buf_write off bs buf =
     (if off + length bs \<le> length buf
      then Inr (take off buf @ bs @ drop (off + length bs) buf) else Inl Out_of_bounds)"

text \<open>\<open>buf_read off n buf\<close> reads \<open>n\<close> elements of \<open>buf\<close> from offset \<open>off\<close>.\<close>

definition buf_read :: "nat \<Rightarrow> nat \<Rightarrow> 'a list \<Rightarrow> 'a list outcome" where
  "buf_read off n buf =
     (if off + n \<le> length buf then Inr (take n (drop off buf)) else Inl Out_of_bounds)"

lemma buf_write_length: "buf_write off bs buf = Inr buf' \<Longrightarrow> length buf' = length buf"
  by (auto simp: buf_write_def split: if_splits)

lemma buf_write_ok: "off + length bs \<le> length buf \<Longrightarrow>
    buf_write off bs buf = Inr (take off buf @ bs @ drop (off + length bs) buf)"
  by (simp add: buf_write_def)

lemma buf_read_ok: "off + n \<le> length buf \<Longrightarrow> buf_read off n buf = Inr (take n (drop off buf))"
  by (simp add: buf_read_def)

lemma buf_write_Nil [simp]: "off \<le> length buf \<Longrightarrow> buf_write off [] buf = Inr buf"
  by (simp add: buf_write_def)

section \<open>Words\<close>

lemma unat_u8_less [simp]: "unat (w :: u8) < 256"
  using unsigned_less [of w] by simp

lemma int_le_uint [simp]: "int k \<le> uint (n :: 'a::len word) \<longleftrightarrow> k \<le> unat n"
  by (simp only: uint_nat of_nat_le_iff)

lemma minus_le_uint [simp]: "- 1 \<le> uint (n :: 'a::len word)"
  using uint_nonnegative [of n] by linarith

lemma int_min_unat [simp]: "int (min (unat (n :: 'a::len word)) k) \<le> uint n"
  by (simp only: uint_nat of_nat_le_iff min.cobounded1)

lemma bit_shl1 [simp]:
  "bit (w * 2 :: 'a::len word) n \<longleftrightarrow> n \<noteq> 0 \<and> n < LENGTH('a) \<and> bit w (n - 1)"
  using bit_double_iff [of w n] by (auto simp: mult.commute)

lemma unat_ucast_u8_u64: "unat (ucast (w :: u8) :: 64 word) = unat w"
  by (simp add: unsigned_ucast_eq take_bit_nat_eq_self_iff) (use unat_u8_less [of w] in linarith)

lemma unat_of_nat_u8: "n < 256 \<Longrightarrow> unat (of_nat n :: u8) = n"
  by (simp add: unat_of_nat)

lemma unat_of_nat_u16: "n < 65536 \<Longrightarrow> unat (of_nat n :: u16) = n"
  by (simp add: unat_of_nat)

section \<open>Little-endian integers\<close>

fun le_bytes :: "nat \<Rightarrow> 'a::len word \<Rightarrow> bytes" where
  "le_bytes 0 w = []"
| "le_bytes (Suc n) w = ucast w # le_bytes n (drop_bit 8 w)"

fun le_word :: "bytes \<Rightarrow> 'a::len word" where
  "le_word [] = 0"
| "le_word (b # bs) = ucast b OR push_bit 8 (le_word bs)"

lemma length_le_bytes [simp]: "length (le_bytes n w) = n"
  by (induction n arbitrary: w) auto

lemma le_word_bytes: "le_word (le_bytes n w) = take_bit (8 * n) w"
proof (induction n arbitrary: w)
  case (Suc n)
  show ?case
    unfolding le_bytes.simps le_word.simps Suc.IH
    by (rule bit_word_eqI) (auto simp: bit_simps)
qed simp

end
