(* ===== verification/Crc8.thy ===== *)
theory Crc8
  imports Prelude
begin

text \<open>
  The checksum of \<open>dllCom/libcomm/protocomm_ll.c\<close>: \<open>getCRC\<close> with its 32-bit accumulator,
  the schoolbook polynomial division it is meant to compute, and what the checksum detects.
\<close>

section \<open>The code\<close>

text \<open>
  The body of the inner loop. The accumulator is an \<open>unsigned\<close> (32 bits): bits shifted out
  of the low byte stay in it until the final \<open>crc & 0xff\<close>.
\<close>

definition crc_step :: "u32 \<Rightarrow> u32" where
  "crc_step crc = (if crc AND 0x80 \<noteq> 0 then push_bit 1 crc XOR 0x31 else push_bit 1 crc)"

text \<open>\<open>for (k = 0; k < 8; k++)\<close>\<close>

fun crc_loop :: "nat \<Rightarrow> u32 \<Rightarrow> u32" where
  "crc_loop 0 crc = crc"
| "crc_loop (Suc k) crc = crc_loop k (crc_step crc)"

text \<open>\<open>while (size--)\<close> over the bytes of the sequence\<close>

fun crc_bytes :: "u32 \<Rightarrow> bytes \<Rightarrow> u32" where
  "crc_bytes crc [] = crc"
| "crc_bytes crc (b # bs) = crc_bytes (crc_loop 8 (crc XOR ucast b)) bs"

definition getCRC :: "bytes \<Rightarrow> u8" where
  "getCRC data = ucast (crc_bytes 0 data AND 0xff)"

section \<open>The same computation on one byte\<close>

definition step8 :: "u8 \<Rightarrow> u8" where
  "step8 r = (if bit r 7 then push_bit 1 r XOR 0x31 else push_bit 1 r)"

definition round8 :: "u8 \<Rightarrow> u8" where
  "round8 r = (step8 ^^ 8) r"

fun crc8 :: "u8 \<Rightarrow> bytes \<Rightarrow> u8" where
  "crc8 r [] = r"
| "crc8 r (b # bs) = crc8 (round8 (r XOR b)) bs"

lemma and_0x80_iff: "(crc :: u32) AND 0x80 \<noteq> 0 \<longleftrightarrow> bit crc 7"
  using and_exp_eq_0_iff_not_bit [of crc 7] by simp

text \<open>The junk above the low byte never flows back into it.\<close>

lemma ucast_crc_step: "ucast (crc_step c) = step8 (ucast c)"
proof -
  have hi: "bit (ucast c :: u8) 7 = bit c 7" by (simp add: bit_simps)
  have k: "bit (0x31 :: u8) n \<longleftrightarrow> bit (0x31 :: u32) n" if "n < 8" for n
    using that by (auto simp: less_Suc_eq numeral_eq_Suc)
  show ?thesis
    unfolding crc_step_def step8_def and_0x80_iff hi
    by (rule bit_word_eqI) (auto simp: bit_simps k)
qed

lemma ucast_crc_loop: "ucast (crc_loop n c) = (step8 ^^ n) (ucast c)"
  by (induction n arbitrary: c) (simp_all add: ucast_crc_step funpow_swap1)

lemma ucast_crc_bytes: "ucast (crc_bytes c data) = crc8 (ucast c) data"
proof (induction data arbitrary: c)
  case Nil
  show ?case by simp
next
  case (Cons b bs)
  have "(ucast (c XOR ucast b) :: u8) = ucast c XOR b"
    by (rule bit_word_eqI) (auto simp: bit_simps)
  then show ?case by (simp add: Cons.IH ucast_crc_loop round8_def)
qed

lemma getCRC_crc8: "getCRC data = crc8 0 data"
proof -
  have "(ucast (w AND 0xff) :: u8) = ucast w" for w :: u32
  proof (rule bit_word_eqI)
    fix n assume "n < LENGTH(8)"
    then show "bit (ucast (w AND 0xff) :: u8) n = bit (ucast w :: u8) n"
      by (auto simp: bit_simps less_Suc_eq numeral_eq_Suc)
  qed
  then show ?thesis by (simp add: getCRC_def ucast_crc_bytes)
qed

section \<open>Reference: polynomial division\<close>

text \<open>
  A polynomial over GF(2) is the list of its coefficients, highest degree first. The generator
  is \<open>x^8 + x^5 + x^4 + 1\<close>; \<open>gen\<close> holds its coefficients below \<open>x^8\<close>. \<open>poly_rem\<close> is the
  remainder by schoolbook division: a leading one is cancelled by subtracting the generator.
\<close>

definition gen :: "bool list" where
  "gen = [False, False, True, True, False, False, False, True]"

fun xorp :: "bool list \<Rightarrow> bool list \<Rightarrow> bool list" where
  "xorp (y # ys) (g # gs) = (y \<noteq> g) # xorp ys gs"
| "xorp ys [] = ys"
| "xorp [] gs = []"

lemma length_xorp [simp, termination_simp]: "length (xorp ys gs) = length ys"
  by (induction ys gs rule: xorp.induct) auto

fun poly_rem :: "bool list \<Rightarrow> bool list" where
  "poly_rem [] = []"
| "poly_rem (b # bs) =
     (if length bs < 8 then b # bs else poly_rem (if b then xorp bs gen else bs))"

text \<open>The bits of a byte, most significant first, and of a message.\<close>

definition bits8 :: "u8 \<Rightarrow> bool list" where
  "bits8 w = map (bit w) [7, 6, 5, 4, 3, 2, 1, 0]"

definition msg_bits :: "bytes \<Rightarrow> bool list" where
  "msg_bits data = concat (map bits8 data)"

lemma length_bits8 [simp]: "length (bits8 w) = 8"
  by (simp add: bits8_def)

lemma length_msg_bits [simp]: "length (msg_bits data) = 8 * length data"
  by (induction data) (simp_all add: msg_bits_def)

lemma msg_bits_simps [simp]: "msg_bits [] = []" "msg_bits (b # bs) = bits8 b @ msg_bits bs"
  by (simp_all add: msg_bits_def)

lemma bits8_0 [simp]: "bits8 0 = replicate 8 False"
  by (simp add: bits8_def numeral_eq_Suc)

lemma bits8_inject [simp]: "bits8 v = bits8 w \<longleftrightarrow> v = w"
proof
  assume "bits8 v = bits8 w"
  then have b: "\<forall>n \<in> {7, 6, 5, 4, 3, 2, 1, 0}. bit v n = bit w n" by (simp add: bits8_def)
  show "v = w"
  proof (rule bit_word_eqI)
    fix n assume "n < LENGTH(8)"
    then have "n \<in> {7, 6, 5, 4, 3, 2, 1, 0}" by auto
    then show "bit v n = bit w n" using b by blast
  qed
qed simp

lemma bits8_eq_0 [simp]: "bits8 w = replicate 8 False \<longleftrightarrow> w = 0"
  using bits8_inject [of w 0] by (simp del: bits8_inject)

lemma xorp_bits8: "xorp (bits8 v @ X) (bits8 w) = bits8 (w XOR v) @ X"
  by (simp add: bits8_def bit_simps) blast

lemma bits8_step8:
  "bits8 (step8 w) =
     (if bit w 7 then xorp (tl (bits8 w) @ [False]) gen else tl (bits8 w) @ [False])"
  by (simp add: bits8_def step8_def gen_def bit_simps)

lemma xorp_assoc: "length gs = length hs \<Longrightarrow> xorp (xorp ys gs) hs = xorp ys (xorp gs hs)"
proof (induction ys gs arbitrary: hs rule: xorp.induct)
  case (1 y ys g gs)
  then show ?case by (cases hs) auto
next
  case (2 ys)
  then show ?case by (cases hs) auto
next
  case (3 v va)
  then show ?case by (cases hs) auto
qed

lemma xorp_snoc_False: "length gs < length ys \<Longrightarrow> xorp ys (gs @ [False]) = xorp ys gs"
proof (induction ys gs rule: xorp.induct)
  case (2 ys)
  then show ?case by (cases ys) auto
qed auto

text \<open>One step of the register is one step of the division.\<close>

lemma poly_rem_step:
  assumes "8 \<le> length Y"
  shows "poly_rem (xorp (False # Y) (bits8 w)) = poly_rem (xorp Y (bits8 (step8 w)))"
proof -
  have b: "bits8 w = bit w 7 # tl (bits8 w)" and l: "length (tl (bits8 w)) = 7"
    by (simp_all add: bits8_def)
  have t: "xorp Y (tl (bits8 w) @ [False]) = xorp Y (tl (bits8 w))"
    using assms l by (intro xorp_snoc_False) simp
  have g: "xorp Y (xorp (tl (bits8 w) @ [False]) gen) = xorp (xorp Y (tl (bits8 w))) gen"
    by (subst xorp_assoc [symmetric]) (simp_all add: l gen_def t)
  have "xorp (False # Y) (bits8 w) = bit w 7 # xorp Y (tl (bits8 w))"
    by (subst b) simp
  then show ?thesis using assms by (simp add: bits8_step8 t g)
qed

lemma poly_rem_steps:
  "8 \<le> length Y \<Longrightarrow>
     poly_rem (xorp (replicate n False @ Y) (bits8 w)) = poly_rem (xorp Y (bits8 ((step8 ^^ n) w)))"
proof (induction n arbitrary: w)
  case 0
  then show ?case by simp
next
  case (Suc n)
  then show ?case by (simp add: poly_rem_step del: xorp.simps funpow.simps) (simp add: funpow_swap1)
qed

lemma xorp_zeros: "length ys = n \<Longrightarrow> xorp (replicate n False) ys = ys"
  by (induction ys arbitrary: n) auto

lemma xorp_zeros_right [simp]: "xorp ys (replicate n False) = ys"
proof (induction n arbitrary: ys)
  case (Suc n)
  then show ?case by (cases ys) auto
qed simp

lemma xorp_zeros_append: "xorp (replicate 8 False @ Y) (bits8 w) = bits8 w @ Y"
  using xorp_bits8 [of 0 Y w] by simp

lemma poly_rem_round:
  "8 \<le> length Y \<Longrightarrow> poly_rem (bits8 w @ Y) = poly_rem (xorp Y (bits8 (round8 w)))"
  using poly_rem_steps [of Y 8 w] by (simp add: xorp_zeros_append round8_def)

lemma poly_rem_short: "length l = 8 \<Longrightarrow> poly_rem l = l"
  by (cases l) auto

lemma crc8_division:
  "bits8 (crc8 r data) = poly_rem (xorp (msg_bits data @ replicate 8 False) (bits8 r))"
proof (induction data arbitrary: r)
  case Nil
  show ?case by (simp add: xorp_zeros poly_rem_short)
next
  case (Cons b bs)
  have "poly_rem (xorp (msg_bits (b # bs) @ replicate 8 False) (bits8 r))
      = poly_rem (bits8 (r XOR b) @ (msg_bits bs @ replicate 8 False))"
    by (simp add: xorp_bits8)
  also have "\<dots> = poly_rem (xorp (msg_bits bs @ replicate 8 False) (bits8 (round8 (r XOR b))))"
    by (rule poly_rem_round) simp
  finally show ?case by (simp add: Cons.IH)
qed

text \<open>C9: \<open>getCRC\<close>, whose \<open>unsigned\<close> accumulator is never truncated in the loop, is the
  remainder of the message polynomial times \<open>x^8\<close> divided by \<open>x^8 + x^5 + x^4 + 1\<close>.\<close>

theorem getCRC_is_remainder:
  "bits8 (getCRC data) = poly_rem (msg_bits data @ replicate 8 False)"
  by (simp only: getCRC_crc8 crc8_division bits8_0 xorp_zeros_right)

section \<open>What the checksum detects\<close>

lemma step8_xor: "step8 (v XOR w) = step8 v XOR step8 w"
  by (rule bit_word_eqI) (auto simp: step8_def bit_simps)

lemma round8_xor: "round8 (v XOR w) = round8 v XOR round8 w"
proof -
  have "(step8 ^^ n) (v XOR w) = (step8 ^^ n) v XOR (step8 ^^ n) w" for n
    by (induction n) (simp_all add: step8_xor)
  then show ?thesis by (simp add: round8_def)
qed

lemma step8_eq_0: "step8 w = 0 \<Longrightarrow> w = 0"
proof (cases "bit w 7")
  case True
  then have "bit (step8 w) 0" by (simp add: step8_def bit_simps)
  then show "step8 w = 0 \<Longrightarrow> w = 0" by simp
next
  case False
  assume z: "step8 w = 0"
  have "bit w n = False" if "n < 8" for n
  proof (cases "n = 7")
    case True
    then show ?thesis using False by simp
  next
    case False
    with that have "bit (step8 w) (Suc n) = bit w n"
      using \<open>\<not> bit w 7\<close> by (simp add: step8_def)
    then show ?thesis by (simp add: z)
  qed
  then show "w = 0" by (intro bit_word_eqI) simp
qed

lemma steps_eq_0: "(step8 ^^ n) w = 0 \<Longrightarrow> w = 0"
  by (induction n) (auto dest: step8_eq_0)

lemma crc8_xor:
  "length d = length e \<Longrightarrow> crc8 (r XOR q) (map2 (XOR) d e) = crc8 r d XOR crc8 q e"
proof (induction d e arbitrary: r q rule: list_induct2)
  case Nil
  show ?case by simp
next
  case (Cons x xs y ys)
  have "(r XOR q) XOR (x XOR y) = (r XOR x) XOR (q XOR y)"
    by (simp add: ac_simps)
  then have "round8 ((r XOR q) XOR (x XOR y)) = round8 (r XOR x) XOR round8 (q XOR y)"
    by (simp only: round8_xor)
  then have "crc8 (r XOR q) (map2 (XOR) (x # xs) (y # ys))
      = crc8 (round8 (r XOR x) XOR round8 (q XOR y)) (map2 (XOR) xs ys)"
    by simp
  also have "\<dots> = crc8 (round8 (r XOR x)) xs XOR crc8 (round8 (q XOR y)) ys"
    by (rule Cons.IH)
  finally show ?case by simp
qed

text \<open>Linearity: the checksum of a difference is the difference of the checksums.\<close>

lemma getCRC_linear:
  "length d = length e \<Longrightarrow> getCRC (map2 (XOR) d e) = getCRC d XOR getCRC e"
  using crc8_xor [of d e 0 0] by (simp add: getCRC_crc8)

text \<open>A message followed by its own checksum has checksum zero.\<close>

lemma getCRC_codeword: "getCRC (data @ [getCRC data]) = 0"
proof -
  have "crc8 r (bs @ cs) = crc8 (crc8 r bs) cs" for r bs cs
    by (induction bs arbitrary: r) simp_all
  moreover have "round8 0 = 0"
  proof -
    have "(step8 ^^ n) 0 = 0" for n by (induction n) (simp_all add: step8_def)
    then show ?thesis by (simp add: round8_def)
  qed
  ultimately show ?thesis by (simp add: getCRC_crc8)
qed

lemma bits8_onto:
  assumes "length l = 8"
  obtains w where "bits8 w = l"
proof -
  define w :: u8 where "w = horner_sum of_bool 2 (rev l)"
  have b: "bit w n = l ! (7 - n)" if "n < 8" for n
    using that assms by (simp add: w_def bit_horner_sum_bit_word_iff rev_nth)
  have "bits8 w = map (\<lambda>i. l ! i) [0 ..< 8]"
    by (simp add: bits8_def b upt_conv_Cons numeral_eq_Suc)
  then have "bits8 w = l"
    using assms by (metis map_nth)
  then show thesis by (rule that)
qed

lemma poly_rem_leading_zeros:
  "8 \<le> length Y \<Longrightarrow> poly_rem (replicate n False @ Y) = poly_rem Y"
  by (induction n) auto

lemma poly_rem_shifted: "poly_rem (bits8 w @ replicate m False) = bits8 ((step8 ^^ m) w)"
proof -
  have "xorp (replicate m False @ replicate 8 False) (bits8 w) = bits8 w @ replicate m False"
    using xorp_zeros_append [of "replicate m False" w]
    by (simp add: add.commute flip: replicate_add)
  then show ?thesis
    using poly_rem_steps [of "replicate 8 False" m w] by (simp add: xorp_zeros poly_rem_short)
qed

lemma msg_bits_xor:
  "length d = length e \<Longrightarrow> msg_bits (map2 (XOR) d e) = map2 (\<noteq>) (msg_bits d) (msg_bits e)"
proof (induction d e rule: list_induct2)
  case (Cons x xs y ys)
  then show ?case by (simp add: bits8_def bit_simps)
qed simp

lemma msg_bits_inject: "length d = length e \<Longrightarrow> msg_bits d = msg_bits e \<longleftrightarrow> d = e"
  by (induction d e rule: list_induct2) auto

text \<open>A list whose true entries lie in a window of eight has zeros around the window.\<close>

lemma window_split:
  assumes "i + 8 \<le> length L" and win: "\<And>p. p < length L \<Longrightarrow> L ! p \<Longrightarrow> i \<le> p \<and> p < i + 8"
  shows "L = replicate i False @ take 8 (drop i L) @ replicate (length L - i - 8) False"
proof (rule nth_equalityI)
  show "length L = length (replicate i False @ take 8 (drop i L) @ replicate (length L - i - 8) False)"
    using assms(1) by simp
  fix p assume p: "p < length L"
  show "L ! p = (replicate i False @ take 8 (drop i L) @ replicate (length L - i - 8) False) ! p"
    using p assms(1) win [OF p] by (auto simp: nth_append)
qed

lemma poly_rem_burst:
  assumes "i + 8 \<le> length L" "True \<in> set L"
    and win: "\<And>p. p < length L \<Longrightarrow> L ! p \<Longrightarrow> i \<le> p \<and> p < i + 8"
  shows "poly_rem L \<noteq> replicate 8 False"
proof
  assume z: "poly_rem L = replicate 8 False"
  obtain w where w: "bits8 w = take 8 (drop i L)"
    using assms(1) by (auto intro: bits8_onto [of "take 8 (drop i L)"])
  define m where "m = length L - i - 8"
  have L: "L = replicate i False @ bits8 w @ replicate m False"
    unfolding w m_def by (rule window_split [OF assms(1) win])
  have "(step8 ^^ m) w = 0"
    using z by (subst (asm) L) (simp add: poly_rem_leading_zeros poly_rem_shifted)
  then have "w = 0" by (rule steps_eq_0)
  then have "L = replicate i False @ replicate 8 False @ replicate m False" using L by simp
  then have "set L \<subseteq> {False}" by auto
  with assms(2) show False by auto
qed

lemma getCRC_burst_lemma:
  assumes len: "length d = length e" and neq: "d \<noteq> e"
    and win: "\<forall>p < 8 * length d. msg_bits d ! p \<noteq> msg_bits e ! p \<longrightarrow> i \<le> p \<and> p < i + 8"
  shows "getCRC d \<noteq> getCRC e"
proof
  assume "getCRC d = getCRC e"
  define D where "D = map2 (\<noteq>) (msg_bits d) (msg_bits e)"
  define L where "L = D @ replicate 8 False"
  have D: "length D = 8 * length d" "\<And>p. p < 8 * length d \<Longrightarrow> D ! p = (msg_bits d ! p \<noteq> msg_bits e ! p)"
    using len by (auto simp: D_def)
  have "getCRC (map2 (XOR) d e) = 0"
    using getCRC_linear [OF len] \<open>getCRC d = getCRC e\<close> by simp
  then have "poly_rem L = replicate 8 False"
    using getCRC_is_remainder [of "map2 (XOR) d e"] by (simp add: L_def D_def msg_bits_xor len)
  moreover from neq len have "msg_bits d \<noteq> msg_bits e" by (simp add: msg_bits_inject)
  then obtain q where q: "q < 8 * length d" "D ! q"
    using len D by (auto simp: list_eq_iff_nth_eq)
  moreover have "\<And>p. p < length L \<Longrightarrow> L ! p \<Longrightarrow> i \<le> p \<and> p < i + 8"
    using win D by (auto simp: L_def nth_append split: if_splits)
  moreover have "i + 8 \<le> length L" "True \<in> set L"
    using q win D by (auto simp: L_def in_set_conv_nth)
  ultimately show False using poly_rem_burst by blast
qed

end
