(* ===== verification/ProtoFrame.thy ===== *)
theory ProtoFrame
  imports Crc8
begin

text \<open>
  The frame layer of \<open>dllCom/libcomm/protocomm_ll.h\<close> and \<open>protocomm_ll.c\<close>: the frame
  structure and its byte layout, \<open>proto_makeFrame\<close>, the incremental receiver
  \<open>proto_pushToFrame\<close> and the decoder \<open>proto_decodeFrame\<close>.
\<close>

section \<open>Types and constants\<close>

datatype proto_Status =
    proto_NO_ERROR | proto_ERR_SYS | proto_ERR_CRC | proto_PEER_ERR_CRC
  | proto_INVALID_ARG | proto_TIMEOUT | proto_ERR_PROTO

text \<open>
  \<open>proto_Command_t\<close> is an enum without negative values, an \<open>unsigned int\<close>. A command read
  from a received frame is any byte, not only an enumerator.
\<close>

type_synonym proto_Command = u32

abbreviation (input) proto_CMD_SET :: proto_Command where "proto_CMD_SET \<equiv> 0"
abbreviation (input) proto_CMD_GET :: proto_Command where "proto_CMD_GET \<equiv> 1"
abbreviation (input) proto_CMD_REPLY :: proto_Command where "proto_CMD_REPLY \<equiv> 2"
abbreviation (input) proto_CMD_ERR_CRC :: proto_Command where "proto_CMD_ERR_CRC \<equiv> 3"
abbreviation (input) proto_CMD_ERR_ARG :: proto_Command where "proto_CMD_ERR_ARG \<equiv> 4"
abbreviation (input) proto_LAST :: proto_Command where "proto_LAST \<equiv> 5"

text \<open>
  The union \<open>proto_frame_data_t\<close>: two bytes. \<open>req.reg\<close>, \<open>reg_value\<close> and \<open>crcerr[0]\<close>
  share the first, \<open>req.value\<close> and \<open>crcerr[1]\<close> the second.
\<close>

record proto_frame_data =
  raw0 :: u8
  raw1 :: u8

definition mk_data :: "u8 \<Rightarrow> u8 \<Rightarrow> proto_frame_data" where
  "mk_data a b = \<lparr>raw0 = a, raw1 = b\<rparr>"

abbreviation req_reg :: "proto_frame_data \<Rightarrow> u8" where "req_reg \<equiv> raw0"
abbreviation req_value :: "proto_frame_data \<Rightarrow> u8" where "req_value \<equiv> raw1"
abbreviation reg_value :: "proto_frame_data \<Rightarrow> u8" where "reg_value \<equiv> raw0"

record proto_Frame =
  startOfFrame :: u8
  crc8_field :: u8
  command :: u8
  frame_data :: proto_frame_data

abbreviation proto_START_OF_FRAME :: u8 where "proto_START_OF_FRAME \<equiv> 0x12"
abbreviation (input) proto_COMMAND_OFFSET :: u8 where "proto_COMMAND_OFFSET \<equiv> 2"
abbreviation (input) proto_ARGS_OFFSET :: u8 where "proto_ARGS_OFFSET \<equiv> 3"
abbreviation (input) proto_FRAME_MAXSIZE :: u8 where "proto_FRAME_MAXSIZE \<equiv> 5"

text \<open>The frame as the five bytes it is in memory (all its members are bytes: no padding).\<close>

definition frame_bytes :: "proto_Frame \<Rightarrow> bytes" where
  "frame_bytes f = [startOfFrame f, crc8_field f, command f, raw0 (frame_data f), raw1 (frame_data f)]"

text \<open>\<open>((uint8_t*)frame)[i] = v\<close>\<close>

definition frame_set_byte :: "nat \<Rightarrow> u8 \<Rightarrow> proto_Frame \<Rightarrow> proto_Frame outcome" where
  "frame_set_byte i v f =
     (if i = 0 then Inr (f\<lparr>startOfFrame := v\<rparr>)
      else if i = 1 then Inr (f\<lparr>crc8_field := v\<rparr>)
      else if i = 2 then Inr (f\<lparr>command := v\<rparr>)
      else if i = 3 then Inr (f\<lparr>frame_data := (frame_data f)\<lparr>raw0 := v\<rparr>\<rparr>)
      else if i = 4 then Inr (f\<lparr>frame_data := (frame_data f)\<lparr>raw1 := v\<rparr>\<rparr>)
      else Inl Out_of_bounds)"

text \<open>
  The part of \<open>proto_hdle_t\<close> that changes while the protocol runs. Its callback, user data
  and device are set once, at creation; they are in \<open>proto_bind\<close> (theory \<open>ProtoLink\<close>).
\<close>

record proto_hdle =
  priv_frame :: proto_Frame
  priv_nbBytes :: u8

datatype proto_DecodeStatus = proto_WAITING | proto_COMPLETED | proto_REFUSED

section \<open>Operations\<close>

definition proto_getArgsSize :: "proto_Command \<Rightarrow> u8" where
  "proto_getArgsSize cmd = (if cmd < proto_LAST then [2, 1, 1, 1, 2] ! unat cmd else 0)"

definition getFrameCRC :: "proto_Frame \<Rightarrow> u8" where
  "getFrameCRC f = getCRC (take (1 + unat (proto_getArgsSize (ucast (command f))))
                             [command f, raw0 (frame_data f), raw1 (frame_data f)])"

text \<open>
  \<open>proto_makeFrame\<close>: \<open>memcpy\<close> copies \<open>argSize\<close> bytes of the arguments over zeroes. The
  result is the frame and the number of its bytes to send.
\<close>

definition proto_makeFrame :: "proto_Frame \<Rightarrow> proto_Command \<Rightarrow> proto_frame_data \<Rightarrow> u8 \<times> proto_Frame"
where
  "proto_makeFrame frame cmd args =
     (let argSize = proto_getArgsSize cmd;
          f1 = frame\<lparr>startOfFrame := proto_START_OF_FRAME, command := ucast cmd,
                     frame_data := mk_data (if 0 < argSize then raw0 args else 0)
                                           (if 1 < argSize then raw1 args else 0)\<rparr>;
          f2 = f1\<lparr>crc8_field := getFrameCRC f1\<rparr>
      in (proto_ARGS_OFFSET + argSize, f2))"

text \<open>The search for the start of frame: the bytes of \<open>buf\<close> from the first \<open>0x12\<close> on.\<close>

fun sync_sof :: "bytes \<Rightarrow> bytes" where
  "sync_sof [] = []"
| "sync_sof (b # bs) = (if b = proto_START_OF_FRAME then b # bs else sync_sof bs)"

text \<open>
  \<open>while (nbBytes < limit && cursor < len) pcFrame[nbBytes++] = buf[cursor++];\<close> on the bytes
  from the cursor on.
\<close>

fun copy_loop :: "u8 \<Rightarrow> proto_hdle \<Rightarrow> bytes \<Rightarrow> (proto_hdle \<times> bytes) outcome" where
  "copy_loop limit h [] = Inr (h, [])"
| "copy_loop limit h (b # bs) =
     (if priv_nbBytes h < limit
      then obind (frame_set_byte (unat (priv_nbBytes h)) b (priv_frame h))
             (\<lambda>f. copy_loop limit (h\<lparr>priv_frame := f, priv_nbBytes := priv_nbBytes h + 1\<rparr>) bs)
      else Inr (h, b # bs))"

text \<open>
  \<open>proto_pushToFrame\<close>: the returned integer is -1, or the number of bytes consumed. The
  cursor is \<open>length buf\<close> minus what is left of the buffer.
\<close>

definition proto_pushToFrame :: "proto_hdle \<Rightarrow> bytes \<Rightarrow> (int \<times> proto_hdle) outcome" where
  "proto_pushToFrame h buf =
     obind (oassert (0 < length buf)) (\<lambda>_.
     let rest0 = (if priv_nbBytes h = 0 then sync_sof buf else buf) in
     if priv_nbBytes h = 0 \<and> rest0 = [] then Inr (- 1, h)
     else obind (copy_loop proto_ARGS_OFFSET h rest0) (\<lambda>(h1, rest1).
       if rest1 = [] then Inr (int (length buf), h1)
       else let framelen = proto_ARGS_OFFSET + proto_getArgsSize (ucast (command (priv_frame h1)))
         in obind (copy_loop framelen h1 rest1) (\<lambda>(h2, rest2).
              Inr (if priv_nbBytes h2 = framelen then int (length buf - length rest2) else - 1, h2))))"

text \<open>
  \<open>proto_decodeFrame\<close> with the values its out parameters point to before and after the call.
\<close>

definition proto_decodeFrame ::
  "proto_hdle \<Rightarrow> proto_Command \<Rightarrow> proto_frame_data
     \<Rightarrow> proto_DecodeStatus \<times> proto_Command \<times> proto_frame_data \<times> proto_hdle"
where
  "proto_decodeFrame h cmd arg =
     (let f = priv_frame h in
      if priv_nbBytes h < proto_ARGS_OFFSET then (proto_WAITING, cmd, arg, h)
      else if priv_nbBytes h < proto_ARGS_OFFSET + proto_getArgsSize (ucast (command f))
        then (proto_WAITING, cmd, arg, h)
      else if getFrameCRC f \<noteq> crc8_field f
        then (proto_REFUSED, proto_CMD_ERR_CRC, mk_data (crc8_field f) (getFrameCRC f), h)
      else (proto_COMPLETED, ucast (command f), frame_data f, h\<lparr>priv_nbBytes := 0\<rparr>))"

definition proto_init :: proto_hdle where
  "proto_init = \<lparr>priv_frame = \<lparr>startOfFrame = 0, crc8_field = 0, command = 0,
                  frame_data = mk_data 0 0\<rparr>, priv_nbBytes = 0\<rparr>"

section \<open>Sizes and the byte layout\<close>

definition args_len :: "u8 \<Rightarrow> nat" where
  "args_len c = unat (proto_getArgsSize (ucast c))"

lemma getArgsSize_le: "unat (proto_getArgsSize cmd) \<le> 2"
proof (cases "cmd < proto_LAST")
  case True
  then have "unat cmd < 5" by (simp add: word_less_nat_alt)
  then show ?thesis
    using True by (auto simp: proto_getArgsSize_def less_Suc_eq numeral_eq_Suc)
next
  case False
  then show ?thesis by (simp add: proto_getArgsSize_def)
qed

lemma args_len_le [simp]: "args_len c \<le> 2"
  by (simp add: args_len_def getArgsSize_le)

lemma args_len_commands [simp]:
  "args_len 0 = 2" "args_len 1 = 1" "args_len 2 = 1" "args_len 3 = 1" "args_len 4 = 2"
  by (simp_all add: args_len_def proto_getArgsSize_def)

lemma unat_framelen [simp]: "unat (proto_ARGS_OFFSET + proto_getArgsSize cmd)
    = 3 + unat (proto_getArgsSize cmd)"
  using getArgsSize_le [of cmd] by (simp add: unat_word_ariths)

lemma length_frame_bytes [simp]: "length (frame_bytes f) = 5"
  by (simp add: frame_bytes_def)

lemma frame_bytes_inject [simp]: "frame_bytes f = frame_bytes g \<longleftrightarrow> f = g"
proof
  show "frame_bytes f = frame_bytes g \<Longrightarrow> f = g"
    by (cases f; cases g; cases "frame_data f"; cases "frame_data g") (simp add: frame_bytes_def)
qed simp

lemma frame_set_byte_bytes:
  "i < 5 \<Longrightarrow> \<exists>f'. frame_set_byte i v f = Inr f' \<and> frame_bytes f' = (frame_bytes f)[i := v]"
  by (auto simp: frame_set_byte_def frame_bytes_def less_Suc_eq numeral_eq_Suc)

text \<open>
  What a copy loop does to the five bytes: \<open>k\<close> bytes of the buffer land behind the cursor.
\<close>

lemma copy_loop_spec:
  fixes bs :: bytes
  assumes "unat limit \<le> 5" "unat (priv_nbBytes h) \<le> 5"
  defines "k \<equiv> min (length bs) (unat limit - unat (priv_nbBytes h))"
  shows "\<exists>h'. copy_loop limit h bs = Inr (h', drop k bs)
           \<and> unat (priv_nbBytes h') = unat (priv_nbBytes h) + k
           \<and> frame_bytes (priv_frame h')
               = take (unat (priv_nbBytes h)) (frame_bytes (priv_frame h)) @ take k bs
                 @ drop (unat (priv_nbBytes h) + k) (frame_bytes (priv_frame h))"
  using assms(2) unfolding k_def
proof (induction bs arbitrary: h)
  case Nil
  then show ?case by simp
next
  case (Cons b bs)
  let ?n = "unat (priv_nbBytes h)" and ?fb = "frame_bytes (priv_frame h)"
  show ?case
  proof (cases "priv_nbBytes h < limit")
    case False
    then show ?thesis by (auto simp: word_less_nat_alt)
  next
    case True
    then have n: "?n < unat limit" by (simp add: word_less_nat_alt)
    with assms(1) obtain f where f: "frame_set_byte ?n b (priv_frame h) = Inr f"
        "frame_bytes f = ?fb[?n := b]"
      using frame_set_byte_bytes [of ?n b "priv_frame h"] by auto
    define h1 where "h1 = h\<lparr>priv_frame := f, priv_nbBytes := priv_nbBytes h + 1\<rparr>"
    have n1: "unat (priv_nbBytes h1) = Suc ?n"
      using n assms(1) by (simp add: h1_def unat_word_ariths)
    let ?k = "min (length bs) (unat limit - Suc ?n)"
    have kk: "min (length (b # bs)) (unat limit - ?n) = Suc ?k" using n by simp
    obtain h' where h': "copy_loop limit h1 bs = Inr (h', drop ?k bs)"
        "unat (priv_nbBytes h') = Suc ?n + ?k"
        "frame_bytes (priv_frame h') = take (Suc ?n) (frame_bytes f) @ take ?k bs
            @ drop (Suc ?n + ?k) (frame_bytes f)"
      using Cons.IH [of h1] n assms(1) unfolding n1 by (auto simp: h1_def)
    have "take (Suc ?n) (?fb[?n := b]) = take ?n ?fb @ [b]"
      using n assms(1) by (simp add: take_Suc_conv_app_nth)
    with h' f True show ?thesis
      unfolding kk by (auto simp: h1_def)
  qed
qed

section \<open>Receiving a frame\<close>

text \<open>
  \<open>received p h\<close>: the handle holds the first bytes \<open>p\<close> of a frame.
\<close>

definition received :: "bytes \<Rightarrow> proto_hdle \<Rightarrow> bool" where
  "received p h \<longleftrightarrow> length p \<le> 5 \<and> unat (priv_nbBytes h) = length p
     \<and> take (length p) (frame_bytes (priv_frame h)) = p"

lemma received_nb: "received p h \<Longrightarrow> unat (priv_nbBytes h) = length p"
  by (simp add: received_def)

lemma received_Nil: "priv_nbBytes h = 0 \<Longrightarrow> received [] h"
  by (simp add: received_def)

lemma received_length: "received p h \<Longrightarrow> length p \<le> 5"
  by (simp add: received_def)

lemma copy_loop_received:
  fixes bs :: bytes
  assumes "unat limit \<le> 5" "received p h"
  defines "k \<equiv> min (length bs) (unat limit - length p)"
  shows "\<exists>h'. copy_loop limit h bs = Inr (h', drop k bs) \<and> received (p @ take k bs) h'"
proof -
  have n: "unat (priv_nbBytes h) = length p" and l: "length p \<le> 5"
    and t: "take (length p) (frame_bytes (priv_frame h)) = p"
    using assms(2) by (auto simp: received_def)
  from copy_loop_spec [OF assms(1), of h bs] obtain h' where
    "copy_loop limit h bs = Inr (h', drop k bs)" "unat (priv_nbBytes h') = length p + k"
    "frame_bytes (priv_frame h') = p @ take k bs @ drop (length p + k) (frame_bytes (priv_frame h))"
    unfolding k_def n using l t by auto
  moreover have "length p + k \<le> 5" using assms(1) l by (auto simp: k_def)
  ultimately show ?thesis
    by (auto simp: received_def k_def)
qed

lemma received_command:
  "received (a # b # c # p) h \<Longrightarrow> command (priv_frame h) = c"
  by (auto simp: received_def frame_bytes_def numeral_eq_Suc)

text \<open>
  The bytes of a complete frame on the wire: start of frame, checksum, command, and as many
  arguments as the command has.
\<close>

definition wire :: "bytes \<Rightarrow> bool" where
  "wire w \<longleftrightarrow> (\<exists>c cmd args. w = proto_START_OF_FRAME # c # cmd # args \<and> length args = args_len cmd)"

lemma wire_length: "wire w \<Longrightarrow> 3 \<le> length w \<and> length w \<le> 5"
  using args_len_le by (auto simp: wire_def)

lemma wire_hd: "wire w \<Longrightarrow> w \<noteq> [] \<and> hd w = proto_START_OF_FRAME"
  by (auto simp: wire_def)

lemma sync_sof_noise:
  "proto_START_OF_FRAME \<notin> set noise \<Longrightarrow> sync_sof (noise @ x) = sync_sof x"
  by (induction noise) auto

lemma sync_sof_hd: "x \<noteq> [] \<Longrightarrow> hd x = proto_START_OF_FRAME \<Longrightarrow> sync_sof x = x"
  by (cases x) auto

lemma framelen_wire:
  assumes "wire w" "received p1 h" "p1 = take (length p1) w" "3 \<le> length p1"
  shows "unat (proto_ARGS_OFFSET + proto_getArgsSize (ucast (command (priv_frame h)))) = length w"
proof -
  obtain c cmd args where w: "w = proto_START_OF_FRAME # c # cmd # args" "length args = args_len cmd"
    using assms(1) by (auto simp: wire_def)
  have "p1 = proto_START_OF_FRAME # c # cmd # take (length p1 - 3) args"
    using assms(3,4) unfolding w(1) by (auto simp: numeral_eq_Suc take_Cons' split: if_splits)
  with assms(2) have "command (priv_frame h) = cmd" by (metis received_command)
  then show ?thesis using w by (simp add: args_len_def)
qed

lemma push_main:
  assumes rec: "received p h" and w: "wire w" and pc: "p @ c = take (length p + length c) w"
    and noise: "proto_START_OF_FRAME \<notin> set noise" "p \<noteq> [] \<Longrightarrow> noise = []"
    and start: "p = [] \<Longrightarrow> c \<noteq> []" and ne: "c @ extra \<noteq> []" and over: "extra \<noteq> [] \<Longrightarrow> p @ c = w"
  shows "\<exists>h'. proto_pushToFrame h (noise @ c @ extra)
           = Inr (if p @ c = w \<or> length (p @ c) \<le> 3 then int (length noise + length c) else - 1, h')
         \<and> received (p @ c) h'"
proof -
  have nb0: "priv_nbBytes h = 0 \<longleftrightarrow> p = []"
    using received_nb [OF rec] by (simp add: unat_eq_0 [symmetric])
  have wl: "3 \<le> length w" "length w \<le> 5" using wire_length [OF w] by auto
  have pcl: "length p + length c \<le> length w" using arg_cong [OF pc, of length] by simp
  have rest0: "(if priv_nbBytes h = 0 then sync_sof (noise @ c @ extra) else noise @ c @ extra) = c @ extra"
  proof (cases "p = []")
    case True
    then have "hd c = proto_START_OF_FRAME" using start pc wire_hd [OF w] by (cases w; cases c) auto
    then show ?thesis using True start nb0 by (auto simp: sync_sof_noise [OF noise(1)] intro!: sync_sof_hd)
  next
    case False
    then show ?thesis using nb0 noise(2) by simp
  qed
  let ?k = "min (length (c @ extra)) (3 - length p)"
  obtain h1 where h1: "copy_loop proto_ARGS_OFFSET h (c @ extra) = Inr (h1, drop ?k (c @ extra))"
      "received (p @ take ?k (c @ extra)) h1"
    using copy_loop_received [of proto_ARGS_OFFSET p h "c @ extra"] rec by auto
  have start0: "proto_pushToFrame h (noise @ c @ extra)
     = (if drop ?k (c @ extra) = [] then Inr (int (length (noise @ c @ extra)), h1)
        else let framelen = proto_ARGS_OFFSET + proto_getArgsSize (ucast (command (priv_frame h1)))
         in obind (copy_loop framelen h1 (drop ?k (c @ extra))) (\<lambda>(h2, rest2).
              Inr (if priv_nbBytes h2 = framelen
                   then int (length (noise @ c @ extra) - length rest2) else - 1, h2)))"
    using ne rest0 h1(1) by (simp add: proto_pushToFrame_def Let_def)
  show ?thesis
  proof (cases "length p + length (c @ extra) \<le> 3")
    case True
    then have "extra = []" using over wl by (cases extra) auto
    with True h1(2) show ?thesis unfolding start0 by (auto intro!: exI [of _ h1])
  next
    case False
    define p1 where "p1 = p @ take ?k (c @ extra)"
    have c3: "3 \<le> length p + length c" using False over wl by (cases "extra = []") auto
    then have p1c: "p1 = p @ take ?k c" using False by (simp add: p1_def)
    have "length p1 \<ge> 3" using c3 False by (auto simp: p1c)
    moreover have "p1 = take (length p1) w"
    proof -
      have le: "length p1 \<le> length p + length c" by (simp add: p1c)
      have "p @ c = p1 @ drop ?k c" by (simp add: p1c)
      then have "p1 = take (length p1) (p @ c)" by (metis append_eq_conv_conj)
      then have "p1 = take (length p1) (take (length p + length c) w)" using pc by simp
      then show ?thesis using le by (simp add: min_absorb1)
    qed
    ultimately have fl: "unat (proto_ARGS_OFFSET + proto_getArgsSize (ucast (command (priv_frame h1))))
        = length w"
      using framelen_wire [OF w] h1(2) p1_def by blast
    let ?rest = "drop ?k (c @ extra)" and ?fl = "proto_ARGS_OFFSET + proto_getArgsSize (ucast (command (priv_frame h1)))"
    let ?k2 = "min (length ?rest) (length w - length p1)"
    have fl5: "unat ?fl \<le> 5" unfolding fl by (rule wl)
    obtain h2 where h2: "copy_loop ?fl h1 ?rest = Inr (h2, drop ?k2 ?rest)"
        "received (p1 @ take ?k2 ?rest) h2"
      using copy_loop_received [OF fl5 h1(2) [folded p1_def], of ?rest] unfolding fl by blast
    have lp1: "length p1 = length p + min (length c) (3 - length p)" using False by (simp add: p1c)
    have ext: "extra = [] \<or> length p + length c = length w"
      using over by (metis length_append)
    have rest_eq: "?rest = drop (length p1 - length p) c @ extra" using lp1 False c3 by auto
    have k2: "?k2 = length c - (length p1 - length p)"
      using ext pcl lp1 c3 by (auto simp: rest_eq)
    have m: "length p1 - length p = length (take ?k c)" by (simp add: p1c)
    have "take (length (take ?k c)) c = take ?k c" by (metis append_eq_conv_conj append_take_drop_id)
    then have p1m: "p1 = p @ take (length p1 - length p) c" unfolding m using p1c by simp
    have mc: "length p1 - length p \<le> length c" by (simp add: p1c)
    have "p1 @ drop (length p1 - length p) c = p @ c" by (subst p1m) simp
    then have all: "p1 @ take ?k2 ?rest = p @ c" and rest2: "drop ?k2 ?rest = extra"
      unfolding k2 unfolding rest_eq using mc by simp_all
    have nb2: "unat (priv_nbBytes h2) = length p + length c"
      using received_nb [OF h2(2)] unfolding all by simp
    have full: "priv_nbBytes h2 = ?fl \<longleftrightarrow> p @ c = w"
      using nb2 fl pc by (metis append_Nil2 length_append take_all_iff word_unat_eq_iff order_refl)
    have "?rest \<noteq> []" using False ne by (cases c; cases extra) auto
    moreover have "p @ c \<noteq> w \<Longrightarrow> \<not> length (p @ c) \<le> 3"
      using False over by (cases "extra = []") auto
    ultimately show ?thesis
      using h2 unfolding start0 all rest2 by (auto simp: Let_def full)
  qed
qed

section \<open>Decoding a frame\<close>

lemma args_len_ucast: "unat (proto_getArgsSize (ucast c)) = args_len c"
  by (simp add: args_len_def)

lemma less_word_nat: "(a :: u8) < b \<longleftrightarrow> unat a < unat b"
  by (rule word_less_nat_alt)

lemma getFrameCRC_bytes:
  "getFrameCRC f = getCRC (take (1 + args_len (command f)) (drop 2 (frame_bytes f)))"
  by (simp add: getFrameCRC_def frame_bytes_def args_len_def)

lemma wire_nth_2: "wire w \<Longrightarrow> length w = 3 + args_len (w ! 2)"
  by (auto simp: wire_def)

lemma received_fields:
  assumes "wire w" "received w h"
  shows "startOfFrame (priv_frame h) = proto_START_OF_FRAME" "crc8_field (priv_frame h) = w ! 1"
    "command (priv_frame h) = w ! 2" "getFrameCRC (priv_frame h) = getCRC (drop 2 w)"
    "0 < args_len (w ! 2) \<Longrightarrow> raw0 (frame_data (priv_frame h)) = w ! 3"
    "1 < args_len (w ! 2) \<Longrightarrow> raw1 (frame_data (priv_frame h)) = w ! 4"
proof -
  let ?fb = "frame_bytes (priv_frame h)"
  have t: "take (length w) ?fb = w" and l: "3 \<le> length w" "length w \<le> 5"
    using assms(2) wire_length [OF assms(1)] by (auto simp: received_def)
  have nth: "?fb ! i = w ! i" if "i < length w" for i
    using that t by (metis nth_take)
  show "startOfFrame (priv_frame h) = proto_START_OF_FRAME" "crc8_field (priv_frame h) = w ! 1"
    and cmd: "command (priv_frame h) = w ! 2"
    using nth [of 0] nth [of 1] nth [of 2] l wire_hd [OF assms(1)]
    by (auto simp: frame_bytes_def hd_conv_nth numeral_eq_Suc)
  have "take (1 + args_len (w ! 2)) (drop 2 ?fb) = drop 2 (take (length w) ?fb)"
    using wire_nth_2 [OF assms(1)] by (simp add: drop_take)
  then show "getFrameCRC (priv_frame h) = getCRC (drop 2 w)"
    by (simp add: getFrameCRC_bytes cmd t)
  show "0 < args_len (w ! 2) \<Longrightarrow> raw0 (frame_data (priv_frame h)) = w ! 3"
    "1 < args_len (w ! 2) \<Longrightarrow> raw1 (frame_data (priv_frame h)) = w ! 4"
    using nth [of 3] nth [of 4] wire_nth_2 [OF assms(1)]
    by (auto simp: frame_bytes_def numeral_eq_Suc)
qed

lemma decode_received:
  assumes "wire w" "received w h"
  shows "proto_decodeFrame h cmd arg =
     (if w ! 1 = getCRC (drop 2 w)
      then (proto_COMPLETED, ucast (w ! 2), frame_data (priv_frame h), h\<lparr>priv_nbBytes := 0\<rparr>)
      else (proto_REFUSED, proto_CMD_ERR_CRC, mk_data (w ! 1) (getCRC (drop 2 w)), h))"
  using received_nb [OF assms(2)] wire_nth_2 [OF assms(1)] received_fields [OF assms]
  by (simp add: proto_decodeFrame_def less_word_nat args_len_ucast)

lemma decode_partial:
  assumes "wire w" "received p h" "p = take (length p) w" "length p < length w"
  shows "proto_decodeFrame h cmd arg = (proto_WAITING, cmd, arg, h)"
proof (cases "length p < 3")
  case True
  then show ?thesis
    using received_nb [OF assms(2)] by (simp add: proto_decodeFrame_def less_word_nat)
next
  case False
  then have "unat (proto_ARGS_OFFSET + proto_getArgsSize (ucast (command (priv_frame h)))) = length w"
    using framelen_wire [OF assms(1,2,3)] by simp
  then show ?thesis
    using received_nb [OF assms(2)] assms(4) False
    by (simp add: proto_decodeFrame_def less_word_nat del: unat_framelen)
qed

section \<open>What is sent\<close>

text \<open>
  The bytes that \<open>proto_makeFrame\<close> hands to the device: the first \<open>nbBytes\<close> of the frame.
\<close>

definition frame_sent :: "proto_Frame \<Rightarrow> proto_Command \<Rightarrow> proto_frame_data \<Rightarrow> bytes" where
  "frame_sent f0 cmd args =
     (case proto_makeFrame f0 cmd args of (n, f) \<Rightarrow> take (unat n) (frame_bytes f))"

definition args_of :: "proto_Command \<Rightarrow> proto_frame_data \<Rightarrow> bytes" where
  "args_of cmd args = take (unat (proto_getArgsSize cmd)) [raw0 args, raw1 args]"

lemma frame_sent_eq:
  assumes "ucast (ucast cmd :: u8) = cmd"
  shows "frame_sent f0 cmd args =
     proto_START_OF_FRAME # getCRC (ucast cmd # args_of cmd args) # ucast cmd # args_of cmd args"
proof -
  have "unat (proto_getArgsSize cmd) \<in> {0, 1, 2}" using getArgsSize_le [of cmd] by auto
  then show ?thesis
    using assms
    by (auto simp: frame_sent_def proto_makeFrame_def frame_bytes_def getFrameCRC_def args_of_def
          mk_data_def less_word_nat unat_word_ariths)
qed

lemma length_args_of: "length (args_of cmd args) = unat (proto_getArgsSize cmd)"
  using getArgsSize_le [of cmd] by (simp add: args_of_def)

lemma wire_frame_sent:
  assumes "ucast (ucast cmd :: u8) = cmd"
  shows "wire (frame_sent f0 cmd args)"
  using assms by (auto simp: frame_sent_eq wire_def args_len_def length_args_of)

lemma frame_sent_crc:
  assumes "ucast (ucast cmd :: u8) = cmd"
  shows "frame_sent f0 cmd args ! 1 = getCRC (drop 2 (frame_sent f0 cmd args))"
    "frame_sent f0 cmd args ! 2 = ucast cmd"
  using assms by (simp_all add: frame_sent_eq)

section \<open>Properties of the receiver\<close>

text \<open>The arguments a decoded frame gives: those its command has (the other byte is stale).\<close>

definition args_agree :: "proto_Command \<Rightarrow> proto_frame_data \<Rightarrow> proto_frame_data \<Rightarrow> bool" where
  "args_agree cmd a b \<longleftrightarrow> args_of cmd a = args_of cmd b"

lemma args_agree_cases:
  "args_agree cmd a b \<longleftrightarrow>
     (0 < unat (proto_getArgsSize cmd) \<longrightarrow> raw0 a = raw0 b) \<and>
     (1 < unat (proto_getArgsSize cmd) \<longrightarrow> raw1 a = raw1 b)"
proof -
  have "unat (proto_getArgsSize cmd) \<in> {0, 1, 2}" using getArgsSize_le [of cmd] by auto
  then show ?thesis by (auto simp: args_agree_def args_of_def)
qed

lemma decode_frame_sent:
  assumes cmd: "ucast (ucast cmd :: u8) = cmd" and rec: "received (frame_sent f0 cmd args) h"
  shows "proto_decodeFrame h c a =
      (proto_COMPLETED, cmd, frame_data (priv_frame h), h\<lparr>priv_nbBytes := 0\<rparr>)
    \<and> args_agree cmd (frame_data (priv_frame h)) args"
proof -
  let ?w = "frame_sent f0 cmd args"
  have w: "wire ?w" by (rule wire_frame_sent [OF cmd])
  have n: "args_len (?w ! 2) = unat (proto_getArgsSize cmd)" "unat (proto_getArgsSize cmd) \<le> 2"
    using getArgsSize_le [of cmd] by (simp_all add: frame_sent_crc [OF cmd] args_len_def cmd)
  have "args_agree cmd (frame_data (priv_frame h)) args"
    unfolding args_agree_cases
    using received_fields(5,6) [OF w rec] n
    by (auto simp: frame_sent_eq [OF cmd] args_of_def numeral_eq_Suc)
  then show ?thesis
    using decode_received [OF w rec] by (simp add: frame_sent_crc [OF cmd] cmd del: One_nat_def)
qed

text \<open>C7: a frame built by \<open>proto_makeFrame\<close>, received in one call with noise before it (no
  start-of-frame byte) and any bytes after it, is found, copied and decoded to the command and
  arguments it was made of; the receiver says how many bytes it used and is ready again.\<close>

theorem frame_roundtrip:
  assumes cmd: "ucast (ucast cmd :: u8) = cmd" and idle: "priv_nbBytes h = 0"
    and noise: "proto_START_OF_FRAME \<notin> set noise"
  shows "\<exists>h' data. proto_pushToFrame h (noise @ frame_sent f0 cmd args @ extra)
        = Inr (int (length noise + length (frame_sent f0 cmd args)), h')
      \<and> proto_decodeFrame h' c a = (proto_COMPLETED, cmd, data, h'\<lparr>priv_nbBytes := 0\<rparr>)
      \<and> args_agree cmd data args"
proof -
  let ?w = "frame_sent f0 cmd args"
  have w: "wire ?w" by (rule wire_frame_sent [OF cmd])
  then have "?w \<noteq> []" using wire_hd by blast
  then obtain h' where "proto_pushToFrame h (noise @ ?w @ extra)
      = Inr (int (length noise + length ?w), h')" "received ?w h'"
    using push_main [OF received_Nil [OF idle] w, of ?w noise extra] noise by auto
  then show ?thesis using decode_frame_sent [OF cmd, of f0 args h' c a] by blast
qed

lemma frame_roundtrip_witness:
  "\<exists>h' data. proto_pushToFrame proto_init ([0xFF, 0x00] @ frame_sent (priv_frame proto_init) 1 (mk_data 7 0) @ [0x12])
        = Inr (int (length [0xFF, 0x00 :: u8] + length (frame_sent (priv_frame proto_init) 1 (mk_data 7 0))), h')
      \<and> proto_decodeFrame h' 0 (mk_data 0 0) = (proto_COMPLETED, 1, data, h'\<lparr>priv_nbBytes := 0\<rparr>)
      \<and> args_agree 1 data (mk_data 7 0)"
  by (rule frame_roundtrip) (simp_all add: proto_init_def)

text \<open>A stream of reads, each pushed into the receiver.\<close>

fun push_all :: "proto_hdle \<Rightarrow> bytes list \<Rightarrow> proto_hdle outcome" where
  "push_all h [] = Inr h"
| "push_all h (c # cs) = obind (proto_pushToFrame h c) (\<lambda>(r, h'). push_all h' cs)"

lemma push_all_received:
  assumes "wire w" "\<forall>c \<in> set cs. c \<noteq> []"
  shows "received p h \<Longrightarrow> p @ concat cs = w \<Longrightarrow> \<exists>h'. push_all h cs = Inr h' \<and> received w h'"
  using assms(2)
proof (induction cs arbitrary: p h)
  case Nil
  then show ?case by auto
next
  case (Cons c cs)
  have "w = (p @ c) @ concat cs" using Cons.prems(2) by simp
  then have pre: "p @ c = take (length p + length c) w" by (metis append_eq_conv_conj length_append)
  from Cons.prems(3) have "c \<noteq> []" by simp
  then obtain r h1 where "proto_pushToFrame h c = Inr (r, h1)" "received (p @ c) h1"
    using push_main [OF Cons.prems(1) assms(1) pre, of "[]" "[]"] by auto
  moreover obtain h' where "push_all h1 cs = Inr h'" "received w h'"
    using Cons.IH [OF \<open>received (p @ c) h1\<close>] Cons.prems(2,3) by auto
  ultimately show ?case by auto
qed

text \<open>C8: however the bytes of a frame are cut into non-empty reads, pushing the reads one
  after the other gives the same decoded command and arguments.\<close>

theorem chunked_reception:
  assumes cmd: "ucast (ucast cmd :: u8) = cmd" and idle: "priv_nbBytes h = 0"
    and cs: "\<forall>c \<in> set cs. c \<noteq> []" "concat cs = frame_sent f0 cmd args"
  shows "\<exists>h' data. push_all h cs = Inr h'
      \<and> proto_decodeFrame h' c a = (proto_COMPLETED, cmd, data, h'\<lparr>priv_nbBytes := 0\<rparr>)
      \<and> args_agree cmd data args"
proof -
  obtain h' where "push_all h cs = Inr h'" "received (frame_sent f0 cmd args) h'"
    using push_all_received [OF wire_frame_sent [OF cmd] cs(1) received_Nil [OF idle]] cs(2)
    by auto
  then show ?thesis using decode_frame_sent [OF cmd, of f0 args h' c a] by blast
qed

lemma chunked_reception_witness:
  "\<exists>h' data. push_all proto_init (map (\<lambda>b. [b]) (frame_sent (priv_frame proto_init) 0 (mk_data 5 167))) = Inr h'
      \<and> proto_decodeFrame h' 0 (mk_data 0 0) = (proto_COMPLETED, 0, data, h'\<lparr>priv_nbBytes := 0\<rparr>)
      \<and> args_agree 0 data (mk_data 5 167)"
proof (rule chunked_reception)
  show "concat (map (\<lambda>b. [b]) (frame_sent (priv_frame proto_init) 0 (mk_data 5 167))) = frame_sent (priv_frame proto_init) 0 (mk_data 5 167)"
    by simp
qed (simp_all add: proto_init_def)

text \<open>
  A set request differs from a get request by one bit of its command. With that bit damaged it is read with the
  checksum of a shorter frame, and for every register there is a value whose frame the checksum fits then as well.
\<close>

lemma set_read_as_get:
  assumes "priv_nbBytes h = 0"
  shows "\<exists>v g data. proto_pushToFrame h ((frame_sent f0 proto_CMD_SET (mk_data r v))[2 := ucast proto_CMD_GET]) = Inr (4, g)
     \<and> proto_decodeFrame g c a = (proto_COMPLETED, proto_CMD_GET, data, g\<lparr>priv_nbBytes := 0\<rparr>) \<and> raw0 data = r"
proof -
  define v where "v = round8 r XOR round8 1 XOR r"
  have "round8 0 = 0" using round8_xor [of 0 0] by simp
  then have "getCRC [0, r, v] = getCRC [1, r]"
    by (simp add: getCRC_crc8 v_def)
  then have eq: "(frame_sent f0 proto_CMD_SET (mk_data r v))[2 := ucast proto_CMD_GET]
      = frame_sent f0 proto_CMD_GET (mk_data r 0) @ [v]"
    by (simp add: frame_sent_eq args_of_def proto_getArgsSize_def mk_data_def)
  let ?w = "frame_sent f0 proto_CMD_GET (mk_data r 0)"
  have w: "wire ?w" by (rule wire_frame_sent) simp
  moreover have "length ?w = 4" by (simp add: frame_sent_eq args_of_def proto_getArgsSize_def)
  ultimately obtain g where g: "proto_pushToFrame h (?w @ [v]) = Inr (4, g)" "received ?w g"
    using push_main [OF received_Nil [OF assms] w, of ?w "[]" "[v]"] wire_hd [OF w] by auto
  from decode_frame_sent [OF _ g(2), of c a] have
    "proto_decodeFrame g c a = (proto_COMPLETED, proto_CMD_GET, frame_data (priv_frame g), g\<lparr>priv_nbBytes := 0\<rparr>)"
    "args_agree proto_CMD_GET (frame_data (priv_frame g)) (mk_data r 0)" by simp_all
  then show ?thesis
    using g(1) unfolding eq [symmetric]
    by (intro exI [of _ v] exI [of _ g] exI [of _ "frame_data (priv_frame g)"])
      (simp add: args_agree_cases proto_getArgsSize_def mk_data_def)
qed

text \<open>C10: what the checksum detects of a damaged frame. A frame with its start byte, of the length of the sent one and with a
  command that has as many arguments as the command sent, whose checksum byte, or whose command and argument bytes within a
  window of eight consecutive bits, were damaged in transit, is received by an idle receiver, after noise
  and before other bytes, and refused; the two checksums are reported. A damage to the command that changes the number
  of arguments is not covered, and cannot be: for every register there is a set request that one damaged
  bit of the command turns into a get request of the register, which the receiver completes.\<close>

theorem corrupted_frame_refused:
  assumes cmd: "ucast (ucast cmd :: u8) = cmd" and idle: "priv_nbBytes h = 0"
    and noise: "proto_START_OF_FRAME \<notin> set noise"
    and w': "w' ! 0 = proto_START_OF_FRAME" "length w' = length (frame_sent f0 cmd args)" "args_len (w' ! 2) = args_len (ucast cmd)"
    and damage:
      "w' ! 1 \<noteq> frame_sent f0 cmd args ! 1 \<and> drop 2 w' = drop 2 (frame_sent f0 cmd args)
       \<or> w' ! 1 = frame_sent f0 cmd args ! 1 \<and> drop 2 w' \<noteq> drop 2 (frame_sent f0 cmd args)
         \<and> (\<forall>p < 8 * length (drop 2 w'). msg_bits (drop 2 w') ! p
                \<noteq> msg_bits (drop 2 (frame_sent f0 cmd args)) ! p \<longrightarrow> i \<le> p \<and> p < i + 8)"
  shows "(\<exists>h'. proto_pushToFrame h (noise @ w' @ extra) = Inr (int (length noise + length w'), h')
        \<and> proto_decodeFrame h' c a = (proto_REFUSED, proto_CMD_ERR_CRC, mk_data (w' ! 1) (getCRC (drop 2 w')), h'))
     \<and> (\<exists>v g data. proto_pushToFrame h ((frame_sent f0 proto_CMD_SET (mk_data r v))[2 := ucast proto_CMD_GET]) = Inr (4, g)
        \<and> proto_decodeFrame g c a = (proto_COMPLETED, proto_CMD_GET, data, g\<lparr>priv_nbBytes := 0\<rparr>) \<and> raw0 data = r)"
proof (intro conjI set_read_as_get [OF idle])
  let ?w = "frame_sent f0 cmd args"
  have len: "length w' = 3 + args_len (w' ! 2)"
    using wire_nth_2 [OF wire_frame_sent [OF cmd, of f0 args]] w'(2,3) frame_sent_crc(2) [OF cmd, of f0 args] by simp
  then obtain x0 x1 x2 xs where "w' = x0 # x1 # x2 # xs" by (cases w'; cases "tl w'"; cases "tl (tl w')") auto
  then have wire: "wire w'" using len w'(1) by (simp add: wire_def)
  then have "w' \<noteq> []" using wire_hd by blast
  then obtain h' where h': "proto_pushToFrame h (noise @ w' @ extra) = Inr (int (length noise + length w'), h')" "received w' h'"
    using push_main [OF received_Nil [OF idle] wire, of w' noise extra] noise by auto
  have crc: "?w ! 1 = getCRC (drop 2 ?w)" by (rule frame_sent_crc(1) [OF cmd])
  have "w' ! 1 \<noteq> getCRC (drop 2 w')"
    using damage
  proof
    assume "w' ! 1 \<noteq> ?w ! 1 \<and> drop 2 w' = drop 2 ?w"
    then show ?thesis using crc by simp
  next
    assume d: "w' ! 1 = ?w ! 1 \<and> drop 2 w' \<noteq> drop 2 ?w
         \<and> (\<forall>p < 8 * length (drop 2 w'). msg_bits (drop 2 w') ! p \<noteq> msg_bits (drop 2 ?w) ! p
              \<longrightarrow> i \<le> p \<and> p < i + 8)"
    then have "getCRC (drop 2 w') \<noteq> getCRC (drop 2 ?w)"
      using w'(2) by (intro getCRC_burst_lemma [where i = i]) auto
    then show ?thesis using d crc by simp
  qed
  then show "\<exists>h'. proto_pushToFrame h (noise @ w' @ extra) = Inr (int (length noise + length w'), h')
        \<and> proto_decodeFrame h' c a = (proto_REFUSED, proto_CMD_ERR_CRC, mk_data (w' ! 1) (getCRC (drop 2 w')), h')"
    using h' by (auto simp: decode_received [OF wire])
qed

definition sample_sent :: bytes where
  "sample_sent = frame_sent (priv_frame proto_init) 0 (mk_data 5 167)"

lemma sample_sent_eq: "sample_sent = [0x12, getCRC [0, 5, 167], 0, 5, 167]"
  by (simp add: sample_sent_def frame_sent_eq args_of_def mk_data_def proto_getArgsSize_def)

definition sample_damaged :: proto_hdle where
  "sample_damaged = \<lparr>priv_frame = \<lparr>startOfFrame = 0x12, crc8_field = getCRC [0, 5, 167], command = 0,
       frame_data = mk_data 5 166\<rparr>, priv_nbBytes = 5\<rparr>"

lemma corrupted_frame_refused_witness:
  "\<exists>h' v g data. proto_pushToFrame proto_init ([0xFF] @ [0x12, getCRC [0, 5, 167], 0, 5, 166] @ [0x12]) = Inr (6, h')
     \<and> proto_decodeFrame h' 0 (mk_data 0 0)
        = (proto_REFUSED, proto_CMD_ERR_CRC, mk_data (getCRC [0, 5, 167]) (getCRC [0, 5, 166]), h')
     \<and> proto_pushToFrame proto_init ((frame_sent (priv_frame proto_init) proto_CMD_SET (mk_data 5 v))[2 := 1]) = Inr (4, g)
     \<and> proto_decodeFrame g 0 (mk_data 0 0) = (proto_COMPLETED, proto_CMD_GET, data, g\<lparr>priv_nbBytes := 0\<rparr>)"
proof -
  let ?w = "[0x12, getCRC [0, 5, 167], 0, 5, 166]"
  have w: "ucast (ucast (0 :: u32) :: u8) = (0 :: u32)" "priv_nbBytes proto_init = 0" "proto_START_OF_FRAME \<notin> set [0xFF]"
    "?w ! 0 = proto_START_OF_FRAME" "length ?w = length sample_sent" "args_len (?w ! 2) = args_len (ucast (0 :: u32))"
    by (simp_all add: proto_init_def sample_sent_eq)
  have damage: "?w ! 1 \<noteq> sample_sent ! 1 \<and> drop 2 ?w = drop 2 sample_sent
      \<or> ?w ! 1 = sample_sent ! 1 \<and> drop 2 ?w \<noteq> drop 2 sample_sent
        \<and> (\<forall>p < 8 * length (drop 2 ?w). msg_bits (drop 2 ?w) ! p \<noteq> msg_bits (drop 2 sample_sent) ! p
              \<longrightarrow> 16 \<le> p \<and> p < 16 + 8)"
    by (simp add: sample_sent_eq bits8_def numeral_eq_Suc less_Suc_eq)
  from corrupted_frame_refused [OF w [unfolded sample_sent_def] damage [unfolded sample_sent_def],
      of "[0x12]" 0 "mk_data 0 0" 5]
  show ?thesis by auto
qed

text \<open>The operations on a handle, in any order: a read pushed, a decode, a frame built in it.\<close>

datatype ll_op = Op_push bytes | Op_decode | Op_make proto_Command proto_frame_data

fun ll_step :: "proto_hdle \<Rightarrow> ll_op \<Rightarrow> proto_hdle outcome" where
  "ll_step h (Op_push buf) = obind (proto_pushToFrame h buf) (\<lambda>(r, h'). Inr h')"
| "ll_step h Op_decode = (case proto_decodeFrame h 0 (mk_data 0 0) of (_, _, _, h') \<Rightarrow> Inr h')"
| "ll_step h (Op_make cmd args) = Inr (h\<lparr>priv_frame := snd (proto_makeFrame (priv_frame h) cmd args)\<rparr>)"

fun ll_run :: "proto_hdle \<Rightarrow> ll_op list \<Rightarrow> proto_hdle outcome" where
  "ll_run h [] = Inr h"
| "ll_run h (x # xs) = obind (ll_step h x) (\<lambda>h'. ll_run h' xs)"

lemma ll_run_append: "ll_run h (xs @ ys) = obind (ll_run h xs) (\<lambda>h'. ll_run h' ys)"
proof (induction xs arbitrary: h)
  case (Cons x xs)
  then show ?case by (cases "ll_step h x") simp_all
qed simp

lemma copy_loop_full: "\<not> priv_nbBytes h < limit \<Longrightarrow> copy_loop limit h bs = Inr (h, bs)"
  by (cases bs) auto

lemma push_full:
  assumes "priv_nbBytes h = proto_ARGS_OFFSET + proto_getArgsSize (ucast (command (priv_frame h)))"
    and "buf \<noteq> []"
  shows "proto_pushToFrame h buf = Inr (0, h)"
proof -
  have n: "unat (priv_nbBytes h) = 3 + unat (proto_getArgsSize (ucast (command (priv_frame h))))"
    unfolding assms(1) by simp
  then have "priv_nbBytes h \<noteq> 0" "\<not> priv_nbBytes h < proto_ARGS_OFFSET"
    by (auto simp: less_word_nat)
  then show ?thesis
    using assms by (simp add: proto_pushToFrame_def Let_def copy_loop_full)
qed

text \<open>C11: a receiver that has refused a frame for its checksum stays so while it only receives. Its cursor is not reset:
  whatever reads are pushed and however often they are decoded, in any order, the handle stays as it is and the same
  frame is refused again. Only a frame that is built to be sent in the same handle ends this, by overwriting the
  refused one: with any command, what is decoded next is not refused.\<close>

theorem refused_receiver_stuck:
  assumes "wire w" "received w h" "w ! 1 \<noteq> getCRC (drop 2 w)"
    and "\<forall>x \<in> set ops. x = Op_decode \<or> (\<exists>c. x = Op_push c \<and> c \<noteq> [])"
  shows "ll_run h ops = Inr h
       \<and> proto_decodeFrame h cmd arg
           = (proto_REFUSED, proto_CMD_ERR_CRC, mk_data (w ! 1) (getCRC (drop 2 w)), h)
       \<and> (\<exists>h'. ll_run h (ops @ [Op_make cmd' args']) = Inr h' \<and> fst (proto_decodeFrame h' cmd arg) \<noteq> proto_REFUSED)"
proof -
  have "unat (priv_nbBytes h)
      = unat (proto_ARGS_OFFSET + proto_getArgsSize (ucast (command (priv_frame h))))"
    using received_nb [OF assms(2)] wire_nth_2 [OF assms(1)] received_fields(3) [OF assms(1,2)]
    by (simp add: args_len_ucast)
  then have full: "priv_nbBytes h
      = proto_ARGS_OFFSET + proto_getArgsSize (ucast (command (priv_frame h)))"
    by (simp add: word_unat_eq_iff)
  have refused: "proto_decodeFrame h cmd arg
      = (proto_REFUSED, proto_CMD_ERR_CRC, mk_data (w ! 1) (getCRC (drop 2 w)), h)" for cmd arg
    using decode_received [OF assms(1,2)] assms(3) by simp
  have run: "ll_run h ops = Inr h"
    using assms(4) by (induction ops) (auto simp: push_full [OF full] refused)
  define h' where "h' = h\<lparr>priv_frame := snd (proto_makeFrame (priv_frame h) cmd' args')\<rparr>"
  have "getFrameCRC (priv_frame h') = crc8_field (priv_frame h')"
    by (simp add: h'_def proto_makeFrame_def Let_def getFrameCRC_def)
  then have "fst (proto_decodeFrame h' cmd arg) \<noteq> proto_REFUSED"
    by (simp add: proto_decodeFrame_def Let_def)
  moreover have "ll_run h (ops @ [Op_make cmd' args']) = Inr h'"
    using run by (simp add: ll_run_append h'_def)
  ultimately show ?thesis using run refused by blast
qed

lemma refused_receiver_stuck_witness:
  "ll_run sample_damaged [Op_push sample_sent, Op_decode, Op_push [0x12, 1], Op_push sample_sent] = Inr sample_damaged
     \<and> (\<exists>h'. ll_run sample_damaged [Op_push sample_sent, Op_decode, Op_push [0x12, 1], Op_push sample_sent, Op_make 1 (mk_data 3 0)] = Inr h'
          \<and> fst (proto_decodeFrame h' 0 (mk_data 0 0)) \<noteq> proto_REFUSED)"
proof -
  let ?w = "[0x12, getCRC [0, 5, 167], 0, 5, 166]"
  have w: "wire ?w" "received ?w sample_damaged"
    by (simp_all add: sample_sent_eq sample_damaged_def received_def frame_bytes_def mk_data_def wire_def)
  have d: "?w ! 1 \<noteq> getCRC (drop 2 ?w)" by code_simp
  have ops: "\<forall>x \<in> set [Op_push sample_sent, Op_decode, Op_push [0x12, 1], Op_push sample_sent].
      x = Op_decode \<or> (\<exists>c. x = Op_push c \<and> c \<noteq> [])"
    by (simp add: sample_sent_eq)
  from refused_receiver_stuck [OF w d ops, of 0 "mk_data 0 0" 1 "mk_data 3 0"] show ?thesis by simp
qed

section \<open>Memory safety\<close>

lemma push_safe:
  assumes "unat (priv_nbBytes h) \<le> 5" "buf \<noteq> []"
  shows "\<exists>r h'. proto_pushToFrame h buf = Inr (r, h') \<and> unat (priv_nbBytes h') \<le> 5
           \<and> - 1 \<le> r \<and> r \<le> int (length buf)"
proof -
  let ?rest = "if priv_nbBytes h = 0 then sync_sof buf else buf"
  obtain h1 where h1: "copy_loop proto_ARGS_OFFSET h ?rest
        = Inr (h1, drop (min (length ?rest) (3 - unat (priv_nbBytes h))) ?rest)"
      "unat (priv_nbBytes h1) = unat (priv_nbBytes h) + min (length ?rest) (3 - unat (priv_nbBytes h))"
    using copy_loop_spec [of proto_ARGS_OFFSET h ?rest] assms(1) by auto
  have n1: "unat (priv_nbBytes h1) \<le> 5" using h1(2) assms(1) by auto
  let ?rest1 = "drop (min (length ?rest) (3 - unat (priv_nbBytes h))) ?rest"
  let ?fl = "proto_ARGS_OFFSET + proto_getArgsSize (ucast (command (priv_frame h1)))"
  have fl: "unat ?fl \<le> 5" using getArgsSize_le by simp
  obtain h2 where h2: "copy_loop ?fl h1 ?rest1
        = Inr (h2, drop (min (length ?rest1) (unat ?fl - unat (priv_nbBytes h1))) ?rest1)"
      "unat (priv_nbBytes h2) = unat (priv_nbBytes h1)
         + min (length ?rest1) (unat ?fl - unat (priv_nbBytes h1))"
    using copy_loop_spec [OF fl n1, of ?rest1] by blast
  have "unat (priv_nbBytes h2) \<le> 5" using h2(2) n1 fl by linarith
  then show ?thesis
    using h1(1) h2(1) n1 assms by (auto simp: proto_pushToFrame_def Let_def)
qed

lemma ll_step_safe:
  "unat (priv_nbBytes h) \<le> 5 \<Longrightarrow> x \<noteq> Op_push [] \<Longrightarrow>
     \<exists>h'. ll_step h x = Inr h' \<and> unat (priv_nbBytes h') \<le> 5"
proof (cases x)
  case (Op_push buf)
  assume "unat (priv_nbBytes h) \<le> 5" "x \<noteq> Op_push []"
  then obtain r h' where "proto_pushToFrame h buf = Inr (r, h')" "unat (priv_nbBytes h') \<le> 5"
    using push_safe [of h buf] Op_push by blast
  then show ?thesis by (simp add: Op_push)
next
  case Op_decode
  assume "unat (priv_nbBytes h) \<le> 5"
  then show ?thesis by (simp add: Op_decode proto_decodeFrame_def Let_def)
next
  case (Op_make cmd args)
  assume "unat (priv_nbBytes h) \<le> 5"
  then show ?thesis by (simp add: Op_make)
qed

text \<open>C12: from a fresh handle no sequence of pushes of non-empty reads, decodes and frames
  built ever writes outside the five bytes of the frame or fails an assertion, and the cursor
  stays within the frame.\<close>

theorem receiver_memory_safe:
  assumes "Op_push [] \<notin> set ops"
  shows "\<exists>h. ll_run proto_init ops = Inr h \<and> unat (priv_nbBytes h) \<le> 5"
proof -
  have "\<exists>h'. ll_run h ops = Inr h' \<and> unat (priv_nbBytes h') \<le> 5" if "unat (priv_nbBytes h) \<le> 5" for h
    using that assms
  proof (induction ops arbitrary: h)
    case (Cons x xs)
    then obtain h1 where "ll_step h x = Inr h1" "unat (priv_nbBytes h1) \<le> 5"
      using ll_step_safe [of h x] by auto
    with Cons show ?case by auto
  qed simp
  then show ?thesis by (simp add: proto_init_def)
qed

lemma receiver_memory_safe_witness:
  "\<exists>h. ll_run proto_init [Op_push [0x12, 0, 0, 1, 2, 3], Op_make 1 (mk_data 0 0), Op_push [9], Op_decode]
         = Inr h \<and> unat (priv_nbBytes h) \<le> 5"
  by (rule receiver_memory_safe) simp

end
