(* ===== verification/ProtoLink.thy ===== *)
theory ProtoLink
  imports ProtoFrame
begin

text \<open>
  The IO device interface of \<open>dllCom/libcomm/proto_iodevice.h\<close> and the functions of
  \<open>protocomm_ll.c\<close> that use it: creation, opening, sending and receiving a frame.

  A device is a record of functions, as in the code, on a state \<open>'s\<close>: all the memory the device
  and the callback of the protocol share. A locale states what the protocol relies on when it
  reads from a device.
\<close>

section \<open>The device interface\<close>

text \<open>
  \<open>dev_read d len tout s\<close> gives the returned integer and the bytes stored from the start of
  the caller's buffer; \<open>dev_write d bs s\<close> is given the bytes the caller's pointer and size
  denote.
\<close>

record 's iodevice =
  dev_open :: "string \<Rightarrow> 's \<Rightarrow> (int \<times> 's) outcome"
  dev_close :: "'s \<Rightarrow> (int \<times> 's) outcome"
  dev_destroy :: "'s \<Rightarrow> 's outcome"
  dev_read :: "u8 \<Rightarrow> int \<Rightarrow> 's \<Rightarrow> (int \<times> bytes \<times> 's) outcome"
  dev_write :: "bytes \<Rightarrow> 's \<Rightarrow> (int \<times> 's) outcome"

type_synonym 's proto_OnReception =
  "proto_Command \<Rightarrow> proto_frame_data \<Rightarrow> 's \<Rightarrow> (int \<times> proto_frame_data \<times> 's) outcome"

text \<open>
  What a handle is created with; \<open>None\<close> is the null pointer. The user data the callback gets is
  part of the state \<open>'s\<close>.
\<close>

record 's proto_bind =
  priv_callback :: "'s proto_OnReception option"
  priv_iodevice :: "'s iodevice option"

section \<open>Operations of the handle\<close>

text \<open>\<open>proto_create\<close>: \<open>proto_init\<close> writes to the result of \<open>malloc\<close> without looking at it.\<close>

definition proto_create :: "bool \<Rightarrow> 's iodevice option \<Rightarrow> ('s proto_bind \<times> proto_hdle) outcome" where
  "proto_create malloc_ok dev =
     (if malloc_ok then Inr (\<lparr>priv_callback = None, priv_iodevice = dev\<rparr>, proto_init)
      else Inl Null_deref)"

definition proto_setReceiver :: "'s proto_bind \<Rightarrow> 's proto_OnReception option \<Rightarrow> 's proto_bind" where
  "proto_setReceiver b cb = b\<lparr>priv_callback := cb\<rparr>"

definition proto_destroy :: "'s proto_bind \<Rightarrow> 's \<Rightarrow> 's outcome" where
  "proto_destroy b s = (case priv_iodevice b of None \<Rightarrow> Inr s | Some d \<Rightarrow> dev_destroy d s)"

definition proto_open :: "'s proto_bind \<Rightarrow> string \<Rightarrow> 's \<Rightarrow> (int \<times> 's) outcome" where
  "proto_open b szPath s =
     (case priv_iodevice b of None \<Rightarrow> Inl Assertion | Some d \<Rightarrow> dev_open d szPath s)"

definition proto_close :: "'s proto_bind \<Rightarrow> 's \<Rightarrow> (int \<times> 's) outcome" where
  "proto_close b s =
     (case priv_iodevice b of None \<Rightarrow> Inl Assertion | Some d \<Rightarrow> dev_close d s)"

text \<open>The frame is built in the handle, where a frame being received is kept too.\<close>

definition proto_writeFrame ::
  "'s proto_bind \<Rightarrow> proto_hdle \<Rightarrow> proto_Command \<Rightarrow> proto_frame_data \<Rightarrow> 's
     \<Rightarrow> (int \<times> proto_hdle \<times> 's) outcome"
where
  "proto_writeFrame b h cmd args s =
     (let (nbBytes, f) = proto_makeFrame (priv_frame h) cmd args; h' = h\<lparr>priv_frame := f\<rparr> in
      case priv_iodevice b of
        None \<Rightarrow> Inl Null_deref
      | Some d \<Rightarrow> obind (dev_write d (take (unat nbBytes) (frame_bytes f)) s)
                    (\<lambda>(ret, s'). Inr (ret, h', s')))"

text \<open>
  \<open>proto_readFrame\<close>: the local \<open>buf\<close> is five zero bytes that the device overwrites; pushing
  \<open>nbRead\<close> bytes of it is an access outside \<open>buf\<close> when the device returns more than five.
\<close>

definition proto_readFrame ::
  "'s proto_bind \<Rightarrow> proto_hdle \<Rightarrow> int \<Rightarrow> 's \<Rightarrow> (proto_Status \<times> proto_hdle \<times> 's) outcome"
where
  "proto_readFrame b h tout_ms s =
     (case priv_iodevice b of
        None \<Rightarrow> Inl Null_deref
      | Some d \<Rightarrow>
          obind (dev_read d (proto_FRAME_MAXSIZE - priv_nbBytes h) tout_ms s) (\<lambda>(nbRead, bs, s').
          obind (buf_write 0 bs (replicate 5 0)) (\<lambda>buf.
          if 0 < nbRead then
            obind (buf_read 0 (nat nbRead) buf) (\<lambda>data.
            obind (proto_pushToFrame h data) (\<lambda>(r, h').
              Inr (if 0 \<le> r then proto_NO_ERROR else proto_TIMEOUT, h', s')))
          else if nbRead < 0 then Inr (proto_ERR_SYS, h, s')
          else Inr (proto_TIMEOUT, h, s'))))"

lemma writeFrame_sent:
  assumes "priv_iodevice b = Some d"
  shows "proto_writeFrame b h cmd args s
      = obind (dev_write d (frame_sent (priv_frame h) cmd args) s)
          (\<lambda>(ret, s'). Inr (ret, h\<lparr>priv_frame := snd (proto_makeFrame (priv_frame h) cmd args)\<rparr>, s'))"
  using assms by (simp add: proto_writeFrame_def frame_sent_def split: prod.split)

section \<open>What the protocol relies on when it reads\<close>

text \<open>
  A receiving device holds a queue of bytes. The weak contract speaks of a read large enough
  for the whole queue, the strong one of every read.
\<close>

locale rx_whole =
  fixes d :: "'s iodevice"
    and rx_inv :: "'s \<Rightarrow> bool"
    and pending :: "'s \<Rightarrow> bytes"
    and rx_take :: "nat \<Rightarrow> 's \<Rightarrow> 's"
  assumes read_whole: "\<lbrakk>rx_inv s; length (pending s) \<le> unat n\<rbrakk> \<Longrightarrow>
      dev_read d n t s = Inr (int (length (pending s)), pending s, rx_take (length (pending s)) s)"
    and take_inv: "\<lbrakk>rx_inv s; k \<le> length (pending s)\<rbrakk> \<Longrightarrow> rx_inv (rx_take k s)"
    and take_pending: "rx_inv s \<Longrightarrow> pending (rx_take (length (pending s)) s) = []"

context rx_whole
begin

lemma readFrame_nothing:
  assumes "priv_iodevice b = Some d" "rx_inv s" "pending s = []"
  shows "proto_readFrame b h t s = Inr (proto_TIMEOUT, h, rx_take 0 s)"
  using assms read_whole [OF assms(2), of "proto_FRAME_MAXSIZE - priv_nbBytes h" t]
  by (simp add: proto_readFrame_def)

text \<open>Noise, a frame and further bytes that fit in one read.\<close>

lemma readFrame_frame:
  assumes b: "priv_iodevice b = Some d" and inv: "rx_inv s" and idle: "priv_nbBytes h = 0"
    and w: "wire w" and noise: "proto_START_OF_FRAME \<notin> set noise"
    and p: "pending s = noise @ w @ extra" and fits: "length (pending s) \<le> 5"
  shows "\<exists>h'. proto_readFrame b h t s = Inr (proto_NO_ERROR, h', rx_take (length (pending s)) s)
           \<and> received w h'"
proof -
  have "w \<noteq> []" using wire_hd [OF w] by simp
  then obtain h' where h': "proto_pushToFrame h (pending s) = Inr (int (length noise + length w), h')"
      "received w h'"
    using push_main [OF received_Nil [OF idle] w, of w noise extra] noise p by auto
  have "dev_read d (proto_FRAME_MAXSIZE - priv_nbBytes h) t s
      = Inr (int (length (pending s)), pending s, rx_take (length (pending s)) s)"
    using fits idle by (intro read_whole [OF inv]) simp
  moreover have "0 < length (pending s)" using \<open>w \<noteq> []\<close> p by simp
  ultimately show ?thesis
    using h' b fits by (auto simp: proto_readFrame_def buf_write_def buf_read_def)
qed

end

text \<open>
  What every device owes the handle: a read that returns, stores no more than it is asked for
  and reports no more either (it may report an error, or more than it stored).
\<close>

locale rx_bounded =
  fixes d :: "'s iodevice"
    and rx_inv :: "'s \<Rightarrow> bool"
  assumes read_bounded: "rx_inv s \<Longrightarrow> \<exists>r bs s'. dev_read d n t s = Inr (r, bs, s')
      \<and> r \<le> int (unat n) \<and> length bs \<le> unat n \<and> rx_inv s'"

context rx_bounded
begin

text \<open>Then reading a frame never faults and keeps the cursor inside the frame.\<close>

lemma readFrame_bounded:
  assumes b: "priv_iodevice b = Some d" and inv: "rx_inv s" and n: "unat (priv_nbBytes h) \<le> 5"
  shows "\<exists>st h' s'. proto_readFrame b h t s = Inr (st, h', s') \<and> rx_inv s'
           \<and> unat (priv_nbBytes h') \<le> 5 \<and> st \<in> {proto_NO_ERROR, proto_TIMEOUT, proto_ERR_SYS}"
proof -
  define len where "len = proto_FRAME_MAXSIZE - priv_nbBytes h"
  have len: "unat len = 5 - unat (priv_nbBytes h)"
    using n unfolding len_def by (subst unat_sub) (simp_all add: word_le_nat_alt)
  obtain r bs s' where rd: "dev_read d len t s = Inr (r, bs, s')"
      and r: "r \<le> int (unat len)" and bs: "length bs \<le> unat len" and inv': "rx_inv s'"
    using read_bounded [OF inv] by blast
  have k5: "length bs \<le> 5" "r \<le> 5" using r bs len by linarith+
  define buf where "buf = bs @ drop (length bs) (replicate 5 (0 :: u8))"
  have buf: "buf_write 0 bs (replicate 5 0) = Inr buf" "length buf = 5"
    using k5 by (simp_all add: buf_write_def buf_def)
  show ?thesis
  proof (cases "0 < r")
    case False
    then show ?thesis
      using b rd n inv' buf
      by (intro exI [of _ "if r < 0 then proto_ERR_SYS else proto_TIMEOUT"] exI [of _ h] exI [of _ s'])
        (simp add: proto_readFrame_def len_def [symmetric])
  next
    case True
    then have "take (nat r) buf \<noteq> []" using buf(2) by auto
    then obtain r' h' where "proto_pushToFrame h (take (nat r) buf) = Inr (r', h')" "unat (priv_nbBytes h') \<le> 5"
      using push_safe [OF n] by blast
    then show ?thesis
      using b rd k5 True inv' buf
      by (intro exI [of _ "if 0 \<le> r' then proto_NO_ERROR else proto_TIMEOUT"] exI [of _ h'] exI [of _ s'])
        (simp add: proto_readFrame_def len_def [symmetric] buf_read_def)
  qed
qed

end

locale rx_fifo =
  fixes d :: "'s iodevice"
    and rx_inv :: "'s \<Rightarrow> bool"
    and pending :: "'s \<Rightarrow> bytes"
    and rx_take :: "nat \<Rightarrow> 's \<Rightarrow> 's"
  assumes read_some: "rx_inv s \<Longrightarrow>
      dev_read d n t s = Inr (int (min (unat n) (length (pending s))), take (unat n) (pending s),
                              rx_take (min (unat n) (length (pending s))) s)"
    and take_some_inv: "\<lbrakk>rx_inv s; k \<le> length (pending s)\<rbrakk> \<Longrightarrow> rx_inv (rx_take k s)"
    and take_some_pending: "\<lbrakk>rx_inv s; k \<le> length (pending s)\<rbrakk> \<Longrightarrow>
      pending (rx_take k s) = drop k (pending s)"

sublocale rx_fifo \<subseteq> rx_whole d rx_inv pending rx_take
  by unfold_locales (simp_all add: read_some take_some_inv take_some_pending min_absorb2)

sublocale rx_fifo \<subseteq> rx_bounded d rx_inv
proof
  fix s t and n :: u8
  assume inv: "rx_inv s"
  let ?k = "min (unat n) (length (pending s))"
  have "rx_inv (rx_take ?k s)" by (rule take_some_inv [OF inv]) simp
  then show "\<exists>r bs s'. dev_read d n t s = Inr (r, bs, s') \<and> r \<le> int (unat n) \<and> length bs \<le> unat n \<and> rx_inv s'"
    using read_some [OF inv, of n t] by auto
qed

text \<open>A device that takes the bytes of a frame: its write returns.\<close>

locale tx_total =
  fixes d :: "'s iodevice"
    and tx_inv :: "'s \<Rightarrow> bool"
  assumes write_total: "tx_inv s \<Longrightarrow> \<exists>r s'. dev_write d bs s = Inr (r, s') \<and> tx_inv s'"

context tx_total
begin

lemma writeFrame_total:
  assumes "priv_iodevice b = Some d" "tx_inv s"
  shows "\<exists>r f s'. proto_writeFrame b h cmd args s = Inr (r, h\<lparr>priv_frame := f\<rparr>, s') \<and> tx_inv s'"
  using assms(1) write_total [OF assms(2), of "frame_sent (priv_frame h) cmd args"]
  by (auto simp: writeFrame_sent)

end

end
