(* ===== verification/RegFile.thy ===== *)
theory RegFile
  imports ProtoLink
begin

text \<open>
  The abstract service of the protocol: a file of one-byte registers with a set and a get, and
  what the status codes of the master say about a request.
\<close>

text \<open>
  The contract of the two callbacks of the repository, on the list of registers: whether the
  request is accepted, the arguments of the reply and the registers afterwards.
\<close>

definition reg_serve :: "proto_Command \<Rightarrow> proto_frame_data \<Rightarrow> bytes \<Rightarrow> bool \<times> proto_frame_data \<times> bytes"
where
  "reg_serve cmd args regs =
     (let r = unat (req_reg args) in
      if r < length regs \<and> cmd = proto_CMD_SET then (True, args, regs[r := req_value args])
      else if r < length regs \<and> cmd = proto_CMD_GET then (True, args\<lparr>raw0 := regs ! r\<rparr>, regs)
      else (False, args, regs))"

lemma reg_cmd_ucast: "cmd \<in> {proto_CMD_SET, proto_CMD_GET} \<Longrightarrow> ucast (ucast cmd :: u8) = cmd"
  by auto

lemma reg_serve_length: "reg_serve cmd args regs = (acc, out, regs') \<Longrightarrow> length regs' = length regs"
  by (auto simp: reg_serve_def Let_def split: if_splits)

lemma reg_serve_data:
  "reg_serve cmd args regs = (acc, out, regs') \<Longrightarrow> args_agree cmd args args'
     \<Longrightarrow> cmd \<in> {proto_CMD_SET, proto_CMD_GET} \<Longrightarrow>
     \<exists>out'. reg_serve cmd args' regs = (acc, out', regs') \<and> raw0 out' = raw0 out"
  by (auto simp: reg_serve_def Let_def args_agree_cases proto_getArgsSize_def split: if_splits)

text \<open>Requests of a master and the abstract run of a list of them.\<close>

datatype reg_op = Reg_get u8 | Reg_set u8 u8

fun spec_step :: "bytes \<Rightarrow> reg_op \<Rightarrow> (proto_Status \<times> u8 option) \<times> bytes" where
  "spec_step regs (Reg_get r) =
     (if unat r < length regs then ((proto_NO_ERROR, Some (regs ! unat r)), regs)
      else ((proto_INVALID_ARG, None), regs))"
| "spec_step regs (Reg_set r v) =
     (if unat r < length regs then ((proto_NO_ERROR, None), regs[unat r := v])
      else ((proto_INVALID_ARG, None), regs))"

fun spec_run :: "bytes \<Rightarrow> reg_op list \<Rightarrow> (proto_Status \<times> u8 option) list \<times> bytes" where
  "spec_run regs [] = ([], regs)"
| "spec_run regs (x # xs) =
     (case spec_step regs x of (r, regs1) \<Rightarrow>
        (case spec_run regs1 xs of (rs, regs2) \<Rightarrow> (r # rs, regs2)))"

lemma spec_run_length: "spec_run regs xs = (rs, regs') \<Longrightarrow> length regs' = length regs \<and> length rs = length xs"
proof (induction xs arbitrary: regs rs regs')
  case (Cons x xs)
  then show ?case by (cases x) (fastforce split: prod.splits if_splits)+
qed auto

end
