(* ===== verification/ProtoMaster.thy ===== *)
theory ProtoMaster
  imports RegFile
begin

text \<open>
  The master side, \<open>dllCom/libcomm/protocomm_master.c\<close>: waiting for a reply and the register
  accesses \<open>proto_master_get\<close> and \<open>proto_master_set\<close>.
\<close>

section \<open>Operations\<close>

definition proto_master_create :: "bool \<Rightarrow> 's iodevice option \<Rightarrow> ('s proto_bind \<times> proto_hdle) outcome"
where
  "proto_master_create = proto_create"

definition proto_master_destroy :: "'s proto_bind \<Rightarrow> 's \<Rightarrow> 's outcome" where
  "proto_master_destroy = proto_destroy"

definition proto_master_open :: "'s proto_bind \<Rightarrow> string \<Rightarrow> 's \<Rightarrow> (int \<times> 's) outcome" where
  "proto_master_open = proto_open"

definition proto_master_close :: "'s proto_bind \<Rightarrow> 's \<Rightarrow> (int \<times> 's) outcome" where
  "proto_master_close = proto_close"

text \<open>The values of the enumerators, which the code tests as integers.\<close>

fun status_code :: "proto_Status \<Rightarrow> int" where
  "status_code proto_NO_ERROR = 0"
| "status_code proto_ERR_SYS = 1"
| "status_code proto_ERR_CRC = 2"
| "status_code proto_PEER_ERR_CRC = 3"
| "status_code proto_INVALID_ARG = 4"
| "status_code proto_TIMEOUT = 5"
| "status_code proto_ERR_PROTO = 6"

abbreviation (input) PROTO_FRAME_RECV_TOUT_MS :: int where "PROTO_FRAME_RECV_TOUT_MS \<equiv> 1000"

text \<open>
  The polling loop of \<open>proto_master_readFrame\<close>. \<open>elapsed k\<close> is what the \<open>k\<close>-th test of the
  loop condition gets from the C library's \<open>clock()\<close>, in milliseconds since the start; the loop
  need not end, so its value is \<open>None\<close> when it does not. The condition of the \<open>break\<close> is
  \<open>(ret == proto_NO_ERROR) || (proto_ERR_SYS)\<close>, as written.
\<close>

partial_function (option) master_poll ::
  "'s proto_bind \<Rightarrow> (nat \<Rightarrow> int) \<Rightarrow> nat \<Rightarrow> proto_hdle \<Rightarrow> 's
     \<Rightarrow> (proto_Status \<times> proto_hdle \<times> 's) outcome option"
where
  "master_poll b elapsed k h s =
     (case proto_readFrame b h 0 s of
        Inl e \<Rightarrow> Some (Inl e)
      | Inr (ret, h', s') \<Rightarrow>
          if ret = proto_NO_ERROR \<or> status_code proto_ERR_SYS \<noteq> 0 then Some (Inr (ret, h', s'))
          else if elapsed k < PROTO_FRAME_RECV_TOUT_MS then master_poll b elapsed (Suc k) h' s'
          else Some (Inr (ret, h', s')))"

declare master_poll.simps [code]

definition proto_master_readFrame ::
  "'s proto_bind \<Rightarrow> (nat \<Rightarrow> int) \<Rightarrow> proto_hdle \<Rightarrow> proto_frame_data \<Rightarrow> 's
     \<Rightarrow> (proto_Status \<times> proto_frame_data \<times> proto_hdle \<times> 's) outcome"
where
  "proto_master_readFrame b elapsed h arg s =
     obind (case master_poll b elapsed 0 h s of None \<Rightarrow> Inl Diverges | Some r \<Rightarrow> r) (\<lambda>(ret, h1, s1).
       if ret = proto_NO_ERROR then
         (case proto_decodeFrame h1 0 arg of
            (proto_COMPLETED, cmd, arg', h2) \<Rightarrow>
              Inr (if cmd = proto_CMD_REPLY then proto_NO_ERROR
                   else if cmd = proto_CMD_ERR_CRC then proto_PEER_ERR_CRC
                   else if cmd = proto_CMD_ERR_ARG then proto_INVALID_ARG
                   else proto_ERR_PROTO, arg', h2, s1)
          | (proto_REFUSED, cmd, arg', h2) \<Rightarrow> Inr (proto_ERR_CRC, arg', h2, s1)
          | (proto_WAITING, cmd, arg', h2) \<Rightarrow> Inl Assertion)
       else Inr (ret, arg, h1, s1))"

text \<open>\<open>*value\<close> is given and returned: it is written only when there was no error.\<close>

definition proto_master_get ::
  "'s proto_bind \<Rightarrow> (nat \<Rightarrow> int) \<Rightarrow> proto_hdle \<Rightarrow> u8 \<Rightarrow> u8 \<Rightarrow> 's
     \<Rightarrow> (proto_Status \<times> u8 \<times> proto_hdle \<times> 's) outcome"
where
  "proto_master_get b elapsed h reg val s =
     obind (proto_writeFrame b h proto_CMD_GET (mk_data reg 0) s) (\<lambda>(r, h1, s1).
       if r \<noteq> 0 then Inr (proto_ERR_SYS, val, h1, s1)
       else obind (proto_master_readFrame b elapsed h1 (mk_data reg 0) s1) (\<lambda>(ret, data, h2, s2).
              Inr (ret, if ret = proto_NO_ERROR then reg_value data else val, h2, s2)))"

definition proto_master_set ::
  "'s proto_bind \<Rightarrow> (nat \<Rightarrow> int) \<Rightarrow> proto_hdle \<Rightarrow> u8 \<Rightarrow> u8 \<Rightarrow> 's
     \<Rightarrow> (proto_Status \<times> proto_hdle \<times> 's) outcome"
where
  "proto_master_set b elapsed h reg val s =
     obind (proto_writeFrame b h proto_CMD_SET (mk_data reg val) s) (\<lambda>(r, h1, s1).
       if r \<noteq> 0 then Inr (proto_ERR_SYS, h1, s1)
       else obind (proto_master_readFrame b elapsed h1 (mk_data reg val) s1) (\<lambda>(ret, data, h2, s2).
              Inr (ret, h2, s2)))"

section \<open>The loop\<close>

text \<open>
  Waiting for a reply reads the device exactly once and returns, for any clock: the condition that leaves the loop
  is always true, and the window of \<open>PROTO_FRAME_RECV_TOUT_MS\<close> is never waited for.
\<close>

lemma master_poll_once:
  "master_poll b elapsed k h s = Some (proto_readFrame b h 0 s)"
  by (subst master_poll.simps) (simp split: sum.split prod.split)

lemma master_readFrame_once:
  "proto_master_readFrame b elapsed h arg s =
     obind (proto_readFrame b h 0 s) (\<lambda>(ret, h1, s1).
       if ret = proto_NO_ERROR then
         (case proto_decodeFrame h1 0 arg of
            (proto_COMPLETED, cmd, arg', h2) \<Rightarrow>
              Inr (if cmd = proto_CMD_REPLY then proto_NO_ERROR
                   else if cmd = proto_CMD_ERR_CRC then proto_PEER_ERR_CRC
                   else if cmd = proto_CMD_ERR_ARG then proto_INVALID_ARG
                   else proto_ERR_PROTO, arg', h2, s1)
          | (proto_REFUSED, cmd, arg', h2) \<Rightarrow> Inr (proto_ERR_CRC, arg', h2, s1)
          | (proto_WAITING, cmd, arg', h2) \<Rightarrow> Inl Assertion)
       else Inr (ret, arg, h1, s1))"
  by (simp add: proto_master_readFrame_def master_poll_once)

section \<open>One exchange\<close>

text \<open>The status a well received reply gives.\<close>

abbreviation reply_status :: "proto_Command \<Rightarrow> proto_Status" where
  "reply_status cmd \<equiv> (if cmd = proto_CMD_REPLY then proto_NO_ERROR
                   else if cmd = proto_CMD_ERR_CRC then proto_PEER_ERR_CRC
                   else if cmd = proto_CMD_ERR_ARG then proto_INVALID_ARG
                   else proto_ERR_PROTO)"

context rx_whole
begin

lemma master_readFrame_frame:
  assumes b: "priv_iodevice b = Some d" and inv: "rx_inv s" and idle: "priv_nbBytes h = 0"
    and rc: "ucast (ucast rc :: u8) = rc" and p: "pending s = frame_sent f0 rc out"
  shows "\<exists>data h'. proto_master_readFrame b elapsed h arg s
        = Inr (reply_status rc, data, h', rx_take (length (pending s)) s)
      \<and> priv_nbBytes h' = 0 \<and> args_agree rc data out"
proof -
  have w: "wire (frame_sent f0 rc out)" by (rule wire_frame_sent [OF rc])
  obtain h2 where h2: "proto_readFrame b h 0 s = Inr (proto_NO_ERROR, h2, rx_take (length (pending s)) s)"
      "received (frame_sent f0 rc out) h2"
    using readFrame_frame [OF b inv idle w, of "[]" "[]"] p wire_length [OF w] by auto
  from decode_frame_sent [OF rc h2(2), of 0 arg] show ?thesis
    by (intro exI [of _ "frame_data (priv_frame h2)"] exI [of _ "h2\<lparr>priv_nbBytes := 0\<rparr>"])
      (simp add: master_readFrame_once h2(1))
qed

lemma master_readFrame_nothing:
  assumes "priv_iodevice b = Some d" "rx_inv s" "pending s = []"
  shows "proto_master_readFrame b elapsed h arg s = Inr (proto_TIMEOUT, arg, h, rx_take 0 s)"
  using readFrame_nothing [OF assms] by (simp add: master_readFrame_once)

end

section \<open>A device that answers every request\<close>

text \<open>
  The contract of a link with a live slave behind it: writing a request leaves the slave's
  reply pending, and the registers behind the link are those the service says.
\<close>

locale reply_device = rx_whole d rx_inv pending rx_take
  for d :: "'s iodevice" and rx_inv :: "'s \<Rightarrow> bool" and pending :: "'s \<Rightarrow> bytes"
    and rx_take :: "nat \<Rightarrow> 's \<Rightarrow> 's" +
  fixes ready :: "'s \<Rightarrow> bool"
    and regs :: "'s \<Rightarrow> bytes"
  assumes write_request: "\<lbrakk>ready s; cmd \<in> {proto_CMD_SET, proto_CMD_GET};
        reg_serve cmd args (regs s) = (accepted, out, r')\<rbrakk> \<Longrightarrow>
      \<exists>f0 out' s1. dev_write d (frame_sent f cmd args) s = Inr (0, s1)
        \<and> rx_inv s1
        \<and> pending s1 = frame_sent f0 (if accepted then proto_CMD_REPLY else proto_CMD_ERR_ARG) out'
        \<and> (accepted \<longrightarrow> raw0 out' = raw0 out)
        \<and> ready (rx_take (length (pending s1)) s1) \<and> regs (rx_take (length (pending s1)) s1) = r'"

text \<open>A run of requests at the master, with the value each get leaves in a fresh variable.\<close>

fun master_step ::
  "'s proto_bind \<Rightarrow> (nat \<Rightarrow> int) \<Rightarrow> proto_hdle \<Rightarrow> 's \<Rightarrow> reg_op
     \<Rightarrow> ((proto_Status \<times> u8 option) \<times> proto_hdle \<times> 's) outcome"
where
  "master_step b elapsed h s (Reg_get r) =
     obind (proto_master_get b elapsed h r 0 s) (\<lambda>(st, v, h', s').
       Inr ((st, if st = proto_NO_ERROR then Some v else None), h', s'))"
| "master_step b elapsed h s (Reg_set r v) =
     obind (proto_master_set b elapsed h r v s) (\<lambda>(st, h', s'). Inr ((st, None), h', s'))"

fun master_run ::
  "'s proto_bind \<Rightarrow> (nat \<Rightarrow> int) \<Rightarrow> proto_hdle \<Rightarrow> 's \<Rightarrow> reg_op list
     \<Rightarrow> ((proto_Status \<times> u8 option) list \<times> proto_hdle \<times> 's) outcome"
where
  "master_run b elapsed h s [] = Inr ([], h, s)"
| "master_run b elapsed h s (x # xs) =
     obind (master_step b elapsed h s x) (\<lambda>(r, h', s').
     obind (master_run b elapsed h' s' xs) (\<lambda>(rs, h'', s''). Inr (r # rs, h'', s'')))"

text \<open>The request of an operation, and what becomes of it when no value comes back.\<close>

fun op_cmd :: "reg_op \<Rightarrow> proto_Command" where
  "op_cmd (Reg_get r) = proto_CMD_GET"
| "op_cmd (Reg_set r v) = proto_CMD_SET"

fun op_data :: "reg_op \<Rightarrow> proto_frame_data" where
  "op_data (Reg_get r) = mk_data r 0"
| "op_data (Reg_set r v) = mk_data r v"

lemma op_cmd_cases: "op_cmd x \<in> {proto_CMD_SET, proto_CMD_GET}"
  by (cases x) auto

lemma master_step_refused:
  assumes "proto_writeFrame b h (op_cmd x) (op_data x) s = Inr (r, h1, s1)" "r \<noteq> 0"
  shows "master_step b elapsed h s x = Inr ((proto_ERR_SYS, None), h1, s1)"
  using assms by (cases x) (auto simp: proto_master_get_def proto_master_set_def)

lemma master_step_failed:
  assumes "proto_writeFrame b h (op_cmd x) (op_data x) s = Inr (0, h1, s1)"
    and "proto_master_readFrame b elapsed h1 (op_data x) s1 = Inr (st, data, h2, s2)"
    and "st \<noteq> proto_NO_ERROR"
  shows "master_step b elapsed h s x = Inr ((st, None), h2, s2)"
  using assms by (cases x) (auto simp: proto_master_get_def proto_master_set_def)

context reply_device
begin

lemma request_reply:
  assumes b: "priv_iodevice b = Some d" and rdy: "ready s" and idle: "priv_nbBytes h = 0"
    and cmd: "cmd \<in> {proto_CMD_SET, proto_CMD_GET}"
    and srv: "reg_serve cmd args (regs s) = (accepted, out, r')"
  shows "\<exists>h1 s1 h' s' data. proto_writeFrame b h cmd args s = Inr (0, h1, s1)
     \<and> proto_master_readFrame b elapsed h1 arg s1
         = Inr (if accepted then proto_NO_ERROR else proto_INVALID_ARG, data, h', s')
     \<and> (accepted \<longrightarrow> raw0 data = raw0 out) \<and> priv_nbBytes h' = 0 \<and> ready s' \<and> regs s' = r'"
proof -
  define rc :: u32 where "rc = (if accepted then proto_CMD_REPLY else proto_CMD_ERR_ARG)"
  have rc: "ucast (ucast rc :: u8) = rc" by (simp add: rc_def)
  obtain f0 out' s1 where wr: "dev_write d (frame_sent (priv_frame h) cmd args) s = Inr (0, s1)"
      and inv: "rx_inv s1" and p: "pending s1 = frame_sent f0 rc out'"
      and o: "accepted \<Longrightarrow> raw0 out' = raw0 out"
      and after: "ready (rx_take (length (pending s1)) s1)" "regs (rx_take (length (pending s1)) s1) = r'"
    using write_request [OF rdy cmd srv, of "priv_frame h"] unfolding rc_def by blast
  define h1 where "h1 = h\<lparr>priv_frame := snd (proto_makeFrame (priv_frame h) cmd args)\<rparr>"
  have h1: "proto_writeFrame b h cmd args s = Inr (0, h1, s1)" "priv_nbBytes h1 = 0"
    using writeFrame_sent [OF b] wr idle by (auto simp: h1_def)
  obtain data h' where rd: "proto_master_readFrame b elapsed h1 arg s1
        = Inr (reply_status rc, data, h', rx_take (length (pending s1)) s1)"
      "priv_nbBytes h' = 0" "args_agree rc data out'"
    using master_readFrame_frame [OF b inv h1(2) rc p] by blast
  have "raw0 data = raw0 out" if accepted
    using rd(3) that o by (simp add: args_agree_cases proto_getArgsSize_def rc_def)
  then show ?thesis
    using h1 after rd
    by (intro exI [of _ h1] exI [of _ s1] exI [of _ h'] exI [of _ "rx_take (length (pending s1)) s1"]
          exI [of _ data]) (simp add: rc_def)
qed

lemma master_get_serves:
  assumes "priv_iodevice b = Some d" "ready s" "priv_nbBytes h = 0"
  shows "\<exists>h' s'. proto_master_get b elapsed h r v s
       = (if unat r < length (regs s) then Inr (proto_NO_ERROR, regs s ! unat r, h', s')
          else Inr (proto_INVALID_ARG, v, h', s'))
     \<and> priv_nbBytes h' = 0 \<and> ready s' \<and> regs s' = regs s"
proof -
  obtain acc out r' where srv: "reg_serve proto_CMD_GET (mk_data r 0) (regs s) = (acc, out, r')"
    by (cases "reg_serve proto_CMD_GET (mk_data r 0) (regs s)")
  have "proto_CMD_GET \<in> {proto_CMD_SET, proto_CMD_GET}" by simp
  from request_reply [OF assms this srv, of elapsed "mk_data r 0"] srv show ?thesis
    by (auto simp: proto_master_get_def reg_serve_def Let_def mk_data_def split: if_splits)
qed

lemma master_set_serves:
  assumes "priv_iodevice b = Some d" "ready s" "priv_nbBytes h = 0"
  shows "\<exists>h' s'. proto_master_set b elapsed h r v s
       = (if unat r < length (regs s) then Inr (proto_NO_ERROR, h', s')
          else Inr (proto_INVALID_ARG, h', s'))
     \<and> priv_nbBytes h' = 0 \<and> ready s'
     \<and> regs s' = (if unat r < length (regs s) then (regs s)[unat r := v] else regs s)"
proof -
  obtain acc out r' where srv: "reg_serve proto_CMD_SET (mk_data r v) (regs s) = (acc, out, r')"
    by (cases "reg_serve proto_CMD_SET (mk_data r v) (regs s)")
  have "proto_CMD_SET \<in> {proto_CMD_SET, proto_CMD_GET}" by simp
  from request_reply [OF assms this srv, of elapsed "mk_data r v"] srv show ?thesis
    by (auto simp: proto_master_set_def reg_serve_def Let_def mk_data_def split: if_splits)
qed

text \<open>Any run of requests gives the results of the register service.\<close>

lemma master_run_refines:
  assumes "priv_iodevice b = Some d" "ready s" "priv_nbBytes h = 0"
  shows "\<exists>h' s'. master_run b elapsed h s ops = Inr (fst (spec_run (regs s) ops), h', s')
     \<and> priv_nbBytes h' = 0 \<and> ready s' \<and> regs s' = snd (spec_run (regs s) ops)"
  using assms(2,3)
proof (induction ops arbitrary: h s)
  case Nil
  then show ?case by simp
next
  case (Cons x xs)
  obtain h1 s1 where one: "master_step b elapsed h s x = Inr (fst (spec_step (regs s) x), h1, s1)"
      "priv_nbBytes h1 = 0" "ready s1" "regs s1 = snd (spec_step (regs s) x)"
  proof (cases x)
    case (Reg_get r)
    then show ?thesis
      using that master_get_serves [OF assms(1) Cons.prems, of elapsed r 0] by (auto split: if_splits)
  next
    case (Reg_set r v)
    then show ?thesis
      using that master_set_serves [OF assms(1) Cons.prems, of elapsed r v] by (auto split: if_splits)
  qed
  from Cons.IH [OF one(3,2)] one show ?case by (auto split: prod.splits)
qed

end

end
