(* ===== verification/MasterLate.thy ===== *)
theory MasterLate
  imports ProtoMaster
begin

text \<open>
  What the master of \<open>protocomm_master.c\<close> makes of a slave that answers after the master's only look
  at its device (\<open>master_poll_once\<close>): the reply stays in the link, and nothing in a reply says which request
  it answers.
\<close>

section \<open>A link whose slave is late\<close>

text \<open>The reply to a get.\<close>

definition reply_of :: "u8 \<Rightarrow> bytes" where
  "reply_of v = frame_sent (priv_frame proto_init) proto_CMD_REPLY (mk_data v 0)"

text \<open>
  A get that finds on the link nothing, or the reply with value \<open>v\<close> to whatever request.
\<close>

lemma get_late:
  assumes b: "priv_iodevice b = Some d" and h: "priv_nbBytes h = 0"
    and wr: "dev_write d (frame_sent (priv_frame h) proto_CMD_GET (mk_data r 0)) s = Inr (0, s1)"
    and rd: "dev_read d proto_FRAME_MAXSIZE 0 s1 = Inr (int (length w), w, s2)"
    and w: "w = (case late of None \<Rightarrow> [] | Some v \<Rightarrow> reply_of v)"
  shows "\<exists>h'. master_step b elapsed h s (Reg_get r)
      = Inr (case late of None \<Rightarrow> (proto_TIMEOUT, None) | Some v \<Rightarrow> (proto_NO_ERROR, Some v), h', s2)
     \<and> priv_nbBytes h' = 0"
proof -
  define h1 where "h1 = h\<lparr>priv_frame := snd (proto_makeFrame (priv_frame h) proto_CMD_GET (mk_data r 0))\<rparr>"
  have h1: "proto_writeFrame b h proto_CMD_GET (mk_data r 0) s = Inr (0, h1, s1)" "priv_nbBytes h1 = 0"
    using h by (simp_all add: writeFrame_sent [OF b] wr h1_def)
  show ?thesis
  proof (cases late)
    case None
    then show ?thesis
      using w rd b h1
      by (simp add: proto_master_get_def master_readFrame_once proto_readFrame_def buf_write_def)
  next
    case (Some v)
    have rc: "ucast (ucast proto_CMD_REPLY :: u8) = proto_CMD_REPLY" by simp
    have ww: "wire w" "w = [] @ w @ []" using w wire_frame_sent [OF rc] by (simp_all add: Some reply_of_def)
    have len: "0 < length w" "length w \<le> 5" using wire_hd [OF ww(1)] wire_length [OF ww(1)] by auto
    obtain h2 where h2: "proto_pushToFrame h1 w = Inr (int (length w), h2)" "received w h2"
      using push_main [OF received_Nil [OF h1(2)] ww(1), of w "[]" "[]"] len by auto
    have rdf: "proto_readFrame b h1 0 s1 = Inr (proto_NO_ERROR, h2, s2)"
      using b rd h1(2) h2(1) len by (simp add: proto_readFrame_def buf_write_def buf_read_def)
    have rec: "received (frame_sent (priv_frame proto_init) proto_CMD_REPLY (mk_data v 0)) h2"
      using w h2(2) by (simp add: Some reply_of_def)
    have v: "raw0 (frame_data (priv_frame h2)) = v"
      using decode_frame_sent [OF rc rec, of 0 "mk_data r 0"]
      by (simp add: args_agree_cases proto_getArgsSize_def mk_data_def)
    show ?thesis
      using decode_frame_sent [OF rc rec, of 0 "mk_data r 0"]
      by (simp add: Some proto_master_get_def h1 master_readFrame_once rdf v)
  qed
qed

text \<open>
  The link: \<open>late waiting s\<close> says that in \<open>s\<close> the link holds nothing (\<open>None\<close>) or one reply. A get is
  taken, the read after it gives what was waiting before, and the slave's reply comes then.
\<close>

definition answers_late :: "'s iodevice \<Rightarrow> (u8 \<Rightarrow> u8) \<Rightarrow> (u8 option \<Rightarrow> 's \<Rightarrow> bool) \<Rightarrow> bool" where
  "answers_late d regs late \<longleftrightarrow> (\<forall>waiting s f r. late waiting s \<longrightarrow> (\<exists>s1 s2.
       dev_write d (frame_sent f proto_CMD_GET (mk_data r 0)) s = Inr (0, s1)
     \<and> (let w = (case waiting of None \<Rightarrow> [] | Some v \<Rightarrow> reply_of v) in
          dev_read d proto_FRAME_MAXSIZE 0 s1 = Inr (int (length w), w, s2))
     \<and> late (Some (regs r)) s2))"

text \<open>What the get that reads \<open>waiting\<close> returns.\<close>

definition late_result :: "u8 option \<Rightarrow> proto_Status \<times> u8 option" where
  "late_result waiting = (case waiting of None \<Rightarrow> (proto_TIMEOUT, None) | Some v \<Rightarrow> (proto_NO_ERROR, Some v))"

lemma late_run:
  assumes "priv_iodevice b = Some d" "answers_late d regs late" "late waiting s" "priv_nbBytes h = 0"
  shows "\<exists>h' s'. master_run b elapsed h s (map Reg_get rs)
       = Inr (map late_result (take (length rs) (waiting # map (Some \<circ> regs) rs)), h', s')"
  using assms(3,4)
proof (induction rs arbitrary: h s waiting)
  case (Cons r rs)
  obtain s1 s2 where l: "dev_write d (frame_sent (priv_frame h) proto_CMD_GET (mk_data r 0)) s = Inr (0, s1)"
      "dev_read d proto_FRAME_MAXSIZE 0 s1
         = Inr (int (length (case waiting of None \<Rightarrow> [] | Some v \<Rightarrow> reply_of v)),
             case waiting of None \<Rightarrow> [] | Some v \<Rightarrow> reply_of v, s2)"
      "late (Some (regs r)) s2"
    using assms(2) Cons.prems(1) unfolding answers_late_def Let_def by blast
  obtain h1 where one: "master_step b elapsed h s (Reg_get r) = Inr (late_result waiting, h1, s2)" "priv_nbBytes h1 = 0"
    using get_late [OF assms(1) Cons.prems(2) l(1,2) refl, of elapsed] unfolding late_result_def by blast
  from Cons.IH [OF l(3) one(2)] one(1) show ?case by (auto simp del: master_step.simps)
qed simp

text \<open>C15: over a link whose slave answers each get only after the master has read its device once,
  the master, for any clock, does not wait: the first get times out, and every later get returns without
  error the value of the register that was asked for before it.\<close>

theorem late_replies_answer_next_request:
  assumes "proto_master_create True (Some d) = Inr (b, h)"
    and "answers_late d regs late" "late None s"
  shows "\<exists>h' s'. master_run b elapsed h s (map Reg_get (r # rs))
       = Inr ((proto_TIMEOUT, None) # map (\<lambda>q. (proto_NO_ERROR, Some (regs q))) (butlast (r # rs)), h', s')"
proof -
  have b: "priv_iodevice b = Some d" "priv_nbBytes h = 0"
    using assms(1) by (auto simp: proto_master_create_def proto_create_def proto_init_def)
  have "take (length rs) (map (Some \<circ> regs) (r # rs)) = map (Some \<circ> regs) (take (length rs) (r # rs))"
    by (rule take_map)
  then have "map late_result (take (length (r # rs)) (None # map (Some \<circ> regs) (r # rs)))
      = (proto_TIMEOUT, None) # map (\<lambda>q. (proto_NO_ERROR, Some (regs q))) (butlast (r # rs))"
    by (simp add: late_result_def butlast_conv_take o_def)
  with late_run [OF b(1) assms(2,3) b(2), of elapsed "r # rs"] show ?thesis by metis
qed

text \<open>
  Such a link: what can be read now, and what can be read after the next read. The slave answers with
  three times the number of the register, as the one of \<open>libcomm-gnulinux-test/main.c\<close> does.
\<close>

definition late_dev :: "(bytes \<times> bytes) iodevice" where
  "late_dev = \<lparr>dev_open = \<lambda>_ s. Inr (0, s), dev_close = \<lambda>s. Inr (0, s), dev_destroy = Inr,
     dev_read = \<lambda>n _ (now, later). Inr (int (length (take (unat n) now)), take (unat n) now, (later, [])),
     dev_write = \<lambda>bs (now, _). Inr (0, (now, reply_of (bs ! 3 * 3)))\<rparr>"

lemma late_dev_answers:
  "answers_late late_dev (\<lambda>r. r * 3) (\<lambda>waiting s. fst s = (case waiting of None \<Rightarrow> [] | Some v \<Rightarrow> reply_of v))"
proof -
  have "length (reply_of v) \<le> 5" for v
    using wire_length [OF wire_frame_sent [of proto_CMD_REPLY "priv_frame proto_init" "mk_data v 0"]]
    by (simp add: reply_of_def)
  then show ?thesis
    by (auto simp: answers_late_def late_dev_def Let_def frame_sent_eq args_of_def proto_getArgsSize_def mk_data_def
        split: option.splits)
qed

lemma late_replies_answer_next_request_witness:
  "\<exists>b h h' s'. proto_master_create True (Some late_dev) = Inr (b, h)
     \<and> master_run b (\<lambda>_. 0) h ([], []) [Reg_get 28, Reg_get 5, Reg_get 6]
         = Inr ([(proto_TIMEOUT, None), (proto_NO_ERROR, Some 84), (proto_NO_ERROR, Some 15)], h', s')"
  using late_replies_answer_next_request [OF _ late_dev_answers, of _ _ "([], [])" "\<lambda>_. 0" 28 "[5, 6]"]
  by (simp add: proto_master_create_def proto_create_def)

end
