(* ===== verification/ProtoSlave.thy ===== *)
theory ProtoSlave
  imports RegFile
begin

text \<open>
  The slave side, \<open>dllCom/libcomm/protocomm_slave.c\<close>: \<open>proto_slave_main\<close>, one iteration of
  the slave's loop, with the contract of a callback that serves a register file.
\<close>

section \<open>Operations\<close>

definition proto_slave_create ::
  "bool \<Rightarrow> 's iodevice option \<Rightarrow> 's proto_OnReception option \<Rightarrow> ('s proto_bind \<times> proto_hdle) outcome"
where
  "proto_slave_create malloc_ok dev cb =
     obind (proto_create malloc_ok dev) (\<lambda>(b, h). Inr (proto_setReceiver b cb, h))"

definition proto_slave_destroy :: "'s proto_bind \<Rightarrow> 's \<Rightarrow> 's outcome" where
  "proto_slave_destroy = proto_destroy"

definition proto_slave_open :: "'s proto_bind \<Rightarrow> string \<Rightarrow> 's \<Rightarrow> (int \<times> 's) outcome" where
  "proto_slave_open = proto_open"

definition proto_slave_close :: "'s proto_bind \<Rightarrow> 's \<Rightarrow> (int \<times> 's) outcome" where
  "proto_slave_close = proto_close"

definition proto_slave_main ::
  "'s proto_bind \<Rightarrow> proto_hdle \<Rightarrow> 's \<Rightarrow> (int \<times> proto_hdle \<times> 's) outcome"
where
  "proto_slave_main b h s =
     obind (proto_readFrame b h (- 1) s) (\<lambda>(st, h1, s1).
       case st of
         proto_NO_ERROR \<Rightarrow>
           (case proto_decodeFrame h1 0 (mk_data 0 0) of
              (proto_COMPLETED, cmd, req, h2) \<Rightarrow>
                (case priv_callback b of
                   None \<Rightarrow> Inl Null_deref
                 | Some cb \<Rightarrow>
                     obind (cb cmd req s1) (\<lambda>(r, req', s2).
                     obind (proto_writeFrame b h2 (if r = 0 then proto_CMD_REPLY else proto_CMD_ERR_ARG)
                              req' s2)
                       (\<lambda>(_, h3, s3). Inr (1, h3, s3))))
            | (proto_WAITING, cmd, req, h2) \<Rightarrow> Inr (0, h2, s1)
            | (proto_REFUSED, cmd, req, h2) \<Rightarrow>
                obind (proto_writeFrame b h2 cmd req s1) (\<lambda>(_, h3, s3). Inr (1, h3, s3)))
       | proto_ERR_SYS \<Rightarrow> Inr (- 1, h1, s1)
       | proto_TIMEOUT \<Rightarrow> Inr (0, h1, s1)
       | _ \<Rightarrow> Inr (- 1, h1, s1))"

section \<open>One iteration on a pending frame\<close>

context rx_whole
begin

lemma slave_main_idle:
  assumes "priv_iodevice b = Some d" "rx_inv s" "pending s = []"
  shows "proto_slave_main b h s = Inr (0, h, rx_take 0 s)"
  using readFrame_nothing [OF assms] by (simp add: proto_slave_main_def)

lemma slave_main_frame:
  assumes b: "priv_iodevice b = Some d" "priv_callback b = Some cb"
    and inv: "rx_inv s" and idle: "priv_nbBytes h = 0" and cmd: "ucast (ucast cmd :: u8) = cmd"
    and noise: "proto_START_OF_FRAME \<notin> set noise"
    and p: "pending s = noise @ frame_sent f0 cmd args @ extra" and fits: "length (pending s) \<le> 5"
  shows "\<exists>data h1. args_agree cmd data args \<and> priv_nbBytes h1 = 0
     \<and> proto_slave_main b h s
         = obind (cb cmd data (rx_take (length (pending s)) s)) (\<lambda>(r, out, s2).
           obind (proto_writeFrame b h1 (if r = 0 then proto_CMD_REPLY else proto_CMD_ERR_ARG) out s2)
             (\<lambda>(_, h3, s3). Inr (1, h3, s3)))"
proof -
  obtain h1 where h1: "proto_readFrame b h (- 1) s
        = Inr (proto_NO_ERROR, h1, rx_take (length (pending s)) s)" "received (frame_sent f0 cmd args) h1"
    using readFrame_frame [OF b(1) inv idle wire_frame_sent [OF cmd] noise p fits] by blast
  from decode_frame_sent [OF cmd h1(2)] show ?thesis
    by (intro exI [of _ "frame_data (priv_frame h1)"] exI [of _ "h1\<lparr>priv_nbBytes := 0\<rparr>"])
      (simp add: proto_slave_main_def h1(1) b)
qed

text \<open>A damaged frame is answered with the checksum error command.\<close>

lemma slave_main_damaged:
  assumes b: "priv_iodevice b = Some d" and inv: "rx_inv s" and idle: "priv_nbBytes h = 0"
    and w: "wire w" "w ! 1 \<noteq> getCRC (drop 2 w)"
    and p: "pending s = w" and fits: "length (pending s) \<le> 5"
  shows "\<exists>h1. received w h1
     \<and> proto_slave_main b h s
         = obind (proto_writeFrame b h1 proto_CMD_ERR_CRC (mk_data (w ! 1) (getCRC (drop 2 w)))
                    (rx_take (length (pending s)) s)) (\<lambda>(_, h3, s3). Inr (1, h3, s3))"
proof -
  obtain h1 where h1: "proto_readFrame b h (- 1) s
        = Inr (proto_NO_ERROR, h1, rx_take (length (pending s)) s)" "received w h1"
    using readFrame_frame [OF b inv idle w(1), of "[]" "[]"] p fits by auto
  then show ?thesis
    using decode_received [OF w(1) h1(2)] w(2) by (auto simp: proto_slave_main_def)
qed

end

section \<open>One iteration on a piece of a frame\<close>

context rx_whole
begin

lemma readFrame_piece:
  assumes b: "priv_iodevice b = Some d" and inv: "rx_inv s" and rec: "received p h" and w: "wire w"
    and pc: "p @ pending s = take (length p + length (pending s)) w" and ne: "pending s \<noteq> []"
  shows "\<exists>h'. proto_readFrame b h t s
      = Inr (if p @ pending s = w \<or> length (p @ pending s) \<le> 3 then proto_NO_ERROR else proto_TIMEOUT,
             h', rx_take (length (pending s)) s)
    \<and> received (p @ pending s) h'"
proof -
  let ?c = "pending s"
  obtain h' where h': "proto_pushToFrame h ?c
        = Inr (if p @ ?c = w \<or> length (p @ ?c) \<le> 3 then int (length ?c) else - 1, h')"
      "received (p @ ?c) h'"
    using push_main [OF rec w pc, of "[]" "[]"] ne by auto
  have l: "length p + length ?c \<le> 5"
    using arg_cong [OF pc, of length] wire_length [OF w] unfolding length_append length_take by linarith
  have n: "unat (priv_nbBytes h) = length p" by (rule received_nb [OF rec])
  have "unat (proto_FRAME_MAXSIZE - priv_nbBytes h) = 5 - length p"
    using n l by (subst unat_sub) (simp_all add: word_le_nat_alt)
  then have "dev_read d (proto_FRAME_MAXSIZE - priv_nbBytes h) t s
      = Inr (int (length ?c), ?c, rx_take (length ?c) s)"
    using l by (intro read_whole [OF inv]) simp
  then show ?thesis
    using h' b l ne by (auto simp: proto_readFrame_def buf_write_def buf_read_def)
qed

lemma slave_main_piece:
  assumes "priv_iodevice b = Some d" "rx_inv s" "received p h" "wire w"
    and pc: "p @ pending s = take (length p + length (pending s)) w" "pending s \<noteq> []"
    and part: "length p + length (pending s) < length w"
  shows "\<exists>h'. proto_slave_main b h s = Inr (0, h', rx_take (length (pending s)) s)
    \<and> received (p @ pending s) h'"
proof -
  obtain h' where h': "proto_readFrame b h (- 1) s
      = Inr (if p @ pending s = w \<or> length (p @ pending s) \<le> 3 then proto_NO_ERROR else proto_TIMEOUT,
             h', rx_take (length (pending s)) s)" "received (p @ pending s) h'"
    using readFrame_piece [OF assms(1-4) pc] by blast
  have "proto_decodeFrame h' 0 (mk_data 0 0) = (proto_WAITING, 0, mk_data 0 0, h')"
    by (rule decode_partial [OF assms(4) h'(2)]) (use pc(1) part in simp_all)
  then show ?thesis using h' by (simp add: proto_slave_main_def)
qed

lemma slave_main_last:
  assumes b: "priv_iodevice b = Some d" "priv_callback b = Some cb" and inv: "rx_inv s"
    and rec: "received p h" and cmd: "ucast (ucast cmd :: u8) = cmd"
    and last: "p @ pending s = frame_sent f0 cmd args" "pending s \<noteq> []"
  shows "\<exists>data h1. args_agree cmd data args \<and> priv_nbBytes h1 = 0
     \<and> proto_slave_main b h s
         = obind (cb cmd data (rx_take (length (pending s)) s)) (\<lambda>(r, out, s2).
           obind (proto_writeFrame b h1 (if r = 0 then proto_CMD_REPLY else proto_CMD_ERR_ARG) out s2)
             (\<lambda>(_, h3, s3). Inr (1, h3, s3)))"
proof -
  have "p @ pending s = take (length p + length (pending s)) (frame_sent f0 cmd args)"
    unfolding last(1) [symmetric] by simp
  from readFrame_piece [OF b(1) inv rec wire_frame_sent [OF cmd] this last(2)]
  obtain h1 where h1: "proto_readFrame b h (- 1) s
        = Inr (proto_NO_ERROR, h1, rx_take (length (pending s)) s)" "received (frame_sent f0 cmd args) h1"
    unfolding last(1) by (auto simp only: simp_thms if_True)
  from decode_frame_sent [OF cmd h1(2)] show ?thesis
    by (intro exI [of _ "frame_data (priv_frame h1)"] exI [of _ "h1\<lparr>priv_nbBytes := 0\<rparr>"])
      (simp add: proto_slave_main_def h1(1) b)
qed

end

section \<open>A stream of frames\<close>

context rx_fifo
begin

text \<open>
  The read asks for the longest frame: when a shorter one is first in the queue, the bytes of
  the next one that the read takes are lost.
\<close>

lemma slave_main_stream:
  assumes b: "priv_iodevice b = Some d" "priv_callback b = Some cb" and inv: "rx_inv s"
    and idle: "priv_nbBytes h = 0" and cmd: "ucast (ucast cmd :: u8) = cmd"
    and p: "pending s = frame_sent f0 cmd args @ extra"
  shows "\<exists>data h1. args_agree cmd data args \<and> priv_nbBytes h1 = 0
     \<and> proto_slave_main b h s
         = obind (cb cmd data (rx_take (min 5 (length (pending s))) s)) (\<lambda>(r, out, s2).
           obind (proto_writeFrame b h1 (if r = 0 then proto_CMD_REPLY else proto_CMD_ERR_ARG) out s2)
             (\<lambda>(_, h3, s3). Inr (1, h3, s3)))"
proof -
  define w where "w = frame_sent f0 cmd args"
  have w: "wire w" unfolding w_def by (rule wire_frame_sent [OF cmd])
  note l = wire_length [OF w]
  define c where "c = take 5 (pending s)"
  have t: "c = [] @ w @ take (5 - length w) extra"
    using l by (simp add: c_def p w_def [symmetric])
  have ne: "w \<noteq> []" using wire_hd [OF w] by simp
  from push_main [OF received_Nil [OF idle] w, of w "[]" "take (5 - length w) extra"] ne
  obtain h' where h': "proto_pushToFrame h c = Inr (int (length w), h')" "received w h'"
    unfolding t by auto
  have "dev_read d 5 (- 1) s = Inr (int (length c), c, rx_take (min 5 (length (pending s))) s)"
    using read_some [OF inv, of 5 "- 1"] by (simp add: c_def min.commute)
  moreover have "length c \<le> 5" by (simp add: c_def)
  moreover have "0 < length c" using ne t by simp
  ultimately have rd: "proto_readFrame b h (- 1) s
        = Inr (proto_NO_ERROR, h', rx_take (min 5 (length (pending s))) s)"
    using h' b idle by (simp add: proto_readFrame_def buf_write_def buf_read_def)
  from decode_frame_sent [OF cmd h'(2) [unfolded w_def]] show ?thesis
    by (intro exI [of _ "frame_data (priv_frame h')"] exI [of _ "h'\<lparr>priv_nbBytes := 0\<rparr>"])
      (simp add: proto_slave_main_def rd b)
qed

text \<open>Bytes without a start of frame are passed over.\<close>

lemma slave_main_noise:
  assumes b: "priv_iodevice b = Some d" and inv: "rx_inv s" and idle: "priv_nbBytes h = 0"
    and noise: "proto_START_OF_FRAME \<notin> set (pending s)" and l: "length (pending s) \<le> 5"
  shows "proto_slave_main b h s = Inr (0, h, rx_take (length (pending s)) s)"
proof (cases "pending s = []")
  case True
  then show ?thesis using slave_main_idle [OF b inv True] by simp
next
  case False
  have "sync_sof (pending s) = []" using sync_sof_noise [OF noise, of "[]"] by simp
  then have "proto_pushToFrame h (pending s) = Inr (- 1, h)"
    using False idle by (simp add: proto_pushToFrame_def)
  then show ?thesis
    using read_some [OF inv, of 5 "- 1"] b idle l False
    by (simp add: proto_slave_main_def proto_readFrame_def buf_write_def buf_read_def min_absorb2)
qed

end

section \<open>An iteration never aborts\<close>

text \<open>
  Over a device that reads within bounds and whose write returns, with a callback that returns:
  whatever bytes arrive, one iteration returns and leaves the handle's cursor in the frame.
\<close>

locale slave_service = rx_bounded d inv + tx_total d inv
  for d :: "'s iodevice" and inv :: "'s \<Rightarrow> bool" +
  fixes cb :: "'s proto_OnReception"
  assumes callback_returns: "inv s \<Longrightarrow> \<exists>r out s'. cb cmd args s = Inr (r, out, s') \<and> inv s'"

context slave_service
begin

lemma slave_main_total:
  assumes b: "priv_iodevice b = Some d" "priv_callback b = Some cb"
    and s: "inv s" and n: "unat (priv_nbBytes h) \<le> 5"
  shows "\<exists>r h' s'. proto_slave_main b h s = Inr (r, h', s') \<and> inv s' \<and> unat (priv_nbBytes h') \<le> 5
           \<and> r \<in> {- 1, 0, 1}"
proof -
  obtain st h1 s1 where rd: "proto_readFrame b h (- 1) s = Inr (st, h1, s1)" "inv s1"
      "unat (priv_nbBytes h1) \<le> 5" "st \<in> {proto_NO_ERROR, proto_TIMEOUT, proto_ERR_SYS}"
    using readFrame_bounded [OF b(1) s n] by blast
  obtain ds cmd req h2 where dec: "proto_decodeFrame h1 0 (mk_data 0 0) = (ds, cmd, req, h2)"
    by (cases "proto_decodeFrame h1 0 (mk_data 0 0)")
  have h2: "unat (priv_nbBytes h2) \<le> 5"
    using dec rd(3) by (auto simp: proto_decodeFrame_def Let_def split: if_splits)
  have wr: "\<exists>r f s'. proto_writeFrame b h2 c a t = Inr (r, h2\<lparr>priv_frame := f\<rparr>, s') \<and> inv s'"
    if "inv t" for c a t
    using writeFrame_total [OF b(1) that] .
  consider "st = proto_TIMEOUT" | "st = proto_ERR_SYS" | "st = proto_NO_ERROR" "ds = proto_WAITING"
    | "st = proto_NO_ERROR" "ds = proto_REFUSED" | "st = proto_NO_ERROR" "ds = proto_COMPLETED"
    using rd(4) by (cases ds) auto
  then show ?thesis
  proof cases
    case 4
    then show ?thesis using wr [OF rd(2), of cmd req] rd dec h2 by (auto simp: proto_slave_main_def)
  next
    case 5
    obtain r out s2 where "cb cmd req s1 = Inr (r, out, s2)" "inv s2"
      using callback_returns [OF rd(2)] by blast
    then show ?thesis
      using 5 wr [of s2 "if r = 0 then proto_CMD_REPLY else proto_CMD_ERR_ARG" out] rd dec h2 b(2)
      by (auto simp: proto_slave_main_def)
  qed (use rd dec h2 in \<open>simp_all add: proto_slave_main_def\<close>)
qed

end

section \<open>A callback that serves a register file\<close>

locale register_callback =
  fixes cb :: "'s proto_OnReception"
    and cb_inv :: "'s \<Rightarrow> bool"
    and regs :: "'s \<Rightarrow> bytes"
    and set_regs :: "bytes \<Rightarrow> 's \<Rightarrow> 's"
  assumes callback: "cb_inv s \<Longrightarrow>
      cb cmd args s = (case reg_serve cmd args (regs s) of
         (accepted, out, r') \<Rightarrow> Inr (if accepted then 0 else - 1, out, set_regs r' s))"
    and regs_set: "\<lbrakk>cb_inv s; length r = length (regs s)\<rbrakk> \<Longrightarrow> regs (set_regs r s) = r \<and> cb_inv (set_regs r s)"

context register_callback
begin

text \<open>A callback never aborts, keeps its invariant and the number of registers.\<close>

lemma callback_total:
  "cb_inv s \<Longrightarrow> \<exists>r out s'. cb cmd args s = Inr (r, out, s') \<and> cb_inv s' \<and> r \<in> {0, - 1}
     \<and> length (regs s') = length (regs s)"
  using callback [of s cmd args] regs_set [of s]
  by (cases "reg_serve cmd args (regs s)") (auto dest: reg_serve_length)

text \<open>A read register is the value last set: what a set leaves, a get returns.\<close>

lemma callback_set_get:
  assumes "cb_inv s" "unat r < length (regs s)"
  shows "\<exists>s'. cb proto_CMD_SET (mk_data r v) s = Inr (0, mk_data r v, s') \<and> cb_inv s'
           \<and> regs s' = (regs s)[unat r := v]
           \<and> (\<exists>s''. cb proto_CMD_GET (mk_data r x) s' = Inr (0, mk_data v x, s'') \<and> regs s'' = regs s')"
proof -
  define r' where "r' = (regs s)[unat r := v]"
  have l: "length r' = length (regs s)" by (simp add: r'_def)
  note k = regs_set [OF assms(1) l]
  have "cb proto_CMD_SET (mk_data r v) s = Inr (0, mk_data r v, set_regs r' s)"
    using callback [OF assms(1)] assms(2) by (simp add: reg_serve_def mk_data_def r'_def)
  moreover have "cb proto_CMD_GET (mk_data r x) (set_regs r' s) = Inr (0, mk_data v x, set_regs r' (set_regs r' s))"
    using callback [of "set_regs r' s"] k assms(2) by (simp add: reg_serve_def mk_data_def r'_def)
  moreover have "regs (set_regs r' (set_regs r' s)) = r'"
    using regs_set [of "set_regs r' s" r'] k l by simp
  ultimately show ?thesis using k by (auto simp: r'_def)
qed

end

end
