(* ===== verification/EmulSlave.thy ===== *)
theory EmulSlave
  imports ProtoSlave ProtoMaster
begin

text \<open>
  The emulated slave, \<open>dllCom/libcomm/devices/device_emulslave.c\<close>: a device whose write runs a
  whole iteration of a slave, over a second, internal device that shares its two stacks. The
  model instantiates the contracts of the protocol layers and gives the master, end to end,
  the register service.
\<close>

section \<open>State\<close>

text \<open>
  \<open>slaveThis\<close> is the changing part of the slave's handle; its device and callback never change
  (\<open>fake_bind\<close> below). The two unions of a frame and its bytes are the bytes.
\<close>

record proto_dev_emulslave =
  registers :: bytes
  emul_flags :: u8
  priv_masterStk :: bytes
  priv_usMasterStkSize :: u16
  slaveThis :: proto_hdle
  priv_slaveStk :: bytes
  priv_usSlaveStkSize :: u16

abbreviation (input) EMULSLAVE_NB_REGS :: nat where "EMULSLAVE_NB_REGS \<equiv> 20"
abbreviation (input) EMULSLAVE_FLAG_MASTER_BADCRC :: u8 where "EMULSLAVE_FLAG_MASTER_BADCRC \<equiv> 1"
abbreviation (input) sizeof_stk :: u16 where "sizeof_stk \<equiv> 5"

section \<open>The internal device\<close>

definition devemulslave_fake_open :: "string \<Rightarrow> proto_dev_emulslave \<Rightarrow> (int \<times> proto_dev_emulslave) outcome"
where
  "devemulslave_fake_open szPath s = Inr (0, s)"

definition devemulslave_fake_close :: "proto_dev_emulslave \<Rightarrow> (int \<times> proto_dev_emulslave) outcome" where
  "devemulslave_fake_close s = Inr (0, s)"

definition devemulslave_fake_destroy :: "proto_dev_emulslave \<Rightarrow> proto_dev_emulslave outcome" where
  "devemulslave_fake_destroy s = obind (devemulslave_fake_close s) (\<lambda>(_, s'). Inr s')"

text \<open>What is left of the master's stack is moved to the start of the slave's stack, as written.\<close>

definition devemulslave_fake_read ::
  "u8 \<Rightarrow> int \<Rightarrow> proto_dev_emulslave \<Rightarrow> (int \<times> bytes \<times> proto_dev_emulslave) outcome"
where
  "devemulslave_fake_read len tout_ms s =
     (let usStkSize = priv_usMasterStkSize s;
          nbRead = (if unat len < unat usStkSize then unat len else unat usStkSize) in
      obind (buf_read 0 nbRead (priv_masterStk s)) (\<lambda>bs.
      obind (buf_read nbRead (unat usStkSize - nbRead) (priv_masterStk s)) (\<lambda>rest.
      obind (buf_write 0 rest (priv_slaveStk s)) (\<lambda>stk.
      Inr (int nbRead, bs, s\<lparr>priv_slaveStk := stk, priv_usMasterStkSize := usStkSize - of_nat nbRead\<rparr>)))))"

definition devemulslave_fake_write ::
  "bytes \<Rightarrow> proto_dev_emulslave \<Rightarrow> (int \<times> proto_dev_emulslave) outcome"
where
  "devemulslave_fake_write buf s =
     (let sizeLeft = sizeof_stk - priv_usSlaveStkSize s; len = length buf;
          nbWrite = (if len < unat sizeLeft then len else unat sizeLeft) in
      if nbWrite < len then Inr (- 1, s)
      else obind (buf_write (unat (priv_usSlaveStkSize s)) buf (priv_slaveStk s)) (\<lambda>stk.
             Inr (0, s\<lparr>priv_slaveStk := stk, priv_usSlaveStkSize := priv_usSlaveStkSize s + of_nat nbWrite\<rparr>)))"

definition fake_dev :: "proto_dev_emulslave iodevice" where
  "fake_dev = \<lparr>dev_open = devemulslave_fake_open, dev_close = devemulslave_fake_close,
     dev_destroy = devemulslave_fake_destroy, dev_read = devemulslave_fake_read,
     dev_write = devemulslave_fake_write\<rparr>"

definition devemulslave_callback :: "proto_dev_emulslave proto_OnReception" where
  "devemulslave_callback cmd args s =
     (if cmd = proto_CMD_SET then
        (if unat (req_reg args) < EMULSLAVE_NB_REGS
         then Inr (0, args, s\<lparr>registers := (registers s)[unat (req_reg args) := req_value args]\<rparr>)
         else Inr (- 1, args, s))
      else if cmd = proto_CMD_GET then
        (if unat (req_reg args) < EMULSLAVE_NB_REGS
         then Inr (0, args\<lparr>raw0 := registers s ! unat (req_reg args)\<rparr>, s)
         else Inr (- 1, args, s))
      else Inr (- 1, args, s))"

definition fake_bind :: "proto_dev_emulslave proto_bind" where
  "fake_bind = \<lparr>priv_callback = Some devemulslave_callback, priv_iodevice = Some fake_dev\<rparr>"

section \<open>The device the master uses\<close>

text \<open>
  \<open>devemulslave_create\<close> with the results of its four allocations: the device, its data, the
  internal device and the slave's handle. Each is written to without being looked at.
\<close>

definition devemulslave_init :: "bool \<Rightarrow> bool \<Rightarrow> proto_dev_emulslave outcome" where
  "devemulslave_init malloc_fake malloc_hdle =
     (if \<not> malloc_fake then Inl Null_deref
      else obind (proto_slave_create malloc_hdle (Some fake_dev) (Some devemulslave_callback)) (\<lambda>(_, h).
        Inr \<lparr>registers = replicate EMULSLAVE_NB_REGS 0, emul_flags = 0,
             priv_masterStk = replicate 5 0, priv_usMasterStkSize = 0, slaveThis = h,
             priv_slaveStk = replicate 5 0, priv_usSlaveStkSize = 0\<rparr>))"

definition devemulslave_create :: "bool \<Rightarrow> bool \<Rightarrow> bool \<Rightarrow> bool \<Rightarrow> proto_dev_emulslave outcome" where
  "devemulslave_create malloc_dev malloc_user malloc_fake malloc_hdle =
     (if \<not> malloc_dev then Inl Null_deref
      else if \<not> malloc_user then Inl Null_deref
      else devemulslave_init malloc_fake malloc_hdle)"

definition devemulslave_getRegisters :: "proto_dev_emulslave \<Rightarrow> bytes" where
  "devemulslave_getRegisters s = registers s"

definition devemulslave_setFlags :: "u8 \<Rightarrow> proto_dev_emulslave \<Rightarrow> proto_dev_emulslave" where
  "devemulslave_setFlags flags s = s\<lparr>emul_flags := flags\<rparr>"

definition devemulslave_getFlags :: "proto_dev_emulslave \<Rightarrow> u8" where
  "devemulslave_getFlags s = emul_flags s"

definition devemulslave_open :: "string \<Rightarrow> proto_dev_emulslave \<Rightarrow> (int \<times> proto_dev_emulslave) outcome" where
  "devemulslave_open szPath s = Inr (0, s)"

definition devemulslave_close :: "proto_dev_emulslave \<Rightarrow> (int \<times> proto_dev_emulslave) outcome" where
  "devemulslave_close s = Inr (0, s)"

definition devemulslave_destroy :: "proto_dev_emulslave \<Rightarrow> proto_dev_emulslave outcome" where
  "devemulslave_destroy s =
     obind (proto_destroy fake_bind s) (\<lambda>s1.
     obind (devemulslave_close s1) (\<lambda>(_, s2). Inr s2))"

definition devemulslave_read ::
  "u8 \<Rightarrow> int \<Rightarrow> proto_dev_emulslave \<Rightarrow> (int \<times> bytes \<times> proto_dev_emulslave) outcome"
where
  "devemulslave_read len tout_ms s =
     (let nbDelayedBytes = priv_usSlaveStkSize s;
          nbRead = (if unat len < unat nbDelayedBytes then unat len else unat nbDelayedBytes) in
      obind (buf_read 0 nbRead (priv_slaveStk s)) (\<lambda>bs.
      obind (buf_read nbRead (unat nbDelayedBytes - nbRead) (priv_slaveStk s)) (\<lambda>rest.
      obind (buf_write 0 rest (priv_slaveStk s)) (\<lambda>stk.
      Inr (int nbRead, bs,
           s\<lparr>priv_slaveStk := stk, priv_usSlaveStkSize := nbDelayedBytes - of_nat nbRead\<rparr>)))))"

text \<open>The frame in the stack is read through the union: the first three bytes of the stack.\<close>

definition devemulslave_isFrame :: "bytes \<Rightarrow> u8 \<Rightarrow> int" where
  "devemulslave_isFrame pFrame len =
     (if pFrame ! 0 \<noteq> proto_START_OF_FRAME then - 1
      else if len < proto_COMMAND_OFFSET then - 1
      else if \<not> (ucast (pFrame ! 2) < proto_LAST) then - 1
      else let framelen = proto_ARGS_OFFSET + proto_getArgsSize (ucast (pFrame ! 2))
        in if len \<noteq> framelen then - 1 else 0)"

definition devemulslave_write :: "bytes \<Rightarrow> proto_dev_emulslave \<Rightarrow> (int \<times> proto_dev_emulslave) outcome" where
  "devemulslave_write buf s =
     (let sizeLeft = sizeof_stk - priv_usMasterStkSize s; len = length buf;
          nbWrite = (if len < unat sizeLeft then len else unat sizeLeft) in
      if nbWrite < len then Inr (- 1, s)
      else
        obind (buf_write (unat (priv_usMasterStkSize s)) buf (priv_masterStk s)) (\<lambda>stk.
        let size = priv_usMasterStkSize s + of_nat nbWrite;
            stk' = (if emul_flags s AND EMULSLAVE_FLAG_MASTER_BADCRC \<noteq> 0
                       \<and> devemulslave_isFrame stk (ucast size) = 0
                    then stk[1 := stk ! 1 + 1] else stk);
            s1 = s\<lparr>priv_masterStk := stk', priv_usMasterStkSize := size\<rparr> in
        obind (proto_slave_main fake_bind (slaveThis s1) s1) (\<lambda>(_, h, s2).
        Inr (0, s2\<lparr>slaveThis := h\<rparr>))))"

definition emul_dev :: "proto_dev_emulslave iodevice" where
  "emul_dev = \<lparr>dev_open = devemulslave_open, dev_close = devemulslave_close,
     dev_destroy = devemulslave_destroy, dev_read = devemulslave_read, dev_write = devemulslave_write\<rparr>"

section \<open>Invariant, and the two queues of bytes\<close>

definition emul_inv :: "proto_dev_emulslave \<Rightarrow> bool" where
  "emul_inv s \<longleftrightarrow> length (registers s) = 20 \<and> length (priv_masterStk s) = 5 \<and> length (priv_slaveStk s) = 5
     \<and> unat (priv_usMasterStkSize s) \<le> 5 \<and> unat (priv_usSlaveStkSize s) \<le> 5
     \<and> unat (priv_nbBytes (slaveThis s)) \<le> 5"

text \<open>Nothing under way: both stacks empty and no frame begun in the slave.\<close>

definition emul_idle :: "proto_dev_emulslave \<Rightarrow> bool" where
  "emul_idle s \<longleftrightarrow> emul_inv s \<and> priv_usMasterStkSize s = 0 \<and> priv_usSlaveStkSize s = 0
     \<and> priv_nbBytes (slaveThis s) = 0"

definition emul_ready :: "proto_dev_emulslave \<Rightarrow> bool" where
  "emul_ready s \<longleftrightarrow> emul_idle s \<and> emul_flags s AND EMULSLAVE_FLAG_MASTER_BADCRC = 0"

definition to_master :: "proto_dev_emulslave \<Rightarrow> bytes" where
  "to_master s = take (unat (priv_usSlaveStkSize s)) (priv_slaveStk s)"

definition to_master_take :: "nat \<Rightarrow> proto_dev_emulslave \<Rightarrow> proto_dev_emulslave" where
  "to_master_take k s =
     s\<lparr>priv_slaveStk := drop k (to_master s) @ drop (unat (priv_usSlaveStkSize s) - k) (priv_slaveStk s),
       priv_usSlaveStkSize := priv_usSlaveStkSize s - of_nat k\<rparr>"

definition to_slave :: "proto_dev_emulslave \<Rightarrow> bytes" where
  "to_slave s = take (unat (priv_usMasterStkSize s)) (priv_masterStk s)"

definition to_slave_take :: "nat \<Rightarrow> proto_dev_emulslave \<Rightarrow> proto_dev_emulslave" where
  "to_slave_take k s =
     s\<lparr>priv_slaveStk := drop k (to_slave s) @ drop (unat (priv_usMasterStkSize s) - k) (priv_slaveStk s),
       priv_usMasterStkSize := priv_usMasterStkSize s - of_nat k\<rparr>"

lemmas emul_defs = emul_inv_def to_master_def to_master_take_def to_slave_def to_slave_take_def

lemma size_minus:
  assumes "k \<le> unat (n :: u16)"
  shows "unat (n - of_nat k) = unat n - k"
proof -
  have "k < 65536" using assms unsigned_less [of n, where 'a = nat] by simp
  then have "unat (of_nat k :: u16) = k" by (rule unat_of_nat_u16)
  then show ?thesis using assms by (simp add: unat_sub word_le_nat_alt)
qed

lemma length_to_master: "emul_inv s \<Longrightarrow> length (to_master s) = unat (priv_usSlaveStkSize s)"
  by (simp add: emul_defs)

lemma length_to_slave: "emul_inv s \<Longrightarrow> length (to_slave s) = unat (priv_usMasterStkSize s)"
  by (simp add: emul_defs)

text \<open>What the two reads do, whatever length they are asked for.\<close>

lemma emul_read:
  assumes "emul_inv s"
  shows "devemulslave_read n t s = Inr (int (min (unat n) (length (to_master s))),
           take (unat n) (to_master s), to_master_take (min (unat n) (length (to_master s))) s)"
proof -
  define S where "S = unat (priv_usSlaveStkSize s)"
  define k where "k = min (unat n) S"
  have le: "k \<le> S" "S \<le> 5" "length (priv_masterStk s) = 5" "length (priv_slaveStk s) = 5"
    using assms by (simp_all add: k_def S_def emul_inv_def)
  have k: "(if unat n < unat (priv_usSlaveStkSize s) then unat n else unat (priv_usSlaveStkSize s)) = k"
      "min (unat n) (length (to_master s)) = k" "take (unat n) (to_master s) = take k (priv_slaveStk s)"
    using assms by (auto simp: k_def S_def length_to_master emul_inv_def to_master_def min.commute)
  have rest: "buf_read 0 k (priv_slaveStk s) = Inr (take k (priv_slaveStk s))"
      "buf_read k (S - k) (priv_slaveStk s) = Inr (drop k (take S (priv_slaveStk s)))"
      "buf_write 0 (drop k (take S (priv_slaveStk s))) (priv_slaveStk s)
         = Inr (drop k (take S (priv_slaveStk s)) @ drop (S - k) (priv_slaveStk s))"
    using le by (simp_all add: buf_read_def buf_write_def drop_take)
  show ?thesis
    unfolding devemulslave_read_def Let_def k
    unfolding to_master_take_def to_master_def S_def [symmetric]
    by (simp add: rest)
qed

lemma emul_fake_read:
  assumes "emul_inv s"
  shows "devemulslave_fake_read n t s = Inr (int (min (unat n) (length (to_slave s))),
           take (unat n) (to_slave s), to_slave_take (min (unat n) (length (to_slave s))) s)"
proof -
  define S where "S = unat (priv_usMasterStkSize s)"
  define k where "k = min (unat n) S"
  have le: "k \<le> S" "S \<le> 5" "length (priv_masterStk s) = 5" "length (priv_slaveStk s) = 5"
    using assms by (simp_all add: k_def S_def emul_inv_def)
  have k: "(if unat n < unat (priv_usMasterStkSize s) then unat n else unat (priv_usMasterStkSize s)) = k"
      "min (unat n) (length (to_slave s)) = k" "take (unat n) (to_slave s) = take k (priv_masterStk s)"
    using assms by (auto simp: k_def S_def length_to_slave emul_inv_def to_slave_def min.commute)
  have rest: "buf_read 0 k (priv_masterStk s) = Inr (take k (priv_masterStk s))"
      "buf_read k (S - k) (priv_masterStk s) = Inr (drop k (take S (priv_masterStk s)))"
      "buf_write 0 (drop k (take S (priv_masterStk s))) (priv_slaveStk s)
         = Inr (drop k (take S (priv_masterStk s)) @ drop (S - k) (priv_slaveStk s))"
    using le by (simp_all add: buf_read_def buf_write_def drop_take)
  show ?thesis
    unfolding devemulslave_fake_read_def Let_def k
    unfolding to_slave_take_def to_slave_def S_def [symmetric]
    by (simp add: rest)
qed

lemma to_master_take_inv: "\<lbrakk>emul_inv s; k \<le> length (to_master s)\<rbrakk> \<Longrightarrow> emul_inv (to_master_take k s)"
  by (auto simp: emul_defs size_minus)

lemma to_slave_take_inv: "\<lbrakk>emul_inv s; k \<le> length (to_slave s)\<rbrakk> \<Longrightarrow> emul_inv (to_slave_take k s)"
  by (auto simp: emul_defs size_minus)

lemma to_master_taken:
  "\<lbrakk>emul_inv s; k \<le> length (to_master s)\<rbrakk> \<Longrightarrow> to_master (to_master_take k s) = drop k (to_master s)"
  by (simp add: emul_defs size_minus)

lemma to_slave_drained: "emul_inv s \<Longrightarrow> to_slave_take (length (to_slave s)) s = s\<lparr>priv_usMasterStkSize := 0\<rparr>"
  by (simp add: emul_defs)

lemma emul_created [simp]:
  "devemulslave_create True True True True = Inr s \<Longrightarrow> emul_ready s"
  by (auto simp: devemulslave_create_def devemulslave_init_def proto_slave_create_def proto_create_def
      proto_init_def emul_ready_def emul_idle_def emul_inv_def)

section \<open>The contracts\<close>

lemma fake_dev_sel [simp]:
  "dev_read fake_dev = devemulslave_fake_read" "dev_write fake_dev = devemulslave_fake_write"
  "dev_destroy fake_dev = devemulslave_fake_destroy"
  by (simp_all add: fake_dev_def)

lemma emul_dev_sel [simp]:
  "dev_read emul_dev = devemulslave_read" "dev_write emul_dev = devemulslave_write"
  by (simp_all add: emul_dev_def)

lemma fake_bind_sel [simp]:
  "priv_callback fake_bind = Some devemulslave_callback" "priv_iodevice fake_bind = Some fake_dev"
  by (simp_all add: fake_bind_def)

interpretation fake: rx_whole fake_dev emul_inv to_slave to_slave_take
proof
  fix s t and n :: u8
  assume "emul_inv s" "length (to_slave s) \<le> unat n"
  then show "dev_read fake_dev n t s
      = Inr (int (length (to_slave s)), to_slave s, to_slave_take (length (to_slave s)) s)"
    by (simp add: emul_fake_read min_absorb2)
qed (simp_all add: to_slave_take_inv to_slave_drained, simp add: to_slave_def)

interpretation emul: rx_fifo emul_dev emul_inv to_master to_master_take
  by unfold_locales (simp_all add: emul_read to_master_take_inv to_master_taken)

interpretation emul_regs: register_callback devemulslave_callback emul_inv registers
    "\<lambda>r s. s\<lparr>registers := r\<rparr>"
  by unfold_locales (auto simp: devemulslave_callback_def reg_serve_def Let_def emul_inv_def)

text \<open>The stack of the slave takes a whole frame or refuses it.\<close>

lemma emul_fake_write:
  assumes "emul_inv s"
  shows "devemulslave_fake_write w s =
     (if length w \<le> 5 - unat (priv_usSlaveStkSize s)
      then Inr (0, s\<lparr>priv_slaveStk := take (unat (priv_usSlaveStkSize s)) (priv_slaveStk s) @ w
                      @ drop (unat (priv_usSlaveStkSize s) + length w) (priv_slaveStk s),
                    priv_usSlaveStkSize := priv_usSlaveStkSize s + of_nat (length w)\<rparr>)
      else Inr (- 1, s))"
proof -
  have "unat (5 - priv_usSlaveStkSize s) = 5 - unat (priv_usSlaveStkSize s)"
    using assms by (simp add: unat_sub word_le_nat_alt emul_inv_def)
  then show ?thesis
    using assms by (auto simp: devemulslave_fake_write_def Let_def buf_write_def emul_inv_def)
qed

lemma size_plus:
  assumes "unat (n :: u16) + k \<le> 5"
  shows "unat (n + of_nat k) = unat n + k"
proof -
  have k: "unat (of_nat k :: u16) = k" using assms by (intro unat_of_nat_u16) simp
  show ?thesis using assms k unat_add_lem [of n "of_nat k"] by simp
qed

interpretation fake_tx: tx_total fake_dev emul_inv
proof
  fix w and s
  assume inv: "emul_inv s"
  show "\<exists>r s'. dev_write fake_dev w s = Inr (r, s') \<and> emul_inv s'"
    using inv emul_fake_write [OF inv, of w] size_plus [of "priv_usSlaveStkSize s" "length w"]
    by (auto simp: emul_inv_def)
qed

interpretation fake_service: slave_service fake_dev emul_inv devemulslave_callback
proof
  fix s t and n :: u8
  assume "emul_inv s"
  then show "\<exists>r bs s'. dev_read fake_dev n t s = Inr (r, bs, s') \<and> r \<le> int (unat n) \<and> length bs \<le> unat n \<and> emul_inv s'"
    by (simp add: emul_fake_read to_slave_take_inv)
next
  fix s cmd args
  assume "emul_inv s"
  then show "\<exists>r out s'. devemulslave_callback cmd args s = Inr (r, out, s') \<and> emul_inv s'"
    using emul_regs.callback_total by blast
qed

section \<open>A request\<close>

text \<open>A write into an empty stack.\<close>

lemma emul_write_start:
  assumes inv: "emul_inv s" "priv_usMasterStkSize s = 0" and w: "length w \<le> 5"
  shows "devemulslave_write w s =
     (let stk = w @ drop (length w) (priv_masterStk s);
          stk' = (if emul_flags s AND 1 \<noteq> 0 \<and> devemulslave_isFrame stk (of_nat (length w)) = 0
                  then stk[1 := stk ! 1 + 1] else stk) in
      obind (proto_slave_main fake_bind (slaveThis s)
              (s\<lparr>priv_masterStk := stk', priv_usMasterStkSize := of_nat (length w)\<rparr>))
        (\<lambda>(_, h, s2). Inr (0, s2\<lparr>slaveThis := h\<rparr>)))"
proof -
  have "unat (ucast (of_nat (length w) :: u16) :: u8) = length w"
    using w by (simp add: unsigned_ucast_eq unat_of_nat take_bit_eq_mod)
  then have "ucast (of_nat (length w) :: u16) = (of_nat (length w) :: u8)"
    using w by (simp add: word_unat_eq_iff unat_of_nat_u8)
  then show ?thesis
    using inv w by (simp add: devemulslave_write_def buf_write_def emul_inv_def Let_def)
qed

lemma isFrame_wire:
  assumes "wire w" "ucast (w ! 2) < proto_LAST"
  shows "devemulslave_isFrame (w @ rest) (of_nat (length w)) = 0"
  using assms
  by (auto simp: wire_def devemulslave_isFrame_def args_len_def Let_def less_word_nat)

lemma wire_sized: "wire w \<Longrightarrow> unat (of_nat (length w) :: u16) = length w"
  using wire_length [of w] by (intro unat_of_nat_u16) simp

text \<open>What the slave's iteration leaves when it answers with \<open>out\<close>.\<close>

lemma fake_reply:
  assumes "emul_inv s" "priv_usSlaveStkSize s = 0" "ucast (ucast rc :: u8) = rc"
  shows "proto_writeFrame fake_bind h rc out s
     = Inr (0, h\<lparr>priv_frame := snd (proto_makeFrame (priv_frame h) rc out)\<rparr>,
            s\<lparr>priv_slaveStk := frame_sent (priv_frame h) rc out
                @ drop (length (frame_sent (priv_frame h) rc out)) (priv_slaveStk s),
              priv_usSlaveStkSize := of_nat (length (frame_sent (priv_frame h) rc out))\<rparr>)"
  using assms(2) wire_length [OF wire_frame_sent [OF assms(3)], of "priv_frame h" out]
  by (simp add: writeFrame_sent [of _ fake_dev] emul_fake_write [OF assms(1)])

lemma emul_request:
  assumes rdy: "emul_ready s" and cmd: "cmd \<in> {proto_CMD_SET, proto_CMD_GET}"
    and srv: "reg_serve cmd args (registers s) = (accepted, out, r')"
  shows "\<exists>f0 out' s1. devemulslave_write (frame_sent f cmd args) s = Inr (0, s1)
        \<and> emul_inv s1
        \<and> to_master s1 = frame_sent f0 (if accepted then proto_CMD_REPLY else proto_CMD_ERR_ARG) out'
        \<and> (accepted \<longrightarrow> raw0 out' = raw0 out)
        \<and> emul_ready (to_master_take (length (to_master s1)) s1)
        \<and> registers (to_master_take (length (to_master s1)) s1) = r'"
proof -
  define w where "w = frame_sent f cmd args"
  define rc :: u32 where "rc = (if accepted then proto_CMD_REPLY else proto_CMD_ERR_ARG)"
  have w: "wire w" "length w \<le> 5" and size: "unat (of_nat (length w) :: u16) = length w"
    using wire_frame_sent [OF reg_cmd_ucast [OF cmd]] wire_length wire_sized by (simp_all add: w_def)
  have s: "emul_inv s" "priv_usMasterStkSize s = 0" "priv_usSlaveStkSize s = 0"
      "priv_nbBytes (slaveThis s) = 0" "emul_flags s AND 1 = 0"
    using rdy by (simp_all add: emul_ready_def emul_idle_def)
  define s1 where "s1 = s\<lparr>priv_masterStk := w @ drop (length w) (priv_masterStk s),
                          priv_usMasterStkSize := of_nat (length w)\<rparr>"
  have s1: "emul_inv s1" "to_slave s1 = w" "registers s1 = registers s"
    using s w size by (simp_all add: s1_def emul_inv_def to_slave_def)
  have start: "devemulslave_write w s = obind (proto_slave_main fake_bind (slaveThis s) s1)
        (\<lambda>(_, h, s2). Inr (0, s2\<lparr>slaveThis := h\<rparr>))"
    using s by (simp add: emul_write_start [OF s(1,2) w(2)] s1_def)
  have "to_slave s1 = [] @ frame_sent f cmd args @ []" "length (to_slave s1) \<le> 5"
    using s1 w by (simp_all add: w_def)
  then obtain data h1 where agree: "args_agree cmd data args" and h1: "priv_nbBytes h1 = 0"
    and main: "proto_slave_main fake_bind (slaveThis s) s1
         = obind (devemulslave_callback cmd data (s1\<lparr>priv_usMasterStkSize := 0\<rparr>)) (\<lambda>(r, out, s2).
           obind (proto_writeFrame fake_bind h1 (if r = 0 then proto_CMD_REPLY else proto_CMD_ERR_ARG) out s2)
             (\<lambda>(_, h3, s3). Inr (1, h3, s3)))"
    using fake.slave_main_frame [OF fake_bind_sel(2,1) s1(1) s(4) reg_cmd_ucast [OF cmd], of "[]" f args "[]",
        unfolded to_slave_drained [OF s1(1)]]
    by auto
  have agree': "args_agree cmd args data" using agree by (simp add: args_agree_def)
  obtain out' where srv': "reg_serve cmd data (registers s) = (accepted, out', r')" "raw0 out' = raw0 out"
    using reg_serve_data [OF srv agree' cmd] by blast
  define s2 where "s2 = s1\<lparr>priv_usMasterStkSize := 0, registers := r'\<rparr>"
  have s2: "emul_inv s2" "priv_usSlaveStkSize s2 = 0"
    using s1(1) s reg_serve_length [OF srv] by (simp_all add: s2_def s1_def emul_inv_def)
  have "emul_inv (s1\<lparr>priv_usMasterStkSize := 0\<rparr>)" using s1(1) by (simp add: emul_inv_def)
  then have cb: "devemulslave_callback cmd data (s1\<lparr>priv_usMasterStkSize := 0\<rparr>)
      = Inr (if accepted then 0 else - 1, out', s2)"
    using emul_regs.callback [of "s1\<lparr>priv_usMasterStkSize := 0\<rparr>" cmd data] srv'(1) s1(3) by (simp add: s2_def)
  have rc: "ucast (ucast rc :: u8) = rc" by (simp add: rc_def)
  define v where "v = frame_sent (priv_frame h1) rc out'"
  have v: "wire v" "length v \<le> 5" "unat (of_nat (length v) :: u16) = length v"
    using wire_frame_sent [OF rc] wire_length wire_sized by (simp_all add: v_def)
  define s3 where "s3 = s2\<lparr>priv_slaveStk := v @ drop (length v) (priv_slaveStk s2),
      priv_usSlaveStkSize := of_nat (length v),
      slaveThis := h1\<lparr>priv_frame := snd (proto_makeFrame (priv_frame h1) rc out')\<rparr>\<rparr>"
  have "(if (if accepted then 0 else - 1 :: int) = 0 then proto_CMD_REPLY else proto_CMD_ERR_ARG) = rc"
    by (simp add: rc_def)
  then have "devemulslave_write w s = Inr (0, s3)"
    by (simp only: start main cb obind.simps prod.case fake_reply [OF s2 rc]) (simp add: s3_def v_def)
  moreover have s3: "emul_inv s3" "to_master s3 = v"
    using s2 v h1 by (simp_all add: s3_def emul_inv_def to_master_def)
  moreover have "emul_ready (to_master_take (length (to_master s3)) s3)"
    using to_master_take_inv [OF s3(1), of "length v"] s3(2) v s h1
    by (simp add: emul_ready_def emul_idle_def to_master_take_def s3_def s2_def s1_def)
  moreover have "registers (to_master_take (length (to_master s3)) s3) = r'"
    by (simp add: to_master_take_def s3_def s2_def)
  ultimately show ?thesis using srv'(2) by (auto simp: w_def v_def rc_def)
qed

interpretation emul_service: reply_device emul_dev emul_inv to_master to_master_take emul_ready registers
  by unfold_locales (simp add: emul_request)

section \<open>The register service, end to end\<close>

text \<open>C1: a master over a freshly created emulated slave sees exactly the register service: any
  sequence of gets and sets, with registers in range or not, returns the statuses and values of
  the abstract run from twenty zero registers, leaves those registers in the slave, and never
  aborts; the clock plays no part.\<close>

theorem emulated_slave_serves_registers:
  assumes "devemulslave_create True True True True = Inr s"
    and "proto_master_create True (Some emul_dev) = Inr (b, h)"
  shows "\<exists>h' s'. master_run b elapsed h s ops = Inr (fst (spec_run (replicate 20 0) ops), h', s')
     \<and> devemulslave_getRegisters s' = snd (spec_run (replicate 20 0) ops)"
proof -
  have "priv_iodevice b = Some emul_dev" "priv_nbBytes h = 0"
    using assms(2) by (auto simp: proto_master_create_def proto_create_def proto_init_def)
  moreover have "registers s = replicate 20 0"
    using assms(1) by (auto simp: devemulslave_create_def devemulslave_init_def proto_slave_create_def proto_create_def)
  ultimately show ?thesis
    using emul_service.master_run_refines [OF _ emul_created [OF assms(1)], of b h elapsed ops]
    by (auto simp: devemulslave_getRegisters_def)
qed

lemma emulated_slave_serves_registers_witness:
  "case devemulslave_create True True True True of Inl _ \<Rightarrow> False
   | Inr s \<Rightarrow> (\<exists>h' s'. master_run \<lparr>priv_callback = None, priv_iodevice = Some emul_dev\<rparr> (\<lambda>_. 0)
          proto_init s [Reg_set 3 7, Reg_get 3, Reg_get 20]
        = Inr ([(proto_NO_ERROR, None), (proto_NO_ERROR, Some 7), (proto_INVALID_ARG, None)], h', s'))"
proof -
  obtain s where s: "devemulslave_create True True True True = Inr s"
    by (simp add: devemulslave_create_def devemulslave_init_def proto_slave_create_def proto_create_def)
  have "fst (spec_run (replicate 20 0) [Reg_set 3 7, Reg_get 3, Reg_get 20])
      = [(proto_NO_ERROR, None), (proto_NO_ERROR, Some 7), (proto_INVALID_ARG, None)]"
    by code_simp
  then show ?thesis
    using emulated_slave_serves_registers [OF s, of "\<lparr>priv_callback = None, priv_iodevice = Some emul_dev\<rparr>"
        proto_init "\<lambda>_. 0" "[Reg_set 3 7, Reg_get 3, Reg_get 20]"] s
    by (auto simp: proto_master_create_def proto_create_def)
qed

section \<open>Memory safety\<close>

lemma emul_write_total:
  assumes inv: "emul_inv s"
  shows "\<exists>r s'. devemulslave_write w s = Inr (r, s') \<and> emul_inv s' \<and> r \<in> {0, - 1}"
proof -
  define left where "left = unat (5 - priv_usMasterStkSize s)"
  have left: "left = 5 - unat (priv_usMasterStkSize s)"
    using inv by (simp add: left_def emul_inv_def unat_sub word_le_nat_alt)
  show ?thesis
  proof (cases "length w \<le> left")
    case False
    then show ?thesis using inv by (simp add: devemulslave_write_def Let_def left_def)
  next
    case True
    define stk where "stk = take (unat (priv_usMasterStkSize s)) (priv_masterStk s) @ w
        @ drop (unat (priv_usMasterStkSize s) + length w) (priv_masterStk s)"
    have w: "buf_write (unat (priv_usMasterStkSize s)) w (priv_masterStk s) = Inr stk"
        "length stk = 5"
      using inv True left by (auto simp: buf_write_def stk_def emul_inv_def)
    define size where "size = priv_usMasterStkSize s + of_nat (length w)"
    have "unat (priv_usMasterStkSize s) + length w \<le> 5"
      using inv True left by (auto simp: emul_inv_def)
    then have size: "unat size \<le> 5"
      using size_plus [of "priv_usMasterStkSize s" "length w"] by (simp add: size_def)
    define stk' where "stk' = (if emul_flags s AND 1 \<noteq> 0 \<and> devemulslave_isFrame stk (ucast size) = 0
        then stk[1 := stk ! 1 + 1] else stk)"
    define s1 where "s1 = s\<lparr>priv_masterStk := stk', priv_usMasterStkSize := size\<rparr>"
    have s1: "emul_inv s1" "unat (priv_nbBytes (slaveThis s1)) \<le> 5"
      using inv w(2) size by (simp_all add: s1_def stk'_def emul_inv_def)
    obtain r h s2 where main: "proto_slave_main fake_bind (slaveThis s1) s1 = Inr (r, h, s2)"
        "emul_inv s2" "unat (priv_nbBytes h) \<le> 5"
      using fake_service.slave_main_total [OF fake_bind_sel(2,1) s1] by blast
    have "devemulslave_write w s = obind (proto_slave_main fake_bind (slaveThis s1) s1)
        (\<lambda>(_, h, s2). Inr (0, s2\<lparr>slaveThis := h\<rparr>))"
      using True
      by (simp add: devemulslave_write_def Let_def left_def [symmetric] w s1_def stk'_def size_def)
    then show ?thesis using main by (auto simp: emul_inv_def)
  qed
qed

interpretation emul_tx: tx_total emul_dev emul_inv
  using emul_write_total by unfold_locales fastforce

datatype emul_op = Emul_write bytes | Emul_read u8 | Emul_setFlags u8 | Emul_getRegisters

fun emul_step :: "proto_dev_emulslave \<Rightarrow> emul_op \<Rightarrow> proto_dev_emulslave outcome" where
  "emul_step s (Emul_write w) = obind (devemulslave_write w s) (\<lambda>(_, s'). Inr s')"
| "emul_step s (Emul_read n) = obind (devemulslave_read n 0 s) (\<lambda>(_, _, s'). Inr s')"
| "emul_step s (Emul_setFlags f) = Inr (devemulslave_setFlags f s)"
| "emul_step s Emul_getRegisters = Inr s"

fun emul_run :: "proto_dev_emulslave \<Rightarrow> emul_op list \<Rightarrow> proto_dev_emulslave outcome" where
  "emul_run s [] = Inr s"
| "emul_run s (x # xs) = obind (emul_step s x) (\<lambda>s'. emul_run s' xs)"

lemma emul_run_safe: "emul_inv s \<Longrightarrow> \<exists>s'. emul_run s ops = Inr s' \<and> emul_inv s'"
proof (induction ops arbitrary: s)
  case (Cons x xs)
  have "\<exists>s'. emul_step s x = Inr s' \<and> emul_inv s'"
  proof (cases x)
    case (Emul_write w)
    then show ?thesis using emul_write_total [OF Cons.prems, of w] by auto
  next
    case (Emul_read n)
    then show ?thesis
      using to_master_take_inv [OF Cons.prems] by (simp add: emul_read [OF Cons.prems])
  qed (use Cons.prems in \<open>simp_all add: devemulslave_setFlags_def emul_inv_def\<close>)
  then show ?case using Cons.IH by auto
qed simp

text \<open>C14: whatever bytes are written to the emulated slave, in any order with reads of any
  length and changes of the flags, no access leaves its buffers and no assertion fails: the two
  stacks, the frame of the slave and the register file keep their bounds.\<close>

theorem emulated_slave_memory_safe:
  assumes "devemulslave_create True True True True = Inr s"
  shows "\<exists>s'. emul_run s ops = Inr s' \<and> unat (priv_usMasterStkSize s') \<le> 5
     \<and> unat (priv_usSlaveStkSize s') \<le> 5 \<and> length (devemulslave_getRegisters s') = 20"
proof -
  have "emul_inv s" using emul_created [OF assms] by (simp add: emul_ready_def emul_idle_def)
  from emul_run_safe [OF this, of ops] show ?thesis
    by (auto simp: emul_inv_def devemulslave_getRegisters_def)
qed

lemma emul_create_ok: "\<exists>s. devemulslave_create True True True True = Inr s"
  by (simp add: devemulslave_create_def devemulslave_init_def proto_slave_create_def proto_create_def)

lemma emulated_slave_memory_safe_witness:
  "\<exists>s s'. devemulslave_create True True True True = Inr s
     \<and> emul_run s [Emul_write [0x12, 1], Emul_write [0x12, 2, 3, 4, 5], Emul_read 2] = Inr s'
     \<and> unat (priv_usMasterStkSize s') \<le> 5"
  using emul_create_ok emulated_slave_memory_safe by blast

section \<open>The checksum flag\<close>

lemma made_frame_decodes:
  assumes "priv_frame h = snd (proto_makeFrame f cmd args)" "ucast (ucast cmd :: u8) = cmd"
    and "priv_nbBytes h = proto_ARGS_OFFSET + proto_getArgsSize cmd"
  shows "proto_decodeFrame h c a = (proto_COMPLETED, cmd, frame_data (priv_frame h), h\<lparr>priv_nbBytes := 0\<rparr>)"
proof -
  have c: "command (priv_frame h) = ucast cmd" "getFrameCRC (priv_frame h) = crc8_field (priv_frame h)"
    using assms(1) by (simp_all add: proto_makeFrame_def Let_def getFrameCRC_def)
  have "\<not> priv_nbBytes h < proto_ARGS_OFFSET" using assms(3) by (simp add: less_word_nat)
  then show ?thesis using c assms(2,3) by (simp add: proto_decodeFrame_def Let_def)
qed

text \<open>The slave's receiver after it refused a frame, with its own reply in the frame buffer.\<close>

definition emul_jammed :: "proto_Command \<Rightarrow> proto_dev_emulslave \<Rightarrow> bool" where
  "emul_jammed cmd s \<longleftrightarrow> emul_inv s \<and> priv_usMasterStkSize s = 0 \<and> priv_usSlaveStkSize s = 0
     \<and> priv_nbBytes (slaveThis s) = proto_ARGS_OFFSET + proto_getArgsSize cmd
     \<and> (\<exists>f args. priv_frame (slaveThis s) = snd (proto_makeFrame f proto_CMD_ERR_CRC args))"

text \<open>The master's stack has no room for a frame.\<close>

definition emul_clogged :: "proto_dev_emulslave \<Rightarrow> bool" where
  "emul_clogged s \<longleftrightarrow> emul_inv s \<and> 3 \<le> unat (priv_usMasterStkSize s)"

lemma emul_badcrc_write:
  assumes idle: "emul_idle s" and flag: "emul_flags s AND 1 \<noteq> 0"
    and cmd: "cmd \<in> {proto_CMD_SET, proto_CMD_GET}"
  shows "\<exists>f0 out s1. devemulslave_write (frame_sent f cmd args) s = Inr (0, s1)
        \<and> to_master s1 = frame_sent f0 proto_CMD_ERR_CRC out \<and> emul_inv s1
        \<and> emul_jammed cmd (to_master_take (length (to_master s1)) s1)
        \<and> registers s1 = registers s"
proof -
  define w where "w = frame_sent f cmd args"
  note uc = reg_cmd_ucast [OF cmd]
  have w: "wire w" "length w \<le> 5" "3 \<le> length w" and size: "unat (of_nat (length w) :: u16) = length w"
    using wire_frame_sent [OF uc] wire_length wire_sized by (simp_all add: w_def)
  have wcmd: "w ! 2 = ucast cmd" "w ! 1 = getCRC (drop 2 w)"
    unfolding w_def by (rule frame_sent_crc [OF uc])+
  have s: "emul_inv s" "priv_usMasterStkSize s = 0" "priv_usSlaveStkSize s = 0"
      "priv_nbBytes (slaveThis s) = 0"
    using idle by (simp_all add: emul_idle_def)
  define v where "v = w[1 := w ! 1 + 1]"
  have v: "wire v" "length v = length w" "v ! 1 \<noteq> getCRC (drop 2 v)"
    using w wcmd by (auto simp: v_def wire_def)
  define s1 where "s1 = s\<lparr>priv_masterStk := v @ drop (length w) (priv_masterStk s),
                          priv_usMasterStkSize := of_nat (length w)\<rparr>"
  have s1: "emul_inv s1" "to_slave s1 = v"
    using s w size v(2) by (simp_all add: s1_def emul_inv_def to_slave_def)
  have "(ucast (w ! 2) :: u32) < proto_LAST" using wcmd cmd uc by auto
  then have fr: "devemulslave_isFrame (w @ drop (length w) (priv_masterStk s)) (of_nat (length w)) = 0"
    by (rule isFrame_wire [OF w(1)])
  have start: "devemulslave_write w s = obind (proto_slave_main fake_bind (slaveThis s) s1)
        (\<lambda>(_, h, s2). Inr (0, s2\<lparr>slaveThis := h\<rparr>))"
    using flag w(3) by (simp add: emul_write_start [OF s(1,2) w(2)] s1_def fr v_def nth_append list_update_append)
  define s2 where "s2 = s1\<lparr>priv_usMasterStkSize := 0\<rparr>"
  define out where "out = mk_data (v ! 1) (getCRC (drop 2 v))"
  have "length (to_slave s1) \<le> 5" using s1 v w by simp
  then obtain h1 where rec: "received v h1"
    and main: "proto_slave_main fake_bind (slaveThis s) s1
         = obind (proto_writeFrame fake_bind h1 proto_CMD_ERR_CRC out s2) (\<lambda>(_, h3, s3). Inr (1, h3, s3))"
    using fake.slave_main_damaged [OF fake_bind_sel(2) s1(1) s(4) v(1,3) s1(2),
        unfolded to_slave_drained [OF s1(1)]] unfolding s2_def out_def by blast
  have s2: "emul_inv s2" "priv_usSlaveStkSize s2 = 0"
    using s1(1) s by (simp_all add: s2_def s1_def emul_inv_def)
  have rc: "ucast (ucast proto_CMD_ERR_CRC :: u8) = proto_CMD_ERR_CRC" by simp
  define u where "u = frame_sent (priv_frame h1) proto_CMD_ERR_CRC out"
  have u: "wire u" "length u \<le> 5" "unat (of_nat (length u) :: u16) = length u"
    using wire_frame_sent [OF rc] wire_length wire_sized by (simp_all add: u_def)
  define s3 where "s3 = s2\<lparr>priv_slaveStk := u @ drop (length u) (priv_slaveStk s2),
      priv_usSlaveStkSize := of_nat (length u),
      slaveThis := h1\<lparr>priv_frame := snd (proto_makeFrame (priv_frame h1) proto_CMD_ERR_CRC out)\<rparr>\<rparr>"
  have wr: "devemulslave_write w s = Inr (0, s3)"
    using fake_reply [OF s2 rc, of h1 out] by (simp add: start main s3_def u_def)
  have nb: "unat (priv_nbBytes h1) = length v" using received_nb [OF rec] .
  have "length v = 3 + unat (proto_getArgsSize cmd)"
    using wire_nth_2 [OF w(1)] v(2) wcmd(1) uc by (simp add: args_len_def)
  then have nb': "priv_nbBytes h1 = proto_ARGS_OFFSET + proto_getArgsSize cmd"
    using nb by (simp add: word_unat_eq_iff)
  have s3: "emul_inv s3" "to_master s3 = u"
    using s2 u nb v(2) w(2) by (simp_all add: s3_def emul_inv_def to_master_def)
  have "emul_jammed cmd (to_master_take (length (to_master s3)) s3)"
    using to_master_take_inv [OF s3(1), of "length u"] s3(2) u nb'
    by (auto simp: emul_jammed_def to_master_take_def s3_def s2_def)
  moreover have "registers s3 = registers s" by (simp add: s3_def s2_def s1_def)
  ultimately show ?thesis using wr s3 by (auto simp: w_def u_def)
qed

text \<open>
  The next request: a slave jammed by a set reads no byte of it, one jammed by a get reads one
  byte and takes its own reply for a request.
\<close>

definition damaged_stk :: "proto_dev_emulslave \<Rightarrow> bytes \<Rightarrow> bytes" where
  "damaged_stk s w = (let stk = w @ drop (length w) (priv_masterStk s) in
     if emul_flags s AND 1 \<noteq> 0 \<and> devemulslave_isFrame stk (of_nat (length w)) = 0
     then stk[1 := stk ! 1 + 1] else stk)"

lemma emul_jammed_set_write:
  assumes jam: "emul_jammed proto_CMD_SET s" and w: "wire w" "4 \<le> length w"
  shows "\<exists>s1. devemulslave_write w s = Inr (0, s1) \<and> to_master s1 = [] \<and> emul_clogged s1
     \<and> registers s1 = registers s"
proof -
  have w5: "length w \<le> 5" using wire_length [OF w(1)] by simp
  have inv: "emul_inv s" "priv_usMasterStkSize s = 0" "priv_usSlaveStkSize s = 0"
      "priv_nbBytes (slaveThis s) = 5"
    using jam by (simp_all add: emul_jammed_def proto_getArgsSize_def)
  define s1 where "s1 = s\<lparr>priv_masterStk := damaged_stk s w, priv_usMasterStkSize := of_nat (length w)\<rparr>"
  have s1: "emul_inv s1" "length (to_slave s1) = length w"
    using inv w5 wire_sized [OF w(1)] by (simp_all add: s1_def emul_inv_def to_slave_def damaged_stk_def Let_def)
  have start: "devemulslave_write w s = obind (proto_slave_main fake_bind (slaveThis s) s1)
        (\<lambda>(_, h, s2). Inr (0, s2\<lparr>slaveThis := h\<rparr>))"
    by (simp add: emul_write_start [OF inv(1,2) w5] s1_def damaged_stk_def Let_def)
  have "proto_slave_main fake_bind (slaveThis s) s1 = Inr (0, slaveThis s, to_slave_take 0 s1)"
    by (simp add: proto_slave_main_def proto_readFrame_def emul_fake_read [OF s1(1)] inv(4))
  then show ?thesis
    using to_slave_take_inv [OF s1(1), of 0] inv w wire_sized [OF w(1)]
    by (auto simp: start to_master_def to_slave_take_def emul_clogged_def s1_def emul_inv_def)
qed

lemma emul_jammed_get_write:
  assumes jam: "emul_jammed proto_CMD_GET s" and w: "wire w" "4 \<le> length w"
  shows "\<exists>f0 out s1. devemulslave_write w s = Inr (0, s1)
     \<and> to_master s1 = frame_sent f0 proto_CMD_ERR_ARG out \<and> emul_clogged s1
     \<and> registers s1 = registers s"
proof -
  have w5: "length w \<le> 5" using wire_length [OF w(1)] by simp
  obtain f args where inv: "emul_inv s" "priv_usMasterStkSize s = 0" "priv_usSlaveStkSize s = 0"
      "priv_nbBytes (slaveThis s) = 4" and fr: "priv_frame (slaveThis s) = snd (proto_makeFrame f proto_CMD_ERR_CRC args)"
    using jam by (auto simp: emul_jammed_def proto_getArgsSize_def)
  define s1 where "s1 = s\<lparr>priv_masterStk := damaged_stk s w, priv_usMasterStkSize := of_nat (length w)\<rparr>"
  have s1: "emul_inv s1" "length (to_slave s1) = length w"
    using inv w5 wire_sized [OF w(1)] by (simp_all add: s1_def emul_inv_def to_slave_def damaged_stk_def Let_def)
  have start: "devemulslave_write w s = obind (proto_slave_main fake_bind (slaveThis s) s1)
        (\<lambda>(_, h, s2). Inr (0, s2\<lparr>slaveThis := h\<rparr>))"
    by (simp add: emul_write_start [OF inv(1,2) w5] s1_def damaged_stk_def Let_def)
  have nb: "priv_nbBytes (slaveThis s) = proto_ARGS_OFFSET + proto_getArgsSize proto_CMD_ERR_CRC"
    using inv(4) by (simp add: proto_getArgsSize_def)
  have cmd: "ucast (command (priv_frame (slaveThis s))) = proto_CMD_ERR_CRC"
    using fr by (simp add: proto_makeFrame_def Let_def)
  define s2 where "s2 = to_slave_take 1 s1"
  have k1: "min (Suc 0) (length w) = 1" "min 1 (length w) = 1" using w(2) by simp_all
  obtain x where x: "take (Suc 0) (to_slave s1) = [x]"
    using s1(2) w(2) by (cases "to_slave s1") auto
  have push: "proto_pushToFrame (slaveThis s) [x] = Inr (0, slaveThis s)"
    by (rule push_full) (use nb cmd in simp_all)
  have rd: "proto_readFrame fake_bind (slaveThis s) (- 1) s1 = Inr (proto_NO_ERROR, slaveThis s, s2)"
    using push
    by (simp add: proto_readFrame_def emul_fake_read [OF s1(1)] s1(2) k1 inv(4) x s2_def buf_write_def buf_read_def)
  define out where "out = frame_data (priv_frame (slaveThis s))"
  define h2 where "h2 = slaveThis s\<lparr>priv_nbBytes := 0\<rparr>"
  have dec: "proto_decodeFrame (slaveThis s) 0 (mk_data 0 0) = (proto_COMPLETED, proto_CMD_ERR_CRC, out, h2)"
    using made_frame_decodes [OF fr _ nb] by (simp add: out_def h2_def)
  have s2: "emul_inv s2" "priv_usSlaveStkSize s2 = 0" "unat (priv_usMasterStkSize s2) = length w - 1"
    using to_slave_take_inv [OF s1(1), of 1] s1(2) w(2) inv size_minus [of 1 "of_nat (length w)"] wire_sized [OF w(1)]
    by (auto simp: s2_def to_slave_take_def s1_def)
  have cb: "devemulslave_callback proto_CMD_ERR_CRC out s2 = Inr (- 1, out, s2)"
    by (simp add: devemulslave_callback_def)
  define v where "v = frame_sent (priv_frame h2) proto_CMD_ERR_ARG out"
  have rc: "ucast (ucast proto_CMD_ERR_ARG :: u8) = proto_CMD_ERR_ARG" by simp
  have v: "wire v" "length v \<le> 5" "unat (of_nat (length v) :: u16) = length v"
    using wire_frame_sent [OF rc] wire_length wire_sized by (simp_all add: v_def)
  define s3 where "s3 = s2\<lparr>priv_slaveStk := v @ drop (length v) (priv_slaveStk s2),
      priv_usSlaveStkSize := of_nat (length v),
      slaveThis := h2\<lparr>priv_frame := snd (proto_makeFrame (priv_frame h2) proto_CMD_ERR_ARG out)\<rparr>\<rparr>"
  have "devemulslave_write w s = Inr (0, s3)"
    using fake_reply [OF s2(1,2) rc, of h2 out]
    by (simp add: start proto_slave_main_def rd dec cb s3_def v_def)
  moreover have "to_master s3 = v" "emul_clogged s3"
    using s2 v w(2) by (auto simp: s3_def emul_clogged_def emul_inv_def to_master_def h2_def)
  moreover have "registers s3 = registers s"
    by (simp add: s3_def s2_def s1_def to_slave_take_def)
  ultimately show ?thesis by (auto simp: v_def)
qed

lemma emul_clogged_write:
  assumes "emul_clogged s" "4 \<le> length w"
  shows "devemulslave_write w s = Inr (- 1, s)"
proof -
  have "unat (5 - priv_usMasterStkSize s) \<le> 2"
    using assms(1) by (auto simp: emul_clogged_def emul_inv_def unat_sub word_le_nat_alt)
  then show ?thesis using assms(2) by (simp add: devemulslave_write_def Let_def)
qed

lemma request_wire:
  "wire (frame_sent f (op_cmd x) (op_data x))" "4 \<le> length (frame_sent f (op_cmd x) (op_data x))"
  using wire_frame_sent [OF reg_cmd_ucast [OF op_cmd_cases]]
  by (auto, cases x) (simp_all add: frame_sent_eq length_args_of proto_getArgsSize_def)

lemma emul_writeFrame:
  assumes "priv_iodevice b = Some emul_dev" "devemulslave_write (frame_sent (priv_frame h) cmd args) s = Inr (r, s1)"
  shows "\<exists>h1. proto_writeFrame b h cmd args s = Inr (r, h1, s1) \<and> priv_nbBytes h1 = priv_nbBytes h"
  using assms by (simp add: writeFrame_sent)

lemma to_master_taken_clogged: "emul_clogged s \<Longrightarrow> emul_clogged (to_master_take (length (to_master s)) s)"
  using to_master_take_inv [of s "length (to_master s)"]
  by (auto simp: emul_clogged_def to_master_take_def)

lemma emul_clogged_run:
  assumes "priv_iodevice b = Some emul_dev" "emul_clogged s"
  shows "\<exists>h'. master_run b elapsed h s ops = Inr (replicate (length ops) (proto_ERR_SYS, None), h', s)"
proof (induction ops arbitrary: h)
  case (Cons x xs)
  obtain h1 where "proto_writeFrame b h (op_cmd x) (op_data x) s = Inr (- 1, h1, s)"
    using emul_writeFrame [OF assms(1) emul_clogged_write [OF assms(2) request_wire(2)]] by blast
  then have "master_step b elapsed h s x = Inr ((proto_ERR_SYS, None), h1, s)"
    by (rule master_step_refused) simp
  then show ?case using Cons.IH [of h1] by auto
qed simp

lemma emul_badcrc_step:
  assumes b: "priv_iodevice b = Some emul_dev" and h: "priv_nbBytes h = 0"
    and s: "emul_idle s" "emul_flags s AND 1 \<noteq> 0"
  shows "\<exists>h' s'. master_step b elapsed h s x = Inr ((proto_PEER_ERR_CRC, None), h', s')
     \<and> priv_nbBytes h' = 0 \<and> emul_jammed (op_cmd x) s' \<and> registers s' = registers s"
proof -
  obtain f0 out s1 where w: "devemulslave_write (frame_sent (priv_frame h) (op_cmd x) (op_data x)) s = Inr (0, s1)"
      "to_master s1 = frame_sent f0 proto_CMD_ERR_CRC out" "emul_inv s1"
      "emul_jammed (op_cmd x) (to_master_take (length (to_master s1)) s1)" "registers s1 = registers s"
    using emul_badcrc_write [OF s op_cmd_cases] by blast
  obtain h1 where h1: "proto_writeFrame b h (op_cmd x) (op_data x) s = Inr (0, h1, s1)" "priv_nbBytes h1 = 0"
    using emul_writeFrame [OF b w(1)] h by auto
  obtain data h' where "proto_master_readFrame b elapsed h1 (op_data x) s1
      = Inr (proto_PEER_ERR_CRC, data, h', to_master_take (length (to_master s1)) s1)" "priv_nbBytes h' = 0"
    using emul.master_readFrame_frame [OF b w(3) h1(2) _ w(2), of elapsed "op_data x"] by auto
  then show ?thesis
    using master_step_failed [OF h1(1), of elapsed proto_PEER_ERR_CRC data h'] w(4,5)
    by (auto simp: to_master_take_def)
qed

text \<open>The status of the request after a damaged one.\<close>

fun jammed_status :: "reg_op \<Rightarrow> proto_Status" where
  "jammed_status (Reg_set r v) = proto_TIMEOUT"
| "jammed_status (Reg_get r) = proto_INVALID_ARG"

lemma emul_jammed_step:
  assumes b: "priv_iodevice b = Some emul_dev" and h: "priv_nbBytes h = 0"
    and s: "emul_jammed (op_cmd x) s"
  shows "\<exists>h' s'. master_step b elapsed h s y = Inr ((jammed_status x, None), h', s')
     \<and> emul_clogged s' \<and> registers s' = registers s"
proof (cases x)
  case (Reg_get r)
  obtain f0 out s1 where w: "devemulslave_write (frame_sent (priv_frame h) (op_cmd y) (op_data y)) s = Inr (0, s1)"
      "to_master s1 = frame_sent f0 proto_CMD_ERR_ARG out" "emul_clogged s1" "registers s1 = registers s"
    using emul_jammed_get_write [OF _ request_wire] s Reg_get by fastforce
  have inv: "emul_inv s1" using w(3) by (simp add: emul_clogged_def)
  obtain h1 where h1: "proto_writeFrame b h (op_cmd y) (op_data y) s = Inr (0, h1, s1)" "priv_nbBytes h1 = 0"
    using emul_writeFrame [OF b w(1)] h by auto
  obtain data h' where "proto_master_readFrame b elapsed h1 (op_data y) s1
      = Inr (proto_INVALID_ARG, data, h', to_master_take (length (to_master s1)) s1)"
    using emul.master_readFrame_frame [OF b inv h1(2) _ w(2), of elapsed "op_data y"] by auto
  then show ?thesis
    using master_step_failed [OF h1(1), of elapsed proto_INVALID_ARG data h'] w(4) Reg_get
      to_master_taken_clogged [OF w(3)]
    by (auto simp: to_master_take_def)
next
  case (Reg_set r v)
  obtain s1 where w: "devemulslave_write (frame_sent (priv_frame h) (op_cmd y) (op_data y)) s = Inr (0, s1)"
      "to_master s1 = []" "emul_clogged s1" "registers s1 = registers s"
    using emul_jammed_set_write [OF _ request_wire] s Reg_set by fastforce
  have inv: "emul_inv s1" using w(3) by (simp add: emul_clogged_def)
  obtain h1 where h1: "proto_writeFrame b h (op_cmd y) (op_data y) s = Inr (0, h1, s1)"
    using emul_writeFrame [OF b w(1)] by auto
  have "proto_master_readFrame b elapsed h1 (op_data y) s1 = Inr (proto_TIMEOUT, op_data y, h1, to_master_take 0 s1)"
    by (rule emul.master_readFrame_nothing [OF b inv w(2)])
  then show ?thesis
    using master_step_failed [OF h1(1), of elapsed proto_TIMEOUT "op_data y" h1] w(2,4) Reg_set
      to_master_taken_clogged [OF w(3)]
    by (auto simp: to_master_take_def)
qed

lemma badcrc_run:
  assumes b: "priv_iodevice b = Some emul_dev" and h: "priv_nbBytes h = 0"
    and s: "emul_idle s" "emul_flags s AND 1 \<noteq> 0"
  shows "\<exists>h1 s1. master_run b elapsed h s [x] = Inr ([(proto_PEER_ERR_CRC, None)], h1, s1)
     \<and> registers s1 = registers s
     \<and> (\<exists>h2 s2. master_run b elapsed h1 (devemulslave_setFlags flags s1) (y # ops)
            = Inr ((jammed_status x, None) # replicate (length ops) (proto_ERR_SYS, None), h2, s2)
          \<and> registers s2 = registers s)"
proof -
  obtain h1 s1 where one: "master_step b elapsed h s x = Inr ((proto_PEER_ERR_CRC, None), h1, s1)"
      "priv_nbBytes h1 = 0" "emul_jammed (op_cmd x) s1" "registers s1 = registers s"
    using emul_badcrc_step [OF assms] by blast
  have "emul_jammed (op_cmd x) (devemulslave_setFlags flags s1)"
    using one(3) by (simp add: emul_jammed_def emul_inv_def devemulslave_setFlags_def getArgsSize_le)
  from emul_jammed_step [OF b one(2) this, of elapsed y]
  obtain h2 s2 where two: "master_step b elapsed h1 (devemulslave_setFlags flags s1) y
        = Inr ((jammed_status x, None), h2, s2)"
      "emul_clogged s2" "registers s2 = registers s"
    using one(4) by (auto simp: devemulslave_setFlags_def)
  from emul_clogged_run [OF b two(2), of elapsed h2 ops] show ?thesis
    using one two by (auto simp del: jammed_status.simps)
qed

text \<open>C13: with the flag that damages the master's frames, a request is answered with the
  checksum error and no register changes; but the slave never recovers from that one frame:
  even when the flag is cleared at once, the next request times out (after a set) or is refused
  for its argument (after a get), and every later one fails as a system error.\<close>

theorem badcrc_disables_emulated_slave:
  assumes "devemulslave_create True True True True = Inr s"
    and "proto_master_create True (Some emul_dev) = Inr (b, h)"
    and "flags AND EMULSLAVE_FLAG_MASTER_BADCRC \<noteq> 0"
  shows "\<exists>h1 s1 h2 s2.
       master_run b elapsed h (devemulslave_setFlags flags s) [x] = Inr ([(proto_PEER_ERR_CRC, None)], h1, s1)
     \<and> devemulslave_getRegisters s1 = replicate 20 0
     \<and> master_run b elapsed h1 (devemulslave_setFlags 0 s1) (y # ops)
          = Inr ((jammed_status x, None) # replicate (length ops) (proto_ERR_SYS, None), h2, s2)
     \<and> devemulslave_getRegisters s2 = replicate 20 0"
proof -
  have bh: "priv_iodevice b = Some emul_dev" "priv_nbBytes h = 0"
    using assms(2) by (auto simp: proto_master_create_def proto_create_def proto_init_def)
  have regs: "registers (devemulslave_setFlags flags s) = replicate 20 0"
    using assms(1) by (auto simp: devemulslave_create_def devemulslave_init_def proto_slave_create_def
        proto_create_def devemulslave_setFlags_def)
  have "emul_idle (devemulslave_setFlags flags s)"
      "emul_flags (devemulslave_setFlags flags s) AND EMULSLAVE_FLAG_MASTER_BADCRC \<noteq> 0"
    using emul_created [OF assms(1)] assms(3)
    by (simp_all add: emul_ready_def emul_idle_def emul_inv_def devemulslave_setFlags_def)
  from badcrc_run [OF bh this, of elapsed x 0 y ops] regs show ?thesis
    by (auto simp: devemulslave_getRegisters_def)
qed

lemma badcrc_disables_emulated_slave_witness:
  "\<exists>s h1 s1 h2 s2. devemulslave_create True True True True = Inr s
     \<and> master_run \<lparr>priv_callback = None, priv_iodevice = Some emul_dev\<rparr> (\<lambda>_. 0) proto_init
           (devemulslave_setFlags 1 s) [Reg_set 3 7] = Inr ([(proto_PEER_ERR_CRC, None)], h1, s1)
     \<and> master_run \<lparr>priv_callback = None, priv_iodevice = Some emul_dev\<rparr> (\<lambda>_. 0) h1
           (devemulslave_setFlags 0 s1) [Reg_get 3, Reg_get 3]
         = Inr ([(proto_TIMEOUT, None), (proto_ERR_SYS, None)], h2, s2)"
proof -
  obtain s where s: "devemulslave_create True True True True = Inr s" using emul_create_ok by blast
  show ?thesis
    using badcrc_disables_emulated_slave [OF s, of "\<lparr>priv_callback = None, priv_iodevice = Some emul_dev\<rparr>"
        proto_init 1 "\<lambda>_. 0" "Reg_set 3 7" "Reg_get 3" "[Reg_get 3]"] s
    by (auto simp: proto_master_create_def proto_create_def)
qed

end
