(* ===== verification/Ring.thy ===== *)
theory Ring
  imports Prelude
begin

text \<open>
  What the two ring buffers of the repository share: the list held between the two positions of
  a ring of slots, and the contract of a queue that takes elements at one end while it has room
  and gives them back at the other in the same order.
\<close>

section \<open>The list between two positions\<close>

definition ring_list :: "nat \<Rightarrow> nat \<Rightarrow> 'a list \<Rightarrow> 'a list" where
  "ring_list b e buf = (if b \<le> e then drop b (take e buf) else drop b buf @ take e buf)"

abbreviation ring_next :: "nat \<Rightarrow> nat \<Rightarrow> nat" where
  "ring_next n i \<equiv> (if Suc i = n then 0 else Suc i)"

lemma ring_list_empty [simp]: "ring_list b b buf = []"
  by (simp add: ring_list_def)

lemma length_ring_list:
  "b < length buf \<Longrightarrow> e < length buf \<Longrightarrow>
     length (ring_list b e buf) = (if b \<le> e then e - b else length buf - b + e)"
  by (simp add: ring_list_def)

lemma ring_list_Nil_iff: "b < length buf \<Longrightarrow> e < length buf \<Longrightarrow> ring_list b e buf = [] \<longleftrightarrow> b = e"
  by (auto simp: ring_list_def)

lemma ring_list_capacity:
  "b < length buf \<Longrightarrow> e < length buf \<Longrightarrow> length (ring_list b e buf) < length buf"
  by (auto simp: length_ring_list)

lemma ring_full_iff:
  "b < length buf \<Longrightarrow> e < length buf \<Longrightarrow>
     ring_next (length buf) e = b \<longleftrightarrow> Suc (length (ring_list b e buf)) = length buf"
  by (auto simp: length_ring_list)

lemma ring_push:
  assumes "b < length buf" "e < length buf" "ring_next (length buf) e \<noteq> b"
  shows "ring_list b (ring_next (length buf) e) (buf[e := x]) = ring_list b e buf @ [x]"
proof -
  have upd: "take (Suc e) (buf[e := x]) = take e buf @ [x]"
    using assms(2) by (simp add: take_Suc_conv_app_nth)
  show ?thesis
  proof (cases "b \<le> e")
    case True
    moreover have "drop b (buf[e := x]) = drop b (take e buf) @ [x]" if "Suc e = length buf"
      using upd that assms by (simp add: ring_list_def)
    ultimately show ?thesis using assms upd by (auto simp: ring_list_def split: if_splits)
  next
    case False
    then show ?thesis using assms upd by (auto simp: ring_list_def)
  qed
qed

lemma ring_pop:
  assumes "b < length buf" "e < length buf" "b \<noteq> e"
  shows "ring_list b e buf = buf ! b # ring_list (ring_next (length buf) b) e buf"
proof -
  have "drop b (take e buf) = buf ! b # drop (Suc b) (take e buf)" if "b < e"
    using that assms Cons_nth_drop_Suc [of b "take e buf"] by simp
  moreover have "drop b buf = buf ! b # drop (Suc b) buf"
    using assms Cons_nth_drop_Suc [of b buf] by simp
  ultimately show ?thesis using assms by (auto simp: ring_list_def)
qed
lemma ring_push_full: "ring_next n e = b \<Longrightarrow> ring_list b (ring_next n e) buf = []"
  by simp

section \<open>Queues\<close>

fun ofold :: "('a \<Rightarrow> 's \<Rightarrow> 's outcome) \<Rightarrow> 'a list \<Rightarrow> 's \<Rightarrow> 's outcome" where
  "ofold f [] s = Inr s"
| "ofold f (x # xs) s = obind (f x s) (ofold f xs)"

fun orepeat :: "nat \<Rightarrow> ('s \<Rightarrow> ('a \<times> 's) outcome) \<Rightarrow> 's \<Rightarrow> ('a list \<times> 's) outcome" where
  "orepeat 0 f s = Inr ([], s)"
| "orepeat (Suc n) f s =
     obind (f s) (\<lambda>(x, s1). obind (orepeat n f s1) (\<lambda>(xs, s2). Inr (x # xs, s2)))"

lemma ofold_append: "ofold f (xs @ ys) s = obind (ofold f xs s) (ofold f ys)"
proof (induction xs arbitrary: s)
  case (Cons x xs)
  then show ?case by (cases "f x s") simp_all
qed simp

text \<open>\<open>keep\<close> is what the queue keeps of an element (all of it, or a part).\<close>

locale fifo_queue =
  fixes enq :: "'a \<Rightarrow> 'q \<Rightarrow> 'q outcome"
    and deq :: "'q \<Rightarrow> ('b \<times> 'q) outcome"
    and keep :: "'a \<Rightarrow> 'b"
    and items :: "'q \<Rightarrow> 'b list"
    and cap :: "'q \<Rightarrow> nat"
    and inv :: "'q \<Rightarrow> bool"
  assumes enq_room: "\<lbrakk>inv q; length (items q) < cap q\<rbrakk> \<Longrightarrow>
      \<exists>q'. enq x q = Inr q' \<and> inv q' \<and> items q' = items q @ [keep x] \<and> cap q' = cap q"
    and deq_first: "\<lbrakk>inv q; items q = y # ys\<rbrakk> \<Longrightarrow>
      \<exists>q'. deq q = Inr (y, q') \<and> inv q' \<and> items q' = ys \<and> cap q' = cap q"

context fifo_queue
begin

lemma enq_all:
  "\<lbrakk>inv q; length (items q) + length xs \<le> cap q\<rbrakk> \<Longrightarrow>
     \<exists>q'. ofold enq xs q = Inr q' \<and> inv q' \<and> items q' = items q @ map keep xs \<and> cap q' = cap q"
proof (induction xs arbitrary: q)
  case (Cons x xs)
  then obtain q1 where "enq x q = Inr q1" "inv q1" "items q1 = items q @ [keep x]" "cap q1 = cap q"
    using enq_room [of q x] by auto
  with Cons.IH [of q1] Cons.prems show ?case by auto
qed simp

lemma deq_all:
  "\<lbrakk>inv q; items q = xs @ ys\<rbrakk> \<Longrightarrow>
     \<exists>q'. orepeat (length xs) deq q = Inr (xs, q') \<and> inv q' \<and> items q' = ys \<and> cap q' = cap q"
proof (induction xs arbitrary: q)
  case (Cons x xs)
  then obtain q1 where "deq q = Inr (x, q1)" "inv q1" "items q1 = xs @ ys" "cap q1 = cap q"
    using deq_first [of q x "xs @ ys"] by auto
  with Cons.IH [of q1] show ?case by auto
qed simp

text \<open>First in, first out.\<close>

lemma enq_deq_all:
  assumes "inv q" "length (items q) + length xs \<le> cap q"
  shows "\<exists>q' q''. ofold enq xs q = Inr q'
     \<and> orepeat (length (items q) + length xs) deq q' = Inr (items q @ map keep xs, q'')
     \<and> inv q'' \<and> items q'' = []"
proof -
  obtain q' where q': "ofold enq xs q = Inr q'" "inv q'" "items q' = (items q @ map keep xs) @ []"
    using enq_all [OF assms] by auto
  from deq_all [OF q'(2,3)] q'(1) show ?thesis by auto
qed

end

end
