(* ===== verification/DevStm32.thy ===== *)
theory DevStm32
  imports ProtoSlave Ring
begin

text \<open>
  The device of the board, \<open>dllCom/libcomm/devices/device_stm32.c\<close>: received bytes wait in a
  ring of forty slots, sent bytes go to the USB stack's \<open>CDC_Transmit_FS\<close>.
\<close>

section \<open>State and operations\<close>

abbreviation (input) STM32_FIFO_MAX_SIZE :: nat where "STM32_FIFO_MAX_SIZE \<equiv> 40"

record proto_dev_stm32 =
  fifo_buffer :: bytes
  fifo_begin :: u8
  fifo_end :: u8

definition push_byte :: "u8 \<Rightarrow> proto_dev_stm32 \<Rightarrow> proto_dev_stm32 outcome" where
  "push_byte v self =
     obind (buf_write (unat (fifo_end self)) [v] (fifo_buffer self)) (\<lambda>buf.
     let e = fifo_end self + 1 in
     Inr (self\<lparr>fifo_buffer := buf, fifo_end := (if unat e = STM32_FIFO_MAX_SIZE then 0 else e)\<rparr>))"

definition pop_byte :: "proto_dev_stm32 \<Rightarrow> (u8 \<times> proto_dev_stm32) outcome" where
  "pop_byte self =
     obind (buf_read (unat (fifo_begin self)) 1 (fifo_buffer self)) (\<lambda>vs.
     let b = fifo_begin self + 1 in
     Inr (hd vs, self\<lparr>fifo_begin := (if unat b = STM32_FIFO_MAX_SIZE then 0 else b)\<rparr>))"

text \<open>
  The device works on a state that holds its data and the USB stack, whose \<open>CDC_Transmit_FS\<close> is
  an argument here (the library declares it \<open>extern\<close>); other parts of the state may follow.
\<close>

record 'u stm32_state =
  stm32_user :: proto_dev_stm32
  stm32_usb :: 'u

type_synonym 'u transmit_fs = "bytes \<Rightarrow> 'u \<Rightarrow> (u8 \<times> 'u) outcome"

definition fifo_reset :: proto_dev_stm32 where
  "fifo_reset = \<lparr>fifo_buffer = replicate STM32_FIFO_MAX_SIZE 0, fifo_begin = 0, fifo_end = 0\<rparr>"

definition devstm32_open :: "string \<Rightarrow> ('u, 'z) stm32_state_scheme \<Rightarrow> (int \<times> ('u, 'z) stm32_state_scheme) outcome"
where
  "devstm32_open szPath s = Inr (0, s\<lparr>stm32_user := fifo_reset\<rparr>)"

definition devstm32_close :: "('u, 'z) stm32_state_scheme \<Rightarrow> (int \<times> ('u, 'z) stm32_state_scheme) outcome" where
  "devstm32_close s = Inr (0, s)"

definition devstm32_destroy :: "('u, 'z) stm32_state_scheme \<Rightarrow> ('u, 'z) stm32_state_scheme outcome" where
  "devstm32_destroy s = obind (devstm32_close s) (\<lambda>(_, s'). Inr s')"

text \<open>The loop of the read; \<open>n\<close> is \<open>bufferSize - i\<close>.\<close>

fun stm32_read_loop :: "nat \<Rightarrow> proto_dev_stm32 \<Rightarrow> (bytes \<times> proto_dev_stm32) outcome" where
  "stm32_read_loop 0 self = Inr ([], self)"
| "stm32_read_loop (Suc n) self =
     (if fifo_begin self \<noteq> fifo_end self then
        obind (pop_byte self) (\<lambda>(v, self1).
        obind (stm32_read_loop n self1) (\<lambda>(vs, self2). Inr (v # vs, self2)))
      else Inr ([], self))"

definition devstm32_read ::
  "u8 \<Rightarrow> int \<Rightarrow> ('u, 'z) stm32_state_scheme \<Rightarrow> (int \<times> bytes \<times> ('u, 'z) stm32_state_scheme) outcome"
where
  "devstm32_read bufferSize tout_ms s =
     obind (stm32_read_loop (unat bufferSize) (stm32_user s)) (\<lambda>(bs, self).
       Inr (int (length bs), bs, s\<lparr>stm32_user := self\<rparr>))"

abbreviation (input) USBD_OK :: u8 where "USBD_OK \<equiv> 0"

definition devstm32_write ::
  "'u transmit_fs \<Rightarrow> bytes \<Rightarrow> ('u, 'z) stm32_state_scheme \<Rightarrow> (int \<times> ('u, 'z) stm32_state_scheme) outcome"
where
  "devstm32_write transmit bs s =
     obind (transmit bs (stm32_usb s)) (\<lambda>(r, u).
       Inr (if r \<noteq> USBD_OK then - 1 else 0, s\<lparr>stm32_usb := u\<rparr>))"

definition stm32_dev :: "'u transmit_fs \<Rightarrow> ('u, 'z) stm32_state_scheme iodevice" where
  "stm32_dev transmit =
     \<lparr>dev_open = devstm32_open, dev_close = devstm32_close, dev_destroy = devstm32_destroy,
      dev_read = devstm32_read, dev_write = devstm32_write transmit\<rparr>"

definition devstm32_init :: "'u transmit_fs \<Rightarrow> ('u, 'z) stm32_state_scheme \<Rightarrow>
    (('u, 'z) stm32_state_scheme iodevice \<times> ('u, 'z) stm32_state_scheme) outcome"
where
  "devstm32_init transmit s =
     obind (devstm32_open [] s) (\<lambda>(_, s'). Inr (stm32_dev transmit, s'))"

text \<open>Neither of the two allocations is looked at before it is written through.\<close>

definition devstm32_create :: "bool \<Rightarrow> bool \<Rightarrow> 'u transmit_fs \<Rightarrow> ('u, 'z) stm32_state_scheme \<Rightarrow>
    (('u, 'z) stm32_state_scheme iodevice \<times> ('u, 'z) stm32_state_scheme) outcome"
where
  "devstm32_create malloc_dev malloc_user transmit s =
     (if \<not> malloc_dev then Inl Null_deref
      else if \<not> malloc_user then Inl Null_deref
      else devstm32_init transmit s)"

definition devstm32_pushBytes ::
  "bytes \<Rightarrow> u8 \<Rightarrow> ('u, 'z) stm32_state_scheme \<Rightarrow> ('u, 'z) stm32_state_scheme outcome"
where
  "devstm32_pushBytes bs nbBytes s =
     obind (buf_read 0 (unat nbBytes) bs) (\<lambda>bs'.
     obind (ofold push_byte bs' (stm32_user s)) (\<lambda>self. Inr (s\<lparr>stm32_user := self\<rparr>)))"

section \<open>The ring holds a queue\<close>

definition fifo_inv :: "proto_dev_stm32 \<Rightarrow> bool" where
  "fifo_inv q \<longleftrightarrow> length (fifo_buffer q) = 40 \<and> unat (fifo_begin q) < 40 \<and> unat (fifo_end q) < 40"

definition fifo_items :: "proto_dev_stm32 \<Rightarrow> bytes" where
  "fifo_items q = ring_list (unat (fifo_begin q)) (unat (fifo_end q)) (fifo_buffer q)"

lemma index_next:
  fixes i :: u8
  assumes "unat i < 40"
  shows "unat (if unat (i + 1) = 40 then 0 else i + 1) = ring_next 40 (unat i)"
proof -
  have "unat (i + 1) = Suc (unat i)" using assms by (simp add: unat_word_ariths)
  then show ?thesis by simp
qed

lemma push_byte_spec:
  assumes "fifo_inv q"
  shows "\<exists>q'. push_byte v q = Inr q' \<and> fifo_inv q'
     \<and> fifo_items q' = (if length (fifo_items q) < 39 then fifo_items q @ [v] else [])"
proof -
  let ?e = "unat (fifo_end q)" and ?b = "unat (fifo_begin q)"
  define q' where "q' = q\<lparr>fifo_buffer := (fifo_buffer q)[?e := v],
      fifo_end := (if unat (fifo_end q + 1) = 40 then 0 else fifo_end q + 1)\<rparr>"
  have i: "length (fifo_buffer q) = 40" "?b < 40" "?e < 40" using assms by (simp_all add: fifo_inv_def)
  have e': "unat (fifo_end q') = ring_next 40 ?e" unfolding q'_def by (simp add: index_next [OF i(3)])
  have items': "fifo_items q' = ring_list ?b (ring_next 40 ?e) ((fifo_buffer q)[?e := v])"
    unfolding fifo_items_def e' by (simp add: q'_def)
  have "push_byte v q = Inr q'"
    using i by (simp add: push_byte_def buf_write_def q'_def Let_def upd_conv_take_nth_drop)
  moreover have "fifo_inv q'" using i e' by (auto simp: fifo_inv_def q'_def)
  moreover have "fifo_items q' = (if length (fifo_items q) < 39 then fifo_items q @ [v] else [])"
  proof (cases "ring_next 40 ?e = ?b")
    case True
    then have "\<not> length (fifo_items q) < 39"
      using ring_full_iff [of ?b "fifo_buffer q" ?e] i by (simp add: fifo_items_def)
    then show ?thesis using True unfolding items' by simp
  next
    case False
    then have "length (fifo_items q) < 39"
      using ring_full_iff [of ?b "fifo_buffer q" ?e] ring_list_capacity [of ?b "fifo_buffer q" ?e] i
      by (simp add: fifo_items_def)
    then show ?thesis
      using ring_push [of ?b "fifo_buffer q" ?e v] i False unfolding items' by (simp add: fifo_items_def)
  qed
  ultimately show ?thesis by blast
qed

lemma pop_byte_spec:
  assumes "fifo_inv q" "fifo_begin q \<noteq> fifo_end q"
  shows "\<exists>q'. pop_byte q = Inr (hd (fifo_items q), q') \<and> fifo_inv q' \<and> fifo_items q' = tl (fifo_items q)"
proof -
  let ?e = "unat (fifo_end q)" and ?b = "unat (fifo_begin q)"
  define q' where "q' = q\<lparr>fifo_begin := (if unat (fifo_begin q + 1) = 40 then 0 else fifo_begin q + 1)\<rparr>"
  have i: "length (fifo_buffer q) = 40" "?b < 40" "?e < 40" using assms by (simp_all add: fifo_inv_def)
  have b': "unat (fifo_begin q') = ring_next 40 ?b" unfolding q'_def by (simp add: index_next [OF i(2)])
  have ne: "?b \<noteq> ?e" using assms(2) by (simp add: word_unat_eq_iff)
  have items: "fifo_items q = fifo_buffer q ! ?b # ring_list (ring_next 40 ?b) ?e (fifo_buffer q)"
    unfolding fifo_items_def using ring_pop [of ?b "fifo_buffer q" ?e] ne i by simp
  have items': "fifo_items q' = ring_list (ring_next 40 ?b) ?e (fifo_buffer q)"
    unfolding fifo_items_def b' by (simp add: q'_def)
  have "pop_byte q = Inr (fifo_buffer q ! ?b, q')"
    using i by (simp add: pop_byte_def buf_read_def q'_def Let_def take_Suc hd_drop_conv_nth)
  moreover have "fifo_inv q'" using i b' by (auto simp: fifo_inv_def q'_def)
  ultimately show ?thesis
    by (intro exI [of _ q']) (simp only: items items' list.sel simp_thms)
qed

lemma fifo_items_Nil_iff: "fifo_inv q \<Longrightarrow> fifo_items q = [] \<longleftrightarrow> fifo_begin q = fifo_end q"
  by (simp add: fifo_items_def fifo_inv_def ring_list_Nil_iff word_unat_eq_iff)

lemma fifo_reset_inv [simp]: "fifo_inv fifo_reset" "fifo_items fifo_reset = []"
  by (simp_all add: fifo_reset_def fifo_inv_def fifo_items_def)

interpretation stm32_fifo: fifo_queue push_byte pop_byte "\<lambda>v. v" fifo_items "\<lambda>_. 39" fifo_inv
proof
  fix q x
  assume "fifo_inv q" "length (fifo_items q) < 39"
  then show "\<exists>q'. push_byte x q = Inr q' \<and> fifo_inv q' \<and> fifo_items q' = fifo_items q @ [x] \<and> 39 = 39"
    using push_byte_spec [of q x] by simp
next
  fix q x xs
  assume "fifo_inv q" "fifo_items q = x # xs"
  then show "\<exists>q'. pop_byte q = Inr (x, q') \<and> fifo_inv q' \<and> fifo_items q' = xs \<and> 39 = 39"
    using pop_byte_spec [of q] fifo_items_Nil_iff [of q] by auto
qed

text \<open>The ring keeps no count of what it holds: every fortieth byte wipes it.\<close>

lemma push_all_spec:
  "fifo_inv q \<Longrightarrow> \<exists>q'. ofold push_byte bs q = Inr q' \<and> fifo_inv q'
     \<and> fifo_items q' = (let t = length (fifo_items q) + length bs in drop (t - t mod 40) (fifo_items q @ bs))"
proof (induction bs rule: rev_induct)
  case Nil
  then have "length (fifo_items q) < 40"
    using ring_list_capacity [of "unat (fifo_begin q)" "fifo_buffer q" "unat (fifo_end q)"]
    by (simp add: fifo_inv_def fifo_items_def)
  then show ?case using Nil by simp
next
  case (snoc v bs)
  define t where "t = length (fifo_items q) + length bs"
  obtain q1 where q1: "ofold push_byte bs q = Inr q1" "fifo_inv q1"
      "fifo_items q1 = drop (t - t mod 40) (fifo_items q @ bs)"
    using snoc by (auto simp: t_def Let_def)
  have l: "length (fifo_items q1) = t mod 40" using q1(3) by (simp add: t_def)
  obtain q2 where q2: "push_byte v q1 = Inr q2" "fifo_inv q2"
      "fifo_items q2 = (if length (fifo_items q1) < 39 then fifo_items q1 @ [v] else [])"
    using push_byte_spec [OF q1(2), of v] by blast
  have "fifo_items q2 = drop (Suc t - Suc t mod 40) (fifo_items q @ bs @ [v])"
  proof (cases "t mod 40 = 39")
    case True
    then have "Suc t mod 40 = 0" by (simp add: mod_Suc)
    then show ?thesis using q2(3) l True by (simp add: t_def)
  next
    case False
    then have "Suc t mod 40 = Suc (t mod 40)" by (simp add: mod_Suc)
    moreover have "t mod 40 < 39" using False mod_less_divisor [of 40 t] by linarith
    moreover have "t - t mod 40 - (length (fifo_items q) + length bs) = 0" by (simp add: t_def)
    ultimately show ?thesis using q2(3) l q1(3) by (simp add: t_def)
  qed
  then show ?case using q1(1) q2(1,2) by (auto simp: ofold_append t_def Let_def)
qed

section \<open>The contract of the device\<close>

lemma read_loop_spec:
  "fifo_inv q \<Longrightarrow> \<exists>q'. stm32_read_loop n q = Inr (take n (fifo_items q), q') \<and> fifo_inv q'
     \<and> fifo_items q' = drop n (fifo_items q)"
proof (induction n arbitrary: q)
  case (Suc n)
  show ?case
  proof (cases "fifo_begin q = fifo_end q")
    case True
    then have "fifo_items q = []" using Suc.prems fifo_items_Nil_iff by blast
    then show ?thesis using True Suc.prems by simp
  next
    case False
    obtain q1 where q1: "pop_byte q = Inr (hd (fifo_items q), q1)" "fifo_inv q1"
        "fifo_items q1 = tl (fifo_items q)"
      using pop_byte_spec [OF Suc.prems False] by blast
    obtain x xs where "fifo_items q = x # xs"
      using False fifo_items_Nil_iff [OF Suc.prems] by (cases "fifo_items q") auto
    then show ?thesis using Suc.IH [OF q1(2)] q1 False by auto
  qed
qed simp

text \<open>The state after \<open>k\<close> bytes were read.\<close>

definition stm32_take :: "nat \<Rightarrow> ('u, 'z) stm32_state_scheme \<Rightarrow> ('u, 'z) stm32_state_scheme" where
  "stm32_take k s = (case stm32_read_loop k (stm32_user s) of
      Inl _ \<Rightarrow> s | Inr (_, q) \<Rightarrow> s\<lparr>stm32_user := q\<rparr>)"

abbreviation stm32_inv :: "('u, 'z) stm32_state_scheme \<Rightarrow> bool" where
  "stm32_inv s \<equiv> fifo_inv (stm32_user s)"

abbreviation stm32_pending :: "('u, 'z) stm32_state_scheme \<Rightarrow> bytes" where
  "stm32_pending s \<equiv> fifo_items (stm32_user s)"

lemma read_loop_min:
  "fifo_inv q \<Longrightarrow> stm32_read_loop n q = stm32_read_loop (min n (length (fifo_items q))) q"
proof (induction n arbitrary: q)
  case (Suc n)
  show ?case
  proof (cases "fifo_begin q = fifo_end q")
    case True
    then have "fifo_items q = []" using Suc.prems fifo_items_Nil_iff by blast
    then show ?thesis using True Suc.prems by simp
  next
    case False
    obtain q1 where q1: "pop_byte q = Inr (hd (fifo_items q), q1)" "fifo_inv q1"
        "fifo_items q1 = tl (fifo_items q)"
      using pop_byte_spec [OF Suc.prems False] by blast
    obtain x xs where x: "fifo_items q = x # xs"
      using False fifo_items_Nil_iff [OF Suc.prems] by (cases "fifo_items q") auto
    then show ?thesis using Suc.IH [OF q1(2)] q1 False by simp
  qed
qed simp

lemma stm32_taken:
  assumes "stm32_inv s"
  shows "stm32_inv (stm32_take k s)" "stm32_pending (stm32_take k s) = drop k (stm32_pending s)"
  using read_loop_spec [OF assms, of k] by (auto simp: stm32_take_def)

lemma stm32_take_user: "\<exists>q. stm32_take k s = s\<lparr>stm32_user := q\<rparr>"
proof (cases "stm32_read_loop k (stm32_user s)")
  case (Inl e)
  then show ?thesis by (intro exI [of _ "stm32_user s"]) (simp add: stm32_take_def)
qed (auto simp: stm32_take_def)

lemma stm32_read:
  assumes "stm32_inv s"
  shows "devstm32_read n t s = Inr (int (min (unat n) (length (stm32_pending s))),
           take (unat n) (stm32_pending s), stm32_take (min (unat n) (length (stm32_pending s))) s)"
  using read_loop_spec [OF assms, of "unat n"] read_loop_min [OF assms, of "unat n"]
  by (auto simp: devstm32_read_def stm32_take_def min.commute)

lemma stm32_dev_sel [simp]:
  "dev_read (stm32_dev transmit) = devstm32_read" "dev_write (stm32_dev transmit) = devstm32_write transmit"
  "dev_open (stm32_dev transmit) = devstm32_open"
  by (simp_all add: stm32_dev_def)

interpretation stm32: rx_fifo "stm32_dev transmit" stm32_inv stm32_pending stm32_take for transmit
  by unfold_locales (simp_all add: stm32_read stm32_taken)

end
