(* ===== verification/LibTests.thy ===== *)
theory LibTests
  imports EmulSlave DevStm32
begin

text \<open>
  The test programs of the library, \<open>libcomm-emulslave-test/main.c\<close> and \<open>libcomm-devstm32-test/main.c\<close>, over the
  models of the devices they test: every assertion of theirs holds, for any clock and any USB stack.
\<close>

section \<open>The emulated slave\<close>

text \<open>The master's handle and the emulated slave, whose registers the tests also reach directly.\<close>

type_synonym emul_test = "proto_hdle \<times> proto_dev_emulslave"

definition test_set_NO_ERROR :: "proto_dev_emulslave proto_bind \<Rightarrow> (nat \<Rightarrow> int) \<Rightarrow> emul_test \<Rightarrow> emul_test outcome" where
  "test_set_NO_ERROR b clk = (\<lambda>(h, s).
     obind (proto_master_set b clk h 5 167 (s\<lparr>registers := replicate EMULSLAVE_NB_REGS 0\<rparr>)) (\<lambda>(status, h1, s1).
     obind (oassert (status = proto_NO_ERROR)) (\<lambda>_.
     obind (oassert (devemulslave_getRegisters s1 ! 5 = 167)) (\<lambda>_. Inr (h1, s1)))))"

definition test_set_INVALID_REGISTER :: "proto_dev_emulslave proto_bind \<Rightarrow> (nat \<Rightarrow> int) \<Rightarrow> emul_test \<Rightarrow> emul_test outcome" where
  "test_set_INVALID_REGISTER b clk = (\<lambda>(h, s).
     obind (proto_master_set b clk h (of_nat EMULSLAVE_NB_REGS) 167 s) (\<lambda>(status, h1, s1).
     obind (oassert (status = proto_INVALID_ARG)) (\<lambda>_. Inr (h1, s1))))"

definition test_get_NO_ERROR :: "proto_dev_emulslave proto_bind \<Rightarrow> (nat \<Rightarrow> int) \<Rightarrow> emul_test \<Rightarrow> emul_test outcome" where
  "test_get_NO_ERROR b clk = (\<lambda>(h, s).
     obind (proto_master_get b clk h 18 0 (s\<lparr>registers := (registers s)[18 := 234]\<rparr>)) (\<lambda>(status, v, h1, s1).
     obind (oassert (status = proto_NO_ERROR)) (\<lambda>_.
     obind (oassert (v = devemulslave_getRegisters s1 ! 18)) (\<lambda>_. Inr (h1, s1)))))"

definition test_get_INVALID_REGISTER :: "proto_dev_emulslave proto_bind \<Rightarrow> (nat \<Rightarrow> int) \<Rightarrow> emul_test \<Rightarrow> emul_test outcome" where
  "test_get_INVALID_REGISTER b clk = (\<lambda>(h, s).
     obind (proto_master_get b clk h (of_nat EMULSLAVE_NB_REGS) 0 s) (\<lambda>(status, v, h1, s1).
     obind (oassert (status = proto_INVALID_ARG)) (\<lambda>_.
     obind (oassert (v = 0)) (\<lambda>_. Inr (h1, s1)))))"

definition test_crc :: "proto_dev_emulslave proto_bind \<Rightarrow> (nat \<Rightarrow> int) \<Rightarrow> emul_test \<Rightarrow> emul_test outcome" where
  "test_crc b clk = (\<lambda>(h, s).
     obind (proto_master_set b clk h 18 0 (devemulslave_setFlags EMULSLAVE_FLAG_MASTER_BADCRC s)) (\<lambda>(status, h1, s1).
     obind (oassert (status = proto_PEER_ERR_CRC)) (\<lambda>_. Inr (h1, s1))))"

definition emulslave_test_main :: "(nat \<Rightarrow> int) \<Rightarrow> unit outcome" where
  "emulslave_test_main clk =
     obind (devemulslave_create True True True True) (\<lambda>s0.
     obind (proto_master_create True (Some emul_dev)) (\<lambda>(b, h0).
     obind (test_set_NO_ERROR b clk (h0, s0)) (\<lambda>t1.
     obind (test_set_INVALID_REGISTER b clk t1) (\<lambda>t2.
     obind (test_get_NO_ERROR b clk t2) (\<lambda>t3.
     obind (test_get_INVALID_REGISTER b clk t3) (\<lambda>t4.
     obind (test_crc b clk t4) (\<lambda>(h, s).
     obind (proto_master_close b s) (\<lambda>(_, s1).
     obind (proto_master_destroy b s1) (\<lambda>_. Inr ())))))))))"


text \<open>Between two tests: the handle of \<open>proto_master_create\<close> is idle and the slave waits for a frame.\<close>

definition test_ready :: "emul_test \<Rightarrow> bool" where
  "test_ready = (\<lambda>(h, s). priv_nbBytes h = 0 \<and> emul_ready s)"

lemma test_ready_registers:
  "\<lbrakk>test_ready (h, s); length regs = 20\<rbrakk> \<Longrightarrow> emul_ready (s\<lparr>registers := regs\<rparr>)"
  by (simp add: test_ready_def emul_ready_def emul_idle_def emul_inv_def)

lemma test_ready_length: "test_ready (h, s) \<Longrightarrow> length (registers s) = 20"
  by (simp add: test_ready_def emul_ready_def emul_idle_def emul_inv_def)

lemma test_set_NO_ERROR_passes:
  assumes "priv_iodevice b = Some emul_dev" "test_ready (h, s)"
  shows "\<exists>t. test_set_NO_ERROR b clk (h, s) = Inr t \<and> test_ready t"
  using emul_service.master_set_serves [OF assms(1) test_ready_registers [OF assms(2), of "replicate 20 0"],
      of h clk 5 167] assms(2)
  by (fastforce simp: test_set_NO_ERROR_def test_ready_def obind_oassert devemulslave_getRegisters_def)

lemma test_set_INVALID_REGISTER_passes:
  assumes "priv_iodevice b = Some emul_dev" "test_ready (h, s)"
  shows "\<exists>t. test_set_INVALID_REGISTER b clk (h, s) = Inr t \<and> test_ready t"
  using emul_service.master_set_serves [OF assms(1), of s h clk 20 167] assms(2) test_ready_length [OF assms(2)]
  by (auto simp: test_set_INVALID_REGISTER_def test_ready_def outcome_simps)

lemma test_get_NO_ERROR_passes:
  assumes "priv_iodevice b = Some emul_dev" "test_ready (h, s)"
  shows "\<exists>t. test_get_NO_ERROR b clk (h, s) = Inr t \<and> test_ready t"
  using emul_service.master_get_serves [OF assms(1)
      test_ready_registers [OF assms(2), of "(registers s)[18 := 234]"], of h clk 18 0]
    assms(2) test_ready_length [OF assms(2)]
  by (auto simp: test_get_NO_ERROR_def test_ready_def outcome_simps devemulslave_getRegisters_def)

lemma test_get_INVALID_REGISTER_passes:
  assumes "priv_iodevice b = Some emul_dev" "test_ready (h, s)"
  shows "\<exists>t. test_get_INVALID_REGISTER b clk (h, s) = Inr t \<and> test_ready t"
  using emul_service.master_get_serves [OF assms(1), of s h clk 20 0] assms(2) test_ready_length [OF assms(2)]
  by (auto simp: test_get_INVALID_REGISTER_def test_ready_def outcome_simps)

lemma test_crc_passes:
  assumes "priv_iodevice b = Some emul_dev" "test_ready (h, s)"
  shows "\<exists>t. test_crc b clk (h, s) = Inr t"
proof -
  have "priv_nbBytes h = 0" "emul_idle (devemulslave_setFlags 1 s)" "emul_flags (devemulslave_setFlags 1 s) AND 1 \<noteq> 0"
    using assms(2) by (simp_all add: test_ready_def emul_ready_def emul_idle_def emul_inv_def devemulslave_setFlags_def)
  from emul_badcrc_step [OF assms(1) this, of clk "Reg_set 18 0"] show ?thesis
    by (auto simp: test_crc_def outcome_simps)
qed

theorem emulslave_test_passes: "emulslave_test_main clk = Inr ()"
proof -
  obtain s0 where s0: "devemulslave_create True True True True = Inr s0" using emul_create_ok by blast
  define b :: "proto_dev_emulslave proto_bind" where "b = \<lparr>priv_callback = None, priv_iodevice = Some emul_dev\<rparr>"
  have b: "priv_iodevice b = Some emul_dev" by (simp add: b_def)
  have mk: "proto_master_create True (Some emul_dev) = Inr (b, proto_init)"
    by (simp add: proto_master_create_def proto_create_def b_def)
  have "test_ready (proto_init, s0)" using emul_created [OF s0] by (simp add: test_ready_def proto_init_def)
  then obtain t1 where 1: "test_set_NO_ERROR b clk (proto_init, s0) = Inr t1" "test_ready t1"
    using test_set_NO_ERROR_passes [OF b] by blast
  then obtain t2 where 2: "test_set_INVALID_REGISTER b clk t1 = Inr t2" "test_ready t2"
    using test_set_INVALID_REGISTER_passes [OF b] by (cases t1) blast
  then obtain t3 where 3: "test_get_NO_ERROR b clk t2 = Inr t3" "test_ready t3"
    using test_get_NO_ERROR_passes [OF b] by (cases t2) blast
  then obtain t4 where 4: "test_get_INVALID_REGISTER b clk t3 = Inr t4" "test_ready t4"
    using test_get_INVALID_REGISTER_passes [OF b] by (cases t3) blast
  then obtain h s where 5: "test_crc b clk t4 = Inr (h, s)"
    using test_crc_passes [OF b] by (cases t4) fastforce
  have shut: "dev_close emul_dev = devemulslave_close" "dev_destroy emul_dev = devemulslave_destroy"
      "dev_destroy fake_dev = devemulslave_fake_destroy"
    by (simp_all add: emul_dev_def fake_dev_def)
  show ?thesis
    by (simp add: emulslave_test_main_def s0 mk 1 2 3 4 5 b proto_master_close_def proto_close_def
        proto_master_destroy_def proto_destroy_def devemulslave_close_def devemulslave_destroy_def fake_bind_def
        shut devemulslave_fake_destroy_def devemulslave_fake_close_def)
qed

section \<open>The device of the board\<close>

text \<open>
  The text of the test, and its reads; the device is reached by the functions of its own record. The
  state before is arbitrary: \<open>devstm32_create\<close> empties the ring, and the test opens it again.
\<close>

definition BYTES :: bytes where
  "BYTES = [72, 101, 108, 108, 111, 32, 87, 111, 114, 108, 100, 33, 0]"

definition devstm32_test_main :: "'u transmit_fs \<Rightarrow> 'u stm32_state \<Rightarrow> 'u stm32_state outcome" where
  "devstm32_test_main transmit s =
     obind (devstm32_create True True transmit s) (\<lambda>(device, s1).
     obind (dev_open device [] s1) (\<lambda>(_, s2).
     obind (dev_read device 100 0 s2) (\<lambda>(nbRead, buffer, s3).
     obind (oassert (nbRead = 0)) (\<lambda>_.
     obind (devstm32_pushBytes BYTES 3 s3) (\<lambda>s4.
     obind (devstm32_pushBytes (drop 3 BYTES) 5 s4) (\<lambda>s5.
     obind (devstm32_pushBytes (drop 8 BYTES) 4 s5) (\<lambda>s6.
     obind (dev_read device 5 0 s6) (\<lambda>(nbRead, buffer, s7).
     obind (oassert (nbRead = 5)) (\<lambda>_.
     obind (oassert (take 5 buffer = [72, 101, 108, 108, 111])) (\<lambda>_.
     obind (dev_read device 100 0 s7) (\<lambda>(nbRead, buffer, s8).
     obind (oassert (nbRead = 7)) (\<lambda>_.
     obind (oassert (take 7 buffer = [32, 87, 111, 114, 108, 100, 33])) (\<lambda>_.
     obind (dev_read device 100 0 s8) (\<lambda>(nbRead, buffer, s9).
     obind (oassert (nbRead = 0)) (\<lambda>_.
     dev_destroy device s9)))))))))))))))"

lemma pushBytes_items:
  assumes "stm32_inv s" "unat n \<le> length bs" "length (stm32_pending s) + unat n < 40"
  shows "\<exists>s'. devstm32_pushBytes bs n s = Inr s' \<and> stm32_inv s'
     \<and> stm32_pending s' = stm32_pending s @ take (unat n) bs \<and> stm32_usb s' = stm32_usb s"
  using push_all_spec [OF assms(1), of "take (unat n) bs"] assms(2,3)
  by (auto simp: devstm32_pushBytes_def buf_read_def min_absorb2)

lemma read_items:
  assumes "stm32_inv s"
  shows "\<exists>s'. devstm32_read n t s = Inr (int (min (unat n) (length (stm32_pending s))), take (unat n) (stm32_pending s), s')
     \<and> stm32_inv s' \<and> stm32_pending s' = drop (unat n) (stm32_pending s) \<and> stm32_usb s' = stm32_usb s"
  using read_loop_spec [OF assms, of "unat n"] by (auto simp: devstm32_read_def min.commute)

theorem devstm32_test_passes:
  "\<exists>s'. devstm32_test_main transmit s = Inr s' \<and> stm32_usb s' = stm32_usb s"
proof -
  define s2 where "s2 = s\<lparr>stm32_user := fifo_reset\<rparr>"
  have s2: "stm32_inv s2" "stm32_pending s2 = []" "stm32_usb s2 = stm32_usb s" by (simp_all add: s2_def)
  have start: "devstm32_create True True transmit s = Inr (stm32_dev transmit, s2)" "devstm32_open [] s2 = Inr (0, s2)"
    by (simp_all add: devstm32_create_def devstm32_init_def devstm32_open_def s2_def)
  obtain s3 where 3: "devstm32_read 100 0 s2 = Inr (0, [], s3)" "stm32_inv s3" "stm32_pending s3 = []"
      "stm32_usb s3 = stm32_usb s"
    using read_items [OF s2(1), of 100 0] s2 by auto
  obtain s4 where 4: "devstm32_pushBytes BYTES 3 s3 = Inr s4" "stm32_inv s4"
      "stm32_pending s4 = [72, 101, 108]" "stm32_usb s4 = stm32_usb s"
    using pushBytes_items [OF 3(2), of 3 BYTES] 3 by (auto simp: BYTES_def)
  obtain s5 where 5: "devstm32_pushBytes (drop 3 BYTES) 5 s4 = Inr s5" "stm32_inv s5"
      "stm32_pending s5 = [72, 101, 108, 108, 111, 32, 87, 111]" "stm32_usb s5 = stm32_usb s"
    using pushBytes_items [OF 4(2), of 5 "drop 3 BYTES"] 4 by (auto simp: BYTES_def)
  obtain s6 where 6: "devstm32_pushBytes (drop 8 BYTES) 4 s5 = Inr s6" "stm32_inv s6"
      "stm32_pending s6 = take 12 BYTES" "stm32_usb s6 = stm32_usb s"
    using pushBytes_items [OF 5(2), of 4 "drop 8 BYTES"] 5 by (auto simp: BYTES_def)
  obtain s7 where 7: "devstm32_read 5 0 s6 = Inr (5, take 5 BYTES, s7)" "stm32_inv s7"
      "stm32_pending s7 = take 7 (drop 5 BYTES)" "stm32_usb s7 = stm32_usb s"
    using read_items [OF 6(2), of 5 0] 6 by (auto simp: BYTES_def)
  obtain s8 where 8: "devstm32_read 100 0 s7 = Inr (7, take 7 (drop 5 BYTES), s8)" "stm32_inv s8"
      "stm32_pending s8 = []" "stm32_usb s8 = stm32_usb s"
    using read_items [OF 7(2), of 100 0] 7 by (auto simp: BYTES_def)
  obtain s9 where 9: "devstm32_read 100 0 s8 = Inr (0, [], s9)" "stm32_usb s9 = stm32_usb s"
    using read_items [OF 8(2), of 100 0] 8 by auto
  show ?thesis
    by (simp add: devstm32_test_main_def start 3 4 5 6 7 8 9 outcome_simps)
      (simp add: BYTES_def stm32_dev_def devstm32_destroy_def devstm32_close_def 9)
qed

end
