(* ===== verification/DevSerial.thy ===== *)
theory DevSerial
  imports ProtoLink
begin

text \<open>
  The serial port device, \<open>dllCom/libcomm/devices/device_serial.c\<close> (the Linux half), with
  \<open>proto_cio_open\<close> of \<open>protocomm_master.c\<close>. The system calls are arguments of the model: a record
  of functions on a world \<open>'w\<close>.
\<close>

section \<open>The system\<close>

record termios =
  c_iflag :: u32
  c_oflag :: u32
  c_cflag :: u32
  c_lflag :: u32
  c_cc_vtime :: u8
  c_cc_vmin :: u8

record 'w serial_os =
  os_open :: "string \<Rightarrow> 'w \<Rightarrow> int \<times> 'w"
  os_close :: "int \<Rightarrow> 'w \<Rightarrow> int \<times> 'w"
  os_read :: "int \<Rightarrow> u8 \<Rightarrow> 'w \<Rightarrow> int \<times> bytes \<times> 'w"
  os_write :: "int \<Rightarrow> bytes \<Rightarrow> 'w \<Rightarrow> int \<times> 'w"
  os_tcgetattr :: "int \<Rightarrow> 'w \<Rightarrow> int \<times> termios \<times> 'w"
  os_tcsetattr :: "int \<Rightarrow> termios \<Rightarrow> 'w \<Rightarrow> int \<times> 'w"

text \<open>Flags of \<open>termios.h\<close> on Linux.\<close>

abbreviation (input) PARENB :: u32 where "PARENB \<equiv> 0x100"
abbreviation (input) CSTOPB :: u32 where "CSTOPB \<equiv> 0x40"
abbreviation (input) CS8 :: u32 where "CS8 \<equiv> 0x30"
abbreviation (input) CREAD :: u32 where "CREAD \<equiv> 0x80"
abbreviation (input) CLOCAL :: u32 where "CLOCAL \<equiv> 0x800"
abbreviation (input) ICANON :: u32 where "ICANON \<equiv> 0x2"
abbreviation (input) ECHO :: u32 where "ECHO \<equiv> 0x8"
abbreviation (input) ECHONL :: u32 where "ECHONL \<equiv> 0x40"
abbreviation (input) ISIG :: u32 where "ISIG \<equiv> 0x1"
abbreviation (input) IXON :: u32 where "IXON \<equiv> 0x400"
abbreviation (input) IXOFF :: u32 where "IXOFF \<equiv> 0x1000"
abbreviation (input) IXANY :: u32 where "IXANY \<equiv> 0x800"
abbreviation (input) IGNBRK :: u32 where "IGNBRK \<equiv> 0x1"
abbreviation (input) BRKINT :: u32 where "BRKINT \<equiv> 0x2"
abbreviation (input) PARMRK :: u32 where "PARMRK \<equiv> 0x8"
abbreviation (input) ISTRIP :: u32 where "ISTRIP \<equiv> 0x20"
abbreviation (input) INLCR :: u32 where "INLCR \<equiv> 0x40"
abbreviation (input) IGNCR :: u32 where "IGNCR \<equiv> 0x80"
abbreviation (input) ICRNL :: u32 where "ICRNL \<equiv> 0x100"
abbreviation (input) OPOST :: u32 where "OPOST \<equiv> 0x1"
abbreviation (input) ONLCR :: u32 where "ONLCR \<equiv> 0x4"

section \<open>State and operations\<close>

record 'w serial_state =
  serial_fd :: int
  serial_flags :: u32
  serial_os :: 'w

abbreviation (input) FLAG_EXTERNAL_FD :: u32 where "FLAG_EXTERNAL_FD \<equiv> 1"

text \<open>The flags of the input modes are taken out of the local modes, as written.\<close>

definition serial_mode :: "u8 \<Rightarrow> u8 \<Rightarrow> termios \<Rightarrow> termios" where
  "serial_mode vtime vmin tty =
     tty\<lparr>c_cflag := (c_cflag tty AND NOT PARENB AND NOT CSTOPB) OR CS8 OR CREAD OR CLOCAL,
         c_lflag := c_lflag tty AND NOT ICANON AND NOT ECHO AND NOT ECHONL AND NOT ISIG
                      AND NOT IXON AND NOT IXOFF AND NOT IXANY
                      AND NOT IGNBRK AND NOT BRKINT AND NOT PARMRK AND NOT ISTRIP
                      AND NOT INLCR AND NOT IGNCR AND NOT ICRNL,
         c_oflag := c_oflag tty AND (NOT OPOST AND NOT ONLCR),
         c_cc_vtime := vtime, c_cc_vmin := vmin\<rparr>"

definition setFdMode :: "'w serial_os \<Rightarrow> int \<Rightarrow> u8 \<Rightarrow> u8 \<Rightarrow> 'w \<Rightarrow> int \<times> 'w" where
  "setFdMode os fd vtime vmin w =
     (case os_tcgetattr os fd w of
        (r, tty, w1) \<Rightarrow>
          if r \<noteq> 0 then (- 1, w1)
          else (case os_tcsetattr os fd (serial_mode vtime vmin tty) w1 of
                  (r', w2) \<Rightarrow> (if r' \<noteq> 0 then - 1 else 0, w2)))"

definition devserial_close :: "'w serial_os \<Rightarrow> 'w serial_state \<Rightarrow> int \<times> 'w serial_state" where
  "devserial_close os s =
     (let (ret, w) = (if 0 \<le> serial_fd s \<and> serial_flags s AND FLAG_EXTERNAL_FD = 0
                      then os_close os (serial_fd s) (serial_os s) else (0, serial_os s))
      in (ret, s\<lparr>serial_fd := - 1, serial_flags := serial_flags s AND NOT FLAG_EXTERNAL_FD, serial_os := w\<rparr>))"

definition devserial_open :: "'w serial_os \<Rightarrow> string \<Rightarrow> 'w serial_state \<Rightarrow> int \<times> 'w serial_state" where
  "devserial_open os szPath s =
     (let (_, s1) = devserial_close os s in
      if szPath \<noteq> [] then
        (let s2 = s1\<lparr>serial_flags := serial_flags s1 AND NOT FLAG_EXTERNAL_FD\<rparr>;
             (fd, w) = os_open os szPath (serial_os s2);
             s3 = s2\<lparr>serial_os := w\<rparr> in
         if fd < 0 then (fd, s3)
         else (case setFdMode os fd 0 0 w of
                 (r, w') \<Rightarrow> (r, s3\<lparr>serial_fd := fd, serial_os := w'\<rparr>)))
      else (0, s1))"

definition devserial_read ::
  "'w serial_os \<Rightarrow> u8 \<Rightarrow> int \<Rightarrow> 'w serial_state \<Rightarrow> int \<times> bytes \<times> 'w serial_state"
where
  "devserial_read os bufferSize tout_ms s =
     (if serial_fd s < 0 then (- 1, [], s)
      else (case os_read os (serial_fd s) bufferSize (serial_os s) of
              (ret, bs, w) \<Rightarrow> (if ret < 0 then - 1 else ret, bs, s\<lparr>serial_os := w\<rparr>)))"

text \<open>
  The loop of the write: \<open>buffer\<close> is what the pointer leads to, \<open>left\<close> the eight-bit count \<open>size\<close>. It
  goes on as long as the system takes no byte and reports no error.
\<close>

partial_function (option) serial_write_loop ::
  "'w serial_os \<Rightarrow> int \<Rightarrow> bytes \<Rightarrow> u8 \<Rightarrow> 'w \<Rightarrow> (int \<times> 'w) option"
where
  "serial_write_loop os fd buffer left w =
     (if 0 < left then
        (case os_write os fd (take (unat left) buffer) w of
           (ret, w1) \<Rightarrow>
             if ret < 0 then Some (- 1, w1)
             else serial_write_loop os fd (drop (nat ret) buffer) (left - of_int ret) w1)
      else Some (0, w))"

declare serial_write_loop.simps [code]

definition devserial_write ::
  "'w serial_os \<Rightarrow> bytes \<Rightarrow> 'w serial_state \<Rightarrow> (int \<times> 'w serial_state) outcome"
where
  "devserial_write os buffer s =
     (if serial_fd s < 0 then Inr (- 1, s)
      else (case serial_write_loop os (serial_fd s) buffer (of_nat (length buffer)) (serial_os s) of
              None \<Rightarrow> Inl Diverges
            | Some (r, w) \<Rightarrow> Inr (r, s\<lparr>serial_os := w\<rparr>)))"

text \<open>The variant without \<open>ENABLE_SET_FD_MODE\<close>, which no build defines.\<close>

definition devserial_setFD :: "int \<Rightarrow> 'w serial_state \<Rightarrow> int \<times> 'w serial_state" where
  "devserial_setFD fd s =
     (if 0 \<le> serial_fd s then (- 1, s)
      else (0, s\<lparr>serial_fd := fd, serial_flags := serial_flags s OR FLAG_EXTERNAL_FD\<rparr>))"

definition devserial_getFD :: "'w serial_state \<Rightarrow> int" where
  "devserial_getFD s = serial_fd s"

definition devserial_destroy :: "'w serial_os \<Rightarrow> 'w serial_state \<Rightarrow> 'w serial_state" where
  "devserial_destroy os s = snd (devserial_close os s)"

definition serial_dev :: "'w serial_os \<Rightarrow> 'w serial_state iodevice" where
  "serial_dev os =
     \<lparr>dev_open = \<lambda>p s. Inr (devserial_open os p s), dev_close = \<lambda>s. Inr (devserial_close os s),
      dev_destroy = \<lambda>s. Inr (devserial_destroy os s),
      dev_read = \<lambda>n t s. Inr (devserial_read os n t s), dev_write = devserial_write os\<rparr>"

text \<open>\<open>flags\<close> is what the memory of the second allocation holds: it is not initialised.\<close>

definition devserial_init :: "u32 \<Rightarrow> 'w \<Rightarrow> 'w serial_state" where
  "devserial_init flags w = \<lparr>serial_fd = - 1, serial_flags = flags, serial_os = w\<rparr>"

definition devserial_create :: "bool \<Rightarrow> bool \<Rightarrow> u32 \<Rightarrow> 'w \<Rightarrow> 'w serial_state outcome" where
  "devserial_create malloc_dev malloc_user flags w =
     (if \<not> malloc_dev then Inl Null_deref
      else if \<not> malloc_user then Inl Null_deref
      else Inr (devserial_init flags w))"

text \<open>\<open>None\<close> is the null pointer it returns when the port cannot be opened.\<close>

definition proto_cio_open ::
  "'w serial_os \<Rightarrow> bool \<Rightarrow> bool \<Rightarrow> bool \<Rightarrow> u32 \<Rightarrow> string \<Rightarrow> 'w
     \<Rightarrow> (('w serial_state proto_bind \<times> proto_hdle) option \<times> 'w serial_state) outcome"
where
  "proto_cio_open os malloc_dev malloc_user malloc_hdle flags szDev w =
     obind (devserial_create malloc_dev malloc_user flags w) (\<lambda>s.
     obind (proto_create malloc_hdle (Some (serial_dev os))) (\<lambda>(b, h).
     obind (dev_open (serial_dev os) szDev s) (\<lambda>(ret, s1).
       if ret \<noteq> 0 then obind (proto_destroy b s1) (\<lambda>s2. Inr (None, s2))
       else Inr (Some (b, h), s1))))"

section \<open>Writing\<close>

text \<open>The part of the contract of \<open>write(2)\<close> the loop relies on: it takes at least one byte.\<close>

definition takes_some :: "'w serial_os \<Rightarrow> ('w \<Rightarrow> bytes) \<Rightarrow> bool" where
  "takes_some os sent \<longleftrightarrow> (\<forall>fd bs w. bs \<noteq> [] \<longrightarrow>
     (\<exists>r w'. os_write os fd bs w = (r, w') \<and> 1 \<le> r \<and> nat r \<le> length bs \<and> sent w' = sent w @ take (nat r) bs))"

lemma write_loop_delivers:
  assumes "takes_some os sent"
  shows "length bs = unat left \<Longrightarrow>
     \<exists>w'. serial_write_loop os fd bs left w = Some (0, w') \<and> sent w' = sent w @ bs"
proof (induction "unat left" arbitrary: bs left w rule: less_induct)
  case less
  show ?case
  proof (cases "left = 0")
    case True
    then show ?thesis using less.prems by (subst serial_write_loop.simps) simp
  next
    case False
    then have "bs \<noteq> []" using less.prems by (auto simp: unat_eq_0)
    with assms obtain r w1 where w1: "os_write os fd bs w = (r, w1)" "1 \<le> r" "nat r \<le> length bs"
        "sent w1 = sent w @ take (nat r) bs"
      unfolding takes_some_def by blast
    have r: "unat (of_int r :: u8) = nat r"
    proof -
      have "nat r < 256" using w1(3) less.prems unat_u8_less [of left] by linarith
      then have "unat (of_nat (nat r) :: u8) = nat r" by (rule unat_of_nat_u8)
      then show ?thesis using w1(2) by simp
    qed
    have left': "unat (left - of_int r) = unat left - nat r"
      using w1(3) less.prems r by (simp add: unat_sub word_le_nat_alt)
    have "unat (left - of_int r) < unat left"
      using left' w1(2,3) less.prems by linarith
    from less.hyps [OF this, of "drop (nat r) bs" w1] less.prems left'
    obtain w' where "serial_write_loop os fd (drop (nat r) bs) (left - of_int r) w1 = Some (0, w')"
        "sent w' = sent w1 @ drop (nat r) bs" by auto
    moreover have "0 < left" using False by (simp add: word_neq_0_conv)
    ultimately show ?thesis
      using w1 less.prems by (subst serial_write_loop.simps) simp
  qed
qed

text \<open>C35: over a system that takes at least one byte of every write, a write of the device ends,
  succeeds, and hands over exactly its bytes in order, however the system cuts them.\<close>

theorem serial_write_delivers:
  assumes "takes_some os sent" "0 \<le> serial_fd s" "length bs < 256"
  shows "\<exists>w'. devserial_write os bs s = Inr (0, s\<lparr>serial_os := w'\<rparr>) \<and> sent w' = sent (serial_os s) @ bs"
proof -
  have "length bs = unat (of_nat (length bs) :: u8)" using assms(3) by (simp add: unat_of_nat_u8)
  from write_loop_delivers [OF assms(1) this, of "serial_fd s" "serial_os s"] assms(2) show ?thesis
    by (auto simp: devserial_write_def)
qed

text \<open>A system that takes at most two bytes a time, on the list of what it took.\<close>

definition short_os :: "bytes serial_os" where
  "short_os = \<lparr>os_open = \<lambda>p w. (3, w), os_close = \<lambda>fd w. (0, w), os_read = \<lambda>fd n w. (0, [], w),
     os_write = \<lambda>fd bs w. (int (length (take 2 bs)), w @ take 2 bs),
     os_tcgetattr = \<lambda>fd w. (0, \<lparr>c_iflag = 0x500, c_oflag = 0, c_cflag = 0, c_lflag = 0, c_cc_vtime = 0, c_cc_vmin = 0\<rparr>, w),
     os_tcsetattr = \<lambda>fd t w. (0, w)\<rparr>"

lemma short_os_takes: "takes_some short_os (\<lambda>w. w)"
  unfolding takes_some_def short_os_def
proof (intro allI impI)
  fix fd and bs w :: bytes
  assume "bs \<noteq> []"
  then show "\<exists>r w'. os_write \<lparr>os_open = \<lambda>p w. (3, w), os_close = \<lambda>fd w. (0, w), os_read = \<lambda>fd n w. (0, [], w),
     os_write = \<lambda>fd bs w. (int (length (take 2 bs)), w @ take 2 bs),
     os_tcgetattr = \<lambda>fd w. (0, \<lparr>c_iflag = 0x500, c_oflag = 0, c_cflag = 0, c_lflag = 0, c_cc_vtime = 0, c_cc_vmin = 0\<rparr>, w),
     os_tcsetattr = \<lambda>fd t w. (0, w)\<rparr> fd bs w = (r, w') \<and> 1 \<le> r \<and> nat r \<le> length bs \<and> w' = w @ take (nat r) bs"
    by (cases bs) (auto simp: min_def)
qed

lemma serial_write_delivers_witness:
  "\<exists>w'. devserial_write short_os [1, 2, 3, 4, 5] \<lparr>serial_fd = 3, serial_flags = 0, serial_os = [9]\<rparr>
     = Inr (0, \<lparr>serial_fd = 3, serial_flags = 0, serial_os = w'\<rparr>) \<and> w' = [9, 1, 2, 3, 4, 5]"
  using serial_write_delivers [OF short_os_takes, of "\<lparr>serial_fd = 3, serial_flags = 0, serial_os = [9]\<rparr>" "[1, 2, 3, 4, 5]"]
  by simp

lemma write_loop_stalls:
  assumes stall: "\<And>bs w. os_write os fd bs w = (0, w)"
    and "serial_write_loop os fd bs left w = Some y"
  shows "left = 0"
proof -
  have "os = os \<and> fd = fd \<longrightarrow> left = 0"
  proof (rule serial_write_loop.raw_induct [where P = "\<lambda>os' fd' bs left w y. os' = os \<and> fd' = fd \<longrightarrow> left = 0",
        OF _ assms(2)], intro impI, rule ccontr)
    fix loop :: "'a serial_os \<Rightarrow> int \<Rightarrow> bytes \<Rightarrow> u8 \<Rightarrow> 'a \<Rightarrow> (int \<times> 'a) option"
    fix os' fd' buffer left' w' y'
    assume IH: "\<And>os' fd' bs left w y. loop os' fd' bs left w = Some y \<Longrightarrow> os' = os \<and> fd' = fd \<longrightarrow> left = 0"
      and body: "(if 0 < left' then
        (case os_write os' fd' (take (unat left') buffer) w' of
           (ret, w1) \<Rightarrow>
             if ret < 0 then Some (- 1, w1)
             else loop os' fd' (drop (nat ret) buffer) (left' - of_int ret) w1)
      else Some (0, w')) = Some y'"
      and eq: "os' = os \<and> fd' = fd" and l: "left' \<noteq> 0"
    have "loop os fd buffer left' w' = Some y'"
      using body eq l stall by (simp add: word_neq_0_conv)
    from IH [OF this] l show False by simp
  qed
  then show ?thesis by simp
qed

text \<open>Over a port whose output is full, where a non-blocking write takes nothing and reports
  no error, the write of the device never returns.\<close>

lemma serial_write_never_returns:
  assumes "\<And>bs w. os_write os fd bs w = (0, w)"
    and "0 \<le> fd" "serial_fd s = fd" "bs \<noteq> []" "length bs < 256"
  shows "devserial_write os bs s = Inl Diverges"
proof -
  have "unat (of_nat (length bs) :: u8) \<noteq> 0" using assms(4,5) by (simp add: unat_of_nat_u8)
  then have "(of_nat (length bs) :: u8) \<noteq> 0" by auto
  then have "serial_write_loop os fd bs (of_nat (length bs)) (serial_os s) = None"
    using write_loop_stalls [OF assms(1), of bs "of_nat (length bs)" "serial_os s"]
    by (cases "serial_write_loop os fd bs (of_nat (length bs)) (serial_os s)") auto
  then show ?thesis using assms(2,3) by (simp add: devserial_write_def)
qed

definition full_os :: "unit serial_os" where
  "full_os = \<lparr>os_open = \<lambda>p w. (3, w), os_close = \<lambda>fd w. (0, w), os_read = \<lambda>fd n w. (0, [], w),
     os_write = \<lambda>fd bs w. (0, w), os_tcgetattr = \<lambda>fd w. (- 1, undefined, w), os_tcsetattr = \<lambda>fd t w. (- 1, w)\<rparr>"

lemma full_port_never_returns:
  "devserial_write full_os [0x12] \<lparr>serial_fd = 3, serial_flags = 0, serial_os = ()\<rparr> = Inl Diverges"
  by (rule serial_write_never_returns [of full_os 3]) (simp_all add: full_os_def)

section \<open>Descriptors\<close>

text \<open>The calls that open and close descriptors, logged.\<close>

datatype fd_call = Opened int | Closed int

record 'w logged =
  log_calls :: "fd_call list"
  log_rest :: 'w

definition logging :: "'w serial_os \<Rightarrow> 'w logged serial_os" where
  "logging os =
     \<lparr>os_open = \<lambda>p w. case os_open os p (log_rest w) of (fd, v) \<Rightarrow>
          (fd, \<lparr>log_calls = log_calls w @ [Opened fd], log_rest = v\<rparr>),
      os_close = \<lambda>fd w. case os_close os fd (log_rest w) of (r, v) \<Rightarrow>
          (r, \<lparr>log_calls = log_calls w @ [Closed fd], log_rest = v\<rparr>),
      os_read = \<lambda>fd n w. case os_read os fd n (log_rest w) of (r, bs, v) \<Rightarrow> (r, bs, w\<lparr>log_rest := v\<rparr>),
      os_write = \<lambda>fd bs w. case os_write os fd bs (log_rest w) of (r, v) \<Rightarrow> (r, w\<lparr>log_rest := v\<rparr>),
      os_tcgetattr = \<lambda>fd w. case os_tcgetattr os fd (log_rest w) of (r, t, v) \<Rightarrow> (r, t, w\<lparr>log_rest := v\<rparr>),
      os_tcsetattr = \<lambda>fd t w. case os_tcsetattr os fd t (log_rest w) of (r, v) \<Rightarrow> (r, w\<lparr>log_rest := v\<rparr>)\<rparr>"

text \<open>
  The discipline of an owner of at most one descriptor: it opens when it owns none and closes
  what it owns; anything else is a violation.
\<close>

fun owns :: "int option \<Rightarrow> fd_call list \<Rightarrow> int option option" where
  "owns o_fd [] = Some o_fd"
| "owns None (Opened fd # cs) = owns (if fd < 0 then None else Some fd) cs"
| "owns (Some fd) (Closed fd' # cs) = (if fd = fd' then owns None cs else None)"
| "owns (Some fd) (Opened fd' # cs) = None"
| "owns None (Closed fd # cs) = None"

lemma owns_append: "owns o_fd (cs @ ds) = Option.bind (owns o_fd cs) (\<lambda>o'. owns o' ds)"
  by (induction o_fd cs rule: owns.induct) auto

datatype serial_op = Ser_open string | Ser_close | Ser_setFD int | Ser_read u8

fun serial_step :: "'w serial_os \<Rightarrow> serial_op \<Rightarrow> 'w serial_state \<Rightarrow> 'w serial_state" where
  "serial_step os (Ser_open p) s = snd (devserial_open os p s)"
| "serial_step os Ser_close s = snd (devserial_close os s)"
| "serial_step os (Ser_setFD fd) s = snd (devserial_setFD fd s)"
| "serial_step os (Ser_read n) s = (case devserial_read os n 0 s of (_, _, s') \<Rightarrow> s')"

text \<open>The device owns its descriptor unless there is none or it was given from outside.\<close>

definition serial_owned :: "'w serial_state \<Rightarrow> int option" where
  "serial_owned s = (if 0 \<le> serial_fd s \<and> serial_flags s AND FLAG_EXTERNAL_FD = 0 then Some (serial_fd s) else None)"

definition serial_disciplined :: "'w logged serial_state \<Rightarrow> bool" where
  "serial_disciplined s \<longleftrightarrow> owns None (log_calls (serial_os s)) = Some (serial_owned s)"

lemma cleared_flag: "(w AND NOT 1) AND 1 = (0 :: u32)" "(w AND - 2) AND 1 = (0 :: u32)"
proof -
  show "(w AND NOT 1) AND 1 = (0 :: u32)" by (rule bit_word_eqI) (auto simp: bit_simps)
  then show "(w AND - 2) AND 1 = (0 :: u32)" by simp
qed

lemma set_flag: "(w OR 1) AND 1 \<noteq> (0 :: u32)"
proof
  assume "(w OR 1) AND 1 = 0"
  then have "bit ((w OR 1) AND 1) 0 = bit (0 :: u32) 0" by simp
  then show False by (simp add: bit_simps)
qed

lemma close_disciplined:
  assumes "serial_disciplined s"
  shows "serial_disciplined (snd (devserial_close (logging os) s))
     \<and> serial_owned (snd (devserial_close (logging os) s)) = None
     \<and> serial_fd (snd (devserial_close (logging os) s)) = - 1
     \<and> serial_flags (snd (devserial_close (logging os) s)) AND FLAG_EXTERNAL_FD = 0"
  using assms
  by (auto simp: serial_disciplined_def serial_owned_def devserial_close_def logging_def owns_append cleared_flag
      split: prod.splits if_splits)

lemma setFdMode_calls:
  "log_calls (snd (setFdMode (logging os) fd t m w)) = log_calls w"
  by (auto simp: setFdMode_def logging_def split: prod.splits)

lemma open_disciplined:
  assumes "serial_disciplined s"
  shows "serial_disciplined (snd (devserial_open (logging os) p s))"
proof -
  define s1 where "s1 = snd (devserial_close (logging os) s)"
  have s1: "owns None (log_calls (serial_os s1)) = Some None" "serial_fd s1 = - 1"
      "serial_flags s1 AND 1 = 0"
    using close_disciplined [OF assms, of os] by (simp_all add: s1_def serial_disciplined_def)
  show ?thesis
  proof (cases "p = []")
    case True
    then show ?thesis using close_disciplined [OF assms, of os] by (simp add: devserial_open_def case_prod_beta)
  next
    case False
    obtain fd v where o: "os_open os p (log_rest (serial_os s1)) = (fd, v)"
      by (cases "os_open os p (log_rest (serial_os s1))")
    define w where "w = \<lparr>log_calls = log_calls (serial_os s1) @ [Opened fd], log_rest = v\<rparr>"
    have w: "os_open (logging os) p (serial_os s1) = (fd, w)" using o by (simp add: logging_def w_def)
    have ow: "owns None (log_calls w) = Some (if fd < 0 then None else Some fd)"
      using s1(1) by (simp add: w_def owns_append)
    have "devserial_open (logging os) p s
      = (if fd < 0 then (fd, s1\<lparr>serial_flags := serial_flags s1 AND NOT 1, serial_os := w\<rparr>)
         else (fst (setFdMode (logging os) fd 0 0 w),
               s1\<lparr>serial_flags := serial_flags s1 AND NOT 1, serial_fd := fd,
                  serial_os := snd (setFdMode (logging os) fd 0 0 w)\<rparr>))"
      using False w by (simp add: devserial_open_def case_prod_beta s1_def [symmetric] Let_def)
    then show ?thesis
      using ow s1 by (auto simp: serial_disciplined_def serial_owned_def setFdMode_calls cleared_flag)
  qed
qed

lemma step_disciplined: "serial_disciplined s \<Longrightarrow> serial_disciplined (serial_step (logging os) x s)"
proof (cases x)
  case (Ser_setFD fd)
  assume "serial_disciplined s"
  with Ser_setFD show ?thesis
    using set_flag [of "serial_flags s"]
    by (auto simp: devserial_setFD_def serial_disciplined_def serial_owned_def)
next
  case (Ser_read n)
  assume "serial_disciplined s"
  with Ser_read show ?thesis
    by (auto simp: devserial_read_def serial_disciplined_def serial_owned_def logging_def split: prod.splits)
qed (simp_all add: open_disciplined close_disciplined)

text \<open>C36: the device closes exactly the descriptors it opened: over any system and any sequence of
  opens, closes, reads and descriptors given from outside, whatever the uninitialised flags hold,
  it never closes a descriptor twice or one it was given, and never opens a second one without
  closing the first; what it owns at the end is what its state says.\<close>

theorem serial_descriptors_disciplined:
  assumes "devserial_create True True flags w = Inr s" "log_calls w = []"
  shows "let s' = fold (serial_step (logging os)) ops s in
     owns None (log_calls (serial_os s'))
       = Some (if 0 \<le> serial_fd s' \<and> serial_flags s' AND FLAG_EXTERNAL_FD = 0 then Some (serial_fd s') else None)"
proof -
  have "serial_disciplined s"
    using assms by (auto simp: devserial_create_def devserial_init_def serial_disciplined_def serial_owned_def)
  then have "serial_disciplined (fold (serial_step (logging os)) ops s)"
    by (induction ops arbitrary: s) (simp_all add: step_disciplined)
  then show ?thesis by (simp add: Let_def serial_disciplined_def serial_owned_def)
qed

lemma serial_descriptors_disciplined_witness:
  "\<exists>s. devserial_create True True 0xFFFFFFFF \<lparr>log_calls = [], log_rest = [] :: bytes\<rparr> = Inr s
     \<and> (let s' = fold (serial_step (logging short_os)) [Ser_open ''/dev/ttyACM0'', Ser_setFD 5, Ser_open ''/dev/ttyACM1'', Ser_close, Ser_setFD 7, Ser_close] s
        in owns None (log_calls (serial_os s')) = Some None)"
proof -
  obtain s where s: "devserial_create True True 0xFFFFFFFF \<lparr>log_calls = [], log_rest = [] :: bytes\<rparr> = Inr s"
    by (simp add: devserial_create_def)
  let ?ops = "[Ser_open ''/dev/ttyACM0'', Ser_setFD 5, Ser_open ''/dev/ttyACM1'', Ser_close, Ser_setFD 7, Ser_close]"
  have "serial_fd (fold (serial_step (logging short_os)) ?ops s) = - 1"
    by (simp add: devserial_close_def case_prod_beta Let_def)
  then show ?thesis
    using serial_descriptors_disciplined [OF s, of short_os ?ops] s by (simp add: Let_def)
qed

end
