(* ===== verification/PtyTests.thy ===== *)
theory PtyTests
  imports DevSerial ProtoMaster ProtoSlave Ring
begin

text \<open>
  The test programs over the two ends of a pseudo terminal: \<open>dllCom/libcomm-gnulinux-test/main.c\<close>, a master and a slave in two
  threads of one process, and \<open>dllCom/test-ptmx/main.c\<close>, one message. In the first, every access of a
  thread to the terminal, and every test of the flag that stops the slave, is one turn of the thread; a schedule is any sequence of turns.
  The theorems refine the two threads to a small automaton of the race between them.
\<close>

section \<open>The two devices\<close>

text \<open>Two objects of \<open>device_serial.c\<close> on the heap, and the system they share.\<close>

record 'w two_devs =
  shared :: 'w
  master_fd :: int
  master_flags :: u32
  slave_fd :: int
  slave_flags :: u32

definition lift_dev :: "('t \<Rightarrow> 's) \<Rightarrow> ('s \<Rightarrow> 't \<Rightarrow> 't) \<Rightarrow> 's iodevice \<Rightarrow> 't iodevice" where
  "lift_dev view put d =
     \<lparr>dev_open = \<lambda>p t. obind (dev_open d p (view t)) (\<lambda>(r, s). Inr (r, put s t)),
      dev_close = \<lambda>t. obind (dev_close d (view t)) (\<lambda>(r, s). Inr (r, put s t)),
      dev_destroy = \<lambda>t. obind (dev_destroy d (view t)) (\<lambda>s. Inr (put s t)),
      dev_read = \<lambda>n tout t. obind (dev_read d n tout (view t)) (\<lambda>(r, bs, s). Inr (r, bs, put s t)),
      dev_write = \<lambda>bs t. obind (dev_write d bs (view t)) (\<lambda>(r, s). Inr (r, put s t))\<rparr>"

definition masterDev :: "'w serial_os \<Rightarrow> 'w two_devs iodevice" where
  "masterDev os = lift_dev (\<lambda>t. \<lparr>serial_fd = master_fd t, serial_flags = master_flags t, serial_os = shared t\<rparr>)
     (\<lambda>s t. t\<lparr>shared := serial_os s, master_fd := serial_fd s, master_flags := serial_flags s\<rparr>) (serial_dev os)"

definition slaveDev :: "'w serial_os \<Rightarrow> 'w two_devs iodevice" where
  "slaveDev os = lift_dev (\<lambda>t. \<lparr>serial_fd = slave_fd t, serial_flags = slave_flags t, serial_os = shared t\<rparr>)
     (\<lambda>s t. t\<lparr>shared := serial_os s, slave_fd := serial_fd s, slave_flags := serial_flags s\<rparr>) (serial_dev os)"

text \<open>The calls of the system that only a pseudo terminal has.\<close>

record 'w ptmx_calls =
  grantpt :: "int \<Rightarrow> 'w \<Rightarrow> int \<times> 'w"
  unlockpt :: "int \<Rightarrow> 'w \<Rightarrow> int \<times> 'w"
  ptsname :: "int \<Rightarrow> 'w \<Rightarrow> string \<times> 'w"

text \<open>
  \<open>initializeDevices\<close>: \<open>malloc_ok n\<close> says whether the allocation number \<open>n\<close> of the program succeeds, and \<open>f1\<close>, \<open>f2\<close> are what the heap
  holds where the flags of the two objects are. When anything fails, only the
  master's device is destroyed, and only if it was opened.
\<close>

definition initializeDevices ::
  "'w serial_os \<Rightarrow> 'w ptmx_calls \<Rightarrow> (nat \<Rightarrow> bool) \<Rightarrow> u32 \<Rightarrow> u32 \<Rightarrow> 'w \<Rightarrow> (bool \<times> 'w two_devs) outcome"
where
  "initializeDevices os pt malloc_ok f1 f2 w =
     obind (devserial_create (malloc_ok 0) (malloc_ok 1) f1 w) (\<lambda>m.
     obind (devserial_create (malloc_ok 2) (malloc_ok 3) f2 w) (\<lambda>sl.
     let s = \<lparr>shared = w, master_fd = serial_fd m, master_flags = serial_flags m,
              slave_fd = serial_fd sl, slave_flags = serial_flags sl\<rparr>;
         fails = (\<lambda>s. obind (dev_destroy (masterDev os) s) (\<lambda>s'. Inr (False, s'))) in
     obind (dev_open (masterDev os) ''/dev/ptmx'' s) (\<lambda>(r, s1).
     if r = 0 then
       (let fd = master_fd s1; (g, w1) = grantpt pt fd (shared s1); s2 = s1\<lparr>shared := w1\<rparr> in
        if 0 \<le> g then
          (let (u, w2) = unlockpt pt fd (shared s2); s3 = s2\<lparr>shared := w2\<rparr> in
           if 0 \<le> u then
             (let (name, w3) = ptsname pt fd (shared s3) in
              obind (dev_open (slaveDev os) name (s3\<lparr>shared := w3\<rparr>)) (\<lambda>(r, s4).
                if r = 0 then Inr (True, s4) else fails s4))
           else fails s3)
        else fails s2)
     else Inr (False, s1))))"

section \<open>The slave\<close>

text \<open>The slave of this program triples the number of a register, and refuses everything but a get.\<close>

definition gnu_slave_receive :: "'s proto_OnReception" where
  "gnu_slave_receive cmd args s =
     (if cmd = proto_CMD_GET then Inr (0, args\<lparr>raw0 := raw0 args * 3\<rparr>, s) else Inr (- 1, args, s))"

definition master_bind :: "'w serial_os \<Rightarrow> 'w two_devs proto_bind" where
  "master_bind os = \<lparr>priv_callback = None, priv_iodevice = Some (masterDev os)\<rparr>"

definition slave_bind :: "'w serial_os \<Rightarrow> 'w two_devs proto_bind" where
  "slave_bind os = \<lparr>priv_callback = Some gnu_slave_receive, priv_iodevice = Some (slaveDev os)\<rparr>"

text \<open>
  \<open>proto_slave_main\<close> makes two calls on its device; this is its first part, up to the reply, if there is one.
\<close>

definition slave_main_reads ::
  "'s proto_bind \<Rightarrow> proto_hdle \<Rightarrow> 's \<Rightarrow> ((int + proto_Command \<times> proto_frame_data) \<times> proto_hdle \<times> 's) outcome"
where
  "slave_main_reads b h s =
     obind (proto_readFrame b h (- 1) s) (\<lambda>(st, h1, s1).
       case st of
         proto_NO_ERROR \<Rightarrow>
           (case proto_decodeFrame h1 0 (mk_data 0 0) of
              (proto_COMPLETED, cmd, req, h2) \<Rightarrow>
                (case priv_callback b of
                   None \<Rightarrow> Inl Null_deref
                 | Some cb \<Rightarrow>
                     obind (cb cmd req s1) (\<lambda>(r, req', s2).
                     Inr (Inr (if r = 0 then proto_CMD_REPLY else proto_CMD_ERR_ARG, req'), h2, s2)))
            | (proto_WAITING, cmd, req, h2) \<Rightarrow> Inr (Inl 0, h2, s1)
            | (proto_REFUSED, cmd, req, h2) \<Rightarrow> Inr (Inr (cmd, req), h2, s1))
       | proto_ERR_SYS \<Rightarrow> Inr (Inl (- 1), h1, s1)
       | proto_TIMEOUT \<Rightarrow> Inr (Inl 0, h1, s1)
       | _ \<Rightarrow> Inr (Inl (- 1), h1, s1))"

lemma slave_main_parts:
  "proto_slave_main b h s = obind (slave_main_reads b h s) (\<lambda>(x, h1, s1).
     case x of Inl r \<Rightarrow> Inr (r, h1, s1)
     | Inr (cmd, args) \<Rightarrow> obind (proto_writeFrame b h1 cmd args s1) (\<lambda>(_, h2, s2). Inr (1, h2, s2)))"
proof (cases "proto_readFrame b h (- 1) s")
  case (Inr x)
  obtain st h1 s1 where x: "x = (st, h1, s1)" by (cases x) auto
  obtain ds cmd req h2 where "proto_decodeFrame h1 0 (mk_data 0 0) = (ds, cmd, req, h2)"
    by (cases "proto_decodeFrame h1 0 (mk_data 0 0)") auto
  moreover have "obind (cb cmd req s1) (\<lambda>(r, req', s2). obind (proto_writeFrame b h2 (if r = 0 then proto_CMD_REPLY else proto_CMD_ERR_ARG) req' s2)
        (\<lambda>(_, h3, s3). Inr (1, h3, s3)))
     = obind (obind (cb cmd req s1) (\<lambda>(r, req', s2). Inr (Inr (if r = 0 then proto_CMD_REPLY else proto_CMD_ERR_ARG, req'), h2, s2)))
         (\<lambda>(x, h1, s1). case x of Inl r \<Rightarrow> Inr (r, h1, s1)
          | Inr (cmd, args) \<Rightarrow> obind (proto_writeFrame b h1 cmd args s1) (\<lambda>(_, h2, s2). Inr (1, h2, s2)))" for cb
    by (cases "cb cmd req s1") (auto split: prod.split)
  ultimately show ?thesis
    using Inr by (auto simp: x proto_slave_main_def slave_main_reads_def split: proto_Status.split proto_DecodeStatus.split option.split)
qed (simp add: proto_slave_main_def slave_main_reads_def)

section \<open>The threads\<close>

datatype main_at = At_set | At_set_reply | At_get | At_get_reply | At_stop | At_join | At_end

datatype slave_at = At_test | At_read | At_write proto_Command proto_frame_data | At_exit

record 'w threads =
  devs :: "'w two_devs"
  master_hdl :: proto_hdle
  slave_hdl :: proto_hdle
  slaveStop :: bool
  main_at :: main_at
  slave_at :: slave_at

definition destroy_handles :: "'s proto_bind \<Rightarrow> 's proto_bind \<Rightarrow> 's \<Rightarrow> 's outcome" where
  "destroy_handles bm bs s = obind (proto_master_destroy bm s) (proto_slave_destroy bs)"

text \<open>\<open>main\<close> after \<open>thrd_create\<close>; a failed \<open>assert\<close> ends the process, and with it both threads.\<close>

definition main_turn :: "'w serial_os \<Rightarrow> (nat \<Rightarrow> int) \<Rightarrow> 'w threads \<Rightarrow> 'w threads outcome" where
  "main_turn os elapsed t =
     (let b = master_bind os; h = master_hdl t; s = devs t in
      case main_at t of
        At_set \<Rightarrow>
          obind (proto_writeFrame b h proto_CMD_SET (mk_data 5 10) s) (\<lambda>(r, h1, s1).
          obind (oassert (r = 0)) (\<lambda>_. Inr (t\<lparr>devs := s1, master_hdl := h1, main_at := At_set_reply\<rparr>)))
      | At_set_reply \<Rightarrow>
          obind (proto_master_readFrame b elapsed h (mk_data 5 10) s) (\<lambda>(status, data, h1, s1).
          obind (oassert (status = proto_INVALID_ARG)) (\<lambda>_. Inr (t\<lparr>devs := s1, master_hdl := h1, main_at := At_get\<rparr>)))
      | At_get \<Rightarrow>
          obind (proto_writeFrame b h proto_CMD_GET (mk_data 28 0) s) (\<lambda>(r, h1, s1).
          obind (oassert (r = 0)) (\<lambda>_. Inr (t\<lparr>devs := s1, master_hdl := h1, main_at := At_get_reply\<rparr>)))
      | At_get_reply \<Rightarrow>
          obind (proto_master_readFrame b elapsed h (mk_data 28 0) s) (\<lambda>(status, data, h1, s1).
          obind (oassert (status = proto_NO_ERROR)) (\<lambda>_.
          obind (oassert (unat (reg_value data) = 28 * 3)) (\<lambda>_.
          Inr (t\<lparr>devs := s1, master_hdl := h1, main_at := At_stop\<rparr>))))
      | At_stop \<Rightarrow> Inr (t\<lparr>slaveStop := True, main_at := At_join\<rparr>)
      | At_join \<Rightarrow>
          if slave_at t = At_exit then
            obind (destroy_handles b (slave_bind os) s) (\<lambda>s1. Inr (t\<lparr>devs := s1, main_at := At_end\<rparr>))
          else Inr t
      | At_end \<Rightarrow> Inr t)"

definition slave_turn :: "'w serial_os \<Rightarrow> 'w threads \<Rightarrow> 'w threads outcome" where
  "slave_turn os t =
     (let b = slave_bind os in
      case slave_at t of
        At_test \<Rightarrow> Inr (t\<lparr>slave_at := (if slaveStop t then At_exit else At_read)\<rparr>)
      | At_read \<Rightarrow>
          obind (slave_main_reads b (slave_hdl t) (devs t)) (\<lambda>(x, h1, s1).
          Inr (t\<lparr>devs := s1, slave_hdl := h1, slave_at := (case x of Inl r \<Rightarrow> At_test | Inr (cmd, args) \<Rightarrow> At_write cmd args)\<rparr>))
      | At_write cmd args \<Rightarrow>
          obind (proto_writeFrame b (slave_hdl t) cmd args (devs t)) (\<lambda>(r, h1, s1).
          Inr (t\<lparr>devs := s1, slave_hdl := h1, slave_at := At_test\<rparr>))
      | At_exit \<Rightarrow> Inr t)"

datatype thread = Main_thread | Slave_thread

fun turn :: "'w serial_os \<Rightarrow> (nat \<Rightarrow> int) \<Rightarrow> thread \<Rightarrow> 'w threads \<Rightarrow> 'w threads outcome" where
  "turn os elapsed Main_thread t = main_turn os elapsed t"
| "turn os elapsed Slave_thread t = slave_turn os t"

text \<open>
  \<open>initialize\<close>: the handles, or \<open>None\<close>. A failed allocation of a handle ends the program inside \<open>proto_create\<close>, so the branches for a
  null handle are never taken.
\<close>

definition gnulinux_initialize ::
  "'w serial_os \<Rightarrow> 'w ptmx_calls \<Rightarrow> (nat \<Rightarrow> bool) \<Rightarrow> u32 \<Rightarrow> u32 \<Rightarrow> 'w
     \<Rightarrow> ((('w two_devs proto_bind \<times> proto_hdle) \<times> ('w two_devs proto_bind \<times> proto_hdle)) option \<times> 'w two_devs) outcome"
where
  "gnulinux_initialize os pt malloc_ok f1 f2 w =
     obind (initializeDevices os pt malloc_ok f1 f2 w) (\<lambda>(opened, s).
     if \<not> opened then Inr (None, s)
     else obind (proto_master_create (malloc_ok 4) (Some (masterDev os))) (\<lambda>master.
          obind (proto_slave_create (malloc_ok 5) (Some (slaveDev os)) (Some gnu_slave_receive)) (\<lambda>slave.
          Inr (Some (master, slave), s))))"

text \<open>
  \<open>main\<close> up to \<open>thrd_create\<close>, given whether the mutex and the thread can be created: \<open>Inl\<close> when it returns a failure, \<open>Inr\<close> the
  two threads.
\<close>

definition gnulinux_start ::
  "'w serial_os \<Rightarrow> 'w ptmx_calls \<Rightarrow> (nat \<Rightarrow> bool) \<Rightarrow> bool \<Rightarrow> bool \<Rightarrow> u32 \<Rightarrow> u32 \<Rightarrow> 'w \<Rightarrow> ('w two_devs + 'w threads) outcome"
where
  "gnulinux_start os pt malloc_ok mtx_ok thrd_ok f1 f2 w =
     obind (gnulinux_initialize os pt malloc_ok f1 f2 w) (\<lambda>(handles, s).
     case handles of None \<Rightarrow> Inr (Inl s)
     | Some ((bm, hm), (bs, hs)) \<Rightarrow>
         if \<not> mtx_ok \<or> \<not> thrd_ok then obind (destroy_handles bm bs s) (\<lambda>s'. Inr (Inl s'))
         else Inr (Inr \<lparr>devs = s, master_hdl = hm, slave_hdl = hs, slaveStop = False, main_at = At_set, slave_at = At_test\<rparr>))"

text \<open>The turns run on the handles that \<open>initialize\<close> made.\<close>

lemma created:
  "proto_master_create mem (Some (masterDev os)) = (if mem then Inr (master_bind os, proto_init) else Inl Null_deref)"
  "proto_slave_create mem (Some (slaveDev os)) (Some gnu_slave_receive) = (if mem then Inr (slave_bind os, proto_init) else Inl Null_deref)"
  by (simp_all add: proto_master_create_def proto_slave_create_def proto_create_def proto_setReceiver_def
      master_bind_def slave_bind_def)

text \<open>Without the slave between them, two turns of \<open>main\<close> are the call of \<open>proto_master_set\<close>, or of \<open>proto_master_get\<close>.\<close>

lemma main_turns_set:
  assumes "main_at t = At_set"
  shows "obind (main_turn os elapsed t) (main_turn os elapsed)
     = obind (proto_master_set (master_bind os) elapsed (master_hdl t) 5 10 (devs t)) (\<lambda>(status, h, s).
       obind (oassert (status = proto_INVALID_ARG)) (\<lambda>_. Inr (t\<lparr>devs := s, master_hdl := h, main_at := At_get\<rparr>)))"
  using assms
  by (cases "proto_writeFrame (master_bind os) (master_hdl t) proto_CMD_SET (mk_data 5 10) (devs t)")
    (auto simp: main_turn_def proto_master_set_def Let_def obind_assoc case_prod_unfold)

lemma main_turns_get:
  assumes "main_at t = At_get"
  shows "obind (main_turn os elapsed t) (main_turn os elapsed)
     = obind (proto_master_get (master_bind os) elapsed (master_hdl t) 28 v (devs t)) (\<lambda>(status, output, h, s).
       obind (oassert (status = proto_NO_ERROR)) (\<lambda>_. obind (oassert (unat output = 28 * 3)) (\<lambda>_.
       Inr (t\<lparr>devs := s, master_hdl := h, main_at := At_stop\<rparr>))))"
  using assms
  by (cases "proto_writeFrame (master_bind os) (master_hdl t) proto_CMD_GET (mk_data 28 0) (devs t)")
    (auto simp: main_turn_def proto_master_get_def Let_def obind_assoc obind_oassert case_prod_unfold cong: if_cong)

section \<open>A pseudo terminal\<close>

text \<open>
  The bytes on their way in each direction. A descriptor whose modes \<open>devserial_open\<close> set returns at once with what there is, and
  a few bytes are always taken.
\<close>

record pty =
  down :: bytes   \<comment> \<open>from the master's end to the slave's\<close>
  up :: bytes

definition pty_calls :: "pty serial_os \<Rightarrow> int \<Rightarrow> int \<Rightarrow> bool" where
  "pty_calls os m s \<longleftrightarrow> (\<forall>n bs w.
     os_read os m n w = (int (length (take (unat n) (up w))), take (unat n) (up w), w\<lparr>up := drop (unat n) (up w)\<rparr>)
   \<and> os_read os s n w = (int (length (take (unat n) (down w))), take (unat n) (down w), w\<lparr>down := drop (unat n) (down w)\<rparr>)
   \<and> os_write os m bs w = (int (length bs), w\<lparr>down := down w @ bs\<rparr>)
   \<and> os_write os s bs w = (int (length bs), w\<lparr>up := up w @ bs\<rparr>))"

definition ends_open :: "pty serial_os \<Rightarrow> pty two_devs \<Rightarrow> bool" where
  "ends_open os s \<longleftrightarrow> 0 \<le> master_fd s \<and> 0 \<le> slave_fd s \<and> pty_calls os (master_fd s) (slave_fd s)"

lemma ends_open_shared [simp]: "ends_open os (s\<lparr>shared := w\<rparr>) = ends_open os s"
  by (simp add: ends_open_def)

abbreviation set_up :: "bytes \<Rightarrow> pty two_devs \<Rightarrow> pty two_devs" where
  "set_up bs s \<equiv> s\<lparr>shared := (shared s)\<lparr>up := bs\<rparr>\<rparr>"

abbreviation set_down :: "bytes \<Rightarrow> pty two_devs \<Rightarrow> pty two_devs" where
  "set_down bs s \<equiv> s\<lparr>shared := (shared s)\<lparr>down := bs\<rparr>\<rparr>"

lemma master_whole: "rx_whole (masterDev os) (ends_open os) (\<lambda>s. up (shared s)) (\<lambda>k s. set_up (drop k (up (shared s))) s)"
  by unfold_locales
    (auto simp: masterDev_def lift_dev_def serial_dev_def devserial_read_def ends_open_def pty_calls_def)

lemma slave_whole: "rx_whole (slaveDev os) (ends_open os) (\<lambda>s. down (shared s)) (\<lambda>k s. set_down (drop k (down (shared s))) s)"
  by unfold_locales
    (auto simp: slaveDev_def lift_dev_def serial_dev_def devserial_read_def ends_open_def pty_calls_def)

lemma whole_write:
  assumes "os_write os fd bs w = (int (length bs), w')" "bs \<noteq> []" "length bs < 256"
  shows "serial_write_loop os fd bs (of_nat (length bs)) w = Some (0, w')"
proof -
  have "unat (of_nat (length bs) :: u8) = length bs" using assms(3) by (rule unat_of_nat_u8)
  moreover from this have "(0 :: u8) < of_nat (length bs)" using assms(2) by (simp add: word_less_nat_alt)
  ultimately show ?thesis
    using assms(1) by (simp add: serial_write_loop.simps [of os fd bs] serial_write_loop.simps [of _ _ _ 0])
qed

lemma ends_write:
  assumes "ends_open os s" "bs \<noteq> []" "length bs < 256"
  shows "dev_write (masterDev os) bs s = Inr (0, set_down (down (shared s) @ bs) s)"
    "dev_write (slaveDev os) bs s = Inr (0, set_up (up (shared s) @ bs) s)"
proof -
  have p: "pty_calls os (master_fd s) (slave_fd s)" and fd: "0 \<le> master_fd s" "0 \<le> slave_fd s"
    using assms(1) by (simp_all add: ends_open_def)
  have m: "os_write os (master_fd s) bs (shared s) = (int (length bs), (shared s)\<lparr>down := down (shared s) @ bs\<rparr>)"
    and s: "os_write os (slave_fd s) bs (shared s) = (int (length bs), (shared s)\<lparr>up := up (shared s) @ bs\<rparr>)"
    using p unfolding pty_calls_def by blast+
  show "dev_write (masterDev os) bs s = Inr (0, set_down (down (shared s) @ bs) s)"
    "dev_write (slaveDev os) bs s = Inr (0, set_up (up (shared s) @ bs) s)"
    using fd whole_write [OF m assms(2,3)] whole_write [OF s assms(2,3)]
    by (simp_all add: masterDev_def slaveDev_def lift_dev_def serial_dev_def devserial_write_def)
qed

section \<open>The race\<close>

text \<open>What is on the terminal, and where the slave is in its iteration\<close>

datatype link = Link_empty | Link_request | Link_reply

datatype slave_pos = Testing | Reading | Writing | Exited

type_synonym race = "main_at \<times> link \<times> slave_pos"

definition asking :: "main_at \<Rightarrow> bool" where
  "asking m \<longleftrightarrow> m = At_set_reply \<or> m = At_get_reply"

lemma asking_at [simp]:
  "asking At_set_reply" "asking At_get_reply" "\<not> asking At_set" "\<not> asking At_get" "\<not> asking At_stop" "\<not> asking At_join" "\<not> asking At_end"
  by (simp_all add: asking_def)

text \<open>The turns, as far as they decide the assertions: \<open>None\<close> is a failed one.\<close>

fun race_turn :: "thread \<Rightarrow> race \<Rightarrow> race option" where
  "race_turn Main_thread (m, l, p) =
     (case m of
        At_set \<Rightarrow> Some (At_set_reply, Link_request, p)
      | At_set_reply \<Rightarrow> (if l = Link_reply then Some (At_get, Link_empty, p) else None)
      | At_get \<Rightarrow> Some (At_get_reply, Link_request, p)
      | At_get_reply \<Rightarrow> (if l = Link_reply then Some (At_stop, Link_empty, p) else None)
      | At_stop \<Rightarrow> Some (At_join, l, p)
      | At_join \<Rightarrow> Some (if p = Exited then At_end else At_join, l, p)
      | At_end \<Rightarrow> Some (At_end, l, p))"
| "race_turn Slave_thread (m, l, p) =
     (case p of
        Testing \<Rightarrow> Some (m, l, if m = At_join \<or> m = At_end then Exited else Reading)
      | Reading \<Rightarrow> Some (if l = Link_request then (m, Link_empty, Writing) else (m, l, Testing))
      | Writing \<Rightarrow> Some (m, Link_reply, Testing)
      | Exited \<Rightarrow> Some (m, l, p))"

definition race_ok :: "race \<Rightarrow> bool" where
  "race_ok r = (case r of (m, l, p) \<Rightarrow>
     if asking m then (l = Link_empty \<longleftrightarrow> p = Writing) \<and> p \<noteq> Exited
     else l = Link_empty \<and> p \<noteq> Writing \<and> (p = Exited \<longrightarrow> m = At_join \<or> m = At_end) \<and> (m = At_end \<longrightarrow> p = Exited))"

text \<open>The request of each question, and the answers that are right.\<close>

definition request_of :: "main_at \<Rightarrow> bytes \<Rightarrow> bool" where
  "request_of m bs \<longleftrightarrow> (\<exists>f. bs = (if m = At_set_reply then frame_sent f proto_CMD_SET (mk_data 5 10)
                                  else frame_sent f proto_CMD_GET (mk_data 28 0)))"

definition answer_of :: "main_at \<Rightarrow> proto_Command \<Rightarrow> proto_frame_data \<Rightarrow> bool" where
  "answer_of m cmd args \<longleftrightarrow> (if m = At_set_reply then cmd = proto_CMD_ERR_ARG else cmd = proto_CMD_REPLY \<and> raw0 args = 84)"

fun link_holds :: "main_at \<Rightarrow> link \<Rightarrow> pty \<Rightarrow> bool" where
  "link_holds m Link_empty w \<longleftrightarrow> down w = [] \<and> up w = []"
| "link_holds m Link_request w \<longleftrightarrow> request_of m (down w) \<and> up w = []"
| "link_holds m Link_reply w \<longleftrightarrow> down w = [] \<and> (\<exists>f cmd args. up w = frame_sent f cmd args \<and> answer_of m cmd args)"

fun slave_is :: "main_at \<Rightarrow> slave_pos \<Rightarrow> slave_at \<Rightarrow> bool" where
  "slave_is m Testing a \<longleftrightarrow> a = At_test"
| "slave_is m Reading a \<longleftrightarrow> a = At_read"
| "slave_is m Writing a \<longleftrightarrow> (\<exists>cmd args. a = At_write cmd args \<and> answer_of m cmd args)"
| "slave_is m Exited a \<longleftrightarrow> a = At_exit"

definition runs_as :: "pty serial_os \<Rightarrow> pty threads \<Rightarrow> race \<Rightarrow> bool" where
  "runs_as os t r = (case r of (m, l, p) \<Rightarrow>
     race_ok r \<and> main_at t = m \<and> slave_is m p (slave_at t) \<and> (slaveStop t \<longleftrightarrow> m = At_join \<or> m = At_end)
   \<and> (m \<noteq> At_end \<longrightarrow> ends_open os (devs t) \<and> link_holds m l (shared (devs t))
        \<and> priv_nbBytes (master_hdl t) = 0 \<and> priv_nbBytes (slave_hdl t) = 0))"

lemma frame_short: "ucast (ucast cmd :: u8) = cmd \<Longrightarrow> frame_sent f cmd args \<noteq> [] \<and> length (frame_sent f cmd args) \<le> 5"
  using wire_length [OF wire_frame_sent] wire_hd [OF wire_frame_sent] by blast

lemma bind_simps [simp]:
  "priv_iodevice (master_bind os) = Some (masterDev os)" "priv_iodevice (slave_bind os) = Some (slaveDev os)"
  "priv_callback (slave_bind os) = Some gnu_slave_receive"
  by (simp_all add: master_bind_def slave_bind_def)

lemma master_writes:
  assumes "ends_open os s" "ucast (ucast cmd :: u8) = cmd"
  shows "\<exists>h'. proto_writeFrame (master_bind os) h cmd args s
      = Inr (0, h', set_down (down (shared s) @ frame_sent (priv_frame h) cmd args) s) \<and> priv_nbBytes h' = priv_nbBytes h"
  using frame_short [OF assms(2), of "priv_frame h" args] ends_write(1) [OF assms(1), of "frame_sent (priv_frame h) cmd args"]
  by (auto simp: writeFrame_sent [of "master_bind os" "masterDev os"])

lemma slave_writes:
  assumes "ends_open os s" "ucast (ucast cmd :: u8) = cmd"
  shows "\<exists>h'. proto_writeFrame (slave_bind os) h cmd args s
      = Inr (0, h', set_up (up (shared s) @ frame_sent (priv_frame h) cmd args) s) \<and> priv_nbBytes h' = priv_nbBytes h"
  using frame_short [OF assms(2), of "priv_frame h" args] ends_write(2) [OF assms(1), of "frame_sent (priv_frame h) cmd args"]
  by (auto simp: writeFrame_sent [of "slave_bind os" "slaveDev os"])

lemma master_silence:
  assumes "ends_open os s" "up (shared s) = []"
  shows "\<exists>s'. proto_master_readFrame (master_bind os) elapsed h arg s = Inr (proto_TIMEOUT, arg, h, s')"
  using rx_whole.master_readFrame_nothing [OF master_whole _ assms, of "master_bind os" elapsed h arg]
  by auto

lemma master_hears:
  assumes "ends_open os s" "priv_nbBytes h = 0" "up (shared s) = frame_sent f cmd out" "answer_of m cmd out"
  shows "\<exists>data h'. proto_master_readFrame (master_bind os) elapsed h arg s
        = Inr (if m = At_set_reply then proto_INVALID_ARG else proto_NO_ERROR, data, h', set_up [] s)
      \<and> priv_nbBytes h' = 0 \<and> (m \<noteq> At_set_reply \<longrightarrow> unat (raw0 data) = 84)"
proof -
  have c: "ucast (ucast cmd :: u8) = cmd" using assms(4) by (auto simp: answer_of_def split: if_splits)
  obtain data h' where r: "proto_master_readFrame (master_bind os) elapsed h arg s
        = Inr (reply_status cmd, data, h', set_up [] s)" "priv_nbBytes h' = 0" "args_agree cmd data out"
    using rx_whole.master_readFrame_frame [OF master_whole _ assms(1,2) c assms(3), of "master_bind os" elapsed arg]
    by auto
  have "reply_status cmd = (if m = At_set_reply then proto_INVALID_ARG else proto_NO_ERROR)"
    using assms(4) by (auto simp: answer_of_def split: if_splits)
  moreover have "m \<noteq> At_set_reply \<longrightarrow> unat (raw0 data) = 84"
    using r(3) assms(4) by (auto simp: answer_of_def args_agree_cases proto_getArgsSize_def split: if_splits)
  ultimately show ?thesis using r by auto
qed

lemma slave_hears:
  assumes "ends_open os s" "priv_nbBytes h = 0" "request_of m (down (shared s))" "asking m"
  shows "\<exists>cmd args h'. slave_main_reads (slave_bind os) h s = Inr (Inr (cmd, args), h', set_down [] s)
      \<and> answer_of m cmd args \<and> priv_nbBytes h' = 0"
proof -
  obtain f cmd args where d: "down (shared s) = frame_sent f cmd args" "ucast (ucast cmd :: u8) = cmd"
      "m = At_set_reply \<and> cmd = proto_CMD_SET \<or> m \<noteq> At_set_reply \<and> cmd = proto_CMD_GET \<and> raw0 args = 28"
  proof (cases "m = At_set_reply")
    case True
    then show ?thesis using assms(3) that [of _ proto_CMD_SET "mk_data 5 10"] by (auto simp: request_of_def)
  next
    case False
    then show ?thesis using assms(3) that [of _ proto_CMD_GET "mk_data 28 0"] by (auto simp: request_of_def mk_data_def)
  qed
  have b: "priv_iodevice (slave_bind os) = Some (slaveDev os)" by simp
  obtain h1 where h1: "proto_readFrame (slave_bind os) h (- 1) s = Inr (proto_NO_ERROR, h1, set_down [] s)"
      "received (frame_sent f cmd args) h1"
    using rx_whole.readFrame_frame [OF slave_whole b assms(1,2) wire_frame_sent [OF d(2)], of "[]" f args "[]" "- 1"]
      frame_short [OF d(2), of f args] d(1) by auto
  from decode_frame_sent [OF d(2) h1(2), of 0 "mk_data 0 0"] show ?thesis
    using h1(1) d(3)
    by (auto simp: slave_main_reads_def gnu_slave_receive_def answer_of_def args_agree_cases proto_getArgsSize_def)
qed

lemma slave_silence:
  assumes "ends_open os s" "down (shared s) = []"
  shows "\<exists>s'. slave_main_reads (slave_bind os) h s = Inr (Inl 0, h, s') \<and> s' = set_down [] s"
  using rx_whole.readFrame_nothing [OF slave_whole _ assms, of "slave_bind os" h "- 1"] assms(2)
  by (simp add: slave_main_reads_def)

text \<open>A turn of a thread follows its turn in the race.\<close>

definition follows :: "pty serial_os \<Rightarrow> pty threads outcome \<Rightarrow> race option \<Rightarrow> bool" where
  "follows os m r \<longleftrightarrow> (case r of None \<Rightarrow> m = Inl Assertion | Some r' \<Rightarrow> \<exists>t'. m = Inr t' \<and> runs_as os t' r')"

lemma main_asks:
  assumes "runs_as os t (m, l, p)" "m = At_set \<or> m = At_get"
  shows "follows os (main_turn os elapsed t) (race_turn Main_thread (m, l, p))"
proof -
  define cmd where "cmd = (if m = At_set then proto_CMD_SET else proto_CMD_GET)"
  define args where "args = (if m = At_set then mk_data 5 10 else mk_data 28 0)"
  have "ucast (ucast cmd :: u8) = cmd" by (simp add: cmd_def)
  moreover have "ends_open os (devs t)" using assms by (auto simp: runs_as_def)
  ultimately obtain h' where "proto_writeFrame (master_bind os) (master_hdl t) cmd args (devs t)
        = Inr (0, h', set_down (down (shared (devs t)) @ frame_sent (priv_frame (master_hdl t)) cmd args) (devs t))"
        "priv_nbBytes h' = priv_nbBytes (master_hdl t)"
    using master_writes by blast
  then show ?thesis
    using assms unfolding follows_def cmd_def args_def
    by (cases p) (auto simp: main_turn_def Let_def runs_as_def race_ok_def asking_def request_of_def)
qed

lemma main_waits:
  assumes "runs_as os t (m, l, p)" "asking m"
  shows "follows os (main_turn os elapsed t) (race_turn Main_thread (m, l, p))"
proof (cases "l = Link_reply")
  case True
  then obtain f cmd out where link: "ends_open os (devs t)" "priv_nbBytes (master_hdl t) = 0"
      "up (shared (devs t)) = frame_sent f cmd out" "answer_of m cmd out" "down (shared (devs t)) = []"
    using assms by (auto simp: runs_as_def asking_def)
  have "shared (devs t)\<lparr>up := []\<rparr> = \<lparr>down = [], up = []\<rparr>" using link(5) by (cases "shared (devs t)") simp
  then show ?thesis
    using assms True master_hears [OF link(1-4), of elapsed "if m = At_set_reply then mk_data 5 10 else mk_data 28 0"]
    unfolding follows_def
    by (cases p) (auto simp: asking_def main_turn_def Let_def runs_as_def race_ok_def)
next
  case False
  then have "up (shared (devs t)) = []" "ends_open os (devs t)"
    using assms by (cases l; auto simp: runs_as_def asking_def)+
  then show ?thesis
    using assms False
      master_silence [of os "devs t" elapsed "master_hdl t" "if m = At_set_reply then mk_data 5 10 else mk_data 28 0"]
    unfolding follows_def by (cases m) (auto simp: asking_def main_turn_def Let_def runs_as_def)
qed

lemma main_ends:
  assumes "runs_as os t (m, l, p)" "m \<in> {At_stop, At_join, At_end}"
  shows "follows os (main_turn os elapsed t) (race_turn Main_thread (m, l, p))"
  using assms unfolding follows_def
  by (cases p) (auto simp: main_turn_def Let_def runs_as_def race_ok_def asking_def destroy_handles_def proto_master_destroy_def proto_slave_destroy_def
      proto_destroy_def masterDev_def slaveDev_def lift_dev_def serial_dev_def)

lemma main_sim:
  assumes "runs_as os t r"
  shows "follows os (turn os elapsed Main_thread t) (race_turn Main_thread r)"
proof -
  obtain m l p where r: "r = (m, l, p)" by (cases r) auto
  show ?thesis
    using assms main_asks [of os t m l p elapsed] main_waits [of os t m l p elapsed] main_ends [of os t m l p elapsed]
    unfolding r turn.simps by (cases m) (auto simp: asking_def)
qed

lemma slave_sim:
  assumes "runs_as os t r"
  shows "follows os (turn os elapsed Slave_thread t) (race_turn Slave_thread r)"
proof -
  obtain m l p where r: "r = (m, l, p)" by (cases r) auto
  note rel = assms [unfolded r]
  show ?thesis
  proof (cases p)
    case Testing
    then show ?thesis using rel by (auto simp: r follows_def slave_turn_def runs_as_def race_ok_def asking_def Let_def split: if_splits)
  next
    case Reading
    show ?thesis
    proof (cases "l = Link_request")
      case True
      then have "ends_open os (devs t)" "priv_nbBytes (slave_hdl t) = 0" "request_of m (down (shared (devs t)))" "asking m"
        using rel by (auto simp: runs_as_def race_ok_def split: if_splits)
      from slave_hears [OF this] show ?thesis
        using rel True Reading \<open>asking m\<close>
        by (auto simp: r follows_def slave_turn_def runs_as_def race_ok_def Let_def)
    next
      case False
      then have "ends_open os (devs t)" "down (shared (devs t)) = []"
        using rel Reading by (cases l; auto simp: runs_as_def race_ok_def split: if_splits)+
      from slave_silence [OF this, of "slave_hdl t"] show ?thesis
        using rel False Reading by (cases l) (auto simp: r follows_def slave_turn_def runs_as_def race_ok_def Let_def)
    qed
  next
    case Writing
    then obtain cmd args where w: "slave_at t = At_write cmd args" "answer_of m cmd args" "ends_open os (devs t)"
        "l = Link_empty" "asking m"
      using rel by (auto simp: runs_as_def race_ok_def split: if_splits)
    then have "ucast (ucast cmd :: u8) = cmd" by (auto simp: answer_of_def split: if_splits)
    from slave_writes [OF w(3) this, of "slave_hdl t" args] show ?thesis
      using rel Writing w by (auto simp: r follows_def slave_turn_def runs_as_def race_ok_def Let_def)
  next
    case Exited
    then show ?thesis using rel by (simp add: r follows_def slave_turn_def runs_as_def Let_def)
  qed
qed

lemma turn_follows: "runs_as os t r \<Longrightarrow> follows os (turn os elapsed th t) (race_turn th r)"
  by (cases th) (simp_all only: main_sim slave_sim)

section \<open>Schedules\<close>

fun race_run :: "thread list \<Rightarrow> race \<Rightarrow> race option" where
  "race_run [] r = Some r"
| "race_run (th # ths) r = (case race_turn th r of None \<Rightarrow> None | Some r' \<Rightarrow> race_run ths r')"

text \<open>The program under a schedule is the race under it.\<close>

lemma run_follows: "runs_as os t r \<Longrightarrow> follows os (ofold (turn os elapsed) ths t) (race_run ths r)"
proof (induction ths arbitrary: t r)
  case Nil
  then show ?case by (simp add: follows_def)
next
  case (Cons th ths)
  have one: "follows os (turn os elapsed th t) (race_turn th r)" by (rule turn_follows [OF Cons.prems])
  show ?case
  proof (cases "race_turn th r")
    case None
    then show ?thesis using one by (simp add: follows_def)
  next
    case (Some r')
    then obtain t' where t': "turn os elapsed th t = Inr t'" "runs_as os t' r'" using one by (auto simp: follows_def)
    show ?thesis using Cons.IH [OF t'(2)] t'(1) Some by simp
  qed
qed

text \<open>\<open>main\<close> takes a turn, then the slave some, and so on.\<close>

definition rounds :: "nat list \<Rightarrow> thread list" where
  "rounds ks = concat (map (\<lambda>k. Main_thread # replicate k Slave_thread) ks)"

lemma race_run_append: "race_run (xs @ ys) r = (case race_run xs r of None \<Rightarrow> None | Some r' \<Rightarrow> race_run ys r')"
  by (induction xs arbitrary: r) (simp_all split: option.split)

text \<open>How far the slave gets when it is left alone. Between two turns of \<open>main\<close> it is at the start of its loop or about to read.\<close>

definition at_ease :: "slave_pos \<Rightarrow> bool" where
  "at_ease p \<longleftrightarrow> p = Testing \<or> p = Reading"

lemma at_ease_simps [simp]: "at_ease Testing" "at_ease Reading" "\<not> at_ease Writing" "\<not> at_ease Exited"
  by (simp_all add: at_ease_def)

lemma at_ease_cases:
  assumes "at_ease p"
  obtains "p = Testing" | "p = Reading"
  using assms by (auto simp: at_ease_def)

lemma race_idle:
  assumes "m \<noteq> At_join" "m \<noteq> At_end" "l \<noteq> Link_request" "at_ease p"
  shows "\<exists>p'. race_run (replicate k Slave_thread) (m, l, p) = Some (m, l, p') \<and> at_ease p'"
  using assms(4)
proof (induction k arbitrary: p)
  case (Suc k)
  from Suc.prems show ?case
  proof (cases rule: at_ease_cases)
    case 1
    then show ?thesis using Suc.IH [of Reading] assms(1,2) by simp
  next
    case 2
    then show ?thesis using Suc.IH [of Testing] assms(3) by simp
  qed
qed simp

lemma race_answers:
  assumes "asking m" "at_ease p" "3 \<le> k"
  shows "\<exists>p'. race_run (replicate k Slave_thread) (m, Link_request, p) = Some (m, Link_reply, p') \<and> at_ease p'"
proof -
  have k: "k = Suc (Suc (Suc (k - 3)))" using assms(3) by simp
  have m: "m \<noteq> At_join" "m \<noteq> At_end" using assms(1) by (auto simp: asking_def)
  from assms(2) show ?thesis
  proof (cases rule: at_ease_cases)
    case 1
    then show ?thesis using m race_idle [OF m, of Link_reply Testing "k - 3"] by (subst k) simp
  next
    case 2
    then show ?thesis using m race_idle [OF m, of Link_reply Reading "k - 3"] by (subst k) simp
  qed
qed

lemma race_late:
  assumes "asking m" "at_ease p" "k < 2"
  shows "race_run (replicate k Slave_thread @ Main_thread # ths) (m, Link_request, p) = None"
proof -
  have k: "k = 0 \<or> k = Suc 0" using assms(3) by auto
  have m: "m = At_set_reply \<or> m = At_get_reply" using assms(1) by (simp add: asking_def)
  from assms(2) show ?thesis
    by (cases rule: at_ease_cases) (use k m in \<open>elim disjE; simp\<close>)+
qed

lemma race_stops:
  assumes "at_ease p" "2 \<le> k"
  shows "race_run (replicate k Slave_thread) (At_join, Link_empty, p)
     = Some (At_join, Link_empty, Exited)"
proof -
  have k: "k = Suc (Suc (k - 2))" using assms(2) by simp
  have "race_run (replicate i Slave_thread) (At_join, Link_empty, Exited) = Some (At_join, Link_empty, Exited)" for i
    by (induction i) simp_all
  from assms(1) this show ?thesis by (cases rule: at_ease_cases) (subst k, simp)+
qed

text \<open>The schedules up to each of the two replies, and to the end.\<close>

lemma rounds_simps [simp]:
  "rounds [] = []" "rounds (k # ks) = Main_thread # replicate k Slave_thread @ rounds ks"
  by (simp_all add: rounds_def)

lemma race_to_set:
  obtains p where "race_run (replicate j Slave_thread @ [Main_thread]) (At_set, Link_empty, Testing) = Some (At_set_reply, Link_request, p)"
    "at_ease p"
  using race_idle [of At_set Link_empty Testing j] by (auto simp: race_run_append)

lemma race_set_late:
  assumes "k < 2"
  shows "race_run (replicate j Slave_thread @ rounds [k] @ Main_thread # ths) (At_set, Link_empty, Testing) = None"
proof -
  obtain p where p: "race_run (replicate j Slave_thread @ [Main_thread]) (At_set, Link_empty, Testing) = Some (At_set_reply, Link_request, p)"
    "at_ease p" by (rule race_to_set)
  have "replicate j Slave_thread @ rounds [k] @ Main_thread # ths
      = (replicate j Slave_thread @ [Main_thread]) @ replicate k Slave_thread @ Main_thread # ths" by simp
  then show ?thesis using p race_late [OF _ p(2) assms, of At_set_reply ths] by (simp only: race_run_append) simp
qed

lemma race_to_get:
  assumes "3 \<le> k"
  obtains p where "race_run (replicate j Slave_thread @ rounds [k, i] @ [Main_thread]) (At_set, Link_empty, Testing)
      = Some (At_get_reply, Link_request, p)" "at_ease p"
proof -
  obtain p where p: "race_run (replicate j Slave_thread @ [Main_thread]) (At_set, Link_empty, Testing) = Some (At_set_reply, Link_request, p)"
    "at_ease p" by (rule race_to_set)
  obtain q where q: "race_run (replicate k Slave_thread) (At_set_reply, Link_request, p) = Some (At_set_reply, Link_reply, q)" "at_ease q"
    using race_answers [OF _ p(2) assms, of At_set_reply] by auto
  obtain q' where q': "race_run (replicate i Slave_thread) (At_get, Link_empty, q) = Some (At_get, Link_empty, q')" "at_ease q'"
    using race_idle [of At_get Link_empty q i] q(2) by auto
  have "replicate j Slave_thread @ rounds [k, i] @ [Main_thread] = (replicate j Slave_thread @ [Main_thread])
      @ replicate k Slave_thread @ [Main_thread] @ replicate i Slave_thread @ [Main_thread]" by simp
  then have "race_run (replicate j Slave_thread @ rounds [k, i] @ [Main_thread]) (At_set, Link_empty, Testing)
      = Some (At_get_reply, Link_request, q')"
    using p q q' by (simp only: race_run_append) (simp add: race_run_append)
  then show ?thesis using that q'(2) by blast
qed

lemma race_get_late:
  assumes "3 \<le> k" "k' < 2"
  shows "race_run (replicate j Slave_thread @ rounds [k, i, k'] @ Main_thread # ths) (At_set, Link_empty, Testing) = None"
proof -
  obtain p where p: "race_run (replicate j Slave_thread @ rounds [k, i] @ [Main_thread]) (At_set, Link_empty, Testing)
      = Some (At_get_reply, Link_request, p)" "at_ease p" by (rule race_to_get [OF assms(1)])
  have "replicate j Slave_thread @ rounds [k, i, k'] @ Main_thread # ths
      = (replicate j Slave_thread @ rounds [k, i] @ [Main_thread]) @ replicate k' Slave_thread @ Main_thread # ths" by simp
  then show ?thesis using p race_late [OF _ p(2) assms(2), of At_get_reply ths] by (simp only: race_run_append) simp
qed

lemma race_ends:
  assumes "3 \<le> k" "3 \<le> k'" "2 \<le> n"
  shows "race_run (replicate j Slave_thread @ rounds [k, i, k', i', n] @ [Main_thread]) (At_set, Link_empty, Testing)
     = Some (At_end, Link_empty, Exited)"
proof -
  obtain p where p: "race_run (replicate j Slave_thread @ rounds [k, i] @ [Main_thread]) (At_set, Link_empty, Testing)
      = Some (At_get_reply, Link_request, p)" "at_ease p" by (rule race_to_get [OF assms(1)])
  obtain q where q: "race_run (replicate k' Slave_thread) (At_get_reply, Link_request, p) = Some (At_get_reply, Link_reply, q)" "at_ease q"
    using race_answers [OF _ p(2) assms(2), of At_get_reply] by auto
  obtain q' where q': "race_run (replicate i' Slave_thread) (At_stop, Link_empty, q) = Some (At_stop, Link_empty, q')" "at_ease q'"
    using race_idle [of At_stop Link_empty q i'] q(2) by auto
  have "replicate j Slave_thread @ rounds [k, i, k', i', n] @ [Main_thread]
      = (replicate j Slave_thread @ rounds [k, i] @ [Main_thread]) @ replicate k' Slave_thread @ [Main_thread]
        @ replicate i' Slave_thread @ [Main_thread] @ replicate n Slave_thread @ [Main_thread]" by simp
  then show ?thesis
    using p q q' race_stops [OF q'(2) assms(3)] by (simp only: race_run_append) (simp add: race_run_append)
qed

text \<open>A system with one pseudo terminal: descriptor 3 is the master's end and 4 the slave's.\<close>

definition pty_os :: "pty serial_os" where
  "pty_os = \<lparr>os_open = \<lambda>path w. (if path = ''/dev/ptmx'' then 3 else 4, w), os_close = \<lambda>fd w. (0, w),
     os_read = \<lambda>fd n w.
       if fd = 3 then (int (length (take (unat n) (up w))), take (unat n) (up w), w\<lparr>up := drop (unat n) (up w)\<rparr>)
       else (int (length (take (unat n) (down w))), take (unat n) (down w), w\<lparr>down := drop (unat n) (down w)\<rparr>),
     os_write = \<lambda>fd bs w. (int (length bs), if fd = 3 then w\<lparr>down := down w @ bs\<rparr> else w\<lparr>up := up w @ bs\<rparr>),
     os_tcgetattr = \<lambda>fd w. (0, \<lparr>c_iflag = 0, c_oflag = 0, c_cflag = 0, c_lflag = 0, c_cc_vtime = 0, c_cc_vmin = 0\<rparr>, w),
     os_tcsetattr = \<lambda>fd tty w. (0, w)\<rparr>"

definition pty_pt :: "pty ptmx_calls" where
  "pty_pt = \<lparr>grantpt = \<lambda>fd w. (0, w), unlockpt = \<lambda>fd w. (0, w), ptsname = \<lambda>fd w. (''/dev/pts/0'', w)\<rparr>"

definition pty_threads :: "pty threads" where
  "pty_threads = \<lparr>devs = \<lparr>shared = \<lparr>down = [], up = []\<rparr>, master_fd = 3, master_flags = 0, slave_fd = 4, slave_flags = 0\<rparr>,
     master_hdl = proto_init, slave_hdl = proto_init, slaveStop = False, main_at = At_set, slave_at = At_test\<rparr>"

lemma pty_opened:
  "initializeDevices pty_os pty_pt (\<lambda>_. True) 0 0 \<lparr>down = [], up = []\<rparr> = Inr (True, devs pty_threads)"
  by (simp add: initializeDevices_def pty_threads_def pty_os_def pty_pt_def masterDev_def slaveDev_def lift_dev_def serial_dev_def
      devserial_create_def devserial_init_def devserial_open_def devserial_close_def setFdMode_def Let_def)

lemma pty_start:
  "gnulinux_start pty_os pty_pt (\<lambda>_. True) True True 0 0 \<lparr>down = [], up = []\<rparr> = Inr (Inr pty_threads)"
  "ends_open pty_os (devs pty_threads)" "shared (devs pty_threads) = \<lparr>down = [], up = []\<rparr>"
proof -
  show "gnulinux_start pty_os pty_pt (\<lambda>_. True) True True 0 0 \<lparr>down = [], up = []\<rparr> = Inr (Inr pty_threads)"
    by (simp add: gnulinux_start_def gnulinux_initialize_def pty_opened created pty_threads_def)
qed (simp_all add: pty_threads_def pty_os_def ends_open_def pty_calls_def)

lemma start_runs:
  assumes "gnulinux_start os pt malloc_ok mtx_ok thrd_ok f1 f2 w = Inr (Inr t)" "ends_open os (devs t)" "shared (devs t) = \<lparr>down = [], up = []\<rparr>"
  shows "runs_as os t (At_set, Link_empty, Testing)"
proof -
  obtain s where "t = \<lparr>devs = s, master_hdl = master_hdl t, slave_hdl = slave_hdl t, slaveStop = False, main_at = At_set, slave_at = At_test\<rparr>"
      "priv_nbBytes (master_hdl t) = 0" "priv_nbBytes (slave_hdl t) = 0"
    using assms(1)
    by (auto simp: gnulinux_start_def gnulinux_initialize_def created proto_init_def obind_Inr_iff split: if_splits)
  then show ?thesis
    using assms(2,3) by (cases t) (auto simp: runs_as_def race_ok_def)
qed

lemma run_fails: "follows os m None \<Longrightarrow> m = Inl Assertion"
  by (simp add: follows_def)

lemma run_only_asserts: "follows os m r \<Longrightarrow> m = Inl e \<Longrightarrow> e = Assertion"
  by (auto simp: follows_def split: option.splits)

text \<open>C16: whatever the schedule of the two threads of \<open>libcomm-gnulinux-test\<close>, the only thing that can go wrong is a failed
  assertion of \<open>main\<close>, and it does: \<open>proto_master_readFrame\<close> looks at the terminal once, so the program ends well
  when the slave gets through an iteration between each request and the look at its reply, and aborts when it has not had
  two turns there.\<close>

theorem gnulinux_test_races:
  assumes "gnulinux_start os pt malloc_ok mtx_ok thrd_ok f1 f2 w = Inr (Inr t)" "ends_open os (devs t)" "shared (devs t) = \<lparr>down = [], up = []\<rparr>"
  shows "(ofold (turn os elapsed) ths t = Inl e \<longrightarrow> e = Assertion)
     \<and> (3 \<le> k \<and> 3 \<le> k' \<and> 2 \<le> n \<longrightarrow>
          (\<exists>t'. ofold (turn os elapsed) (replicate j Slave_thread @ rounds [k, i, k', i', n] @ [Main_thread]) t = Inr t'
              \<and> main_at t' = At_end))
     \<and> (k < 2 \<longrightarrow> ofold (turn os elapsed) (replicate j Slave_thread @ rounds [k] @ Main_thread # ths) t = Inl Assertion)
     \<and> (3 \<le> k \<and> k' < 2 \<longrightarrow>
          ofold (turn os elapsed) (replicate j Slave_thread @ rounds [k, i, k'] @ Main_thread # ths) t = Inl Assertion)"
proof (intro conjI impI; (elim conjE)?)
  note follow = run_follows [OF start_runs [OF assms], of elapsed]
  show "ofold (turn os elapsed) ths t = Inl e \<Longrightarrow> e = Assertion" by (rule run_only_asserts [OF follow])
  show "ofold (turn os elapsed) (replicate j Slave_thread @ rounds [k] @ Main_thread # ths) t = Inl Assertion" if "k < 2"
    by (rule run_fails [OF follow [of "replicate j Slave_thread @ rounds [k] @ Main_thread # ths", unfolded race_set_late [OF that]]])
  show "ofold (turn os elapsed) (replicate j Slave_thread @ rounds [k, i, k'] @ Main_thread # ths) t = Inl Assertion"
    if "3 \<le> k" "k' < 2"
    by (rule run_fails [OF follow [of "replicate j Slave_thread @ rounds [k, i, k'] @ Main_thread # ths", unfolded race_get_late [OF that]]])
  show "\<exists>t'. ofold (turn os elapsed) (replicate j Slave_thread @ rounds [k, i, k', i', n] @ [Main_thread]) t = Inr t' \<and> main_at t' = At_end"
    if "3 \<le> k" "3 \<le> k'" "2 \<le> n"
    using follow [of "replicate j Slave_thread @ rounds [k, i, k', i', n] @ [Main_thread]"] race_ends [OF that, of j i i']
    by (auto simp: follows_def runs_as_def simp del: rounds_simps)
qed

lemma gnulinux_test_races_witness:
  "(\<exists>t'. ofold (turn pty_os int) (rounds [3, 0, 3, 0, 2] @ [Main_thread]) pty_threads = Inr t' \<and> main_at t' = At_end)
   \<and> ofold (turn pty_os int) [Slave_thread, Main_thread, Slave_thread, Main_thread] pty_threads = Inl Assertion"
  using gnulinux_test_races [OF pty_start, where elapsed = int and j = 0 and k = 3 and i = 0 and k' = 3 and i' = 0 and n = 2]
    gnulinux_test_races [OF pty_start, where elapsed = int and j = 1 and k = 1 and ths = "[]"]
  by (simp del: ofold.simps)

section \<open>One message\<close>

text \<open>\<open>test-ptmx/main.c\<close>; its \<open>setFdMode\<close> is the one of the serial device.\<close>

definition open_both :: "'w serial_os \<Rightarrow> 'w ptmx_calls \<Rightarrow> 'w \<Rightarrow> (int \<times> int) option \<times> 'w" where
  "open_both os pt w =
     (let (master, w1) = os_open os ''/dev/ptmx'' w in
      if master < 0 then (None, w1)
      else let (g, w2) = grantpt pt master w1 in
      if g < 0 then (None, w2)
      else let (u, w3) = unlockpt pt master w2 in
      if u < 0 then (None, w3)
      else let (name, w4) = ptsname pt master w3; (slave, w5) = os_open os name w4 in
      if slave < 0 then (None, snd (os_close os master w5))
      else (Some (master, slave), w5))"

definition ptmx_msg :: bytes where
  "ptmx_msg = map of_char ''Hello, World!'' @ [0]"

text \<open>What it prints of the global buffer of fifty bytes, or \<open>None\<close> when it fails.\<close>

definition ptmx_test_main :: "'w serial_os \<Rightarrow> 'w ptmx_calls \<Rightarrow> 'w \<Rightarrow> bytes option \<times> 'w" where
  "ptmx_test_main os pt w =
     (case open_both os pt w of
        (None, w1) \<Rightarrow> (None, w1)
      | (Some (master, slave), w1) \<Rightarrow>
          let (_, w2) = setFdMode os master 10 255 w1;
              (_, w3) = setFdMode os slave 10 255 w2;
              (_, w4) = os_write os master ptmx_msg w3;
              (r, bs, w5) = os_read os slave 50 w4;
              buf = bs @ drop (length bs) (replicate 50 0);
              (_, w6) = os_close os slave w5;
              (_, w7) = os_close os master w6 in
          (Some (takeWhile (\<lambda>c. c \<noteq> 0) buf), w7))"

lemma ptmx_test_prints:
  "ptmx_test_main pty_os pty_pt \<lparr>down = [], up = []\<rparr> = (Some (map of_char ''Hello, World!''), \<lparr>down = [], up = []\<rparr>)"
  by (simp add: ptmx_test_main_def open_both_def ptmx_msg_def pty_os_def pty_pt_def setFdMode_def Let_def of_char_def)

text \<open>When the terminal cannot be unlocked, its descriptor stays open.\<close>

lemma open_both_leaks:
  assumes "os_open os ''/dev/ptmx'' w = (fd, w1)" "0 \<le> fd" "grantpt pt fd w1 = (g, w2)" "unlockpt pt fd w2 = (- 1, w3)" "0 \<le> g"
  shows "open_both os pt w = (None, w3)"
  using assms by (simp add: open_both_def)

end
