(* ===== verification/DevGnuLinux.thy ===== *)
theory DevGnuLinux
  imports DevSerial
begin

text \<open>
  \<open>dllCom/libcomm/protocomm-gnulinux.c\<close>, the first device for Linux, which the library no longer builds: its reads may wait, its writes
  are one system call. It needs the system calls of \<open>DevSerial\<close>.
\<close>

record 'w gnulinux_state =
  fileDescriptor :: int
  gnulinux_os :: 'w

definition proto_initData_GnuLinux ::
  "'w serial_os \<Rightarrow> string \<Rightarrow> u8 \<Rightarrow> 'w gnulinux_state \<Rightarrow> int \<times> 'w gnulinux_state"
where
  "proto_initData_GnuLinux os path timeout_ds s =
     (let (fd, w1) = os_open os path (gnulinux_os s) in
      if fd < 0 then (- 1, s\<lparr>gnulinux_os := w1\<rparr>)
      else let (r, tty, w2) = os_tcgetattr os fd w1 in
      if r \<noteq> 0 then (- 2, s\<lparr>gnulinux_os := snd (os_close os fd w2)\<rparr>)
      else let (r', w3) = os_tcsetattr os fd (serial_mode timeout_ds 0 tty) w2 in
      if r' \<noteq> 0 then (- 3, s\<lparr>gnulinux_os := snd (os_close os fd w3)\<rparr>)
      else (0, s\<lparr>fileDescriptor := fd, gnulinux_os := w3\<rparr>))"

definition gnulinux_write :: "'w serial_os \<Rightarrow> bytes \<Rightarrow> 'w gnulinux_state \<Rightarrow> 'w gnulinux_state" where
  "gnulinux_write os buffer s = s\<lparr>gnulinux_os := snd (os_write os (fileDescriptor s) buffer (gnulinux_os s))\<rparr>"

text \<open>The result of the system is cut to eight bits.\<close>

definition gnulinux_read :: "'w serial_os \<Rightarrow> u8 \<Rightarrow> 'w gnulinux_state \<Rightarrow> u8 \<times> bytes \<times> 'w gnulinux_state" where
  "gnulinux_read os bufferSize s =
     (case os_read os (fileDescriptor s) bufferSize (gnulinux_os s) of
        (r, bs, w) \<Rightarrow> (of_int r, bs, s\<lparr>gnulinux_os := w\<rparr>))"

definition gnulinux_destroy :: "'w serial_os \<Rightarrow> 'w gnulinux_state \<Rightarrow> 'w gnulinux_state" where
  "gnulinux_destroy os s = s\<lparr>gnulinux_os := snd (os_close os (fileDescriptor s) (gnulinux_os s))\<rparr>"

section \<open>Descriptors\<close>

text \<open>A world that counts the descriptors: what is open is a list.\<close>

definition counts_fds :: "'w serial_os \<Rightarrow> ('w \<Rightarrow> int list) \<Rightarrow> bool" where
  "counts_fds os opened \<longleftrightarrow>
     (\<forall>path w fd w'. os_open os path w = (fd, w') \<longrightarrow> opened w' = (if 0 \<le> fd then fd # opened w else opened w))
   \<and> (\<forall>fd w r w'. os_close os fd w = (r, w') \<longrightarrow> opened w' = remove1 fd (opened w))
   \<and> (\<forall>fd w r tty w'. os_tcgetattr os fd w = (r, tty, w') \<longrightarrow> opened w' = opened w)
   \<and> (\<forall>fd tty w r w'. os_tcsetattr os fd tty w = (r, w') \<longrightarrow> opened w' = opened w)"

text \<open>The initialisation leaves one descriptor more open exactly when it succeeds, and then it is the device's.\<close>

theorem gnulinux_init_descriptors:
  assumes "counts_fds os opened" "proto_initData_GnuLinux os path tout s = (r, s')"
  shows "r \<in> {0, - 1, - 2, - 3}"
    and "opened (gnulinux_os s') = (if r = 0 then fileDescriptor s' # opened (gnulinux_os s) else opened (gnulinux_os s))"
    and "r \<noteq> 0 \<Longrightarrow> fileDescriptor s' = fileDescriptor s"
proof -
  obtain fd w1 where o: "os_open os path (gnulinux_os s) = (fd, w1)" by (cases "os_open os path (gnulinux_os s)") auto
  obtain g tty w2 where g: "os_tcgetattr os fd w1 = (g, tty, w2)" by (cases "os_tcgetattr os fd w1") auto
  obtain a w3 where a: "os_tcsetattr os fd (serial_mode tout 0 tty) w2 = (a, w3)"
    by (cases "os_tcsetattr os fd (serial_mode tout 0 tty) w2") auto
  have keeps: "opened w1 = (if 0 \<le> fd then fd # opened (gnulinux_os s) else opened (gnulinux_os s))"
      "opened w2 = opened w1" "opened w3 = opened w2"
      "\<And>w. opened (snd (os_close os fd w)) = remove1 fd (opened w)"
    using assms(1) o g a unfolding counts_fds_def by (blast, blast, blast, metis prod.collapse)
  have cases: "(r, s') = (if fd < 0 then (- 1, s\<lparr>gnulinux_os := w1\<rparr>)
      else if g \<noteq> 0 then (- 2, s\<lparr>gnulinux_os := snd (os_close os fd w2)\<rparr>)
      else if a \<noteq> 0 then (- 3, s\<lparr>gnulinux_os := snd (os_close os fd w3)\<rparr>)
      else (0, s\<lparr>fileDescriptor := fd, gnulinux_os := w3\<rparr>))"
    using assms(2) by (simp add: proto_initData_GnuLinux_def o g a split: if_splits)
  show "r \<in> {0, - 1, - 2, - 3}" using cases by (simp split: if_splits)
  show "opened (gnulinux_os s') = (if r = 0 then fileDescriptor s' # opened (gnulinux_os s) else opened (gnulinux_os s))"
    using cases keeps by (simp split: if_splits)
  show "r \<noteq> 0 \<Longrightarrow> fileDescriptor s' = fileDescriptor s" using cases by (simp split: if_splits)
qed

text \<open>A read that fails says that 255 bytes were read.\<close>

lemma gnulinux_read_fails:
  assumes "os_read os (fileDescriptor s) n (gnulinux_os s) = (- 1, bs, w)"
  shows "fst (gnulinux_read os n s) = 255"
  using assms by (simp add: gnulinux_read_def)

text \<open>A write that the system takes only in part loses the rest.\<close>

lemma gnulinux_write_loses:
  assumes "os_write os (fileDescriptor s) bs (gnulinux_os s) = (int k, w)" "sent w = sent (gnulinux_os s) @ take k bs" "k < length bs"
  shows "sent (gnulinux_os (gnulinux_write os bs s)) \<noteq> sent (gnulinux_os s) @ bs"
  using assms by (simp add: gnulinux_write_def)

end
