(* ===== verification/Log.thy ===== *)
theory Log
  imports Ring
begin

text \<open>
  The message log, \<open>dllCom/libcomm/log.c\<close>: a ring of \<open>nbMsg + 1\<close> blocks of \<open>LOG_MSG_LEN\<close> bytes of
  which one stays free, and the global instance of it. Pointers into the block of memory are
  offsets from its start; a C string is the list of its characters without the final zero.
\<close>

section \<open>State and operations\<close>

type_synonym size_t = "64 word"

abbreviation (input) LOG_MSG_LEN :: nat where "LOG_MSG_LEN \<equiv> 150"

record log_handle =
  log_nbMsg :: u32
  log_ptMsg :: bytes
  log_begin :: nat
  log_end :: nat

text \<open>\<open>strncpy(d, s, n)\<close> stores these \<open>n\<close> bytes; the string at an address ends at the first zero.\<close>

definition strncpy_bytes :: "nat \<Rightarrow> bytes \<Rightarrow> bytes" where
  "strncpy_bytes n s = take n (s @ replicate n 0)"

definition c_string :: "bytes \<Rightarrow> bytes" where
  "c_string bs = takeWhile (\<lambda>c. c \<noteq> 0) bs"

text \<open>
  \<open>log_create\<close> with the results of its two allocations. The size asked for is computed in 32
  bits. When the second allocation fails the handle is freed and set to null, and then written
  through.
\<close>

definition log_create :: "bool \<Rightarrow> bool \<Rightarrow> u32 \<Rightarrow> log_handle outcome" where
  "log_create malloc_handle malloc_msgs nbMsg =
     (if \<not> malloc_handle then Inl Null_deref
      else if \<not> malloc_msgs then Inl Null_deref
      else Inr \<lparr>log_nbMsg = nbMsg + 1,
                log_ptMsg = replicate (unat ((nbMsg + 1) * of_nat LOG_MSG_LEN)) 0,
                log_begin = 0, log_end = 0\<rparr>)"

definition log_getsize :: "log_handle \<Rightarrow> size_t" where
  "log_getsize this =
     (if log_begin this = log_end this then 0
      else if log_begin this < log_end this then of_nat ((log_end this - log_begin this) div LOG_MSG_LEN)
      else ucast (log_nbMsg this) - of_nat ((log_begin this - log_end this) div LOG_MSG_LEN))"

definition log_getfree :: "log_handle \<Rightarrow> size_t" where
  "log_getfree this = ucast (log_nbMsg this) - log_getsize this - 1"

text \<open>The end of the memory, as the code computes it to wrap a position around.\<close>

definition log_wrap :: "log_handle \<Rightarrow> nat \<Rightarrow> nat" where
  "log_wrap this p = (if unat (log_nbMsg this * of_nat LOG_MSG_LEN) \<le> p then 0 else p)"

definition log_push :: "log_handle \<Rightarrow> bytes \<Rightarrow> (int \<times> log_handle) outcome" where
  "log_push this szMsg =
     (if log_getfree this = 0 then Inr (- 2, this)
      else
        obind (buf_write (log_end this) (strncpy_bytes LOG_MSG_LEN szMsg) (log_ptMsg this)) (\<lambda>m1.
        obind (buf_write (log_end this + (LOG_MSG_LEN - 1)) [0] m1) (\<lambda>m2.
        Inr (0, this\<lparr>log_ptMsg := m2, log_end := log_wrap this (log_end this + LOG_MSG_LEN)\<rparr>))))"

text \<open>\<open>log_pop\<close> gives the bytes it stores into the caller's buffer, if any.\<close>

definition log_pop :: "log_handle \<Rightarrow> (int \<times> bytes option \<times> log_handle) outcome" where
  "log_pop this =
     (if log_getsize this = 0 then Inr (0, None, this)
      else
        obind (buf_read (log_begin this) LOG_MSG_LEN (log_ptMsg this)) (\<lambda>bs.
        Inr (1, Some (strncpy_bytes LOG_MSG_LEN (c_string bs)),
             this\<lparr>log_begin := log_wrap this (log_begin this + LOG_MSG_LEN)\<rparr>)))"

definition log_clear :: "log_handle \<Rightarrow> log_handle" where
  "log_clear this = this\<lparr>log_begin := log_end this\<rparr>"

section \<open>The global instance\<close>

text \<open>
  The static pointer: null, a live log, or a log that was freed; \<open>log_destroy\<close> frees the log and
  leaves the pointer as it is.
\<close>

datatype log_global = Log_null | Log_live log_handle | Log_freed

definition log_destroy :: "log_global \<Rightarrow> (int \<times> log_global) outcome" where
  "log_destroy g = (case g of
      Log_null \<Rightarrow> Inl Assertion | Log_freed \<Rightarrow> Inl Dangling | Log_live this \<Rightarrow> Inr (0, Log_freed))"

definition log_global_create :: "bool \<Rightarrow> bool \<Rightarrow> u32 \<Rightarrow> log_global \<Rightarrow> (int \<times> log_global) outcome" where
  "log_global_create malloc_handle malloc_msgs nbMsg g =
     obind (log_create malloc_handle malloc_msgs nbMsg) (\<lambda>this. Inr (0, Log_live this))"

definition log_global_destroy :: "log_global \<Rightarrow> (int \<times> log_global) outcome" where
  "log_global_destroy g = log_destroy g"

definition log_global_push :: "bytes \<Rightarrow> log_global \<Rightarrow> (int \<times> log_global) outcome" where
  "log_global_push szMsg g = (case g of
      Log_null \<Rightarrow> Inr (0, g)
    | Log_freed \<Rightarrow> Inl Dangling
    | Log_live this \<Rightarrow> obind (log_push this szMsg) (\<lambda>(r, this'). Inr (r, Log_live this')))"

text \<open>Without a log the first byte of the caller's buffer is set to zero.\<close>

definition log_global_pop :: "log_global \<Rightarrow> (int \<times> bytes option \<times> log_global) outcome" where
  "log_global_pop g = (case g of
      Log_null \<Rightarrow> Inr (0, Some [0], g)
    | Log_freed \<Rightarrow> Inl Dangling
    | Log_live this \<Rightarrow> obind (log_pop this) (\<lambda>(r, m, this'). Inr (r, m, Log_live this')))"

definition log_global_pop_msg :: "log_global \<Rightarrow> (int \<times> bytes option \<times> log_global) outcome" where
  "log_global_pop_msg g = (case g of
      Log_null \<Rightarrow> Inr (0, Some [0], g)
    | Log_freed \<Rightarrow> Inl Dangling
    | Log_live this \<Rightarrow> obind (log_pop this) (\<lambda>(r, m, this'). Inr (r, m, Log_live this')))"

definition log_global_getsize :: "log_global \<Rightarrow> size_t outcome" where
  "log_global_getsize g = (case g of
      Log_null \<Rightarrow> Inl Assertion | Log_freed \<Rightarrow> Inl Dangling | Log_live this \<Rightarrow> Inr (log_getsize this))"

definition log_global_getfree :: "log_global \<Rightarrow> size_t outcome" where
  "log_global_getfree g = (case g of
      Log_null \<Rightarrow> Inl Assertion | Log_freed \<Rightarrow> Inl Dangling | Log_live this \<Rightarrow> Inr (log_getfree this))"

definition log_global_clear :: "log_global \<Rightarrow> log_global outcome" where
  "log_global_clear g = (case g of
      Log_null \<Rightarrow> Inl Assertion | Log_freed \<Rightarrow> Inl Dangling | Log_live this \<Rightarrow> Inr (Log_live (log_clear this)))"

section \<open>Blocks\<close>

definition blocks :: "nat \<Rightarrow> 'a list \<Rightarrow> 'a list list" where
  "blocks n buf = map (\<lambda>i. take 150 (drop (150 * i) buf)) [0..<n]"

lemma length_blocks [simp]: "length (blocks n buf) = n"
  by (simp add: blocks_def)

lemma blocks_nth: "i < n \<Longrightarrow> blocks n buf ! i = take 150 (drop (150 * i) buf)"
  by (simp add: blocks_def)

lemma blocks_write:
  assumes "length m = 150" "i < n" "length buf = 150 * n"
  shows "buf_write (150 * i) m buf = Inr (take (150 * i) buf @ m @ drop (150 * i + 150) buf)"
    and "blocks n (take (150 * i) buf @ m @ drop (150 * i + 150) buf) = (blocks n buf)[i := m]"
proof -
  have le: "150 * i + 150 \<le> 150 * n" using assms(2) by linarith
  show "buf_write (150 * i) m buf = Inr (take (150 * i) buf @ m @ drop (150 * i + 150) buf)"
    using le assms by (simp add: buf_write_def)
  let ?buf = "take (150 * i) buf @ m @ drop (150 * i + 150) buf"
  show "blocks n ?buf = (blocks n buf)[i := m]"
  proof (rule nth_equalityI)
    fix j
    assume "j < length (blocks n ?buf)"
    then have j: "j < n" by simp
    consider "j < i" | "j = i" | "i < j" by linarith
    then show "blocks n ?buf ! j = (blocks n buf)[i := m] ! j"
    proof cases
      case 1
      then have "150 \<le> 150 * i - 150 * j" by linarith
      then show ?thesis using 1 j assms le by (simp add: blocks_nth drop_take)
    next
      case 2
      then show ?thesis using j assms le by (simp add: blocks_nth)
    next
      case 3
      then obtain k where "150 * j = 150 * i + 150 + k" by (metis Suc_leI add.commute le_Suc_ex mult_Suc_right add_mult_distrib2)
      then show ?thesis using 3 j assms le by (simp add: blocks_nth ac_simps)
    qed
  qed simp
qed

section \<open>The log holds a queue of messages\<close>

definition log_inv :: "log_handle \<Rightarrow> bool" where
  "log_inv this \<longleftrightarrow> 0 < log_nbMsg this \<and> 150 * unat (log_nbMsg this) < 2 ^ 32
     \<and> length (log_ptMsg this) = 150 * unat (log_nbMsg this)
     \<and> (\<exists>i < unat (log_nbMsg this). log_begin this = 150 * i)
     \<and> (\<exists>i < unat (log_nbMsg this). log_end this = 150 * i)"

abbreviation log_blocks :: "log_handle \<Rightarrow> bytes list" where
  "log_blocks this \<equiv> blocks (unat (log_nbMsg this)) (log_ptMsg this)"

definition log_items :: "log_handle \<Rightarrow> bytes list" where
  "log_items this = ring_list (log_begin this div 150) (log_end this div 150) (log_blocks this)"

definition log_capacity :: "log_handle \<Rightarrow> nat" where
  "log_capacity this = unat (log_nbMsg this) - 1"

lemma log_positions:
  assumes "log_inv this"
  obtains b e where "log_begin this = 150 * b" "log_end this = 150 * e"
    "b < unat (log_nbMsg this)" "e < unat (log_nbMsg this)"
    "log_items this = ring_list b e (log_blocks this)"
  using assms by (auto simp: log_inv_def log_items_def)

lemma log_memory_end:
  assumes "log_inv this"
  shows "unat (log_nbMsg this * of_nat 150) = 150 * unat (log_nbMsg this)"
  using assms by (simp add: log_inv_def unat_word_ariths)

lemma log_wrap_next:
  assumes "log_inv this" "i < unat (log_nbMsg this)"
  shows "log_wrap this (150 * i + 150) = 150 * ring_next (unat (log_nbMsg this)) i"
proof -
  have "150 * unat (log_nbMsg this) \<le> 150 * i + 150 \<longleftrightarrow> Suc i = unat (log_nbMsg this)"
    using assms(2) by arith
  then show ?thesis unfolding log_wrap_def log_memory_end [OF assms(1)] by simp
qed

lemma log_size:
  assumes "log_inv this"
  shows "log_getsize this = of_nat (length (log_items this))"
proof -
  obtain b e where p: "log_begin this = 150 * b" "log_end this = 150 * e"
    "b < unat (log_nbMsg this)" "e < unat (log_nbMsg this)" "log_items this = ring_list b e (log_blocks this)"
    using log_positions [OF assms] .
  have l: "length (log_items this) = (if b \<le> e then e - b else unat (log_nbMsg this) - b + e)"
    using p by (simp add: length_ring_list)
  have d: "(150 * e - 150 * b) div 150 = e - b" "(150 * b - 150 * e) div 150 = b - e"
    by (simp_all add: diff_mult_distrib2 [symmetric])
  have "(ucast (log_nbMsg this) :: size_t) = of_nat (unat (log_nbMsg this))" by simp
  moreover have "of_nat (unat (log_nbMsg this)) - of_nat (b - e) = (of_nat (unat (log_nbMsg this) - b + e) :: size_t)"
    if "e < b"
  proof -
    have "unat (log_nbMsg this) - b + e = unat (log_nbMsg this) - (b - e)" "b - e \<le> unat (log_nbMsg this)"
      using that p(3) by linarith+
    then show ?thesis by (metis of_nat_diff)
  qed
  ultimately show ?thesis
    unfolding log_getsize_def p(1,2) d l by auto
qed

lemma log_free:
  assumes "log_inv this"
  shows "log_getfree this = of_nat (log_capacity this - length (log_items this))"
    and "length (log_items this) \<le> log_capacity this"
proof -
  show l: "length (log_items this) \<le> log_capacity this"
    using assms by (rule log_positions)
      (use ring_list_capacity [of _ "log_blocks this"] in \<open>fastforce simp: log_capacity_def\<close>)
  have "0 < unat (log_nbMsg this)" using assms by (simp add: log_inv_def word_less_nat_alt)
  then have "(of_nat (unat (log_nbMsg this)) :: size_t) - 1 = of_nat (log_capacity this)"
    by (simp add: log_capacity_def of_nat_diff)
  then show "log_getfree this = of_nat (log_capacity this - length (log_items this))"
    using l by (simp add: log_getfree_def log_size [OF assms] of_nat_diff)
qed

text \<open>The counts fit in \<open>size_t\<close>.\<close>

lemma log_small: "log_inv this \<Longrightarrow> log_capacity this < 2 ^ 32"
  unfolding log_inv_def log_capacity_def by linarith

lemma log_getsize_0 [simp]: "log_inv this \<Longrightarrow> log_getsize this = 0 \<longleftrightarrow> log_items this = []"
  using log_small [of this] log_free(2) [of this]
  by (simp add: log_size word_of_nat_eq_0_iff) (use nat_dvd_not_less in fastforce)

lemma log_getfree_0:
  assumes "log_inv this"
  shows "log_getfree this = 0 \<longleftrightarrow> length (log_items this) = log_capacity this"
proof -
  have "log_capacity this - length (log_items this) < 2 ^ 64"
    using log_small [OF assms] by simp
  then have "(of_nat (log_capacity this - length (log_items this)) :: size_t) = 0
      \<longleftrightarrow> log_capacity this - length (log_items this) = 0"
    by (auto simp: word_of_nat_eq_0_iff dest: dvd_imp_le)
  then show ?thesis using log_free [OF assms] by auto
qed

lemma length_strncpy [simp]: "length (strncpy_bytes n s) = n"
  by (simp add: strncpy_bytes_def)

text \<open>The block a message is kept in.\<close>

definition log_block :: "bytes \<Rightarrow> bytes" where
  "log_block m = strncpy_bytes 149 m @ [0]"

lemma length_log_block [simp]: "length (log_block m) = 150"
  by (simp add: log_block_def)

lemma log_push_block:
  assumes "i < n" "length buf = 150 * n"
  shows "obind (buf_write (150 * i) (strncpy_bytes 150 m) buf) (\<lambda>m1. buf_write (150 * i + 149) [0] m1)
      = buf_write (150 * i) (log_block m) buf"
proof -
  have "150 * i + 150 \<le> length buf" using assms by simp
  moreover have "take 149 (strncpy_bytes 150 m) = strncpy_bytes 149 m"
    by (cases "length m \<le> 149") (simp_all add: strncpy_bytes_def)
  ultimately show ?thesis by (simp add: buf_write_def log_block_def)
qed

lemma log_push_spec:
  assumes inv: "log_inv this"
  shows "if length (log_items this) = log_capacity this then log_push this m = Inr (- 2, this)
    else \<exists>this'. log_push this m = Inr (0, this') \<and> log_inv this'
      \<and> log_items this' = log_items this @ [log_block m] \<and> log_capacity this' = log_capacity this"
proof (cases "length (log_items this) = log_capacity this")
  case True
  then show ?thesis using log_getfree_0 [OF inv] by (simp add: log_push_def)
next
  case False
  obtain b e where p: "log_begin this = 150 * b" "log_end this = 150 * e"
    "b < unat (log_nbMsg this)" "e < unat (log_nbMsg this)" "log_items this = ring_list b e (log_blocks this)"
    using log_positions [OF inv] .
  let ?n = "unat (log_nbMsg this)"
  let ?m = "take (150 * e) (log_ptMsg this) @ log_block m @ drop (150 * e + 150) (log_ptMsg this)"
  have len: "length (log_ptMsg this) = 150 * ?n" using inv by (simp add: log_inv_def)
  note w = blocks_write [OF length_log_block p(4) len, of m]
  define this' where "this' = this\<lparr>log_ptMsg := ?m, log_end := 150 * ring_next ?n e\<rparr>"
  have "log_push this m = obind (obind (buf_write (150 * e) (strncpy_bytes 150 m) (log_ptMsg this))
        (\<lambda>m1. buf_write (150 * e + 149) [0] m1))
        (\<lambda>m2. Inr (0, this\<lparr>log_ptMsg := m2, log_end := 150 * ring_next ?n e\<rparr>))"
    using False log_getfree_0 [OF inv]
    by (simp add: log_push_def obind_assoc p(2) log_wrap_next [OF inv p(4)])
  also have "\<dots> = Inr (0, this')"
    unfolding log_push_block [OF p(4) len] w(1) by (simp add: this'_def)
  finally have push: "log_push this m = Inr (0, this')" .
  have n: "ring_next ?n e < ?n" using p(4) by auto
  have "length ?m = 150 * ?n" using len p(4) by simp
  then have "log_inv this'"
    using inv n p unfolding log_inv_def this'_def by auto
  moreover have "ring_next ?n e \<noteq> b"
    using False ring_full_iff [of b "log_blocks this" e] p by (auto simp: log_capacity_def)
  then have "log_items this' = log_items this @ [log_block m]"
    using ring_push [of b "log_blocks this" e "log_block m"] p w(2)
    by (simp add: log_items_def this'_def)
  ultimately show ?thesis using push False by (simp add: log_capacity_def) (simp add: this'_def)
qed

lemma log_pop_spec:
  assumes inv: "log_inv this"
  shows "case log_items this of
      [] \<Rightarrow> log_pop this = Inr (0, None, this)
    | x # xs \<Rightarrow> \<exists>this'. log_pop this = Inr (1, Some (strncpy_bytes 150 (c_string x)), this') \<and> log_inv this'
        \<and> log_items this' = xs \<and> log_capacity this' = log_capacity this"
proof (cases "log_items this")
  case Nil
  then show ?thesis using inv by (simp add: log_pop_def)
next
  case (Cons x xs)
  obtain b e where p: "log_begin this = 150 * b" "log_end this = 150 * e"
    "b < unat (log_nbMsg this)" "e < unat (log_nbMsg this)" "log_items this = ring_list b e (log_blocks this)"
    using log_positions [OF inv] .
  let ?n = "unat (log_nbMsg this)"
  define this' where "this' = this\<lparr>log_begin := 150 * ring_next ?n b\<rparr>"
  have len: "length (log_ptMsg this) = 150 * ?n" using inv by (simp add: log_inv_def)
  have "b \<noteq> e" using Cons p(5) by auto
  then have items: "x # xs = log_blocks this ! b # ring_list (ring_next ?n b) e (log_blocks this)"
    using ring_pop [of b "log_blocks this" e] p Cons by simp
  have "150 * b + 150 \<le> 150 * ?n" using p(3) by linarith
  then have rd: "buf_read (150 * b) 150 (log_ptMsg this) = Inr x"
    using items p(3) len by (simp add: buf_read_def blocks_nth)
  have "log_pop this = Inr (1, Some (strncpy_bytes 150 (c_string x)), this')"
    using Cons inv rd by (simp add: log_pop_def p(1) log_wrap_next [OF inv p(3)] this'_def)
  moreover have "ring_next ?n b < ?n" using p(3) by auto
  then have "log_inv this'" using inv unfolding log_inv_def this'_def by auto
  moreover have "log_items this' = xs"
    using items p(2) by (simp add: log_items_def this'_def)
  ultimately show ?thesis using Cons by (simp add: log_capacity_def) (simp add: this'_def)
qed

text \<open>The log is a queue in the sense of \<open>fifo_queue\<close>.\<close>

abbreviation log_popped :: "bytes \<Rightarrow> bytes" where
  "log_popped b \<equiv> strncpy_bytes 150 (c_string b)"

interpretation log_queue: fifo_queue
    "\<lambda>m this. obind (log_push this m) (\<lambda>(_, this'). Inr this')"
    "\<lambda>this. obind (log_pop this) (\<lambda>(_, m, this'). case m of None \<Rightarrow> Inl Assertion | Some x \<Rightarrow> Inr (x, this'))"
    "\<lambda>m. log_popped (log_block m)" "\<lambda>this. map log_popped (log_items this)" log_capacity log_inv
proof
  fix this m
  assume "log_inv this" "length (map log_popped (log_items this)) < log_capacity this"
  then show "\<exists>q'. obind (log_push this m) (\<lambda>(_, this'). Inr this') = Inr q' \<and> log_inv q'
      \<and> map log_popped (log_items q') = map log_popped (log_items this) @ [log_popped (log_block m)]
      \<and> log_capacity q' = log_capacity this"
    using log_push_spec [of this m] by auto
next
  fix this y ys
  assume inv: "log_inv this" and items: "map log_popped (log_items this) = y # ys"
  then obtain x xs where "log_items this = x # xs" "y = log_popped x" "ys = map log_popped xs" by auto
  then show "\<exists>q'. obind (log_pop this) (\<lambda>(_, m, this'). case m of None \<Rightarrow> Inl Assertion | Some x \<Rightarrow> Inr (x, this'))
      = Inr (y, q') \<and> log_inv q' \<and> map log_popped (log_items q') = ys \<and> log_capacity q' = log_capacity this"
    using log_pop_spec [OF inv] by auto
qed

section \<open>The log refines a bounded queue of messages\<close>

datatype log_op = Log_push bytes | Log_pop | Log_getsize | Log_getfree | Log_clear

datatype log_result = Res_status int | Res_message int "bytes option" | Res_count size_t | Res_none

text \<open>A string written to the caller's buffer is what a C program reads there.\<close>

fun log_step :: "log_handle \<Rightarrow> log_op \<Rightarrow> (log_result \<times> log_handle) outcome" where
  "log_step this (Log_push m) = obind (log_push this m) (\<lambda>(r, this'). Inr (Res_status r, this'))"
| "log_step this Log_pop =
     obind (log_pop this) (\<lambda>(r, m, this'). Inr (Res_message r (map_option c_string m), this'))"
| "log_step this Log_getsize = Inr (Res_count (log_getsize this), this)"
| "log_step this Log_getfree = Inr (Res_count (log_getfree this), this)"
| "log_step this Log_clear = Inr (Res_none, log_clear this)"

fun log_run :: "log_handle \<Rightarrow> log_op list \<Rightarrow> (log_result list \<times> log_handle) outcome" where
  "log_run this [] = Inr ([], this)"
| "log_run this (x # xs) =
     obind (log_step this x) (\<lambda>(r, this'). obind (log_run this' xs) (\<lambda>(rs, this''). Inr (r # rs, this'')))"

fun queue_step :: "nat \<Rightarrow> bytes list \<Rightarrow> log_op \<Rightarrow> log_result \<times> bytes list" where
  "queue_step n q (Log_push m) =
     (if length q = n then (Res_status (- 2), q) else (Res_status 0, q @ [take 149 m]))"
| "queue_step n [] Log_pop = (Res_message 0 None, [])"
| "queue_step n (x # xs) Log_pop = (Res_message 1 (Some x), xs)"
| "queue_step n q Log_getsize = (Res_count (of_nat (length q)), q)"
| "queue_step n q Log_getfree = (Res_count (of_nat (n - length q)), q)"
| "queue_step n q Log_clear = (Res_none, [])"

fun queue_run :: "nat \<Rightarrow> bytes list \<Rightarrow> log_op list \<Rightarrow> log_result list \<times> bytes list" where
  "queue_run n q [] = ([], q)"
| "queue_run n q (x # xs) =
     (case queue_step n q x of (r, q1) \<Rightarrow> case queue_run n q1 xs of (rs, q2) \<Rightarrow> (r # rs, q2))"

lemma c_string_zero: "0 \<notin> set a \<Longrightarrow> c_string (a @ 0 # r) = a"
  unfolding c_string_def by (subst takeWhile_append2) auto

lemma c_string_strncpy:
  assumes "0 \<notin> set m" "length m < n"
  shows "c_string (strncpy_bytes n m) = m"
proof -
  obtain k where "n - length m = Suc k" using assms(2) by (metis Suc_diff_Suc)
  then have "strncpy_bytes n m = m @ 0 # replicate k 0"
    using assms(2) by (simp add: strncpy_bytes_def min_def) linarith
  then show ?thesis using c_string_zero [OF assms(1)] by simp
qed

lemma c_string_block:
  assumes "0 \<notin> set m"
  shows "c_string (log_block m) = take 149 m"
proof (cases "length m < 149")
  case True
  then obtain k where "149 - length m = Suc k" by (metis Suc_diff_Suc)
  then have "log_block m = m @ 0 # (replicate k 0 @ [0])"
    using True by (simp add: log_block_def strncpy_bytes_def min_def) linarith
  then show ?thesis using c_string_zero [OF assms] True by simp
next
  case False
  then have "log_block m = take 149 m @ 0 # []" by (simp add: log_block_def strncpy_bytes_def)
  moreover have "0 \<notin> set (take 149 m)" using assms by (meson in_set_takeD)
  ultimately show ?thesis using c_string_zero by metis
qed

definition log_abs :: "log_handle \<Rightarrow> nat \<Rightarrow> bytes list \<Rightarrow> bool" where
  "log_abs this n q \<longleftrightarrow> log_inv this \<and> log_capacity this = n
     \<and> (\<exists>ms. log_items this = map log_block ms \<and> q = map (take 149) ms \<and> (\<forall>m \<in> set ms. 0 \<notin> set m))"

lemma log_clear_spec:
  assumes "log_inv this"
  shows "log_inv (log_clear this)" "log_items (log_clear this) = []" "log_capacity (log_clear this) = log_capacity this"
  using assms by (simp_all add: log_clear_def log_inv_def log_items_def log_capacity_def)

lemma log_step_refines:
  assumes "log_abs this n q" "\<And>m. x = Log_push m \<Longrightarrow> 0 \<notin> set m"
  shows "\<exists>this'. log_step this x = Inr (fst (queue_step n q x), this') \<and> log_abs this' n (snd (queue_step n q x))"
proof -
  obtain ms where inv: "log_inv this" "log_capacity this = n"
    and ms: "log_items this = map log_block ms" "q = map (take 149) ms" "\<forall>m \<in> set ms. 0 \<notin> set m"
    using assms(1) by (auto simp: log_abs_def)
  show ?thesis
  proof (cases x)
    case (Log_push m)
    show ?thesis
    proof (cases "length q = n")
      case True
      then show ?thesis using log_push_spec [OF inv(1), of m] Log_push inv ms assms(1) by simp
    next
      case False
      then obtain this' where "log_push this m = Inr (0, this')" "log_inv this'"
          "log_items this' = log_items this @ [log_block m]" "log_capacity this' = n"
        using log_push_spec [OF inv(1), of m] inv ms by auto
      then show ?thesis
        using Log_push ms False assms(2) [OF Log_push]
        by (auto simp: log_abs_def intro!: exI [of _ "ms @ [m]"])
    qed
  next
    case Log_pop
    show ?thesis
    proof (cases ms)
      case Nil
      then show ?thesis using log_pop_spec [OF inv(1)] Log_pop ms assms(1) by simp
    next
      case (Cons m ms')
      then obtain this' where t: "log_pop this = Inr (1, Some (strncpy_bytes 150 (c_string (log_block m))), this')"
          "log_inv this'" "log_items this' = map log_block ms'" "log_capacity this' = n"
        using log_pop_spec [OF inv(1)] inv ms by auto
      have "0 \<notin> set m" using ms(3) Cons by simp
      then have "c_string (log_block m) = take 149 m" "0 \<notin> set (take 149 m)"
        using c_string_block by (auto dest: in_set_takeD)
      then have "c_string (strncpy_bytes 150 (c_string (log_block m))) = take 149 m"
        by (simp add: c_string_strncpy)
      then show ?thesis using t Log_pop ms Cons by (auto simp: log_abs_def)
    qed
  next
    case Log_clear
    then show ?thesis using log_clear_spec [OF inv(1)] inv by (auto simp: log_abs_def)
  next
    case Log_getsize
    then show ?thesis using log_size [OF inv(1)] ms assms(1) by simp
  next
    case Log_getfree
    then show ?thesis using log_free [OF inv(1)] ms inv assms(1) by simp
  qed
qed

lemma log_run_refines:
  assumes "\<And>m. Log_push m \<in> set ops \<Longrightarrow> 0 \<notin> set m"
  shows "log_abs this n q \<Longrightarrow> \<exists>this'. log_run this ops = Inr (fst (queue_run n q ops), this')"
  using assms
proof (induction ops arbitrary: this q)
  case (Cons x ops)
  have "0 \<notin> set m" if "x = Log_push m" for m using that Cons.prems(2) by simp
  from log_step_refines [OF Cons.prems(1) this]
  obtain this1 where 1: "log_step this x = Inr (fst (queue_step n q x), this1)" "log_abs this1 n (snd (queue_step n q x))"
    by blast
  obtain this2 where "log_run this1 ops = Inr (fst (queue_run n (snd (queue_step n q x)) ops), this2)"
    using Cons.IH [OF 1(2)] Cons.prems(2) by auto
  then show ?case using 1(1) by (simp split: prod.split)
qed simp

lemma log_create_abs:
  assumes "log_create True True nbMsg = Inr this" "unat nbMsg \<le> 28633114"
  shows "log_abs this (unat nbMsg) []"
proof -
  have n: "unat (nbMsg + 1) = unat nbMsg + 1" using assms(2) by (simp add: unat_word_ariths)
  moreover have "unat ((nbMsg + 1) * 150) = 150 * (unat nbMsg + 1)"
    using assms(2) unfolding unat_mult_lem [of "nbMsg + 1" 150, THEN iffD1] by (simp add: unat_word_ariths)
  ultimately show ?thesis
    using assms by (auto simp: log_create_def log_abs_def log_inv_def log_items_def log_capacity_def word_less_nat_alt)
qed

text \<open>C23: a log created for \<open>nbMsg\<close> messages is a first-in first-out queue of that many messages:
  any sequence of pushes, pops, counts and clears gives the results of the abstract queue, which
  refuses a message when it is full and keeps the first 149 characters of each.\<close>

theorem log_is_bounded_queue:
  assumes "log_create True True nbMsg = Inr this" "unat nbMsg \<le> 28633114"
    and "\<forall>m. Log_push m \<in> set ops \<longrightarrow> 0 \<notin> set m"
  shows "\<exists>this'. log_run this ops = Inr (fst (queue_run (unat nbMsg) [] ops), this')"
  using log_run_refines [OF _ log_create_abs [OF assms(1,2)], of ops] assms(3) by blast

lemma log_is_bounded_queue_witness:
  "\<exists>this this'. log_create True True 1 = Inr this
     \<and> log_run this [Log_push [65, 66], Log_push [67], Log_getsize, Log_pop, Log_pop]
         = Inr ([Res_status 0, Res_status (- 2), Res_count 1, Res_message 1 (Some [65, 66]), Res_message 0 None], this')"
proof -
  obtain this where s: "log_create True True 1 = Inr this" by (simp add: log_create_def)
  have "unat (1 :: u32) \<le> 28633114" by simp
  from log_is_bounded_queue [OF s this, of "[Log_push [65, 66], Log_push [67], Log_getsize, Log_pop, Log_pop]"] s
  show ?thesis by auto
qed

text \<open>The size of the memory of a log is computed in 32 bits: asked for one message more than
  that can hold, \<open>log_create\<close> reports success and the first message is written past the 104
  bytes it allocated.\<close>

theorem log_create_size_wraps:
  assumes "log_create True True 28633115 = Inr this"
  shows "length (log_ptMsg this) = 104 \<and> log_push this m = Inl Out_of_bounds"
  using assms by (auto simp: log_create_def log_push_def log_getfree_def log_getsize_def buf_write_def)

lemma log_create_size_wraps_witness:
  "\<exists>this. log_create True True 28633115 = Inr this \<and> log_push this [65] = Inl Out_of_bounds"
proof -
  obtain this where s: "log_create True True 28633115 = Inr this" by (simp add: log_create_def)
  from log_create_size_wraps [OF this, of "[65]"] s show ?thesis by blast
qed

text \<open>The life cycle of the global log: without one, messages are discarded and none is found;
  after one was destroyed the pointer still leads to it, so that the next push, pop, count or
  second destroy uses freed memory.\<close>

theorem global_log_dangles:
  "log_global_push m Log_null = Inr (0, Log_null) \<and> log_global_pop Log_null = Inr (0, Some [0], Log_null)
   \<and> (log_global_destroy g = Inr (r, g') \<longrightarrow>
        log_global_push m g' = Inl Dangling \<and> log_global_pop g' = Inl Dangling
      \<and> log_global_getsize g' = Inl Dangling \<and> log_global_destroy g' = Inl Dangling)"
  by (cases g) (auto simp: log_global_push_def log_global_pop_def log_global_destroy_def log_destroy_def
      log_global_getsize_def)

lemma global_log_dangles_witness:
  "\<exists>this g'. log_create True True 3 = Inr this \<and> log_global_destroy (Log_live this) = Inr (0, g')
     \<and> log_global_push [65] g' = Inl Dangling"
proof -
  obtain this where s: "log_create True True 3 = Inr this" by (simp add: log_create_def)
  have d: "log_global_destroy (Log_live this) = Inr (0, Log_freed)"
    by (simp add: log_global_destroy_def log_destroy_def)
  from global_log_dangles [of "[65]" "Log_live this" 0 Log_freed] d s show ?thesis by blast
qed

end
