(* ===== verification/DevUsbdev.thy ===== *)
theory DevUsbdev
  imports ProtoLink
begin

text \<open>
  The usbfs device, \<open>dllCom/libcomm/devices/device_usbdev.c\<close>: one \<open>ioctl\<close> per read and write on
  a descriptor given from outside. \<open>ioctl\<close> is an argument: descriptor, request, the transfer
  structure and the bytes its data pointer leads to; it returns its result and the bytes it stored.
\<close>

record usbdevfs_bulktransfer =
  xfer_ep :: u32
  xfer_len :: u32
  xfer_timeout :: u32

type_synonym 'w usb_ioctl = "int \<Rightarrow> u32 \<Rightarrow> usbdevfs_bulktransfer \<Rightarrow> bytes \<Rightarrow> 'w \<Rightarrow> int \<times> bytes \<times> 'w"

record 'w usbdev_state =
  usbdev_fd :: int
  usbdev_ep_in :: int
  usbdev_ep_out :: int
  usbdev_max_pkt_size :: int
  usbdev_os :: 'w

text \<open>
  \<open>_IOWR('U', 0, struct usbdevfs_ctrltransfer)\<close>, a structure of 24 bytes on a 64-bit system;
  the request of a bulk transfer is \<open>_IOWR('U', 2, struct usbdevfs_bulktransfer)\<close>.
\<close>

definition request_IOWR_U :: "u32 \<Rightarrow> u32 \<Rightarrow> u32" where
  "request_IOWR_U nr sz = push_bit 30 3 OR push_bit 16 sz OR push_bit 8 0x55 OR nr"

abbreviation (input) request_ctrltransfer :: u32 where "request_ctrltransfer \<equiv> request_IOWR_U 0 24"
abbreviation (input) request_bulktransfer :: u32 where "request_bulktransfer \<equiv> request_IOWR_U 2 24"

definition devusbdev_close :: "'w usbdev_state \<Rightarrow> int \<times> 'w usbdev_state" where
  "devusbdev_close s = (0, if 0 \<le> usbdev_fd s then s\<lparr>usbdev_fd := - 1\<rparr> else s)"

definition devusbdev_open :: "string \<Rightarrow> 'w usbdev_state \<Rightarrow> int \<times> 'w usbdev_state" where
  "devusbdev_open szPath s = (0, s)"

definition devusbdev_destroy :: "'w usbdev_state \<Rightarrow> 'w usbdev_state" where
  "devusbdev_destroy s = snd (devusbdev_close s)"

definition devusbdev_read ::
  "'w usb_ioctl \<Rightarrow> u8 \<Rightarrow> int \<Rightarrow> 'w usbdev_state \<Rightarrow> int \<times> bytes \<times> 'w usbdev_state"
where
  "devusbdev_read ioctl len tout_ms s =
     (if usbdev_fd s < 0 then (- 1, [], s)
      else (case ioctl (usbdev_fd s) request_ctrltransfer
                   \<lparr>xfer_ep = of_int (usbdev_ep_in s), xfer_len = ucast len, xfer_timeout = 1000\<rparr> [] (usbdev_os s) of
              (res, bs, w) \<Rightarrow> (if res < 0 then - 1 else int (unat len), bs, s\<lparr>usbdev_os := w\<rparr>)))"

definition devusbdev_write :: "'w usb_ioctl \<Rightarrow> bytes \<Rightarrow> 'w usbdev_state \<Rightarrow> int \<times> 'w usbdev_state" where
  "devusbdev_write ioctl buffer s =
     (if usbdev_fd s < 0 then (- 1, s)
      else (case ioctl (usbdev_fd s) request_ctrltransfer
                   \<lparr>xfer_ep = of_int (usbdev_ep_out s), xfer_len = of_nat (length buffer), xfer_timeout = 1000\<rparr>
                   buffer (usbdev_os s) of
              (res, _, w) \<Rightarrow> (if res < 0 then - 1 else 0, s\<lparr>usbdev_os := w\<rparr>)))"

definition devusbdev_setDev :: "int \<Rightarrow> int \<Rightarrow> int \<Rightarrow> int \<Rightarrow> 'w usbdev_state \<Rightarrow> int \<times> 'w usbdev_state" where
  "devusbdev_setDev fd ep_in ep_out max_pkt_size s =
     (if fd < 0 \<or> ep_in < 0 \<or> ep_out < 0 then (- 1, s)
      else if usbdev_fd s \<noteq> - 1 then (- 1, s)
      else (0, s\<lparr>usbdev_fd := fd, usbdev_ep_in := ep_in, usbdev_ep_out := ep_out,
                 usbdev_max_pkt_size := max_pkt_size\<rparr>))"

definition devusbdev_getFD :: "'w usbdev_state \<Rightarrow> int" where
  "devusbdev_getFD s = usbdev_fd s"

definition devusbdev_init :: "int \<Rightarrow> 'w \<Rightarrow> 'w usbdev_state" where
  "devusbdev_init garbage w =
     \<lparr>usbdev_fd = - 1, usbdev_ep_in = - 1, usbdev_ep_out = - 1, usbdev_max_pkt_size = garbage, usbdev_os = w\<rparr>"

definition devusbdev_create :: "bool \<Rightarrow> bool \<Rightarrow> int \<Rightarrow> 'w \<Rightarrow> 'w usbdev_state outcome" where
  "devusbdev_create malloc_dev malloc_user garbage w =
     (if \<not> malloc_dev then Inl Null_deref
      else if \<not> malloc_user then Inl Null_deref
      else Inr (devusbdev_init garbage w))"

text \<open>The device never asks the system for a bulk transfer: every transfer is submitted with the
  number of the control request, so its results only depend on how the system answers that one;
  and a read that stored fewer bytes than asked reports that it stored them all.\<close>

lemma usbdev_transfers_are_control_requests:
  assumes "\<And>fd x bs w. ioctl fd request_ctrltransfer x bs w = ioctl' fd request_ctrltransfer x bs w"
  shows "devusbdev_read ioctl len t s = devusbdev_read ioctl' len t s
     \<and> devusbdev_write ioctl buf s = devusbdev_write ioctl' buf s
     \<and> request_ctrltransfer \<noteq> request_bulktransfer
     \<and> (0 \<le> usbdev_fd s \<and> 0 \<le> fst (ioctl (usbdev_fd s) request_ctrltransfer
           \<lparr>xfer_ep = of_int (usbdev_ep_in s), xfer_len = ucast len, xfer_timeout = 1000\<rparr> [] (usbdev_os s))
         \<longrightarrow> fst (devusbdev_read ioctl len t s) = int (unat len))"
proof -
  have "request_ctrltransfer \<noteq> request_bulktransfer" by (simp add: request_IOWR_U_def)
  then show ?thesis
    using assms by (auto simp: devusbdev_read_def devusbdev_write_def split: prod.splits)
qed

text \<open>A system that knows bulk transfers only, and one that refuses everything.\<close>

definition bulk_only :: "unit usb_ioctl" where
  "bulk_only fd req x bs w = (if req = request_bulktransfer then (int (unat (xfer_len x)), [1, 2], w) else (- 1, [], w))"

definition refuse_all :: "unit usb_ioctl" where
  "refuse_all fd req x bs w = (- 1, [], w)"

lemma usbdev_transfers_are_control_requests_witness:
  "devusbdev_read bulk_only 2 0 \<lparr>usbdev_fd = 3, usbdev_ep_in = 0x81, usbdev_ep_out = 1, usbdev_max_pkt_size = 64, usbdev_os = ()\<rparr>
   = devusbdev_read refuse_all 2 0 \<lparr>usbdev_fd = 3, usbdev_ep_in = 0x81, usbdev_ep_out = 1, usbdev_max_pkt_size = 64, usbdev_os = ()\<rparr>"
proof -
  have "bulk_only fd request_ctrltransfer x bs w = refuse_all fd request_ctrltransfer x bs w" for fd x bs w
    by (simp add: bulk_only_def refuse_all_def request_IOWR_U_def)
  from usbdev_transfers_are_control_requests [where ioctl = bulk_only and ioctl' = refuse_all, OF this] show ?thesis by blast
qed

end
