(* ===== verification/DevLibusb.thy ===== *)
theory DevLibusb
  imports ProtoLink
begin

text \<open>
  The libusb device, \<open>dllCom/libcomm/devices/device_libusb.c\<close>. libusb is third-party code: its
  functions are arguments, with handles as numbers and \<open>None\<close> for a null pointer.
\<close>

section \<open>State and operations\<close>

record 'w libusb =
  lib_set_option :: "'w \<Rightarrow> int \<times> 'w"
  lib_init :: "'w \<Rightarrow> int \<times> nat option \<times> 'w"
  lib_exit :: "nat \<Rightarrow> 'w \<Rightarrow> 'w"
  lib_wrap_sys_device :: "nat \<Rightarrow> int \<Rightarrow> 'w \<Rightarrow> int \<times> nat option \<times> 'w"
  lib_get_device :: "nat \<Rightarrow> 'w \<Rightarrow> nat option \<times> 'w"
  lib_close :: "nat \<Rightarrow> 'w \<Rightarrow> 'w"
  lib_bulk_in :: "nat \<Rightarrow> u8 \<Rightarrow> int \<Rightarrow> 'w \<Rightarrow> int \<times> bytes \<times> 'w"
  lib_bulk_out :: "nat \<Rightarrow> u8 \<Rightarrow> bytes \<Rightarrow> 'w \<Rightarrow> int \<times> int \<times> 'w"
  lib_clear_halt :: "nat \<Rightarrow> u8 \<Rightarrow> 'w \<Rightarrow> int \<times> 'w"

abbreviation (input) LIBUSB_SUCCESS :: int where "LIBUSB_SUCCESS \<equiv> 0"
abbreviation (input) LIBUSB_ERROR_TIMEOUT :: int where "LIBUSB_ERROR_TIMEOUT \<equiv> - 7"
abbreviation (input) DEVLIBUSB_FD_INVALID :: int where "DEVLIBUSB_FD_INVALID \<equiv> - 1"

record 'w libusb_state =
  lu_ctx :: "nat option"
  lu_dev :: "nat option"
  lu_devh :: "nat option"
  lu_fd :: int
  lu_ep_in :: int
  lu_ep_out :: int
  lu_max_pkt_size :: int
  lu_lib :: 'w

definition devlibusb_close :: "'w libusb \<Rightarrow> 'w libusb_state \<Rightarrow> int \<times> 'w libusb_state" where
  "devlibusb_close lib s =
     (let s1 = (if 0 \<le> lu_fd s then s\<lparr>lu_fd := DEVLIBUSB_FD_INVALID\<rparr> else s);
          s2 = (case lu_devh s1 of None \<Rightarrow> s1
                | Some h \<Rightarrow> s1\<lparr>lu_lib := lib_close lib h (lu_lib s1), lu_devh := None\<rparr>)
      in (0, s2\<lparr>lu_dev := None\<rparr>))"

definition devlibusb_destroy :: "'w libusb \<Rightarrow> 'w libusb_state \<Rightarrow> 'w libusb_state" where
  "devlibusb_destroy lib s =
     (let s1 = snd (devlibusb_close lib s) in
      case lu_ctx s1 of None \<Rightarrow> s1
      | Some c \<Rightarrow> s1\<lparr>lu_lib := lib_exit lib c (lu_lib s1), lu_ctx := None\<rparr>)"

definition devlibusb_open :: "'w libusb \<Rightarrow> string \<Rightarrow> 'w libusb_state \<Rightarrow> (int \<times> 'w libusb_state) outcome" where
  "devlibusb_open lib szPath s =
     (case lu_ctx s of
        None \<Rightarrow> Inl Assertion
      | Some c \<Rightarrow>
          (case lib_wrap_sys_device lib c (lu_fd s) (lu_lib s) of
             (ret, h, w) \<Rightarrow>
               (let s1 = s\<lparr>lu_devh := h, lu_lib := w\<rparr> in
                case h of
                  None \<Rightarrow> Inr (- 1, s1)
                | Some dh \<Rightarrow>
                    (case lib_get_device lib dh w of
                       (d, w') \<Rightarrow> Inr (0, s1\<lparr>lu_dev := d, lu_lib := w'\<rparr>)))))"

definition devlibusb_read ::
  "'w libusb \<Rightarrow> u8 \<Rightarrow> int \<Rightarrow> 'w libusb_state \<Rightarrow> (int \<times> bytes \<times> 'w libusb_state) outcome"
where
  "devlibusb_read lib len tout_ms s =
     (if lu_fd s < 0 \<or> len \<le> 0 then Inr (- 1, [], s)
      else (case lu_devh s of
              None \<Rightarrow> Inl Null_deref
            | Some h \<Rightarrow>
                (case lib_bulk_in lib h (of_int (lu_ep_in s)) (int (unat len)) (lu_lib s) of
                   (res, bs, w) \<Rightarrow>
                     (let s1 = s\<lparr>lu_lib := w\<rparr> in
                      if res = LIBUSB_SUCCESS then Inr (int (length bs), bs, s1)
                      else if res = LIBUSB_ERROR_TIMEOUT then
                        (if bs = [] then Inr (- 1, bs, s1) else Inr (int (length bs), bs, s1))
                      else Inr (- 1, bs, s1)))))"

text \<open>
  The loop of the write, with the bytes from \<open>buffer + sent\<close>, the eight-bit count \<open>sent\<close> and the
  retries left. It may go on forever when transfers succeed without sending anything.
\<close>

partial_function (option) libusb_write_loop ::
  "'w libusb \<Rightarrow> nat \<Rightarrow> u8 \<Rightarrow> u8 \<Rightarrow> bytes \<Rightarrow> u8 \<Rightarrow> int \<Rightarrow> 'w \<Rightarrow> (int \<times> 'w) option"
where
  "libusb_write_loop lib h ep_in ep_out buffer sent nbretry w =
     (case lib_bulk_out lib h ep_out (drop (unat sent) buffer) w of
        (res, actual_length, w1) \<Rightarrow>
          if res = LIBUSB_SUCCESS then
            (let sent' = sent + of_int actual_length in
             if unat sent' < length buffer
             then libusb_write_loop lib h ep_in ep_out buffer sent' nbretry w1
             else Some (0, w1))
          else if res = LIBUSB_ERROR_TIMEOUT then
            (if nbretry - 1 = 0 then Some (- 1, w1)
             else (case lib_clear_halt lib h ep_in w1 of
                     (_, w2) \<Rightarrow>
                       if unat sent < length buffer
                       then libusb_write_loop lib h ep_in ep_out buffer sent (nbretry - 1) w2
                       else Some (0, w2)))
          else Some (- 1, w1))"

declare libusb_write_loop.simps [code]

definition devlibusb_write :: "'w libusb \<Rightarrow> bytes \<Rightarrow> 'w libusb_state \<Rightarrow> (int \<times> 'w libusb_state) outcome" where
  "devlibusb_write lib buffer s =
     (if lu_fd s < 0 \<or> length buffer = 0 then Inr (- 1, s)
      else (case lu_devh s of
              None \<Rightarrow> Inl Null_deref
            | Some h \<Rightarrow>
                (case libusb_write_loop lib h (of_int (lu_ep_in s)) (of_int (lu_ep_out s)) buffer 0 2 (lu_lib s) of
                   None \<Rightarrow> Inl Diverges
                 | Some (r, w) \<Rightarrow> Inr (r, s\<lparr>lu_lib := w\<rparr>))))"

definition devlibusb_setFD :: "int \<Rightarrow> int \<Rightarrow> int \<Rightarrow> int \<Rightarrow> 'w libusb_state \<Rightarrow> int \<times> 'w libusb_state" where
  "devlibusb_setFD fd ep_in ep_out max_pkt_size s =
     (if fd < 0 then (- 1, s)
      else if lu_fd s \<noteq> DEVLIBUSB_FD_INVALID \<or> lu_devh s \<noteq> None then (- 1, s)
      else (0, s\<lparr>lu_fd := fd, lu_ep_in := ep_in, lu_ep_out := ep_out, lu_max_pkt_size := max_pkt_size\<rparr>))"

definition devlibusb_getFD :: "'w libusb_state \<Rightarrow> int" where
  "devlibusb_getFD s = lu_fd s"

definition devlibusb_init :: "'w libusb \<Rightarrow> 'w \<Rightarrow> int \<times> 'w libusb_state" where
  "devlibusb_init lib w =
     (let s = \<lparr>lu_ctx = None, lu_dev = None, lu_devh = None, lu_fd = - 1, lu_ep_in = 0, lu_ep_out = 0,
               lu_max_pkt_size = 0, lu_lib = w\<rparr> in
      case lib_set_option lib w of
        (ret, w1) \<Rightarrow>
          if ret \<noteq> LIBUSB_SUCCESS then (- 1, s\<lparr>lu_lib := w1\<rparr>)
          else (case lib_init lib w1 of
                  (ret, c, w2) \<Rightarrow>
                    if ret \<noteq> LIBUSB_SUCCESS then (- 1, s\<lparr>lu_ctx := None, lu_lib := w2\<rparr>)
                    else (case lib_set_option lib w2 of
                            (_, w3) \<Rightarrow> (0, s\<lparr>lu_ctx := c, lu_lib := w3\<rparr>))))"

text \<open>The result of the initialisation is not looked at.\<close>

definition devlibusb_create :: "bool \<Rightarrow> bool \<Rightarrow> 'w libusb \<Rightarrow> 'w \<Rightarrow> 'w libusb_state outcome" where
  "devlibusb_create malloc_dev malloc_user lib w =
     (if \<not> malloc_dev then Inl Null_deref
      else if \<not> malloc_user then Inl Null_deref
      else Inr (snd (devlibusb_init lib w)))"

section \<open>Properties\<close>

text \<open>What the endpoint got, over a libusb whose transfers take a non-empty part of the bytes.\<close>

definition bulk_sends :: "'w libusb \<Rightarrow> ('w \<Rightarrow> bytes) \<Rightarrow> bool" where
  "bulk_sends lib got \<longleftrightarrow> (\<forall>h ep bs w. bs \<noteq> [] \<longrightarrow>
     (\<exists>n w'. lib_bulk_out lib h ep bs w = (LIBUSB_SUCCESS, int n, w') \<and> 1 \<le> n \<and> n \<le> length bs
        \<and> got w' = got w @ take n bs))"

lemma libusb_loop_delivers:
  assumes "bulk_sends lib got" "length bs < 256"
  shows "unat sent < length bs \<Longrightarrow>
     \<exists>w'. libusb_write_loop lib h ein eout bs sent k w = Some (0, w') \<and> got w' = got w @ drop (unat sent) bs"
proof (induction "length bs - unat sent" arbitrary: sent w rule: less_induct)
  case less
  then have "drop (unat sent) bs \<noteq> []" by simp
  with assms(1) obtain n w1 where n: "lib_bulk_out lib h eout (drop (unat sent) bs) w = (LIBUSB_SUCCESS, int n, w1)"
      "1 \<le> n" "n \<le> length bs - unat sent" "got w1 = got w @ take n (drop (unat sent) bs)"
    unfolding bulk_sends_def by (metis length_drop)
  have n8: "unat (of_nat n :: u8) = n" using n(3) assms(2) by (intro unat_of_nat_u8) linarith
  have sum: "unat sent + n < 256" using n(3) assms(2) less.prems by linarith
  then have s': "unat (sent + of_nat n) = unat sent + n"
    using n8 unat_add_lem [of sent "of_nat n"] by simp
  show ?case
  proof (cases "unat sent + n < length bs")
    case True
    have "length bs - unat (sent + of_nat n) < length bs - unat sent" using s' n(2) less.prems by simp
    from less.hyps [OF this, of w1] True s'
    obtain w' where w': "libusb_write_loop lib h ein eout bs (sent + of_nat n) k w1 = Some (0, w')"
        "got w' = got w1 @ drop (unat sent + n) bs" by auto
    have "take n (drop (unat sent) bs) @ drop (unat sent + n) bs = drop (unat sent) bs"
      using append_take_drop_id [of n "drop (unat sent) bs"] by (simp add: add.commute)
    then show ?thesis
      using n True s' w' by (subst libusb_write_loop.simps) (simp add: Let_def)
  next
    case False
    then show ?thesis using n s' by (subst libusb_write_loop.simps) (simp add: Let_def)
  qed
qed

text \<open>C37: over a libusb whose transfers succeed with some of the bytes each, a write of the device
  ends, succeeds, and the endpoint gets exactly its bytes in order.\<close>

theorem libusb_write_delivers:
  assumes "bulk_sends lib got" "0 \<le> lu_fd s" "lu_devh s = Some h" "bs \<noteq> []" "length bs < 256"
  shows "\<exists>w'. devlibusb_write lib bs s = Inr (0, s\<lparr>lu_lib := w'\<rparr>) \<and> got w' = got (lu_lib s) @ bs"
  using libusb_loop_delivers [OF assms(1,5), of 0 h "of_int (lu_ep_in s)" "of_int (lu_ep_out s)" 2 "lu_lib s"] assms
  by (auto simp: devlibusb_write_def)

text \<open>
  A libusb that sends at most two bytes a time, and one whose first transfer (the world's
  number is zero) times out after two bytes.
\<close>

definition short_lib :: "(nat \<times> bytes) libusb" where
  "short_lib = \<lparr>lib_set_option = \<lambda>w. (0, w), lib_init = \<lambda>w. (0, Some 1, w), lib_exit = \<lambda>c w. w,
     lib_wrap_sys_device = \<lambda>c fd w. (0, Some 2, w), lib_get_device = \<lambda>h w. (Some 3, w), lib_close = \<lambda>h w. w,
     lib_bulk_in = \<lambda>h ep n w. (0, [], w),
     lib_bulk_out = \<lambda>h ep bs (k, r). (0, int (length (take 2 bs)), (Suc k, r @ take 2 bs)),
     lib_clear_halt = \<lambda>h ep w. (0, w)\<rparr>"

definition slow_lib :: "(nat \<times> bytes) libusb" where
  "slow_lib = short_lib\<lparr>lib_bulk_out := \<lambda>h ep bs (k, r).
     if k = 0 then (- 7, int (length (take 2 bs)), (Suc k, r @ take 2 bs)) else (0, int (length bs), (Suc k, r @ bs))\<rparr>"

abbreviation libusb_sample :: "(nat \<times> bytes) libusb_state" where
  "libusb_sample \<equiv> \<lparr>lu_ctx = Some 1, lu_dev = Some 3, lu_devh = Some 2, lu_fd = 4, lu_ep_in = 0x81, lu_ep_out = 1,
     lu_max_pkt_size = 64, lu_lib = (0, [])\<rparr>"

lemma libusb_write_delivers_witness:
  "\<exists>w'. devlibusb_write short_lib [1, 2, 3, 4, 5] libusb_sample = Inr (0, libusb_sample\<lparr>lu_lib := w'\<rparr>)
     \<and> snd w' = [1, 2, 3, 4, 5]"
proof -
  have "bulk_sends short_lib snd"
    unfolding bulk_sends_def
  proof (intro allI impI)
    fix h ep and bs :: bytes and w :: "nat \<times> bytes"
    assume "bs \<noteq> []"
    then obtain x xs where bs: "bs = x # xs" by (cases bs) auto
    then show "\<exists>n w'. lib_bulk_out short_lib h ep bs w = (0, int n, w') \<and> 1 \<le> n \<and> n \<le> length bs
        \<and> snd w' = snd w @ take n bs"
      by (intro exI [of _ "length (take 2 bs)"] exI [of _ "(Suc (fst w), snd w @ take 2 bs)"])
        (cases xs; auto simp: short_lib_def split: prod.split)
  qed
  from libusb_write_delivers [OF this, of libusb_sample 2 "[1, 2, 3, 4, 5]"] show ?thesis by simp
qed

text \<open>
  A libusb whose transfers take some of the bytes, and may time out after none or some of them; \<open>touts\<close> counts the
  transfers that timed out. Clearing a halt changes neither.
\<close>

definition bulk_may_time_out :: "'w libusb \<Rightarrow> ('w \<Rightarrow> bytes) \<Rightarrow> ('w \<Rightarrow> nat) \<Rightarrow> bool" where
  "bulk_may_time_out lib got touts \<longleftrightarrow>
     (\<forall>h ep bs w. bs \<noteq> [] \<longrightarrow> (\<exists>res n w'. lib_bulk_out lib h ep bs w = (res, int n, w') \<and> n \<le> length bs \<and> got w' = got w @ take n bs
        \<and> (res = LIBUSB_SUCCESS \<and> 1 \<le> n \<and> touts w' = touts w \<or> res = LIBUSB_ERROR_TIMEOUT \<and> touts w' = touts w + 1)))
   \<and> (\<forall>h ep w. \<exists>r w'. lib_clear_halt lib h ep w = (r, w') \<and> got w' = got w \<and> touts w' = touts w)"

lemma bulk_transfer_cases:
  assumes "bulk_may_time_out lib got touts" "bs \<noteq> []"
  obtains (taken) n w' where "lib_bulk_out lib h ep bs w = (0, int n, w')" "1 \<le> n" "n \<le> length bs"
      "got w' = got w @ take n bs" "touts w' = touts w"
  | (late) n w' where "lib_bulk_out lib h ep bs w = (- 7, int n, w')" "n \<le> length bs"
      "got w' = got w @ take n bs" "touts w' = touts w + 1"
  using assms unfolding bulk_may_time_out_def by metis

lemma halt_cleared:
  assumes "bulk_may_time_out lib got touts"
  obtains r w' where "lib_clear_halt lib h ep w = (r, w')" "got w' = got w" "touts w' = touts w"
  using assms unfolding bulk_may_time_out_def by metis

text \<open>A transfer that took \<open>n\<close> bytes: the loop ends, or goes on behind them.\<close>

lemma libusb_loop_takes:
  assumes "lib_bulk_out lib h eout (drop (unat sent) bs) w = (0, int n, w1)" "n \<le> length bs - unat sent"
    and "unat sent < length bs" "length bs < 256"
  shows "unat (sent + of_nat n) = unat sent + n
     \<and> libusb_write_loop lib h ein eout bs sent k w
         = (if unat sent + n < length bs then libusb_write_loop lib h ein eout bs (sent + of_nat n) k w1 else Some (0, w1))"
proof -
  have "unat (of_nat n :: u8) = n" using assms(2,4) by (intro unat_of_nat_u8) linarith
  then have "unat (sent + of_nat n) = unat sent + n"
    using assms(2-4) unat_add_lem [of sent "of_nat n"] by (auto simp: algebra_simps)
  then show ?thesis
    using assms(1) by (auto simp: Let_def libusb_write_loop.simps [of lib h ein eout bs sent])
qed

text \<open>The bytes behind \<open>m\<close> when the next time-out is final, and when one more is allowed.\<close>

definition once_more :: "bytes \<Rightarrow> nat \<Rightarrow> int \<Rightarrow> bytes \<Rightarrow> nat \<Rightarrow> bool" where
  "once_more bs m r out t \<longleftrightarrow> r = 0 \<and> t = 0 \<and> out = drop m bs
     \<or> r = - 1 \<and> t = 1 \<and> (\<exists>j k. m + j < length bs \<and> out = take j (drop m bs) @ take k (drop (m + j) bs))"

definition with_retry :: "bytes \<Rightarrow> nat \<Rightarrow> int \<Rightarrow> bytes \<Rightarrow> nat \<Rightarrow> bool" where
  "with_retry bs m r out t \<longleftrightarrow> r = 0 \<and> t = 0 \<and> out = drop m bs
     \<or> (\<exists>i k out' t'. m + i < length bs \<and> out = take i (drop m bs) @ take k (drop (m + i) bs) @ out'
          \<and> once_more bs (m + i) r out' t' \<and> t = t' + 1)"

lemma take_then_drop: "take n (drop m bs) @ drop (m + n) bs = drop m bs"
  using append_take_drop_id [of n "drop m bs"] by (simp add: add.commute)

lemma take_then_take: "take n (drop m bs) @ take j (drop (m + n) bs) = take (n + j) (drop m bs)"
  using take_add [of n j "drop m bs"] by (simp add: add.commute)

lemma once_more_taken:
  assumes "once_more bs (m + n) r out t"
  shows "once_more bs m r (take n (drop m bs) @ out) t"
  using assms unfolding once_more_def
proof (elim disjE conjE exE)
  fix j k assume a: "r = - 1" "t = 1" "m + n + j < length bs" "out = take j (drop (m + n) bs) @ take k (drop (m + n + j) bs)"
  then have "m + (n + j) < length bs" "take n (drop m bs) @ out = take (n + j) (drop m bs) @ take k (drop (m + (n + j)) bs)"
    using take_then_take [of n m bs j] by (simp_all flip: append_assoc add: add.assoc)
  then show "r = 0 \<and> t = 0 \<and> take n (drop m bs) @ out = drop m bs \<or> r = - 1 \<and> t = 1 \<and>
      (\<exists>j k. m + j < length bs \<and> take n (drop m bs) @ out = take j (drop m bs) @ take k (drop (m + j) bs))"
    using a(1,2) by blast
qed (simp add: take_then_drop)

lemma with_retry_taken:
  assumes "with_retry bs (m + n) r out t"
  shows "with_retry bs m r (take n (drop m bs) @ out) t"
  using assms unfolding with_retry_def
proof (elim disjE conjE exE)
  fix i k out' t' assume a: "m + n + i < length bs" "out = take i (drop (m + n) bs) @ take k (drop (m + n + i) bs) @ out'"
      "once_more bs (m + n + i) r out' t'" "t = t' + 1"
  then have "m + (n + i) < length bs" "once_more bs (m + (n + i)) r out' t'"
      "take n (drop m bs) @ out = take (n + i) (drop m bs) @ take k (drop (m + (n + i)) bs) @ out'"
    using take_then_take [of n m bs i] by (simp_all flip: append_assoc add: add.assoc)
  then show "r = 0 \<and> t = 0 \<and> take n (drop m bs) @ out = drop m bs \<or> (\<exists>i k out' t'. m + i < length bs \<and>
      take n (drop m bs) @ out = take i (drop m bs) @ take k (drop (m + i) bs) @ out' \<and> once_more bs (m + i) r out' t' \<and> t = t' + 1)"
    using a(4) by blast
qed (simp add: take_then_drop)

lemma libusb_loop_last_try:
  assumes "bulk_may_time_out lib got touts" "length bs < 256"
  shows "unat sent < length bs \<Longrightarrow>
     \<exists>r w' out t. libusb_write_loop lib h ein eout bs sent 1 w = Some (r, w') \<and> got w' = got w @ out
        \<and> touts w' = touts w + t \<and> once_more bs (unat sent) r out t"
proof (induction "length bs - unat sent" arbitrary: sent w rule: less_induct)
  case less
  then have "drop (unat sent) bs \<noteq> []" by simp
  with assms(1) show ?case
  proof (cases rule: bulk_transfer_cases [of lib got touts "drop (unat sent) bs" h eout w])
    case (taken n w1)
    note step = libusb_loop_takes [OF taken(1) _ less.prems assms(2), of ein 1]
    show ?thesis
    proof (cases "unat sent + n < length bs")
      case True
      have lt: "length bs - unat (sent + of_nat n) < length bs - unat sent" "unat (sent + of_nat n) < length bs"
        using step taken(2,3) True less.prems by auto
      obtain r w' out t where "libusb_write_loop lib h ein eout bs (sent + of_nat n) 1 w1 = Some (r, w')"
          "got w' = got w1 @ out" "touts w' = touts w1 + t" "once_more bs (unat (sent + of_nat n)) r out t"
        using less.hyps [OF lt] by blast
      then show ?thesis
        using step taken True once_more_taken [of bs "unat sent" n r out t] by auto
    next
      case False
      then have "take n (drop (unat sent) bs) = drop (unat sent) bs" by simp
      moreover have "once_more bs (unat sent) 0 (drop (unat sent) bs) 0" by (simp add: once_more_def)
      ultimately show ?thesis
        using False step taken by (intro exI [of _ 0] exI [of _ w1] exI [of _ "drop (unat sent) bs"]) simp
    qed
  next
    case (late n w1)
    have "libusb_write_loop lib h ein eout bs sent 1 w = Some (- 1, w1)"
      using late(1) by (subst libusb_write_loop.simps) simp
    moreover have "once_more bs (unat sent) (- 1) (take n (drop (unat sent) bs)) 1"
      using less.prems unfolding once_more_def by (intro disjI2 conjI, simp_all, intro exI [of _ "0 :: nat"], auto)
    ultimately show ?thesis using late(3,4) by blast
  qed
qed

lemma libusb_loop_two_tries:
  assumes "bulk_may_time_out lib got touts" "length bs < 256"
  shows "unat sent < length bs \<Longrightarrow>
     \<exists>r w' out t. libusb_write_loop lib h ein eout bs sent 2 w = Some (r, w') \<and> got w' = got w @ out
        \<and> touts w' = touts w + t \<and> with_retry bs (unat sent) r out t"
proof (induction "length bs - unat sent" arbitrary: sent w rule: less_induct)
  case less
  then have "drop (unat sent) bs \<noteq> []" by simp
  with assms(1) show ?case
  proof (cases rule: bulk_transfer_cases [of lib got touts "drop (unat sent) bs" h eout w])
    case (taken n w1)
    note step = libusb_loop_takes [OF taken(1) _ less.prems assms(2), of ein 2]
    show ?thesis
    proof (cases "unat sent + n < length bs")
      case True
      have lt: "length bs - unat (sent + of_nat n) < length bs - unat sent" "unat (sent + of_nat n) < length bs"
        using step taken(2,3) True less.prems by auto
      obtain r w' out t where "libusb_write_loop lib h ein eout bs (sent + of_nat n) 2 w1 = Some (r, w')"
          "got w' = got w1 @ out" "touts w' = touts w1 + t" "with_retry bs (unat (sent + of_nat n)) r out t"
        using less.hyps [OF lt] by blast
      then show ?thesis
        using step taken True with_retry_taken [of bs "unat sent" n r out t] by auto
    next
      case False
      then have "take n (drop (unat sent) bs) = drop (unat sent) bs" by simp
      moreover have "with_retry bs (unat sent) 0 (drop (unat sent) bs) 0" by (simp add: with_retry_def)
      ultimately show ?thesis
        using False step taken by (intro exI [of _ 0] exI [of _ w1] exI [of _ "drop (unat sent) bs"]) simp
    qed
  next
    case (late n w1)
    obtain r2 w2 where w2: "lib_clear_halt lib h ein w1 = (r2, w2)" "got w2 = got w1" "touts w2 = touts w1"
      using halt_cleared [OF assms(1)] by blast
    obtain r w' out t where r: "libusb_write_loop lib h ein eout bs sent 1 w2 = Some (r, w')" "got w' = got w2 @ out"
        "touts w' = touts w2 + t" "once_more bs (unat sent) r out t"
      using libusb_loop_last_try [OF assms less.prems] by blast
    have "libusb_write_loop lib h ein eout bs sent 2 w = Some (r, w')"
      using late(1) w2(1) r(1) less.prems by (subst libusb_write_loop.simps) simp
    moreover have "with_retry bs (unat sent) r (take n (drop (unat sent) bs) @ out) (t + 1)"
      using r(4) less.prems unfolding with_retry_def
      by - (rule disjI2, rule exI [of _ 0], rule exI [of _ n], rule exI [of _ out], rule exI [of _ t], simp)
    ultimately show ?thesis using late(3,4) w2(2,3) r(2,3) by fastforce
  qed
qed

text \<open>C38: what the endpoint gets when transfers time out. Over a libusb whose transfers each take some of the bytes or
  time out after none or some of them, a write of up to 255 bytes of a device that is open ends. Without a time-out it reports success
  and the endpoint has its bytes. After one time-out it still reports success, but the bytes that the late transfer had
  sent (the \<open>k\<close> bytes behind the first \<open>i\<close>) are sent twice: it starts again at what the device counts as sent, and
  what a late transfer took is not counted. After a second one, on the same bytes or later ones, the write
  reports an error with part of its bytes sent.\<close>

theorem libusb_timeout_sends_twice:
  assumes "bulk_may_time_out lib got touts" "0 \<le> lu_fd s" "lu_devh s = Some h" "bs \<noteq> []" "length bs < 256"
  shows "\<exists>r w' out t. devlibusb_write lib bs s = Inr (r, s\<lparr>lu_lib := w'\<rparr>)
     \<and> got w' = got (lu_lib s) @ out \<and> touts w' = touts (lu_lib s) + t
     \<and> (r = 0 \<and> t = 0 \<and> out = bs
       \<or> r = 0 \<and> t = 1 \<and> (\<exists>i k. i < length bs \<and> out = take (i + k) bs @ drop i bs)
       \<or> r = - 1 \<and> t = 2 \<and> (\<exists>i k j l. i + j < length bs
            \<and> out = take (i + k) bs @ take j (drop i bs) @ take l (drop (i + j) bs)))"
proof -
  have z: "unat (0 :: u8) < length bs" "unat (0 :: u8) = 0" using assms(4) by simp_all
  obtain r w' out t where r: "libusb_write_loop lib h (of_int (lu_ep_in s)) (of_int (lu_ep_out s)) bs 0 2 (lu_lib s) = Some (r, w')"
      "got w' = got (lu_lib s) @ out" "touts w' = touts (lu_lib s) + t" "with_retry bs 0 r out t"
    using libusb_loop_two_tries [OF assms(1,5) z(1)] unfolding z(2) by blast
  moreover have "devlibusb_write lib bs s = Inr (r, s\<lparr>lu_lib := w'\<rparr>)" using r(1) assms(2-4) by (simp add: devlibusb_write_def)
  moreover have two: "take i bs @ take k (drop i bs) @ xs = take (i + k) bs @ xs" for i k xs by (simp add: take_add)
  have "r = 0 \<and> t = 0 \<and> out = bs
       \<or> r = 0 \<and> t = 1 \<and> (\<exists>i k. i < length bs \<and> out = take (i + k) bs @ drop i bs)
       \<or> r = - 1 \<and> t = 2 \<and> (\<exists>i k j l. i + j < length bs
            \<and> out = take (i + k) bs @ take j (drop i bs) @ take l (drop (i + j) bs))"
    using r(4) unfolding with_retry_def once_more_def drop_0 add_0 two
    by (elim disjE conjE exE) (simp_all, blast+)
  ultimately show ?thesis by blast
qed

lemma libusb_timeout_sends_twice_witness:
  "\<exists>w'. devlibusb_write slow_lib [1, 2, 3] libusb_sample = Inr (0, libusb_sample\<lparr>lu_lib := w'\<rparr>) \<and> snd w' = [1, 2, 1, 2, 3]
     \<and> (\<exists>i k. snd w' = take (i + k) [1, 2, 3] @ drop i [1, 2, 3])"
proof -
  let ?touts = "\<lambda>w :: nat \<times> bytes. min 1 (fst w)"
  have "take (min (length bs) 2) bs = take 2 bs" for bs :: bytes by (simp add: min_def)
  then have lib: "bulk_may_time_out slow_lib snd ?touts"
    by (auto simp: bulk_may_time_out_def slow_lib_def short_lib_def Suc_le_eq split: prod.split)
  have s: "0 \<le> lu_fd libusb_sample" "lu_devh libusb_sample = Some 2" "[1, 2, 3 :: u8] \<noteq> []" "length [1, 2, 3 :: u8] < 256"
    by simp_all
  obtain r w' out t where
    w': "devlibusb_write slow_lib [1, 2, 3] libusb_sample = Inr (r, libusb_sample\<lparr>lu_lib := w'\<rparr>)"
      "snd w' = snd (lu_lib libusb_sample) @ out" "?touts w' = ?touts (lu_lib libusb_sample) + t"
      "r = 0 \<and> t = 0 \<and> out = [1, 2, 3]
       \<or> r = 0 \<and> t = 1 \<and> (\<exists>i k. i < length [1, 2, 3 :: u8] \<and> out = take (i + k) [1, 2, 3] @ drop i [1, 2, 3])
       \<or> r = - 1 \<and> t = 2 \<and> (\<exists>i k j l. i + j < length [1, 2, 3 :: u8]
            \<and> out = take (i + k) [1, 2, 3] @ take j (drop i [1, 2, 3]) @ take l (drop (i + j) [1, 2, 3]))"
    using libusb_timeout_sends_twice [OF lib s] by blast
  have "devlibusb_write slow_lib [1, 2, 3] libusb_sample = Inr (0, libusb_sample\<lparr>lu_lib := (2, [1, 2, 1, 2, 3])\<rparr>)"
    by (simp add: devlibusb_write_def slow_lib_def short_lib_def libusb_write_loop.simps)
  then have "r = 0" "w' = (2, [1, 2, 1, 2, 3])" using w'(1) by simp_all
  moreover have "out = [1, 2, 1, 2, 3]" "t = 1" using calculation w'(2,3) by simp_all
  ultimately show ?thesis using w'(1,4) by auto
qed

end
