(* ===== verification/DevProxy.thy ===== *)
theory DevProxy
  imports ProtoLink
begin

text \<open>
  The proxy device, \<open>dllCom/libcomm/devices/device_proxy.c\<close>: reads and writes are messages to a
  TCP server. The socket calls are arguments. An assertion of the file names a variable that does
  not exist, so it only compiles with \<open>NDEBUG\<close>: its assertions are not part of the model.
\<close>

section \<open>Messages\<close>

text \<open>A 64-bit little-endian system: \<open>unsigned long\<close> has eight bytes, and four of padding precede the last.\<close>

type_synonym ulong = "64 word"

record devproxy_header =
  hdr_SOF :: ulong
  hdr_code :: u32
  hdr_datalen :: ulong

abbreviation (input) DEVPROXY_HEADER_MAGIC :: ulong where "DEVPROXY_HEADER_MAGIC \<equiv> 0xCAFEBABE"
abbreviation (input) PROXY_CMD_WRITE :: u32 where "PROXY_CMD_WRITE \<equiv> 0"
abbreviation (input) PROXY_CMD_READ :: u32 where "PROXY_CMD_READ \<equiv> 1"
abbreviation (input) PROXY_REP_DONE :: u32 where "PROXY_REP_DONE \<equiv> 2"
abbreviation (input) PROXY_REP_NACK :: u32 where "PROXY_REP_NACK \<equiv> 3"
abbreviation (input) PROXY_REP_ERR :: u32 where "PROXY_REP_ERR \<equiv> 4"
abbreviation (input) sizeof_header :: nat where "sizeof_header \<equiv> 24"

definition header_bytes :: "devproxy_header \<Rightarrow> bytes" where
  "header_bytes h = le_bytes 8 (hdr_SOF h) @ le_bytes 4 (hdr_code h) @ replicate 4 0 @ le_bytes 8 (hdr_datalen h)"

definition bytes_header :: "bytes \<Rightarrow> devproxy_header" where
  "bytes_header bs = \<lparr>hdr_SOF = le_word (take 8 bs), hdr_code = le_word (take 4 (drop 8 bs)),
                      hdr_datalen = le_word (take 8 (drop 16 bs))\<rparr>"

lemma length_header_bytes [simp]: "length (header_bytes h) = 24"
  by (simp add: header_bytes_def)

lemma bytes_header_bytes [simp]: "bytes_header (header_bytes h) = h"
proof -
  have "take_bit 64 (w :: ulong) = w" "take_bit 32 (c :: u32) = c" for w c
    by (simp_all add: take_bit_word_eq_self)
  then show ?thesis by (simp add: bytes_header_def header_bytes_def le_word_bytes)
qed

section \<open>State and operations\<close>

record 'w sockets =
  sk_socket :: "'w \<Rightarrow> int \<times> 'w"
  sk_close :: "int \<Rightarrow> 'w \<Rightarrow> 'w"
  sk_pton :: "string \<Rightarrow> u32 option"
  sk_connect :: "int \<Rightarrow> u16 \<Rightarrow> u32 \<Rightarrow> 'w \<Rightarrow> int \<times> 'w"
  sk_nodelay :: "int \<Rightarrow> 'w \<Rightarrow> int \<times> 'w"
  sk_send :: "int \<Rightarrow> bytes \<Rightarrow> bool \<Rightarrow> 'w \<Rightarrow> int \<times> 'w"
  sk_recv :: "int \<Rightarrow> nat \<Rightarrow> 'w \<Rightarrow> int \<times> bytes \<times> 'w"

record 'w proxy_state =
  proxy_fd :: int
  proxy_net :: 'w

abbreviation (input) DEVPROXY_FD_INVALID :: int where "DEVPROXY_FD_INVALID \<equiv> - 1"

definition devproxy_close :: "'w sockets \<Rightarrow> 'w proxy_state \<Rightarrow> int \<times> 'w proxy_state" where
  "devproxy_close net s =
     (0, if 0 \<le> proxy_fd s
         then s\<lparr>proxy_net := sk_close net (proxy_fd s) (proxy_net s), proxy_fd := DEVPROXY_FD_INVALID\<rparr> else s)"

definition devproxy_destroy :: "'w sockets \<Rightarrow> 'w proxy_state \<Rightarrow> 'w proxy_state" where
  "devproxy_destroy net s = snd (devproxy_close net s)"

text \<open>
  \<open>strtok\<close> with the separator \<open>PROXY_URL_SEP\<close> on the memory from its position on: the token, if
  any, and the next position; it runs out of the memory when no terminator is in it.
\<close>

abbreviation (input) NUL :: char where "NUL \<equiv> CHR 0x00"

definition strtok :: "string \<Rightarrow> (string option \<times> string) outcome" where
  "strtok mem =
     (case dropWhile (\<lambda>c. c = CHR '':'') mem of
        [] \<Rightarrow> Inl Out_of_bounds
      | c # cs \<Rightarrow>
          if c = NUL then Inr (None, c # cs)
          else (case dropWhile (\<lambda>c. c \<noteq> CHR '':'' \<and> c \<noteq> NUL) (c # cs) of
                  [] \<Rightarrow> Inl Out_of_bounds
                | d # ds \<Rightarrow> Inr (Some (takeWhile (\<lambda>c. c \<noteq> CHR '':'' \<and> c \<noteq> NUL) (c # cs)),
                                if d = NUL then d # ds else ds)))"

text \<open>\<open>atoi\<close>: spaces, a sign, and the digits up to the first other character.\<close>

definition atoi_digits :: "string \<Rightarrow> int" where
  "atoi_digits s = foldl (\<lambda>n c. 10 * n + (of_char c - 48)) 0 (takeWhile (\<lambda>c. of_char c \<in> {48..57 :: int}) s)"

definition atoi :: "string \<Rightarrow> int" where
  "atoi s =
     (case dropWhile (\<lambda>c. of_char c \<in> {9, 10, 11, 12, 13, 32 :: int}) s of
        [] \<Rightarrow> 0
      | c # cs \<Rightarrow> if c = CHR ''-'' then - atoi_digits cs
                  else if c = CHR ''+'' then atoi_digits cs else atoi_digits (c # cs))"

definition devproxy_open :: "'w sockets \<Rightarrow> string \<Rightarrow> 'w proxy_state \<Rightarrow> (int \<times> 'w proxy_state) outcome" where
  "devproxy_open net szPath s =
     (case sk_socket net (proxy_net s) of
        (fd, w) \<Rightarrow>
          (let s1 = s\<lparr>proxy_fd := fd, proxy_net := w\<rparr> in
           if fd < 0 then Inr (1, s1)
           else
             (let szFields = take 25 (szPath @ replicate 25 NUL) in
              obind (strtok szFields) (\<lambda>(szIp, rest).
              obind (strtok rest) (\<lambda>(szPort, _).
              let usPort = (case szPort of None \<Rightarrow> 5000 | Some p \<Rightarrow> (of_int (atoi p) :: u16)) in
              case szIp of
                None \<Rightarrow> Inl Null_deref
              | Some ip \<Rightarrow>
                  (case sk_pton net ip of
                     None \<Rightarrow> Inr (- 1, s1)
                   | Some addr \<Rightarrow>
                       (case sk_connect net fd usPort addr w of
                          (r, w1) \<Rightarrow>
                            if r < 0 then Inr (- 1, s1\<lparr>proxy_net := w1\<rparr>)
                            else (case sk_nodelay net fd w1 of
                                    (_, w2) \<Rightarrow> Inr (0, s1\<lparr>proxy_net := w2\<rparr>)))))))))"

text \<open>
  The loops of \<open>devproxy_send\<close> and \<open>devproxy_recv\<close>: each round passes the whole buffer and its
  whole length again, as written. \<open>cnt\<close> is what the counter holds.
\<close>

function proxy_send_loop :: "'w sockets \<Rightarrow> int \<Rightarrow> bytes \<Rightarrow> bool \<Rightarrow> int \<Rightarrow> 'w \<Rightarrow> int \<times> 'w" where
  "proxy_send_loop net fd buffer msg_more cnt w =
     (case sk_send net fd buffer msg_more w of
        (ret, w1) \<Rightarrow>
          (let cnt' = (if 0 \<le> ret then cnt + ret else cnt) in
           if cnt' < int (length buffer) \<and> 0 < ret then proxy_send_loop net fd buffer msg_more cnt' w1
           else (if cnt' = int (length buffer) then 0 else - 1, w1)))"
  by pat_completeness auto

termination
  by (relation "measure (\<lambda>(net, fd, buffer, msg_more, cnt, w). nat (int (length buffer) - cnt))") auto

definition devproxy_send :: "'w sockets \<Rightarrow> int \<Rightarrow> bytes \<Rightarrow> bool \<Rightarrow> 'w \<Rightarrow> int \<times> 'w" where
  "devproxy_send net fd buffer msg_more w = proxy_send_loop net fd buffer msg_more 0 w"

text \<open>\<open>buffer\<close> is the content of the \<open>len\<close> bytes that are received into.\<close>

function proxy_recv_loop :: "'w sockets \<Rightarrow> int \<Rightarrow> bytes \<Rightarrow> int \<Rightarrow> 'w \<Rightarrow> int \<times> bytes \<times> 'w" where
  "proxy_recv_loop net fd buffer cnt w =
     (case sk_recv net fd (length buffer) w of
        (ret, bs, w1) \<Rightarrow>
          (let buffer' = take (length buffer) (bs @ drop (length bs) buffer);
               cnt' = (if 0 \<le> ret then cnt + ret else cnt) in
           if cnt' < int (length buffer) \<and> 0 < ret then proxy_recv_loop net fd buffer' cnt' w1
           else (if cnt' = int (length buffer) then 0 else - 1, buffer', w1)))"
  by pat_completeness auto

termination
  by (relation "measure (\<lambda>(net, fd, buffer, cnt, w). nat (int (length buffer) - cnt))") auto

definition devproxy_recv :: "'w sockets \<Rightarrow> int \<Rightarrow> bytes \<Rightarrow> 'w \<Rightarrow> int \<times> bytes \<times> 'w" where
  "devproxy_recv net fd buffer w = proxy_recv_loop net fd buffer 0 w"

definition devproxy_headerValidate :: "devproxy_header \<Rightarrow> ulong \<Rightarrow> int" where
  "devproxy_headerValidate pHeader maxlen =
     (if hdr_SOF pHeader \<noteq> DEVPROXY_HEADER_MAGIC \<or> maxlen < hdr_datalen pHeader then - 1
      else if hdr_code pHeader \<noteq> PROXY_REP_DONE then - 1
      else 0)"

text \<open>The caller's buffer has \<open>len\<close> bytes; those beyond the reply keep what they held.\<close>

definition devproxy_read :: "'w sockets \<Rightarrow> u8 \<Rightarrow> int \<Rightarrow> 'w proxy_state \<Rightarrow> int \<times> bytes \<times> 'w proxy_state" where
  "devproxy_read net len tout_ms s =
     (if proxy_fd s = DEVPROXY_FD_INVALID then (- 1, [], s)
      else
        (let header = \<lparr>hdr_SOF = DEVPROXY_HEADER_MAGIC, hdr_code = PROXY_CMD_READ, hdr_datalen = ucast len\<rparr>;
             (_, w1) = devproxy_send net (proxy_fd s) (header_bytes header) False (proxy_net s);
             (r, hb, w2) = devproxy_recv net (proxy_fd s) (replicate sizeof_header 0) w1;
             reply = bytes_header hb in
         if r \<noteq> 0 then (- 1, [], s\<lparr>proxy_net := w2\<rparr>)
         else if devproxy_headerValidate reply (ucast len) \<noteq> 0 then (- 1, [], s\<lparr>proxy_net := w2\<rparr>)
         else
           (let (r', bs, w3) = devproxy_recv net (proxy_fd s) (replicate (unat (hdr_datalen reply)) 0) w2 in
            if r' \<noteq> 0 then (- 1, bs, s\<lparr>proxy_net := w3\<rparr>)
            else (int (unat (hdr_datalen reply)), bs, s\<lparr>proxy_net := w3\<rparr>))))"

definition devproxy_write :: "'w sockets \<Rightarrow> bytes \<Rightarrow> 'w proxy_state \<Rightarrow> int \<times> 'w proxy_state" where
  "devproxy_write net buffer s =
     (if proxy_fd s = DEVPROXY_FD_INVALID then (- 1, s)
      else
        (let header = \<lparr>hdr_SOF = DEVPROXY_HEADER_MAGIC, hdr_code = PROXY_CMD_WRITE,
                       hdr_datalen = of_nat (length buffer)\<rparr>;
             (_, w1) = devproxy_send net (proxy_fd s) (header_bytes header) True (proxy_net s);
             (_, w2) = devproxy_send net (proxy_fd s) buffer False w1;
             (r, hb, w3) = devproxy_recv net (proxy_fd s) (replicate sizeof_header 0) w2 in
         if r \<noteq> 0 then (- 1, s\<lparr>proxy_net := w3\<rparr>)
         else if devproxy_headerValidate (bytes_header hb) 0 \<noteq> 0 then (- 1, s\<lparr>proxy_net := w3\<rparr>)
         else (0, s\<lparr>proxy_net := w3\<rparr>)))"

definition devproxy_init :: "'w \<Rightarrow> 'w proxy_state" where
  "devproxy_init w = \<lparr>proxy_fd = DEVPROXY_FD_INVALID, proxy_net = w\<rparr>"

definition devproxy_create :: "bool \<Rightarrow> bool \<Rightarrow> 'w \<Rightarrow> 'w proxy_state outcome" where
  "devproxy_create malloc_dev malloc_user w =
     (if \<not> malloc_dev then Inl Null_deref
      else if \<not> malloc_user then Inl Null_deref
      else Inr (devproxy_init w))"

definition proxy_dev :: "'w sockets \<Rightarrow> 'w proxy_state iodevice" where
  "proxy_dev net =
     \<lparr>dev_open = devproxy_open net, dev_close = \<lambda>s. Inr (devproxy_close net s),
      dev_destroy = \<lambda>s. Inr (devproxy_destroy net s),
      dev_read = \<lambda>n t s. Inr (devproxy_read net n t s), dev_write = \<lambda>bs s. Inr (devproxy_write net bs s)\<rparr>"

declare proxy_send_loop.simps [simp del] proxy_recv_loop.simps [simp del]

section \<open>Properties\<close>

text \<open>A socket that takes at most \<open>c\<close> bytes of every send; \<open>got\<close> is what it was handed.\<close>

definition sends_up_to :: "'w sockets \<Rightarrow> nat \<Rightarrow> ('w \<Rightarrow> bytes) \<Rightarrow> bool" where
  "sends_up_to net c got \<longleftrightarrow> (\<forall>fd bs m w. \<exists>w'. sk_send net fd bs m w = (int (min c (length bs)), w')
      \<and> got w' = got w @ take c bs)"

text \<open>The number of rounds of \<open>c\<close> bytes until \<open>len\<close> are counted.\<close>

definition send_rounds :: "nat \<Rightarrow> nat \<Rightarrow> nat" where
  "send_rounds c len = (len + c - 1) div c"

lemma send_rounds_step:
  assumes "0 < c" "j * c < len"
  shows "j < send_rounds c len" "Suc j * c < len \<longleftrightarrow> Suc j < send_rounds c len"
proof -
  have le: "n \<le> send_rounds c len \<longleftrightarrow> n * c < len + c" for n
    unfolding send_rounds_def using assms(1) by (subst less_eq_div_iff_mult_less_eq) auto
  show "j < send_rounds c len" using le [of "Suc j"] assms(2) by simp
  show "Suc j * c < len \<longleftrightarrow> Suc j < send_rounds c len" using le [of "Suc (Suc j)"] by auto
qed

lemma send_loop_rounds:
  assumes net: "sends_up_to net c got" and c: "0 < c" "c < length bs"
  shows "j * c < length bs \<Longrightarrow> \<exists>w'. proxy_send_loop net fd bs m (int (j * c)) w
       = (if send_rounds c (length bs) * c = length bs then 0 else - 1, w')
     \<and> got w' = got w @ concat (replicate (send_rounds c (length bs) - j) (take c bs))"
proof (induction "send_rounds c (length bs) - j" arbitrary: j w)
  case 0
  then show ?case using send_rounds_step(1) [OF c(1) 0(2)] by simp
next
  case (Suc k)
  obtain w1 where w1: "sk_send net fd bs m w = (int c, w1)" "got w1 = got w @ take c bs"
    using net c(2) unfolding sends_up_to_def by (metis min.absorb1 less_imp_le)
  have tot: "int (j * c) + int c = int (Suc j * c)" by simp
  show ?case
  proof (cases "Suc j * c < length bs")
    case True
    have "k = send_rounds c (length bs) - Suc j" using Suc.hyps(2) by simp
    from Suc.hyps(1) [OF this True, of w1]
    obtain w' where w': "proxy_send_loop net fd bs m (int (Suc j * c)) w1
          = (if send_rounds c (length bs) * c = length bs then 0 else - 1, w')"
        "got w' = got w1 @ concat (replicate (send_rounds c (length bs) - Suc j) (take c bs))" by blast
    have "send_rounds c (length bs) - j = Suc (send_rounds c (length bs) - Suc j)"
      using send_rounds_step(1) [OF c(1) Suc.prems] by simp
    then show ?thesis
      using w1 w' True c(1) unfolding proxy_send_loop.simps [of net fd bs m "int (j * c)"]
      by (simp add: Let_def tot del: mult_Suc of_nat_mult of_nat_Suc)
  next
    case False
    then have r: "send_rounds c (length bs) = Suc j"
      using send_rounds_step [OF c(1) Suc.prems] by linarith
    show ?thesis
      using w1 False c(1) unfolding proxy_send_loop.simps [of net fd bs m "int (j * c)"]
      by (simp add: Let_def tot r del: mult_Suc of_nat_mult of_nat_Suc)
  qed
qed

text \<open>C40: over a socket that takes fewer bytes than a message has, the message that is sent is
  not the message that was to be sent: its first bytes are sent again and again until their
  number is reached, and success is reported when the number comes out even.\<close>

theorem proxy_send_repeats_start:
  assumes "sends_up_to net c got" "0 < c" "c < length bs"
  shows "\<exists>w'. devproxy_send net fd bs m w = (if c dvd length bs then 0 else - 1, w')
     \<and> got w' = got w @ concat (replicate (send_rounds c (length bs)) (take c bs))"
proof -
  have "send_rounds c (length bs) * c = length bs \<longleftrightarrow> c dvd length bs"
  proof
    assume "c dvd length bs"
    then obtain k where k: "length bs = c * k" by blast
    then have "send_rounds c (length bs) = k"
      using assms(2) by (simp add: send_rounds_def div_nat_eqI algebra_simps)
    then show "send_rounds c (length bs) * c = length bs" using k by simp
  qed (metis dvd_triv_right)
  moreover have "0 * c < length bs" using assms(3) by (cases bs) auto
  from send_loop_rounds [OF assms this, of fd m w] obtain w' where "proxy_send_loop net fd bs m 0 w
       = (if send_rounds c (length bs) * c = length bs then 0 else - 1, w')"
     "got w' = got w @ concat (replicate (send_rounds c (length bs)) (take c bs))" by auto
  ultimately show ?thesis by (simp add: devproxy_send_def)
qed

definition slow_net :: "nat \<Rightarrow> bytes sockets" where
  "slow_net c = \<lparr>sk_socket = \<lambda>w. (3, w), sk_close = \<lambda>fd w. w, sk_pton = \<lambda>s. Some 0x7F000001,
     sk_connect = \<lambda>fd p a w. (0, w), sk_nodelay = \<lambda>fd w. (0, w),
     sk_send = \<lambda>fd bs m w. (int (min c (length bs)), w @ take c bs), sk_recv = \<lambda>fd n w. (0, [], w)\<rparr>"

lemma proxy_send_repeats_start_witness:
  "\<exists>w'. devproxy_send (slow_net 2) 3 [1, 2, 3, 4] False [] = (0, w') \<and> w' = [1, 2, 1, 2]"
proof -
  have "sends_up_to (slow_net 2) 2 (\<lambda>w. w)" by (simp add: sends_up_to_def slow_net_def)
  moreover have "send_rounds 2 (length [1, 2, 3, 4 :: u8]) = 2" by (simp add: send_rounds_def)
  moreover have "concat (replicate 2 [1, 2]) = [1, 2, 1, 2 :: u8]" by (simp add: numeral_2_eq_2)
  ultimately show ?thesis
    using proxy_send_repeats_start [of "slow_net 2" 2 "\<lambda>w. w" "[1, 2, 3, 4]" 3 False "[]"] by auto
qed

text \<open>
  A connection that takes whole messages and delivers every receive whole: \<open>coming\<close> is what
  the server will have sent.
\<close>

definition whole_messages :: "'w sockets \<Rightarrow> ('w \<Rightarrow> bytes) \<Rightarrow> bool" where
  "whole_messages net coming \<longleftrightarrow>
     (\<forall>fd bs m w. \<exists>w'. sk_send net fd bs m w = (int (length bs), w') \<and> coming w' = coming w)
   \<and> (\<forall>fd n w. n \<le> length (coming w) \<longrightarrow>
        (\<exists>w'. sk_recv net fd n w = (int n, take n (coming w), w') \<and> coming w' = drop n (coming w)))"

lemma whole_send:
  assumes "whole_messages net coming"
  shows "\<exists>w'. devproxy_send net fd bs m w = (0, w') \<and> coming w' = coming w"
proof -
  obtain w' where "sk_send net fd bs m w = (int (length bs), w')" "coming w' = coming w"
    using assms unfolding whole_messages_def by blast
  then show ?thesis by (simp add: devproxy_send_def proxy_send_loop.simps [of net fd bs m 0 w] Let_def)
qed

lemma whole_recv:
  assumes "whole_messages net coming" "n \<le> length (coming w)"
  shows "\<exists>w'. devproxy_recv net fd (replicate n x) w = (0, take n (coming w), w') \<and> coming w' = drop n (coming w)"
proof -
  obtain w' where "sk_recv net fd n w = (int n, take n (coming w), w')" "coming w' = drop n (coming w)"
    using assms unfolding whole_messages_def by blast
  then show ?thesis
    using assms(2) by (simp add: devproxy_recv_def proxy_recv_loop.simps [of net fd "replicate n x" 0 w] Let_def)
qed

text \<open>C39: over a connection that carries whole messages (every send takes all it is given, and every receive for
  which enough is coming delivers all it asks for), with a descriptor above zero, a read returns the data of the server's
  reply when the reply has the magic number, says the operation was done and announces at least one byte and no more
  than were asked for. When one of the first two or the upper bound fails, so does the read, and the announced data
  stays in the connection, to be taken for the next header. (A reply that is done and announces no data leads to a receive
  of length zero, which the assertions of \<open>devproxy_recv\<close> rule out, as they do the descriptor zero: nothing is said of
  them.)\<close>

theorem proxy_read_returns_reply:
  assumes net: "whole_messages net coming" and fd: "0 < proxy_fd s"
    and reply: "coming (proxy_net s) = header_bytes h @ data @ rest" "unat (hdr_datalen h) = length data"
  shows "(hdr_SOF h = DEVPROXY_HEADER_MAGIC \<and> hdr_code h = PROXY_REP_DONE \<and> length data \<le> unat len \<and> data \<noteq> [] \<longrightarrow>
        (\<exists>w. devproxy_read net len t s = (int (length data), data, s\<lparr>proxy_net := w\<rparr>) \<and> coming w = rest))
     \<and> (hdr_SOF h \<noteq> DEVPROXY_HEADER_MAGIC \<or> hdr_code h \<noteq> PROXY_REP_DONE \<or> unat len < length data \<longrightarrow>
        (\<exists>w. devproxy_read net len t s = (- 1, [], s\<lparr>proxy_net := w\<rparr>) \<and> coming w = data @ rest))"
proof -
  define hd' where "hd' = \<lparr>hdr_SOF = DEVPROXY_HEADER_MAGIC, hdr_code = PROXY_CMD_READ, hdr_datalen = ucast len\<rparr>"
  obtain w1 where w1: "devproxy_send net (proxy_fd s) (header_bytes hd') False (proxy_net s) = (0, w1)"
      "coming w1 = header_bytes h @ data @ rest"
    using whole_send [OF net] reply by metis
  have "24 \<le> length (coming w1)" using w1(2) by simp
  from whole_recv [OF net this, of "proxy_fd s" 0] w1(2)
  obtain w2 where w2: "devproxy_recv net (proxy_fd s) (replicate 24 0) w1 = (0, header_bytes h, w2)"
      "coming w2 = data @ rest" by auto
  have "length data \<le> length (coming w2)" using w2(2) by simp
  from whole_recv [OF net this, of "proxy_fd s" 0] w2(2)
  obtain w3 where w3: "devproxy_recv net (proxy_fd s) (replicate (length data) 0) w2 = (0, data, w3)"
      "coming w3 = rest" by auto
  have le: "ucast len < hdr_datalen h \<longleftrightarrow> unat len < length data"
    using reply(2) by (simp add: word_less_nat_alt unat_ucast_u8_u64 not_le)
  note hd'_def [symmetric, simp]
  show ?thesis
  proof (intro conjI impI)
    assume "hdr_SOF h = DEVPROXY_HEADER_MAGIC \<and> hdr_code h = PROXY_REP_DONE \<and> length data \<le> unat len \<and> data \<noteq> []"
    then show "\<exists>w. devproxy_read net len t s = (int (length data), data, s\<lparr>proxy_net := w\<rparr>) \<and> coming w = rest"
      using fd w1 w2 w3 le reply(2)
      by (intro exI [of _ w3]) (simp add: devproxy_read_def devproxy_headerValidate_def Let_def)
  next
    assume "hdr_SOF h \<noteq> DEVPROXY_HEADER_MAGIC \<or> hdr_code h \<noteq> PROXY_REP_DONE \<or> unat len < length data"
    then show "\<exists>w. devproxy_read net len t s = (- 1, [], s\<lparr>proxy_net := w\<rparr>) \<and> coming w = data @ rest"
      using fd w1 w2 le
      by (intro exI [of _ w2]) (auto simp: devproxy_read_def devproxy_headerValidate_def Let_def)
  qed
qed

definition quick_net :: "bytes sockets" where
  "quick_net = \<lparr>sk_socket = \<lambda>w. (3, w), sk_close = \<lambda>fd w. w, sk_pton = \<lambda>s. Some 0x7F000001,
     sk_connect = \<lambda>fd p a w. (0, w), sk_nodelay = \<lambda>fd w. (0, w),
     sk_send = \<lambda>fd bs m w. (int (length bs), w), sk_recv = \<lambda>fd n w. (int (min n (length w)), take n w, drop n w)\<rparr>"

lemma proxy_read_returns_reply_witness:
  "devproxy_read quick_net 5 0 \<lparr>proxy_fd = 3, proxy_net =
        header_bytes \<lparr>hdr_SOF = DEVPROXY_HEADER_MAGIC, hdr_code = PROXY_REP_DONE, hdr_datalen = 2\<rparr> @ [7, 8] @ []\<rparr>
     = (2, [7, 8], \<lparr>proxy_fd = 3, proxy_net = []\<rparr>)
   \<and> devproxy_read quick_net 1 0 \<lparr>proxy_fd = 3, proxy_net =
        header_bytes \<lparr>hdr_SOF = DEVPROXY_HEADER_MAGIC, hdr_code = PROXY_REP_DONE, hdr_datalen = 2\<rparr> @ [7, 8] @ []\<rparr>
     = (- 1, [], \<lparr>proxy_fd = 3, proxy_net = [7, 8]\<rparr>)"
proof -
  let ?h = "\<lparr>hdr_SOF = DEVPROXY_HEADER_MAGIC, hdr_code = PROXY_REP_DONE, hdr_datalen = 2\<rparr>"
  let ?s = "\<lparr>proxy_fd = 3, proxy_net = header_bytes ?h @ [7, 8] @ []\<rparr>"
  have net: "whole_messages quick_net (\<lambda>w. w)" by (simp add: whole_messages_def quick_net_def)
  show ?thesis
    using proxy_read_returns_reply [OF net, of ?s ?h "[7, 8]" "[]" 5 0]
      proxy_read_returns_reply [OF net, of ?s ?h "[7, 8]" "[]" 1 0] by auto
qed

section \<open>Bounds\<close>

lemma length_recv_loop: "length (fst (snd (proxy_recv_loop net fd buffer cnt w))) = length buffer"
proof (induction net fd buffer cnt w rule: proxy_recv_loop.induct)
  case (1 net fd buffer cnt w)
  then show ?case
    by (subst proxy_recv_loop.simps) (auto simp: Let_def split: prod.splits)
qed

interpretation proxy: rx_bounded "proxy_dev net" "\<lambda>_. True" for net
proof
  fix s t and n :: u8
  have "\<exists>r bs s'. devproxy_read net n t s = (r, bs, s') \<and> r \<le> int (unat n) \<and> length bs \<le> unat n"
  proof -
    define hb where "hb = \<lparr>hdr_SOF = DEVPROXY_HEADER_MAGIC, hdr_code = PROXY_CMD_READ, hdr_datalen = ucast n\<rparr>"
    obtain r0 w1 where 1: "devproxy_send net (proxy_fd s) (header_bytes hb) False (proxy_net s) = (r0, w1)"
      by (cases "devproxy_send net (proxy_fd s) (header_bytes hb) False (proxy_net s)")
    obtain r1 b1 w2 where 2: "devproxy_recv net (proxy_fd s) (replicate 24 0) w1 = (r1, b1, w2)"
      by (cases "devproxy_recv net (proxy_fd s) (replicate 24 0) w1")
    define k where "k = unat (hdr_datalen (bytes_header b1))"
    obtain r2 b2 w3 where 3: "devproxy_recv net (proxy_fd s) (replicate k 0) w2 = (r2, b2, w3)"
      by (cases "devproxy_recv net (proxy_fd s) (replicate k 0) w2")
    have b2: "length b2 = k"
      using length_recv_loop [of net "proxy_fd s" "replicate k 0" 0 w2] 3 by (simp add: devproxy_recv_def)
    have k: "k \<le> unat n" if "devproxy_headerValidate (bytes_header b1) (ucast n) = 0"
      using that by (simp add: devproxy_headerValidate_def k_def word_less_nat_alt unat_ucast_u8_u64 not_less
          split: if_splits)
    note hb_def [symmetric, simp] k_def [symmetric, simp]
    show ?thesis
      using 1 2 3 b2 k by (auto simp: devproxy_read_def Let_def)
  qed
  then show "\<exists>r bs s'. dev_read (proxy_dev net) n t s = Inr (r, bs, s') \<and> r \<le> int (unat n)
      \<and> length bs \<le> unat n \<and> True"
    by (auto simp: proxy_dev_def)
qed

end
