(* ===== verification/Devices.thy ===== *)
theory Devices
  imports EmulSlave DevStm32 DevSerial DevUsbdev DevLibusb DevProxy
begin

text \<open>
  The choice of a device by its number, \<open>dllCom/libcomm/proto_iodevice.c\<close>, and what the protocol
  may rely on when it reads a frame over each of the system devices.
\<close>

datatype proto_iodev_devices =
  PROTO_DEV_EMULSLAVE | PROTO_DEV_SERIAL | PROTO_DEV_USBDEV | PROTO_DEV_LIBUSB | PROTO_DEV_PROXY | PROTO_DEV_STM32

text \<open>
  Which of the constructors is called, if any; \<open>stm32\<close> says whether the library is compiled for
  the board. A number out of the enumeration gives a null pointer.
\<close>

definition device_create :: "bool \<Rightarrow> u32 \<Rightarrow> proto_iodev_devices option" where
  "device_create stm32 ty =
     (if ty = 0 then Some PROTO_DEV_EMULSLAVE
      else if ty = 1 then Some PROTO_DEV_SERIAL
      else if ty = 2 then Some PROTO_DEV_USBDEV
      else if ty = 3 then Some PROTO_DEV_LIBUSB
      else if ty = 4 then Some PROTO_DEV_PROXY
      else if ty = 5 then (if stm32 then Some PROTO_DEV_STM32 else None)
      else None)"

section \<open>Reading a frame over the system devices\<close>

definition usbdev_dev :: "'w usb_ioctl \<Rightarrow> 'w usbdev_state iodevice" where
  "usbdev_dev ioctl =
     \<lparr>dev_open = \<lambda>p s. Inr (devusbdev_open p s), dev_close = \<lambda>s. Inr (devusbdev_close s),
      dev_destroy = \<lambda>s. Inr (devusbdev_destroy s),
      dev_read = \<lambda>n t s. Inr (devusbdev_read ioctl n t s), dev_write = \<lambda>bs s. Inr (devusbdev_write ioctl bs s)\<rparr>"

definition libusb_dev :: "'w libusb \<Rightarrow> 'w libusb_state iodevice" where
  "libusb_dev lib =
     \<lparr>dev_open = devlibusb_open lib, dev_close = \<lambda>s. Inr (devlibusb_close lib s),
      dev_destroy = \<lambda>s. Inr (devlibusb_destroy lib s),
      dev_read = devlibusb_read lib, dev_write = devlibusb_write lib\<rparr>"

text \<open>What each system promises of a read: it stores and reports at most what it was asked for.\<close>

definition serial_reads :: "'w serial_os \<Rightarrow> bool" where
  "serial_reads os \<longleftrightarrow> (\<forall>fd n w r bs w'. os_read os fd n w = (r, bs, w') \<longrightarrow> r \<le> int (unat n) \<and> length bs \<le> unat n)"

definition ioctl_reads :: "'w usb_ioctl \<Rightarrow> bool" where
  "ioctl_reads ioctl \<longleftrightarrow> (\<forall>fd req x w. length (fst (snd (ioctl fd req x [] w))) \<le> unat (xfer_len x))"

definition libusb_reads :: "'w libusb \<Rightarrow> bool" where
  "libusb_reads lib \<longleftrightarrow> (\<forall>h ep n w r bs w'. lib_bulk_in lib h ep (int n) w = (r, bs, w') \<longrightarrow> length bs \<le> n)"

interpretation serial: rx_bounded "serial_dev os" "\<lambda>_. serial_reads os" for os :: "'w serial_os"
proof
  fix s :: "'w serial_state" and t and n :: u8
  assume r: "serial_reads os"
  obtain ret bs w where o: "os_read os (serial_fd s) n (serial_os s) = (ret, bs, w)"
    by (cases "os_read os (serial_fd s) n (serial_os s)")
  have "ret \<le> int (unat n) \<and> length bs \<le> unat n" using r o unfolding serial_reads_def by blast
  then show "\<exists>r bs s'. dev_read (serial_dev os) n t s = Inr (r, bs, s') \<and> r \<le> int (unat n)
      \<and> length bs \<le> unat n \<and> serial_reads os"
    using r o by (auto simp: serial_dev_def devserial_read_def)
qed

interpretation usbdev: rx_bounded "usbdev_dev ioctl" "\<lambda>_. ioctl_reads ioctl" for ioctl :: "'w usb_ioctl"
proof
  fix s :: "'w usbdev_state" and t and n :: u8
  assume r: "ioctl_reads ioctl"
  have "unat (ucast n :: u32) = unat n"
    by (simp add: unsigned_ucast_eq take_bit_nat_eq_self_iff) (use unat_u8_less [of n] in linarith)
  moreover obtain res bs w where o: "ioctl (usbdev_fd s) request_ctrltransfer
      \<lparr>xfer_ep = of_int (usbdev_ep_in s), xfer_len = ucast n, xfer_timeout = 1000\<rparr> [] (usbdev_os s) = (res, bs, w)"
    by (cases "ioctl (usbdev_fd s) request_ctrltransfer
      \<lparr>xfer_ep = of_int (usbdev_ep_in s), xfer_len = ucast n, xfer_timeout = 1000\<rparr> [] (usbdev_os s)")
  ultimately have "length bs \<le> unat n"
    using r unfolding ioctl_reads_def by (metis fst_conv snd_conv usbdevfs_bulktransfer.select_convs(2))
  then show "\<exists>r bs s'. dev_read (usbdev_dev ioctl) n t s = Inr (r, bs, s') \<and> r \<le> int (unat n)
      \<and> length bs \<le> unat n \<and> ioctl_reads ioctl"
    using r o by (auto simp: usbdev_dev_def devusbdev_read_def)
qed

text \<open>The libusb device must have been opened: it passes its handle on without looking at it.\<close>

interpretation libusb: rx_bounded "libusb_dev lib" "\<lambda>s. libusb_reads lib \<and> lu_devh s \<noteq> None" for lib :: "'w libusb"
proof
  fix s :: "'w libusb_state" and t and n :: u8
  assume r: "libusb_reads lib \<and> lu_devh s \<noteq> None"
  then obtain h where h: "lu_devh s = Some h" by auto
  obtain res bs w where t: "lib_bulk_in lib h (of_int (lu_ep_in s)) (int (unat n)) (lu_lib s) = (res, bs, w)"
    by (cases "lib_bulk_in lib h (of_int (lu_ep_in s)) (int (unat n)) (lu_lib s)")
  have "length bs \<le> unat n" using r t unfolding libusb_reads_def by blast
  then show "\<exists>r bs s'. dev_read (libusb_dev lib) n t s = Inr (r, bs, s') \<and> r \<le> int (unat n)
      \<and> length bs \<le> unat n \<and> (libusb_reads lib \<and> lu_devh s' \<noteq> None)"
    using r h t by (auto simp: libusb_dev_def devlibusb_read_def Let_def)
qed

text \<open>Reading a frame over the serial, usbfs, libusb (once opened) and proxy devices never
  aborts and never leaves the frame or the local buffer, whatever bytes, counts and errors the
  system, or the server behind the proxy, comes up with, if the system stores and reports at
  most what it was asked for.\<close>

theorem read_frame_within_bounds:
  assumes "unat (priv_nbBytes h) \<le> 5"
    and "serial_reads os" "ioctl_reads ioctl" "libusb_reads lib" "lu_devh lu \<noteq> None"
  shows "(\<exists>st h' s'. proto_readFrame \<lparr>priv_callback = None, priv_iodevice = Some (serial_dev os)\<rparr> h t se
            = Inr (st, h', s') \<and> unat (priv_nbBytes h') \<le> 5)
    \<and> (\<exists>st h' s'. proto_readFrame \<lparr>priv_callback = None, priv_iodevice = Some (usbdev_dev ioctl)\<rparr> h t us
            = Inr (st, h', s') \<and> unat (priv_nbBytes h') \<le> 5)
    \<and> (\<exists>st h' s'. proto_readFrame \<lparr>priv_callback = None, priv_iodevice = Some (libusb_dev lib)\<rparr> h t lu
            = Inr (st, h', s') \<and> unat (priv_nbBytes h') \<le> 5)
    \<and> (\<exists>st h' s'. proto_readFrame \<lparr>priv_callback = None, priv_iodevice = Some (proxy_dev net)\<rparr> h t px
            = Inr (st, h', s') \<and> unat (priv_nbBytes h') \<le> 5)"
proof (intro conjI)
  show "\<exists>st h' s'. proto_readFrame \<lparr>priv_callback = None, priv_iodevice = Some (serial_dev os)\<rparr> h t se
            = Inr (st, h', s') \<and> unat (priv_nbBytes h') \<le> 5"
    using serial.readFrame_bounded [OF _ assms(2,1), of "\<lparr>priv_callback = None, priv_iodevice = Some (serial_dev os)\<rparr>"]
    by fastforce
  show "\<exists>st h' s'. proto_readFrame \<lparr>priv_callback = None, priv_iodevice = Some (usbdev_dev ioctl)\<rparr> h t us
            = Inr (st, h', s') \<and> unat (priv_nbBytes h') \<le> 5"
    using usbdev.readFrame_bounded [OF _ assms(3,1), of "\<lparr>priv_callback = None, priv_iodevice = Some (usbdev_dev ioctl)\<rparr>"]
    by fastforce
  show "\<exists>st h' s'. proto_readFrame \<lparr>priv_callback = None, priv_iodevice = Some (libusb_dev lib)\<rparr> h t lu
            = Inr (st, h', s') \<and> unat (priv_nbBytes h') \<le> 5"
    using libusb.readFrame_bounded [OF _ conjI [OF assms(4,5)] assms(1),
        of "\<lparr>priv_callback = None, priv_iodevice = Some (libusb_dev lib)\<rparr>"]
    by fastforce
  show "\<exists>st h' s'. proto_readFrame \<lparr>priv_callback = None, priv_iodevice = Some (proxy_dev net)\<rparr> h t px
            = Inr (st, h', s') \<and> unat (priv_nbBytes h') \<le> 5"
    using proxy.readFrame_bounded [OF _ TrueI assms(1), of "\<lparr>priv_callback = None, priv_iodevice = Some (proxy_dev net)\<rparr>"]
    by fastforce
qed

lemma read_frame_within_bounds_witness:
  "\<exists>st h' s'. proto_readFrame \<lparr>priv_callback = None, priv_iodevice = Some (serial_dev short_os)\<rparr> proto_init 0
        \<lparr>serial_fd = 3, serial_flags = 0, serial_os = []\<rparr> = Inr (st, h', s') \<and> unat (priv_nbBytes h') \<le> 5"
proof -
  have "serial_reads short_os" by (simp add: serial_reads_def short_os_def)
  moreover have "ioctl_reads refuse_all" by (simp add: ioctl_reads_def refuse_all_def)
  moreover have "libusb_reads short_lib" by (simp add: libusb_reads_def short_lib_def)
  moreover have "unat (priv_nbBytes proto_init) \<le> 5" by (simp add: proto_init_def)
  ultimately show ?thesis
    using read_frame_within_bounds [of proto_init short_os refuse_all short_lib libusb_sample 0
        "\<lparr>serial_fd = 3, serial_flags = 0, serial_os = []\<rparr>", THEN conjunct1]
    by simp
qed

end
