(* ===== verification/UsbHal.thy ===== *)
theory UsbHal
  imports Prelude
begin

text \<open>
  The part of the microcontroller's USB driver that the device library calls, and the part of its
  interrupt handler that moves the bytes: \<open>stm32f4xx_hal_pcd.c\<close> and \<open>stm32f4xx_ll_usb.c\<close> under
  \<open>TestUSBTerminal/Drivers/STM32F4xx_HAL_Driver/Src\<close>. The registers of the peripheral are memory
  cells that hold what was last written to them; a flag that the driver polls is a function from
  the number of the reading to what the hardware gives. The transfers use no DMA, as
  \<open>usbd_conf.c\<close> configures them (\<open>Init.dma_enable = DISABLE\<close>), so the DMA branches are left out.
\<close>

section \<open>Objects and pointers\<close>

text \<open>
  The driver keeps addresses of the library's objects. A pointer is null or an offset into one of
  these objects; the buffers of the application are taken by their content, except the CDC
  buffers, which the library itself writes.
\<close>

datatype usb_obj =
    USBD_FS_DeviceDesc | USBD_LangIDDesc | USBD_StrDesc
  | USBD_CDC_CfgHSDesc | USBD_CDC_CfgFSDesc | USBD_CDC_OtherSpeedCfgDesc | USBD_CDC_DeviceQualifierDesc
  | Ep_in_status nat | Ep_out_status nat
  | Dev_config | Dev_default_config | Dev_config_status
  | Ifalt | Request | Cdc_data | UserRxBufferFS | UserTxBufferFS
  | App_buffer bytes

type_synonym usb_ptr = "(usb_obj \<times> nat) option"

text \<open>Reading \<open>n\<close> bytes behind a pointer.\<close>

type_synonym usb_rd = "usb_ptr \<Rightarrow> nat \<Rightarrow> bytes outcome"

definition ptr_add :: "usb_ptr \<Rightarrow> nat \<Rightarrow> usb_ptr" where
  "ptr_add p n = (case p of None \<Rightarrow> None | Some (obj, off) \<Rightarrow> Some (obj, off + n))"

lemma ptr_add_simps [simp]:
  "ptr_add None n = None" "ptr_add (Some (obj, off)) n = Some (obj, off + n)"
  by (simp_all add: ptr_add_def)

section \<open>Registers and handles\<close>

datatype hal_status = HAL_OK | HAL_ERROR | HAL_BUSY | HAL_TIMEOUT

datatype pcd_state = HAL_PCD_STATE_RESET | HAL_PCD_STATE_READY | HAL_PCD_STATE_ERROR
  | HAL_PCD_STATE_BUSY | HAL_PCD_STATE_TIMEOUT

text \<open>The flags that are polled, and where.\<close>

datatype poll_site = Poll_DIEPINT nat | Poll_DOEPINT nat | Poll_TXFFLSH | Poll_RXFFLSH | Poll_AHBIDL | Poll_CSRST

record usb_otg =
  DIEPCTL :: "nat \<Rightarrow> u32"
  DIEPTSIZ :: "nat \<Rightarrow> u32"
  DOEPCTL :: "nat \<Rightarrow> u32"
  DOEPTSIZ :: "nat \<Rightarrow> u32"
  DIEPINT :: "nat \<Rightarrow> u32"
  DOEPINT :: "nat \<Rightarrow> u32"
  DFIFO :: "nat \<Rightarrow> bytes list"   \<comment> \<open>the packets written to each transmit FIFO, oldest first\<close>
  DAINT :: u32
  DAINTMSK :: u32
  DEACHMSK :: u32
  DIEPMSK :: u32
  DOEPMSK :: u32
  DIEPEMPMSK :: u32
  DCFG :: u32
  DCTL :: u32
  DSTS :: u32
  GAHBCFG :: u32
  GUSBCFG :: u32
  GCCFG :: u32
  GINTMSK :: u32
  PCGCCTL :: u32
  DTHRCTL :: u32
  DINEP1MSK :: u32
  DOUTEP1MSK :: u32
  GRSTCTL :: u32
  GRXFSIZ :: u32
  DIEPTXF0 :: u32
  DIEPTXF :: "nat \<Rightarrow> u32"
  polled :: "poll_site \<Rightarrow> nat \<Rightarrow> bool"
  SystemCoreClock :: u32   \<comment> \<open>the global of that name, which \<open>HAL_RCC_GetHCLKFreq\<close> returns\<close>

record usb_ep =
  ep_num :: u8
  ep_is_in :: u8
  ep_is_stall :: u8
  ep_type :: u8
  ep_data_pid_start :: u8
  ep_tx_fifo_num :: u16
  ep_maxpacket :: u32
  xfer_buff :: usb_ptr
  xfer_len :: u32
  xfer_count :: u32

record otg_cfg =
  dev_endpoints :: u32
  Host_channels :: u32
  Init_speed :: u32
  dma_enable :: u32
  ep0_mps :: u32
  phy_itface :: u32
  Sof_enable :: u32
  low_power_enable :: u32
  lpm_enable :: u32
  battery_charging_enable :: u32
  vbus_sensing_enable :: u32
  use_dedicated_ep1 :: u32
  use_external_vbus :: u32

record pcd_handle =
  Instance :: usb_otg
  Init :: otg_cfg
  IN_ep :: "usb_ep list"
  OUT_ep :: "usb_ep list"
  Lock :: bool
  pcd_State :: pcd_state
  Setup :: bytes

abbreviation (input) EP_TYPE_CTRL :: u8 where "EP_TYPE_CTRL \<equiv> 0"
abbreviation (input) EP_TYPE_ISOC :: u8 where "EP_TYPE_ISOC \<equiv> 1"
abbreviation (input) EP_TYPE_BULK :: u8 where "EP_TYPE_BULK \<equiv> 2"
abbreviation (input) EP_TYPE_INTR :: u8 where "EP_TYPE_INTR \<equiv> 3"

abbreviation (input) DIEPCTL_STALL :: u32 where "DIEPCTL_STALL \<equiv> 0x00200000"
abbreviation (input) DIEPCTL_CNAK :: u32 where "DIEPCTL_CNAK \<equiv> 0x04000000"
abbreviation (input) DIEPCTL_SNAK :: u32 where "DIEPCTL_SNAK \<equiv> 0x08000000"
abbreviation (input) DIEPCTL_SD0PID_SEVNFRM :: u32 where "DIEPCTL_SD0PID_SEVNFRM \<equiv> 0x10000000"
abbreviation (input) DIEPCTL_SODDFRM :: u32 where "DIEPCTL_SODDFRM \<equiv> 0x20000000"
abbreviation (input) DIEPCTL_EPDIS :: u32 where "DIEPCTL_EPDIS \<equiv> 0x40000000"
abbreviation (input) DIEPCTL_EPENA :: u32 where "DIEPCTL_EPENA \<equiv> 0x80000000"
abbreviation (input) DIEPCTL_USBAEP :: u32 where "DIEPCTL_USBAEP \<equiv> 0x8000"
abbreviation (input) DIEPCTL_MPSIZ :: u32 where "DIEPCTL_MPSIZ \<equiv> 0x7FF"
abbreviation (input) TSIZ_XFRSIZ :: u32 where "TSIZ_XFRSIZ \<equiv> 0x7FFFF"
abbreviation (input) TSIZ_PKTCNT :: u32 where "TSIZ_PKTCNT \<equiv> 0x1FF80000"
abbreviation (input) TSIZ_MULCNT :: u32 where "TSIZ_MULCNT \<equiv> 0x60000000"

text \<open>\<open>REG |= m\<close> and \<open>REG &= ~m\<close> on the registers of an endpoint.\<close>

definition or_at :: "nat \<Rightarrow> u32 \<Rightarrow> (nat \<Rightarrow> u32) \<Rightarrow> nat \<Rightarrow> u32" where
  "or_at n m reg = reg(n := reg n OR m)"

definition clr_at :: "nat \<Rightarrow> u32 \<Rightarrow> (nat \<Rightarrow> u32) \<Rightarrow> nat \<Rightarrow> u32" where
  "clr_at n m reg = reg(n := reg n AND NOT m)"

section \<open>Endpoints of the peripheral\<close>

definition USB_ActivateEndpoint :: "usb_ep \<Rightarrow> usb_otg \<Rightarrow> usb_otg" where
  "USB_ActivateEndpoint ep r =
     (let n = unat (ep_num ep) in
      if ep_is_in ep = 1 then
        (let r1 = r\<lparr>DAINTMSK := DAINTMSK r OR (0xFFFF AND push_bit n 1)\<rparr> in
         if DIEPCTL r1 n AND DIEPCTL_USBAEP = 0
         then r1\<lparr>DIEPCTL := or_at n ((ep_maxpacket ep AND DIEPCTL_MPSIZ) OR push_bit 18 (ucast (ep_type ep))
                  OR push_bit 22 (ucast (ep_num ep)) OR DIEPCTL_SD0PID_SEVNFRM OR DIEPCTL_USBAEP) (DIEPCTL r1)\<rparr>
         else r1)
      else
        (let r1 = r\<lparr>DAINTMSK := DAINTMSK r OR (0xFFFF0000 AND push_bit 16 (push_bit n 1))\<rparr> in
         if DOEPCTL r1 n AND DIEPCTL_USBAEP = 0
         then r1\<lparr>DOEPCTL := or_at n ((ep_maxpacket ep AND DIEPCTL_MPSIZ) OR push_bit 18 (ucast (ep_type ep))
                  OR DIEPCTL_SD0PID_SEVNFRM OR DIEPCTL_USBAEP) (DOEPCTL r1)\<rparr>
         else r1))"

text \<open>
  \<open>do { if (++count > 200000) return HAL_TIMEOUT; } while (flag);\<close> where \<open>flag k\<close> is what the
  \<open>k\<close>-th reading gives; \<open>n\<close> is the number of readings left.
\<close>

fun poll_loop :: "(nat \<Rightarrow> bool) \<Rightarrow> nat \<Rightarrow> nat \<Rightarrow> hal_status" where
  "poll_loop flag k 0 = HAL_TIMEOUT"
| "poll_loop flag k (Suc n) = (if flag k then poll_loop flag (Suc k) n else HAL_OK)"

definition poll_flag :: "(nat \<Rightarrow> bool) \<Rightarrow> hal_status" where
  "poll_flag flag = poll_loop flag 0 200000"

lemma poll_flag_code [code]: "poll_flag flag = (if flag 0 then poll_loop flag 1 199999 else HAL_OK)"
proof -
  have "poll_loop flag 0 (Suc 199999) = (if flag 0 then poll_loop flag (Suc 0) 199999 else HAL_OK)"
    by (rule poll_loop.simps)
  then show ?thesis by (simp add: poll_flag_def)
qed

text \<open>
  What was written to a FIFO (\<open>DFIFO\<close>) is a log: a flush, which discards what the peripheral has not sent yet, leaves
  the log as it is.
\<close>

definition USB_FlushTxFifo :: "u32 \<Rightarrow> usb_otg \<Rightarrow> hal_status \<times> usb_otg" where
  "USB_FlushTxFifo num r =
     (poll_flag (polled r Poll_TXFFLSH), r\<lparr>GRSTCTL := 0x20 OR push_bit 6 num\<rparr>)"

definition USB_FlushRxFifo :: "usb_otg \<Rightarrow> hal_status \<times> usb_otg" where
  "USB_FlushRxFifo r = (poll_flag (polled r Poll_RXFFLSH), r\<lparr>GRSTCTL := 0x10\<rparr>)"

definition USB_DeactivateEndpoint :: "usb_ep \<Rightarrow> usb_otg \<Rightarrow> hal_status \<times> usb_otg" where
  "USB_DeactivateEndpoint ep r =
     (let n = unat (ep_num ep) in
      if ep_is_in ep = 1 then
        (let r1 = r\<lparr>DIEPCTL := clr_at n DIEPCTL_USBAEP (DIEPCTL r)\<rparr>;
             r2 = r1\<lparr>DIEPCTL := (DIEPCTL r1)(n := DIEPCTL_SNAK)\<rparr>;
             r3 = r2\<lparr>DIEPCTL := (DIEPCTL r2)(n := DIEPCTL_EPDIS)\<rparr> in
         case poll_flag (polled r3 (Poll_DIEPINT n)) of
           HAL_OK \<Rightarrow> let (_, r4) = USB_FlushTxFifo 0x10 r3 in
             (HAL_OK, r4\<lparr>DAINTMSK := DAINTMSK r4 AND NOT (0xFFFF AND push_bit n 1)\<rparr>)
         | st \<Rightarrow> (st, r3))
      else
        (let r1 = r\<lparr>DOEPCTL := clr_at n DIEPCTL_USBAEP (DOEPCTL r)\<rparr>;
             r2 = r1\<lparr>DOEPCTL := (DOEPCTL r1)(n := DIEPCTL_SNAK)\<rparr>;
             r3 = r2\<lparr>DOEPCTL := (DOEPCTL r2)(n := DIEPCTL_EPDIS)\<rparr> in
         case poll_flag (polled r3 (Poll_DOEPINT n)) of
           HAL_OK \<Rightarrow>
             (HAL_OK, r3\<lparr>DCTL := DCTL r3 OR 0x400,
                DAINTMSK := DAINTMSK r3 AND NOT (0xFFFF0000 AND push_bit 16 (push_bit n 1))\<rparr>)
         | st \<Rightarrow> (st, r3)))"

text \<open>
  The endpoints of a dedicated interrupt, which this firmware does not use. The variable that
  \<open>USB_ActivateDedicatedEndpoint\<close> keeps for a debugger is left out; \<open>USB_DeactivateDedicatedEndpoint\<close>
  has the statements of \<open>USB_DeactivateEndpoint\<close>.
\<close>

definition USB_ActivateDedicatedEndpoint :: "usb_ep \<Rightarrow> usb_otg \<Rightarrow> usb_otg" where
  "USB_ActivateDedicatedEndpoint ep r =
     (let n = unat (ep_num ep);
          v = (ep_maxpacket ep AND DIEPCTL_MPSIZ) OR push_bit 18 (ucast (ep_type ep)) OR push_bit 22 (ucast (ep_num ep)) in
      if ep_is_in ep = 1 then
        (let r1 = (if DIEPCTL r n AND DIEPCTL_USBAEP = 0
                   then r\<lparr>DIEPCTL := or_at n (v OR DIEPCTL_SD0PID_SEVNFRM OR DIEPCTL_USBAEP) (DIEPCTL r)\<rparr> else r)
         in r1\<lparr>DEACHMSK := DEACHMSK r1 OR (0xFFFF AND push_bit n 1)\<rparr>)
      else
        (let r1 = (if DOEPCTL r n AND DIEPCTL_USBAEP = 0
                   then r\<lparr>DOEPCTL := or_at n (v OR DIEPCTL_USBAEP) (DOEPCTL r)\<rparr> else r)
         in r1\<lparr>DEACHMSK := DEACHMSK r1 OR (0xFFFF0000 AND push_bit 16 (push_bit n 1))\<rparr>))"

definition USB_DeactivateDedicatedEndpoint :: "usb_ep \<Rightarrow> usb_otg \<Rightarrow> hal_status \<times> usb_otg" where
  "USB_DeactivateDedicatedEndpoint ep r = USB_DeactivateEndpoint ep r"

definition USB_EPSetStall :: "usb_ep \<Rightarrow> usb_otg \<Rightarrow> usb_otg" where
  "USB_EPSetStall ep r =
     (let n = unat (ep_num ep) in
      if ep_is_in ep = 1 then
        (let r1 = (if DIEPCTL r n AND DIEPCTL_EPENA = 0
                   then r\<lparr>DIEPCTL := clr_at n DIEPCTL_EPDIS (DIEPCTL r)\<rparr> else r) in
         r1\<lparr>DIEPCTL := or_at n DIEPCTL_STALL (DIEPCTL r1)\<rparr>)
      else
        (let r1 = (if DOEPCTL r n AND DIEPCTL_EPENA = 0
                   then r\<lparr>DOEPCTL := clr_at n DIEPCTL_EPDIS (DOEPCTL r)\<rparr> else r) in
         r1\<lparr>DOEPCTL := or_at n DIEPCTL_STALL (DOEPCTL r1)\<rparr>))"

definition USB_EPClearStall :: "usb_ep \<Rightarrow> usb_otg \<Rightarrow> usb_otg" where
  "USB_EPClearStall ep r =
     (let n = unat (ep_num ep); data0 = (ep_type ep = EP_TYPE_INTR \<or> ep_type ep = EP_TYPE_BULK) in
      if ep_is_in ep = 1 then
        (let r1 = r\<lparr>DIEPCTL := clr_at n DIEPCTL_STALL (DIEPCTL r)\<rparr> in
         if data0 then r1\<lparr>DIEPCTL := or_at n DIEPCTL_SD0PID_SEVNFRM (DIEPCTL r1)\<rparr> else r1)
      else
        (let r1 = r\<lparr>DOEPCTL := clr_at n DIEPCTL_STALL (DOEPCTL r)\<rparr> in
         if data0 then r1\<lparr>DOEPCTL := or_at n DIEPCTL_SD0PID_SEVNFRM (DOEPCTL r1)\<rparr> else r1))"

definition USB_SetDevAddress :: "u8 \<Rightarrow> usb_otg \<Rightarrow> usb_otg" where
  "USB_SetDevAddress address r =
     (let r1 = r\<lparr>DCFG := DCFG r AND NOT 0x7F0\<rparr> in
      r1\<lparr>DCFG := DCFG r1 OR (push_bit 4 (ucast address) AND 0x7F0)\<rparr>)"

definition USB_EP0_OutStart :: "usb_otg \<Rightarrow> usb_otg" where
  "USB_EP0_OutStart r =
     r\<lparr>DOEPTSIZ := (DOEPTSIZ r)(0 := ((0 OR (TSIZ_PKTCNT AND push_bit 19 1)) OR 3 * 8) OR 0x60000000)\<rparr>"

definition USB_DevConnect :: "usb_otg \<Rightarrow> usb_otg" where
  "USB_DevConnect r = r\<lparr>DCTL := DCTL r AND NOT 2\<rparr>"

definition USB_DevDisconnect :: "usb_otg \<Rightarrow> usb_otg" where
  "USB_DevDisconnect r = r\<lparr>DCTL := DCTL r OR 2\<rparr>"

text \<open>The interrupts that are pending, of the \<open>GINTSTS\<close> that was read, and the mode of the core.\<close>

definition USB_ReadInterrupts :: "u32 \<Rightarrow> usb_otg \<Rightarrow> u32" where
  "USB_ReadInterrupts gintsts r = gintsts AND GINTMSK r"

definition USB_GetMode :: "u32 \<Rightarrow> u32" where
  "USB_GetMode gintsts = gintsts AND 1"

definition USB_EnableGlobalInt :: "usb_otg \<Rightarrow> usb_otg" where
  "USB_EnableGlobalInt r = r\<lparr>GAHBCFG := GAHBCFG r OR 1\<rparr>"

definition USB_DisableGlobalInt :: "usb_otg \<Rightarrow> usb_otg" where
  "USB_DisableGlobalInt r = r\<lparr>GAHBCFG := GAHBCFG r AND NOT 1\<rparr>"

definition USB_StopDevice :: "usb_otg \<Rightarrow> usb_otg" where
  "USB_StopDevice r =
     (let r1 = r\<lparr>DIEPINT := (\<lambda>i. if i < 15 then 0xFF else DIEPINT r i),
                DOEPINT := (\<lambda>i. if i < 15 then 0xFF else DOEPINT r i),
                DAINT := 0xFFFFFFFF, DIEPMSK := 0, DOEPMSK := 0, DAINTMSK := 0\<rparr>;
          (_, r2) = USB_FlushRxFifo r1;
          (_, r3) = USB_FlushTxFifo 0x10 r2
      in r3)"

section \<open>The start of the peripheral\<close>

text \<open>
  \<open>USB_CoreReset\<close> waits for the bus to be idle, then for the end of the reset; its callers drop the status.
\<close>

definition USB_CoreReset :: "usb_otg \<Rightarrow> hal_status \<times> usb_otg" where
  "USB_CoreReset r =
     (case poll_flag (polled r Poll_AHBIDL) of
        HAL_OK \<Rightarrow> (let r1 = r\<lparr>GRSTCTL := GRSTCTL r OR 1\<rparr> in (poll_flag (polled r1 Poll_CSRST), r1))
      | st \<Rightarrow> (st, r))"

abbreviation (input) USB_OTG_ULPI_PHY :: u32 where "USB_OTG_ULPI_PHY \<equiv> 1"

definition USB_CoreInit :: "otg_cfg \<Rightarrow> usb_otg \<Rightarrow> usb_otg" where
  "USB_CoreInit cfg r =
     (let r4 =
        (if phy_itface cfg = USB_OTG_ULPI_PHY then
           (let r1 = r\<lparr>GCCFG := GCCFG r AND NOT 0x10000, GUSBCFG := GUSBCFG r AND NOT 0x420040\<rparr>;
                r2 = r1\<lparr>GUSBCFG := GUSBCFG r1 AND NOT 0x300000\<rparr>;
                r3 = (if use_external_vbus cfg = 1 then r2\<lparr>GUSBCFG := GUSBCFG r2 OR 0x100000\<rparr> else r2)
            in snd (USB_CoreReset r3))
         else (snd (USB_CoreReset (r\<lparr>GUSBCFG := GUSBCFG r OR 0x40\<rparr>)))\<lparr>GCCFG := 0x10000\<rparr>)
      in if dma_enable cfg = 1 then r4\<lparr>GAHBCFG := (GAHBCFG r4 OR 6) OR 0x20\<rparr> else r4)"

datatype otg_mode = USB_OTG_DEVICE_MODE | USB_OTG_HOST_MODE | USB_OTG_DRD_MODE

definition USB_SetCurrentMode :: "otg_mode \<Rightarrow> usb_otg \<Rightarrow> usb_otg" where
  "USB_SetCurrentMode mode r =
     (let r1 = r\<lparr>GUSBCFG := GUSBCFG r AND NOT 0x60000000\<rparr> in
      case mode of
        USB_OTG_HOST_MODE \<Rightarrow> r1\<lparr>GUSBCFG := GUSBCFG r1 OR 0x20000000\<rparr>
      | USB_OTG_DEVICE_MODE \<Rightarrow> r1\<lparr>GUSBCFG := GUSBCFG r1 OR 0x40000000\<rparr>
      | USB_OTG_DRD_MODE \<Rightarrow> r1)"

definition USB_SetDevSpeed :: "u8 \<Rightarrow> usb_otg \<Rightarrow> usb_otg" where
  "USB_SetDevSpeed sp r = r\<lparr>DCFG := DCFG r OR ucast sp\<rparr>"

text \<open>
  \<open>USB_DevInit\<close>. The \<open>GINTSTS\<close> that it acknowledges is not part of the state: the handler's passes read
  it anew.
\<close>

definition reset_endpoint :: "u32 \<Rightarrow> u32" where
  "reset_endpoint epctl = (if epctl AND DIEPCTL_EPENA = DIEPCTL_EPENA then DIEPCTL_EPDIS OR DIEPCTL_SNAK else 0)"

definition USB_DevInit :: "otg_cfg \<Rightarrow> usb_otg \<Rightarrow> usb_otg" where
  "USB_DevInit cfg r =
     (let n = unat (dev_endpoints cfg);
          r1 = r\<lparr>GCCFG := GCCFG r OR (if vbus_sensing_enable cfg = 0 then 0x200000 else 0x80000),
                 PCGCCTL := 0, DCFG := DCFG r OR 0\<rparr>;
          r2 = USB_SetDevSpeed (if phy_itface cfg = USB_OTG_ULPI_PHY then if Init_speed cfg = 0 then 0 else 1 else 3) r1;
          r3 = snd (USB_FlushRxFifo (snd (USB_FlushTxFifo 0x10 r2)));
          r4 = r3\<lparr>DIEPMSK := 0, DOEPMSK := 0, DAINT := 0xFFFFFFFF, DAINTMSK := 0,
                  DIEPCTL := (\<lambda>i. if i < n then reset_endpoint (DIEPCTL r3 i) else DIEPCTL r3 i),
                  DIEPTSIZ := (\<lambda>i. if i < n then 0 else DIEPTSIZ r3 i),
                  DIEPINT := (\<lambda>i. if i < n then 0xFF else DIEPINT r3 i),
                  DOEPCTL := (\<lambda>i. if i < n then reset_endpoint (DOEPCTL r3 i) else DOEPCTL r3 i),
                  DOEPTSIZ := (\<lambda>i. if i < n then 0 else DOEPTSIZ r3 i),
                  DOEPINT := (\<lambda>i. if i < n then 0xFF else DOEPINT r3 i)\<rparr>
      in r4\<lparr>DIEPMSK := DIEPMSK r4 AND NOT 0x100,
            DTHRCTL := (if dma_enable cfg = 1 then (0x100 OR 0x800000) OR (0x10000 OR 2 OR 1) else DTHRCTL r4),
            GINTMSK := (((0 OR (if dma_enable cfg = 0 then 0x10 else 0)) OR 0x803C3800)
                         OR (if Sof_enable cfg \<noteq> 0 then 8 else 0))
                       OR (if vbus_sensing_enable cfg = 1 then 0x40000004 else 0)\<rparr>)"

text \<open>All of it as one update, for evaluation.\<close>

lemma flush_fifos: "snd (USB_FlushRxFifo (snd (USB_FlushTxFifo k r))) = r\<lparr>GRSTCTL := 0x10\<rparr>"
  by (simp add: USB_FlushRxFifo_def USB_FlushTxFifo_def)

lemma USB_DevInit_eq [code]:
  "USB_DevInit cfg r =
     r\<lparr>GCCFG := GCCFG r OR (if vbus_sensing_enable cfg = 0 then 0x200000 else 0x80000),
        PCGCCTL := 0,
        DCFG := DCFG r OR (if phy_itface cfg = 1 then if Init_speed cfg = 0 then 0 else 1 else 3),
        GRSTCTL := 0x10, DIEPMSK := 0, DOEPMSK := 0, DAINT := 0xFFFFFFFF, DAINTMSK := 0,
        DIEPCTL := (\<lambda>i. if i < unat (dev_endpoints cfg) then reset_endpoint (DIEPCTL r i) else DIEPCTL r i),
        DIEPTSIZ := (\<lambda>i. if i < unat (dev_endpoints cfg) then 0 else DIEPTSIZ r i),
        DIEPINT := (\<lambda>i. if i < unat (dev_endpoints cfg) then 0xFF else DIEPINT r i),
        DOEPCTL := (\<lambda>i. if i < unat (dev_endpoints cfg) then reset_endpoint (DOEPCTL r i) else DOEPCTL r i),
        DOEPTSIZ := (\<lambda>i. if i < unat (dev_endpoints cfg) then 0 else DOEPTSIZ r i),
        DOEPINT := (\<lambda>i. if i < unat (dev_endpoints cfg) then 0xFF else DOEPINT r i),
        DTHRCTL := (if dma_enable cfg = 1 then 0x810103 else DTHRCTL r),
        GINTMSK := (((if dma_enable cfg = 0 then 0x10 else 0) OR 0x803C3800) OR (if Sof_enable cfg \<noteq> 0 then 8 else 0))
          OR (if vbus_sensing_enable cfg = 1 then 0x40000004 else 0)\<rparr>"
  by (cases r, simp only: USB_DevInit_def USB_SetDevSpeed_def Let_def flush_fifos usb_otg.simps, simp)
section \<open>Transfers\<close>

text \<open>
  \<open>USB_WritePacket\<close> pushes words into a transmit FIFO; the peripheral sends \<open>len\<close> bytes of them. The code
  reads whole words, so up to three bytes behind the last one, which the processor lets it do and which
  never leave the FIFO; they are left out here.
\<close>

definition USB_WritePacket :: "usb_rd \<Rightarrow> usb_ptr \<Rightarrow> nat \<Rightarrow> u16 \<Rightarrow> usb_otg \<Rightarrow> usb_otg outcome" where
  "USB_WritePacket rd src n len r =
     obind (rd src (unat len)) (\<lambda>bs. Inr (r\<lparr>DFIFO := (DFIFO r)(n := DFIFO r n @ [bs])\<rparr>))"

text \<open>
  \<open>USB_ReadPacket\<close> stores whole words of the receive FIFO behind a pointer, through the store \<open>wr\<close>.
\<close>

definition USB_ReadPacket :: "(usb_ptr \<Rightarrow> bytes \<Rightarrow> 's \<Rightarrow> 's outcome) \<Rightarrow> usb_ptr \<Rightarrow> u16 \<Rightarrow> bytes \<Rightarrow> 's \<Rightarrow> 's outcome" where
  "USB_ReadPacket wr dest len fifo s =
     (let count32b = (unat len + 3) div 4 in
      if count32b = 0 then Inr s else wr dest (take (4 * count32b) fifo) s)"

text \<open>
  The size register of an IN transfer, and of an OUT transfer. A division by a packet size of zero
  gives zero, here and on the processor, which does not trap it.
\<close>

definition in_tsiz :: "usb_ep \<Rightarrow> u32 \<Rightarrow> u32" where
  "in_tsiz ep old =
     (if xfer_len ep = 0
      then ((old AND NOT TSIZ_PKTCNT) OR (TSIZ_PKTCNT AND push_bit 19 1)) AND NOT TSIZ_XFRSIZ
      else let t = (((old AND NOT TSIZ_XFRSIZ) AND NOT TSIZ_PKTCNT)
                     OR (TSIZ_PKTCNT AND push_bit 19 ((xfer_len ep + ep_maxpacket ep - 1) div ep_maxpacket ep)))
                   OR (TSIZ_XFRSIZ AND xfer_len ep)
        in if ep_type ep = EP_TYPE_ISOC
           then (t AND NOT TSIZ_MULCNT) OR (TSIZ_MULCNT AND push_bit 29 1) else t)"

definition out_tsiz :: "usb_ep \<Rightarrow> u32 \<Rightarrow> u32" where
  "out_tsiz ep old =
     (let t = (old AND NOT TSIZ_XFRSIZ) AND NOT TSIZ_PKTCNT in
      if xfer_len ep = 0
      then (t OR (TSIZ_XFRSIZ AND ep_maxpacket ep)) OR (TSIZ_PKTCNT AND push_bit 19 1)
      else let pktcnt = ucast ((xfer_len ep + ep_maxpacket ep - 1) div ep_maxpacket ep) :: u16
        in (t OR (TSIZ_PKTCNT AND push_bit 19 (ucast pktcnt)))
           OR (TSIZ_XFRSIZ AND (ep_maxpacket ep * ucast pktcnt)))"

text \<open>The frame bit of an isochronous transfer, and the enabling of an endpoint.\<close>

definition isoc_frame :: "usb_ep \<Rightarrow> u32 \<Rightarrow> u32" where
  "isoc_frame ep dsts =
     (if ep_type ep \<noteq> EP_TYPE_ISOC then 0
      else if dsts AND push_bit 8 1 = 0 then DIEPCTL_SODDFRM else DIEPCTL_SD0PID_SEVNFRM)"

definition USB_EPStartXfer :: "usb_rd \<Rightarrow> usb_ep \<Rightarrow> usb_otg \<Rightarrow> usb_otg outcome" where
  "USB_EPStartXfer rd ep r =
     (let n = unat (ep_num ep) in
      if ep_is_in ep = 1 then
        (let r1 = r\<lparr>DIEPTSIZ := (DIEPTSIZ r)(n := in_tsiz ep (DIEPTSIZ r n))\<rparr>;
             r2 = (if ep_type ep \<noteq> EP_TYPE_ISOC \<and> 0 < xfer_len ep
                   then r1\<lparr>DIEPEMPMSK := DIEPEMPMSK r1 OR push_bit n 1\<rparr> else r1);
             r3 = r2\<lparr>DIEPCTL := or_at n (isoc_frame ep (DSTS r2)) (DIEPCTL r2)\<rparr>;
             r4 = r3\<lparr>DIEPCTL := or_at n (DIEPCTL_CNAK OR DIEPCTL_EPENA) (DIEPCTL r3)\<rparr> in
         if ep_type ep = EP_TYPE_ISOC
         then USB_WritePacket rd (xfer_buff ep) n (ucast (xfer_len ep)) r4 else Inr r4)
      else
        (let r1 = r\<lparr>DOEPTSIZ := (DOEPTSIZ r)(n := out_tsiz ep (DOEPTSIZ r n))\<rparr>;
             r2 = r1\<lparr>DOEPCTL := or_at n (isoc_frame ep (DSTS r1)) (DOEPCTL r1)\<rparr> in
         Inr (r2\<lparr>DOEPCTL := or_at n (DIEPCTL_CNAK OR DIEPCTL_EPENA) (DOEPCTL r2)\<rparr>)))"

text \<open>On endpoint 0 a transfer is one packet: its length is cut, in the endpoint's structure as well.\<close>

definition USB_EP0StartXfer :: "usb_ep \<Rightarrow> usb_otg \<Rightarrow> usb_ep \<times> usb_otg" where
  "USB_EP0StartXfer ep r =
     (let n = unat (ep_num ep) in
      if ep_is_in ep = 1 then
        (let ep' = (if xfer_len ep \<noteq> 0 \<and> ep_maxpacket ep < xfer_len ep
                    then ep\<lparr>xfer_len := ep_maxpacket ep\<rparr> else ep);
             old = DIEPTSIZ r n;
             t = (if xfer_len ep = 0
                  then ((old AND NOT TSIZ_PKTCNT) OR (TSIZ_PKTCNT AND push_bit 19 1)) AND NOT TSIZ_XFRSIZ
                  else (((old AND NOT TSIZ_XFRSIZ) AND NOT TSIZ_PKTCNT)
                        OR (TSIZ_PKTCNT AND push_bit 19 1)) OR (TSIZ_XFRSIZ AND xfer_len ep'));
             r1 = r\<lparr>DIEPTSIZ := (DIEPTSIZ r)(n := t)\<rparr>;
             r2 = r1\<lparr>DIEPCTL := or_at n (DIEPCTL_CNAK OR DIEPCTL_EPENA) (DIEPCTL r1)\<rparr>
         in (ep', if 0 < xfer_len ep' then r2\<lparr>DIEPEMPMSK := DIEPEMPMSK r2 OR push_bit n 1\<rparr> else r2))
      else
        (let ep' = (if 0 < xfer_len ep then ep\<lparr>xfer_len := ep_maxpacket ep\<rparr> else ep);
             t = (((DOEPTSIZ r n AND NOT TSIZ_XFRSIZ) AND NOT TSIZ_PKTCNT)
                   OR (TSIZ_PKTCNT AND push_bit 19 1)) OR (TSIZ_XFRSIZ AND ep_maxpacket ep');
             r1 = r\<lparr>DOEPTSIZ := (DOEPTSIZ r)(n := t)\<rparr>
         in (ep', r1\<lparr>DOEPCTL := or_at n (DIEPCTL_CNAK OR DIEPCTL_EPENA) (DOEPCTL r1)\<rparr>)))"

end
