(* ===== verification/UsbPcd.thy ===== *)
theory UsbPcd
  imports UsbHal
begin

text \<open>
  The device controller driver, \<open>stm32f4xx_hal_pcd.c\<close> and \<open>stm32f4xx_hal_pcd_ex.c\<close>: its life cycle and
  connection, the sizes of the FIFOs, the operations on an endpoint, and the loop of its interrupt
  handler that fills a transmit FIFO. An operation takes the lock of the handle for its duration only; no
  operation is interrupted inside, so taking and releasing it cancel and only its test is left.
\<close>

section \<open>Access to the endpoints of the handle\<close>

text \<open>
  \<open>ep_addr & 0x7F\<close> indexes the sixteen structures of a direction; an index beyond them is an access
  outside the handle.
\<close>

definition ep_index :: "u8 \<Rightarrow> nat" where
  "ep_index ep_addr = unat (ep_addr AND 0x7F)"

definition is_in_addr :: "u8 \<Rightarrow> bool" where
  "is_in_addr ep_addr \<longleftrightarrow> ep_addr AND 0x80 = 0x80"

definition get_in :: "nat \<Rightarrow> pcd_handle \<Rightarrow> usb_ep outcome" where
  "get_in k h = (if k < length (IN_ep h) then Inr (IN_ep h ! k) else Inl Out_of_bounds)"

definition get_out :: "nat \<Rightarrow> pcd_handle \<Rightarrow> usb_ep outcome" where
  "get_out k h = (if k < length (OUT_ep h) then Inr (OUT_ep h ! k) else Inl Out_of_bounds)"

definition put_in :: "nat \<Rightarrow> usb_ep \<Rightarrow> pcd_handle \<Rightarrow> pcd_handle" where
  "put_in k ep h = h\<lparr>IN_ep := (IN_ep h)[k := ep]\<rparr>"

definition put_out :: "nat \<Rightarrow> usb_ep \<Rightarrow> pcd_handle \<Rightarrow> pcd_handle" where
  "put_out k ep h = h\<lparr>OUT_ep := (OUT_ep h)[k := ep]\<rparr>"

definition get_ep :: "u8 \<Rightarrow> pcd_handle \<Rightarrow> usb_ep outcome" where
  "get_ep ep_addr h = (if is_in_addr ep_addr then get_in (ep_index ep_addr) h else get_out (ep_index ep_addr) h)"

definition put_ep :: "u8 \<Rightarrow> usb_ep \<Rightarrow> pcd_handle \<Rightarrow> pcd_handle" where
  "put_ep ep_addr ep h =
     (if is_in_addr ep_addr then put_in (ep_index ep_addr) ep h else put_out (ep_index ep_addr) ep h)"

section \<open>Start and stop\<close>

text \<open>
  The second loop sets \<open>tx_fifo_num\<close> of the IN structures again, as written. The chip has neither link
  power management nor battery charging, so those calls are compiled out.
\<close>

definition HAL_PCD_Init :: "pcd_handle \<Rightarrow> hal_status \<times> pcd_handle" where
  "HAL_PCD_Init h =
     (let r1 = USB_SetCurrentMode USB_OTG_DEVICE_MODE (USB_CoreInit (Init h) (USB_DisableGlobalInt (Instance h)));
          ins = map (\<lambda>i. if i < 15 then (IN_ep h ! i)\<lparr>ep_is_in := 1, ep_num := of_nat i, ep_tx_fifo_num := of_nat i,
                       ep_type := EP_TYPE_CTRL, ep_maxpacket := 0, xfer_buff := None, xfer_len := 0\<rparr>
                    else IN_ep h ! i) [0..<length (IN_ep h)];
          outs = map (\<lambda>i. if i < 15 then (OUT_ep h ! i)\<lparr>ep_is_in := 0, ep_num := of_nat i,
                       ep_type := EP_TYPE_CTRL, ep_maxpacket := 0, xfer_buff := None, xfer_len := 0\<rparr>
                    else OUT_ep h ! i) [0..<length (OUT_ep h)];
          r2 = r1\<lparr>DIEPTXF := (\<lambda>i. if i < 15 then 0 else DIEPTXF r1 i)\<rparr>
      in (HAL_OK, h\<lparr>Instance := USB_DevDisconnect (USB_DevInit (Init h) r2), IN_ep := ins, OUT_ep := outs,
                    pcd_State := HAL_PCD_STATE_READY\<rparr>))"

definition HAL_PCD_Start :: "pcd_handle \<Rightarrow> hal_status \<times> pcd_handle" where
  "HAL_PCD_Start h =
     (if Lock h then (HAL_BUSY, h)
      else (HAL_OK, h\<lparr>Instance := USB_EnableGlobalInt (USB_DevConnect (Instance h))\<rparr>))"

definition HAL_PCD_Stop :: "pcd_handle \<Rightarrow> hal_status \<times> pcd_handle" where
  "HAL_PCD_Stop h =
     (if Lock h then (HAL_BUSY, h)
      else (HAL_OK, h\<lparr>Instance := USB_DevDisconnect (USB_StopDevice (USB_DisableGlobalInt (Instance h)))\<rparr>))"

definition HAL_PCD_DeInit :: "pcd_handle \<Rightarrow> hal_status \<times> pcd_handle" where
  "HAL_PCD_DeInit h =
     (let (_, h1) = HAL_PCD_Stop (h\<lparr>pcd_State := HAL_PCD_STATE_BUSY\<rparr>)
      in (HAL_OK, h1\<lparr>pcd_State := HAL_PCD_STATE_RESET\<rparr>))"

definition HAL_PCD_SetAddress :: "u8 \<Rightarrow> pcd_handle \<Rightarrow> hal_status \<times> pcd_handle" where
  "HAL_PCD_SetAddress address h =
     (if Lock h then (HAL_BUSY, h)
      else (HAL_OK, h\<lparr>Instance := USB_SetDevAddress address (Instance h)\<rparr>))"

definition HAL_PCD_DevConnect :: "pcd_handle \<Rightarrow> hal_status \<times> pcd_handle" where
  "HAL_PCD_DevConnect h =
     (if Lock h then (HAL_BUSY, h) else (HAL_OK, h\<lparr>Instance := USB_DevConnect (Instance h)\<rparr>))"

definition HAL_PCD_DevDisconnect :: "pcd_handle \<Rightarrow> hal_status \<times> pcd_handle" where
  "HAL_PCD_DevDisconnect h =
     (if Lock h then (HAL_BUSY, h) else (HAL_OK, h\<lparr>Instance := USB_DevDisconnect (Instance h)\<rparr>))"

text \<open>The signalling of a remote wakeup; no function of the device library calls it.\<close>

definition HAL_PCD_ActivateRemoteWakeup :: "pcd_handle \<Rightarrow> hal_status \<times> pcd_handle" where
  "HAL_PCD_ActivateRemoteWakeup h =
     (let r = Instance h in
      (HAL_OK, if DSTS r AND 1 = 1 then h\<lparr>Instance := r\<lparr>DCTL := DCTL r OR 1\<rparr>\<rparr> else h))"

definition HAL_PCD_DeActivateRemoteWakeup :: "pcd_handle \<Rightarrow> hal_status \<times> pcd_handle" where
  "HAL_PCD_DeActivateRemoteWakeup h =
     (let r = Instance h in (HAL_OK, h\<lparr>Instance := r\<lparr>DCTL := DCTL r AND NOT 1\<rparr>\<rparr>))"

definition HAL_PCD_GetState :: "pcd_handle \<Rightarrow> pcd_state" where
  "HAL_PCD_GetState h = pcd_State h"

text \<open>The sizes of the FIFOs: each begins where the one before it ends.\<close>

definition HAL_PCDEx_SetRxFiFo :: "u16 \<Rightarrow> pcd_handle \<Rightarrow> pcd_handle" where
  "HAL_PCDEx_SetRxFiFo fsize h = h\<lparr>Instance := (Instance h)\<lparr>GRXFSIZ := ucast fsize\<rparr>\<rparr>"

fun txfifo_offset :: "nat \<Rightarrow> (nat \<Rightarrow> u32) \<Rightarrow> u32 \<Rightarrow> u32" where
  "txfifo_offset 0 f off = off"
| "txfifo_offset (Suc i) f off = txfifo_offset i f off + drop_bit 16 (f i)"

definition HAL_PCDEx_SetTxFiFo :: "u8 \<Rightarrow> u16 \<Rightarrow> pcd_handle \<Rightarrow> pcd_handle" where
  "HAL_PCDEx_SetTxFiFo fifo fsize h =
     (let r = Instance h in
      if fifo = 0
      then h\<lparr>Instance := r\<lparr>DIEPTXF0 := push_bit 16 (ucast fsize) OR GRXFSIZ r\<rparr>\<rparr>
      else let off = txfifo_offset (unat fifo - 1) (DIEPTXF r) (GRXFSIZ r + drop_bit 16 (DIEPTXF0 r))
        in h\<lparr>Instance := r\<lparr>DIEPTXF := (DIEPTXF r)(unat fifo - 1 := push_bit 16 (ucast fsize) OR off)\<rparr>\<rparr>)"

section \<open>Endpoints\<close>

definition HAL_PCD_EP_Open :: "u8 \<Rightarrow> u16 \<Rightarrow> u8 \<Rightarrow> pcd_handle \<Rightarrow> (hal_status \<times> pcd_handle) outcome" where
  "HAL_PCD_EP_Open ep_addr ep_mps etype h =
     obind (get_ep ep_addr h) (\<lambda>ep0.
     let ep1 = ep0\<lparr>ep_num := ep_addr AND 0x7F, ep_is_in := (if 0x80 AND ep_addr \<noteq> 0 then 1 else 0),
                   ep_maxpacket := ucast ep_mps, ep_type := etype\<rparr>;
         ep2 = (if ep_is_in ep1 \<noteq> 0 then ep1\<lparr>ep_tx_fifo_num := ucast (ep_num ep1)\<rparr> else ep1);
         ep3 = (if etype = EP_TYPE_BULK then ep2\<lparr>ep_data_pid_start := 0\<rparr> else ep2);
         h1 = put_ep ep_addr ep3 h in
     if Lock h1 then Inr (HAL_BUSY, h1)
     else Inr (HAL_OK, h1\<lparr>Instance := USB_ActivateEndpoint ep3 (Instance h1)\<rparr>))"

definition HAL_PCD_EP_Close :: "u8 \<Rightarrow> pcd_handle \<Rightarrow> (hal_status \<times> pcd_handle) outcome" where
  "HAL_PCD_EP_Close ep_addr h =
     obind (get_ep ep_addr h) (\<lambda>ep0.
     let ep1 = ep0\<lparr>ep_num := ep_addr AND 0x7F, ep_is_in := (if 0x80 AND ep_addr \<noteq> 0 then 1 else 0)\<rparr>;
         h1 = put_ep ep_addr ep1 h in
     if Lock h1 then Inr (HAL_BUSY, h1)
     else Inr (HAL_OK, h1\<lparr>Instance := snd (USB_DeactivateEndpoint ep1 (Instance h1))\<rparr>))"

definition HAL_PCD_EP_Receive :: "usb_rd \<Rightarrow> u8 \<Rightarrow> usb_ptr \<Rightarrow> u32 \<Rightarrow> pcd_handle \<Rightarrow> (hal_status \<times> pcd_handle) outcome" where
  "HAL_PCD_EP_Receive rd ep_addr pBuf len h =
     (let k = ep_index ep_addr in
      obind (get_out k h) (\<lambda>ep0.
      let ep = ep0\<lparr>xfer_buff := pBuf, xfer_len := len, xfer_count := 0, ep_is_in := 0, ep_num := ep_addr AND 0x7F\<rparr> in
      if k = 0 then
        (let (ep', r) = USB_EP0StartXfer ep (Instance h) in Inr (HAL_OK, (put_out k ep' h)\<lparr>Instance := r\<rparr>))
      else obind (USB_EPStartXfer rd ep (Instance h)) (\<lambda>r. Inr (HAL_OK, (put_out k ep h)\<lparr>Instance := r\<rparr>))))"

definition HAL_PCD_EP_GetRxCount :: "u8 \<Rightarrow> pcd_handle \<Rightarrow> u16 outcome" where
  "HAL_PCD_EP_GetRxCount ep_addr h =
     obind (get_out (unat (ep_addr AND 0xF)) h) (\<lambda>ep. Inr (ucast (xfer_count ep)))"

definition HAL_PCD_EP_Transmit :: "usb_rd \<Rightarrow> u8 \<Rightarrow> usb_ptr \<Rightarrow> u32 \<Rightarrow> pcd_handle \<Rightarrow> (hal_status \<times> pcd_handle) outcome" where
  "HAL_PCD_EP_Transmit rd ep_addr pBuf len h =
     (let k = ep_index ep_addr in
      obind (get_in k h) (\<lambda>ep0.
      let ep = ep0\<lparr>xfer_buff := pBuf, xfer_len := len, xfer_count := 0, ep_is_in := 1, ep_num := ep_addr AND 0x7F\<rparr> in
      if k = 0 then
        (let (ep', r) = USB_EP0StartXfer ep (Instance h) in Inr (HAL_OK, (put_in k ep' h)\<lparr>Instance := r\<rparr>))
      else obind (USB_EPStartXfer rd ep (Instance h)) (\<lambda>r. Inr (HAL_OK, (put_in k ep h)\<lparr>Instance := r\<rparr>))))"

definition HAL_PCD_EP_SetStall :: "u8 \<Rightarrow> pcd_handle \<Rightarrow> (hal_status \<times> pcd_handle) outcome" where
  "HAL_PCD_EP_SetStall ep_addr h =
     obind (get_ep ep_addr h) (\<lambda>ep0.
     let ep1 = ep0\<lparr>ep_is_stall := 1, ep_num := ep_addr AND 0x7F, ep_is_in := (if ep_addr AND 0x80 = 0x80 then 1 else 0)\<rparr>;
         h1 = put_ep ep_addr ep1 h in
     if Lock h1 then Inr (HAL_BUSY, h1)
     else let r = USB_EPSetStall ep1 (Instance h1) in
       Inr (HAL_OK, h1\<lparr>Instance := (if ep_addr AND 0x7F = 0 then USB_EP0_OutStart r else r)\<rparr>))"

definition HAL_PCD_EP_ClrStall :: "u8 \<Rightarrow> pcd_handle \<Rightarrow> (hal_status \<times> pcd_handle) outcome" where
  "HAL_PCD_EP_ClrStall ep_addr h =
     obind (get_ep ep_addr h) (\<lambda>ep0.
     let ep1 = ep0\<lparr>ep_is_stall := 0, ep_num := ep_addr AND 0x7F, ep_is_in := (if ep_addr AND 0x80 = 0x80 then 1 else 0)\<rparr>;
         h1 = put_ep ep_addr ep1 h in
     if Lock h1 then Inr (HAL_BUSY, h1)
     else Inr (HAL_OK, h1\<lparr>Instance := USB_EPClearStall ep1 (Instance h1)\<rparr>))"

definition HAL_PCD_EP_Flush :: "u8 \<Rightarrow> pcd_handle \<Rightarrow> hal_status \<times> pcd_handle" where
  "HAL_PCD_EP_Flush ep_addr h =
     (if Lock h then (HAL_BUSY, h)
      else if is_in_addr ep_addr
      then (HAL_OK, h\<lparr>Instance := snd (USB_FlushTxFifo (ucast (ep_addr AND 0x7F)) (Instance h))\<rparr>)
      else (HAL_OK, h\<lparr>Instance := snd (USB_FlushRxFifo (Instance h))\<rparr>))"

section \<open>Filling a transmit FIFO\<close>

text \<open>
  The loop of \<open>PCD_WriteEmptyTxFifo\<close>. \<open>space k\<close> is the free space, in words, that the \<open>k\<close>-th test reads;
  \<open>len\<close> and \<open>len32b\<close> are the variables of the function. Nothing advances for an endpoint with a packet
  size of zero, so the value is \<open>None\<close> when the loop does not end. The test after the loop compares the
  signed \<open>len\<close> with the unsigned 0, which makes it a test for zero.
\<close>

definition tx_chunk :: "usb_ep \<Rightarrow> u32" where
  "tx_chunk ep = (let len = xfer_len ep - xfer_count ep in if ep_maxpacket ep < len then ep_maxpacket ep else len)"

partial_function (option) tx_loop ::
  "usb_rd \<Rightarrow> (nat \<Rightarrow> u32) \<Rightarrow> nat \<Rightarrow> nat \<Rightarrow> u32 \<Rightarrow> u32 \<Rightarrow> usb_ep \<Rightarrow> usb_otg \<Rightarrow> (u32 \<times> usb_ep \<times> usb_otg) outcome option"
where
  "tx_loop rd space k n len len32b ep r =
     (if len32b < space k AND 0xFFFF \<and> xfer_count ep < xfer_len ep \<and> xfer_len ep \<noteq> 0 then
        (let len' = tx_chunk ep; len32b' = (len' + 3) div 4 in
         case USB_WritePacket rd (xfer_buff ep) n (ucast len') r of
           Inl e \<Rightarrow> Some (Inl e)
         | Inr r' \<Rightarrow> tx_loop rd space (Suc k) n len' len32b'
             (ep\<lparr>xfer_buff := ptr_add (xfer_buff ep) (unat len'), xfer_count := xfer_count ep + len'\<rparr>) r')
      else Some (Inr (len, ep, r)))"

declare tx_loop.simps [code]

definition PCD_WriteEmptyTxFifo :: "usb_rd \<Rightarrow> (nat \<Rightarrow> u32) \<Rightarrow> nat \<Rightarrow> pcd_handle \<Rightarrow> (hal_status \<times> pcd_handle) outcome" where
  "PCD_WriteEmptyTxFifo rd space epnum h =
     obind (get_in epnum h) (\<lambda>ep.
     let len = tx_chunk ep; len32b = (len + 3) div 4 in
     case tx_loop rd space 0 epnum len len32b ep (Instance h) of
       None \<Rightarrow> Inl Diverges
     | Some m \<Rightarrow> obind m (\<lambda>(len, ep', r).
         let r' = (if len = 0 then r\<lparr>DIEPEMPMSK := DIEPEMPMSK r AND NOT (push_bit epnum 1)\<rparr> else r)
         in Inr (HAL_OK, (put_in epnum ep' h)\<lparr>Instance := r'\<rparr>)))"

end
