(* ===== verification/UsbDef.thy ===== *)
theory UsbDef
  imports UsbPcd
begin

text \<open>
  The handle and the state of the USB device library (\<open>usbd_def.h\<close>, \<open>usbd_cdc.h\<close>), its low-level
  interface (\<open>USBD_LL_*\<close> of \<open>TestUSBTerminal/Src/usbd_conf.c\<close>) and the control pipe
  (\<open>usbd_ioreq.c\<close>).
\<close>

section \<open>State\<close>

datatype usbd_speed = USBD_SPEED_HIGH | USBD_SPEED_FULL | USBD_SPEED_LOW

datatype usbd_status = USBD_OK_st | USBD_BUSY_st | USBD_FAIL_st

record setup_req =
  bmRequest :: u8
  bRequest :: u8
  wValue :: u16
  wIndex :: u16
  wLength :: u16

record usbd_endpoint =
  ep_status :: u32
  total_length :: u32
  rem_length :: u32
  maxpacket :: u32

text \<open>
  The handle of the CDC class without its first member, the array \<open>data\<close> of 512 bytes, which is the object
  \<open>Cdc_data\<close> of the memory: it is what the pointers of a transfer lead into. In the code the two are one object of 540
  bytes, \<open>CmdOpCode\<close> at its offset 512, \<open>RxBuffer\<close> at 516. A store beyond the array, which there goes over these
  members, is \<open>Out_of_bounds\<close> here; nothing is said of the run after it.
\<close>

record cdc_handle =
  CmdOpCode :: u8
  CmdLength :: u8
  RxBuffer :: usb_ptr
  TxBuffer :: usb_ptr
  RxLength :: u32
  TxLength :: u32
  TxState :: u32
  RxState :: u32

text \<open>
  \<open>USBD_HandleTypeDef\<close>. The pointers \<open>pDesc\<close>, \<open>pClass\<close>, \<open>pUserData\<close> and \<open>pData\<close> lead to one object each
  when they are not null (\<open>FS_Desc\<close>, \<open>USBD_CDC\<close>, \<open>USBD_Interface_fops_FS\<close>, \<open>hpcd_USB_OTG_FS\<close>), so a flag
  says whether they are set; \<open>pClassData\<close> is the handle of the class, when it is allocated.
\<close>

record usbd_handle =
  dev_id :: u8
  dev_config :: u32
  dev_default_config :: u32
  dev_config_status :: u32
  dev_speed :: usbd_speed
  ep_in :: "usbd_endpoint list"
  ep_out :: "usbd_endpoint list"
  ep0_state :: u32
  ep0_data_len :: u32
  dev_state :: u8
  dev_old_state :: u8
  dev_address :: u8
  dev_test_mode :: u8
  dev_remote_wakeup :: u32
  request :: setup_req
  pDesc :: bool
  pClass :: bool
  pClassData :: "cdc_handle option"
  pUserData :: bool
  pData :: bool

text \<open>
  The whole state: the two handles, the byte arrays, what the next \<open>malloc\<close> of a class handle gives,
  the line coding kept by \<open>usbd_cdc_if.c\<close>, and the state of the application above.
\<close>

record 'a usbd =
  pdev :: usbd_handle
  hpcd :: pcd_handle
  mem :: "usb_obj \<Rightarrow> bytes"
  cdc_malloc :: "cdc_handle option"
  tLineCoding :: bytes
  app :: 'a

abbreviation (input) USBD_STATE_DEFAULT :: u8 where "USBD_STATE_DEFAULT \<equiv> 1"
abbreviation (input) USBD_STATE_ADDRESSED :: u8 where "USBD_STATE_ADDRESSED \<equiv> 2"
abbreviation (input) USBD_STATE_CONFIGURED :: u8 where "USBD_STATE_CONFIGURED \<equiv> 3"
abbreviation (input) USBD_STATE_SUSPENDED :: u8 where "USBD_STATE_SUSPENDED \<equiv> 4"
abbreviation (input) USBD_EP0_SETUP :: u32 where "USBD_EP0_SETUP \<equiv> 1"
abbreviation (input) USBD_EP0_DATA_IN :: u32 where "USBD_EP0_DATA_IN \<equiv> 2"
abbreviation (input) USBD_EP0_DATA_OUT :: u32 where "USBD_EP0_DATA_OUT \<equiv> 3"
abbreviation (input) USBD_EP0_STATUS_IN :: u32 where "USBD_EP0_STATUS_IN \<equiv> 4"
abbreviation (input) USBD_EP0_STATUS_OUT :: u32 where "USBD_EP0_STATUS_OUT \<equiv> 5"

definition set_pdev :: "(usbd_handle \<Rightarrow> usbd_handle) \<Rightarrow> 'a usbd \<Rightarrow> 'a usbd" where
  "set_pdev f s = s\<lparr>pdev := f (pdev s)\<rparr>"

section \<open>The objects behind the pointers\<close>

definition req_bytes :: "setup_req \<Rightarrow> bytes" where
  "req_bytes q = [bmRequest q, bRequest q] @ le_bytes 2 (wValue q) @ le_bytes 2 (wIndex q) @ le_bytes 2 (wLength q)"

definition req_of_bytes :: "bytes \<Rightarrow> setup_req" where
  "req_of_bytes d = \<lparr>bmRequest = d ! 0, bRequest = d ! 1, wValue = le_word (take 2 (drop 2 d)),
     wIndex = le_word (take 2 (drop 4 d)), wLength = le_word (take 2 (drop 6 d))\<rparr>"

text \<open>The bytes of an object; the data of a class handle that was freed is gone.\<close>

definition usb_load :: "'a usbd \<Rightarrow> usb_obj \<Rightarrow> bytes outcome" where
  "usb_load s obj = (case obj of
       Ep_in_status i \<Rightarrow> Inr (le_bytes 4 (ep_status (ep_in (pdev s) ! i)))
     | Ep_out_status i \<Rightarrow> Inr (le_bytes 4 (ep_status (ep_out (pdev s) ! i)))
     | Dev_config \<Rightarrow> Inr (le_bytes 4 (dev_config (pdev s)))
     | Dev_default_config \<Rightarrow> Inr (le_bytes 4 (dev_default_config (pdev s)))
     | Dev_config_status \<Rightarrow> Inr (le_bytes 4 (dev_config_status (pdev s)))
     | Request \<Rightarrow> Inr (req_bytes (request (pdev s)))
     | Cdc_data \<Rightarrow> (case pClassData (pdev s) of None \<Rightarrow> Inl Dangling | Some h \<Rightarrow> Inr (mem s Cdc_data))
     | App_buffer bs \<Rightarrow> Inr bs
     | obj \<Rightarrow> Inr (mem s obj))"

definition usb_read :: "'a usbd \<Rightarrow> usb_rd" where
  "usb_read s p n = (case p of
       None \<Rightarrow> if n = 0 then Inr [] else Inl Null_deref
     | Some (obj, off) \<Rightarrow> obind (usb_load s obj) (buf_read off n))"

text \<open>
  Storing bytes behind a pointer: into the request or a byte array. The code stores through no pointer
  to anything else.
\<close>

definition usb_put :: "usb_obj \<Rightarrow> bytes \<Rightarrow> 'a usbd \<Rightarrow> 'a usbd outcome" where
  "usb_put obj bs s = (case obj of
       Request \<Rightarrow> Inr (set_pdev (\<lambda>d. d\<lparr>request := req_of_bytes bs\<rparr>) s)
     | Ep_in_status i \<Rightarrow> Inl Out_of_bounds
     | Ep_out_status i \<Rightarrow> Inl Out_of_bounds
     | Dev_config \<Rightarrow> Inl Out_of_bounds
     | Dev_default_config \<Rightarrow> Inl Out_of_bounds
     | Dev_config_status \<Rightarrow> Inl Out_of_bounds
     | App_buffer bs \<Rightarrow> Inl Out_of_bounds
     | obj \<Rightarrow> Inr (s\<lparr>mem := (mem s)(obj := bs)\<rparr>))"

definition usb_write :: "usb_ptr \<Rightarrow> bytes \<Rightarrow> 'a usbd \<Rightarrow> 'a usbd outcome" where
  "usb_write p bs s = (case p of
       None \<Rightarrow> if bs = [] then Inr s else Inl Null_deref
     | Some (obj, off) \<Rightarrow>
         obind (usb_load s obj) (\<lambda>old. obind (buf_write off bs old) (\<lambda>new. usb_put obj new s)))"

lemma req_roundtrip [simp]: "req_of_bytes (req_bytes q) = q"
proof -
  have take16: "take_bit 16 w = w" for w :: u16
    by (rule bit_word_eqI) (simp add: bit_simps)
  have le16: "le_word (le_bytes 2 w) = w" for w :: u16
    by (simp add: le_word_bytes take16)
  show ?thesis
    unfolding req_of_bytes_def req_bytes_def
    using le16 by (simp add: numeral_eq_Suc)
qed

section \<open>The low-level interface\<close>

fun hal_to_usbd :: "hal_status \<Rightarrow> usbd_status" where
  "hal_to_usbd HAL_OK = USBD_OK_st"
| "hal_to_usbd HAL_ERROR = USBD_FAIL_st"
| "hal_to_usbd HAL_BUSY = USBD_BUSY_st"
| "hal_to_usbd HAL_TIMEOUT = USBD_FAIL_st"

text \<open>
  Every function calls one of the driver's with \<open>pdev->pData\<close> and translates its status.
\<close>

definition with_pcd :: "(pcd_handle \<Rightarrow> (hal_status \<times> pcd_handle) outcome) \<Rightarrow> 'a usbd \<Rightarrow> (usbd_status \<times> 'a usbd) outcome"
where
  "with_pcd f s =
     (if pData (pdev s)
      then obind (f (hpcd s)) (\<lambda>(st, h). Inr (hal_to_usbd st, s\<lparr>hpcd := h\<rparr>))
      else Inl Null_deref)"

text \<open>
  \<open>USBD_LL_Init\<close>: \<open>HAL_PCD_Init\<close> cannot fail here. The device has the identifier \<open>DEVICE_FS = 0\<close>.
\<close>

definition USBD_LL_Init :: "'a usbd \<Rightarrow> usbd_status \<times> 'a usbd" where
  "USBD_LL_Init s =
     (if dev_id (pdev s) = 0
      then let s1 = set_pdev (\<lambda>d. d\<lparr>pData := True\<rparr>) s;
               h0 = (hpcd s1)\<lparr>Init := (Init (hpcd s1))\<lparr>dev_endpoints := 4, Init_speed := 2, dma_enable := 0, ep0_mps := 0,
                      phy_itface := 2, Sof_enable := 1, low_power_enable := 0, lpm_enable := 0,
                      vbus_sensing_enable := 1, use_dedicated_ep1 := 0\<rparr>\<rparr>;
               h1 = snd (HAL_PCD_Init h0);
               h2 = HAL_PCDEx_SetTxFiFo 1 0x80 (HAL_PCDEx_SetTxFiFo 0 0x40 (HAL_PCDEx_SetRxFiFo 0x80 h1))
        in (USBD_OK_st, s1\<lparr>hpcd := h2\<rparr>)
      else (USBD_OK_st, s))"

definition USBD_LL_DeInit :: "'a usbd \<Rightarrow> (usbd_status \<times> 'a usbd) outcome" where
  "USBD_LL_DeInit s =
     (if pData (pdev s) then with_pcd (\<lambda>h. Inr (HAL_PCD_DeInit h)) s else Inr (hal_to_usbd HAL_ERROR, s))"

definition USBD_LL_Start :: "'a usbd \<Rightarrow> (usbd_status \<times> 'a usbd) outcome" where
  "USBD_LL_Start = with_pcd (\<lambda>h. Inr (HAL_PCD_Start h))"

definition USBD_LL_Stop :: "'a usbd \<Rightarrow> (usbd_status \<times> 'a usbd) outcome" where
  "USBD_LL_Stop = with_pcd (\<lambda>h. Inr (HAL_PCD_Stop h))"

definition USBD_LL_OpenEP :: "u8 \<Rightarrow> u8 \<Rightarrow> u16 \<Rightarrow> 'a usbd \<Rightarrow> (usbd_status \<times> 'a usbd) outcome" where
  "USBD_LL_OpenEP ep_addr etype ep_mps = with_pcd (HAL_PCD_EP_Open ep_addr ep_mps etype)"

definition USBD_LL_CloseEP :: "u8 \<Rightarrow> 'a usbd \<Rightarrow> (usbd_status \<times> 'a usbd) outcome" where
  "USBD_LL_CloseEP ep_addr = with_pcd (HAL_PCD_EP_Close ep_addr)"

definition USBD_LL_FlushEP :: "u8 \<Rightarrow> 'a usbd \<Rightarrow> (usbd_status \<times> 'a usbd) outcome" where
  "USBD_LL_FlushEP ep_addr = with_pcd (\<lambda>h. Inr (HAL_PCD_EP_Flush ep_addr h))"

definition USBD_LL_StallEP :: "u8 \<Rightarrow> 'a usbd \<Rightarrow> (usbd_status \<times> 'a usbd) outcome" where
  "USBD_LL_StallEP ep_addr = with_pcd (HAL_PCD_EP_SetStall ep_addr)"

definition USBD_LL_ClearStallEP :: "u8 \<Rightarrow> 'a usbd \<Rightarrow> (usbd_status \<times> 'a usbd) outcome" where
  "USBD_LL_ClearStallEP ep_addr = with_pcd (HAL_PCD_EP_ClrStall ep_addr)"

definition USBD_LL_IsStallEP :: "u8 \<Rightarrow> 'a usbd \<Rightarrow> u8 outcome" where
  "USBD_LL_IsStallEP ep_addr s =
     (if pData (pdev s) then obind (get_ep ep_addr (hpcd s)) (\<lambda>ep. Inr (ep_is_stall ep)) else Inl Null_deref)"

definition USBD_LL_SetUSBAddress :: "u8 \<Rightarrow> 'a usbd \<Rightarrow> (usbd_status \<times> 'a usbd) outcome" where
  "USBD_LL_SetUSBAddress addr = with_pcd (\<lambda>h. Inr (HAL_PCD_SetAddress addr h))"

definition USBD_LL_Transmit :: "u8 \<Rightarrow> usb_ptr \<Rightarrow> u16 \<Rightarrow> 'a usbd \<Rightarrow> (usbd_status \<times> 'a usbd) outcome" where
  "USBD_LL_Transmit ep_addr pbuf len s = with_pcd (HAL_PCD_EP_Transmit (usb_read s) ep_addr pbuf (ucast len)) s"

definition USBD_LL_PrepareReceive :: "u8 \<Rightarrow> usb_ptr \<Rightarrow> u16 \<Rightarrow> 'a usbd \<Rightarrow> (usbd_status \<times> 'a usbd) outcome" where
  "USBD_LL_PrepareReceive ep_addr pbuf len s = with_pcd (HAL_PCD_EP_Receive (usb_read s) ep_addr pbuf (ucast len)) s"

definition USBD_LL_GetRxDataSize :: "u8 \<Rightarrow> 'a usbd \<Rightarrow> u32 outcome" where
  "USBD_LL_GetRxDataSize ep_addr s =
     (if pData (pdev s) then obind (HAL_PCD_EP_GetRxCount ep_addr (hpcd s)) (\<lambda>n. Inr (ucast n)) else Inl Null_deref)"

section \<open>The control pipe\<close>

text \<open>
  The library drops the status of the low-level calls; a function whose own status is always
  \<open>USBD_OK\<close> gives the new state only.
\<close>

definition drop_status :: "('r \<times> 's) outcome \<Rightarrow> 's outcome" where
  "drop_status m = obind m (\<lambda>(_, s). Inr s)"

definition ep0_in :: "(usbd_endpoint \<Rightarrow> usbd_endpoint) \<Rightarrow> usbd_handle \<Rightarrow> usbd_handle" where
  "ep0_in f d = d\<lparr>ep_in := (ep_in d)[0 := f (ep_in d ! 0)]\<rparr>"

definition ep0_out :: "(usbd_endpoint \<Rightarrow> usbd_endpoint) \<Rightarrow> usbd_handle \<Rightarrow> usbd_handle" where
  "ep0_out f d = d\<lparr>ep_out := (ep_out d)[0 := f (ep_out d ! 0)]\<rparr>"

definition USBD_CtlSendData :: "usb_ptr \<Rightarrow> u16 \<Rightarrow> 'a usbd \<Rightarrow> 'a usbd outcome" where
  "USBD_CtlSendData pbuf len s =
     (let s1 = set_pdev (\<lambda>d. ep0_in (\<lambda>e. e\<lparr>total_length := ucast len, rem_length := ucast len\<rparr>)
                              (d\<lparr>ep0_state := USBD_EP0_DATA_IN\<rparr>)) s
      in drop_status (USBD_LL_Transmit 0 pbuf len s1))"

definition USBD_CtlContinueSendData :: "usb_ptr \<Rightarrow> u16 \<Rightarrow> 'a usbd \<Rightarrow> 'a usbd outcome" where
  "USBD_CtlContinueSendData pbuf len s = drop_status (USBD_LL_Transmit 0 pbuf len s)"

definition USBD_CtlPrepareRx :: "usb_ptr \<Rightarrow> u16 \<Rightarrow> 'a usbd \<Rightarrow> 'a usbd outcome" where
  "USBD_CtlPrepareRx pbuf len s =
     (let s1 = set_pdev (\<lambda>d. ep0_out (\<lambda>e. e\<lparr>total_length := ucast len, rem_length := ucast len\<rparr>)
                              (d\<lparr>ep0_state := USBD_EP0_DATA_OUT\<rparr>)) s
      in drop_status (USBD_LL_PrepareReceive 0 pbuf len s1))"

definition USBD_CtlContinueRx :: "usb_ptr \<Rightarrow> u16 \<Rightarrow> 'a usbd \<Rightarrow> 'a usbd outcome" where
  "USBD_CtlContinueRx pbuf len s = drop_status (USBD_LL_PrepareReceive 0 pbuf len s)"

definition USBD_CtlSendStatus :: "'a usbd \<Rightarrow> 'a usbd outcome" where
  "USBD_CtlSendStatus s =
     drop_status (USBD_LL_Transmit 0 None 0 (set_pdev (\<lambda>d. d\<lparr>ep0_state := USBD_EP0_STATUS_IN\<rparr>) s))"

definition USBD_CtlReceiveStatus :: "'a usbd \<Rightarrow> 'a usbd outcome" where
  "USBD_CtlReceiveStatus s =
     drop_status (USBD_LL_PrepareReceive 0 None 0 (set_pdev (\<lambda>d. d\<lparr>ep0_state := USBD_EP0_STATUS_OUT\<rparr>) s))"

definition USBD_GetRxCount :: "u8 \<Rightarrow> 'a usbd \<Rightarrow> u16 outcome" where
  "USBD_GetRxCount ep_addr s = obind (USBD_LL_GetRxDataSize ep_addr s) (\<lambda>n. Inr (ucast n))"

end
