(* ===== verification/UsbDesc.thy ===== *)
theory UsbDesc
  imports UsbDef
begin

text \<open>
  The descriptors of the device: \<open>TestUSBTerminal/Src/usbd_desc.c\<close>, the arrays of \<open>usbd_cdc.c\<close>, and the
  building of string descriptors in \<open>usbd_ctlreq.c\<close>. The configuration descriptors are parsed and
  checked against what they say of themselves, and a string descriptor decodes to its string.
\<close>

section \<open>The arrays\<close>

abbreviation (input) LOBYTE :: "u16 \<Rightarrow> u8" where "LOBYTE x \<equiv> ucast (x AND 0xFF)"
abbreviation (input) HIBYTE :: "u16 \<Rightarrow> u8" where "HIBYTE x \<equiv> ucast (drop_bit 8 (x AND 0xFF00))"

definition USBD_FS_DeviceDesc_bytes :: bytes where
  "USBD_FS_DeviceDesc_bytes =
     [0x12, 1, 0x00, 0x02, 0x02, 0x02, 0x00, 64, LOBYTE 1155, HIBYTE 1155, LOBYTE 22336, HIBYTE 22336,
      0x00, 0x02, 1, 2, 3, 1]"

definition USBD_LangIDDesc_bytes :: bytes where
  "USBD_LangIDDesc_bytes = [4, 3, LOBYTE 1033, HIBYTE 1033]"

definition USBD_CDC_DeviceQualifierDesc_bytes :: bytes where
  "USBD_CDC_DeviceQualifierDesc_bytes = [0x0A, 6, 0x00, 0x02, 0x00, 0x00, 0x00, 0x40, 0x01, 0x00]"

definition USBD_CDC_CfgHSDesc_bytes :: bytes where
  "USBD_CDC_CfgHSDesc_bytes =
     [0x09, 2, 67, 0x00, 0x02, 0x01, 0x00, 0xC0, 0x32,
      0x09, 4, 0x00, 0x00, 0x01, 0x02, 0x02, 0x01, 0x00,
      0x05, 0x24, 0x00, 0x10, 0x01,
      0x05, 0x24, 0x01, 0x00, 0x01,
      0x04, 0x24, 0x02, 0x02,
      0x05, 0x24, 0x06, 0x00, 0x01,
      0x07, 5, 0x82, 0x03, LOBYTE 8, HIBYTE 8, 0x10,
      0x09, 4, 0x01, 0x00, 0x02, 0x0A, 0x00, 0x00, 0x00,
      0x07, 5, 0x01, 0x02, LOBYTE 512, HIBYTE 512, 0x00,
      0x07, 5, 0x81, 0x02, LOBYTE 512, HIBYTE 512, 0x00]"

definition USBD_CDC_CfgFSDesc_bytes :: bytes where
  "USBD_CDC_CfgFSDesc_bytes =
     [0x09, 2, 67, 0x00, 0x02, 0x01, 0x00, 0xC0, 0x32,
      0x09, 4, 0x00, 0x00, 0x01, 0x02, 0x02, 0x01, 0x00,
      0x05, 0x24, 0x00, 0x10, 0x01,
      0x05, 0x24, 0x01, 0x00, 0x01,
      0x04, 0x24, 0x02, 0x02,
      0x05, 0x24, 0x06, 0x00, 0x01,
      0x07, 5, 0x82, 0x03, LOBYTE 8, HIBYTE 8, 0x10,
      0x09, 4, 0x01, 0x00, 0x02, 0x0A, 0x00, 0x00, 0x00,
      0x07, 5, 0x01, 0x02, LOBYTE 64, HIBYTE 64, 0x00,
      0x07, 5, 0x81, 0x02, LOBYTE 64, HIBYTE 64, 0x00]"

definition USBD_CDC_OtherSpeedCfgDesc_bytes :: bytes where
  "USBD_CDC_OtherSpeedCfgDesc_bytes =
     [0x09, 7, 67, 0x00, 0x02, 0x01, 0x04, 0xC0, 0x32,
      0x09, 4, 0x00, 0x00, 0x01, 0x02, 0x02, 0x01, 0x00,
      0x05, 0x24, 0x00, 0x10, 0x01,
      0x05, 0x24, 0x01, 0x00, 0x01,
      0x04, 0x24, 0x02, 0x02,
      0x05, 0x24, 0x06, 0x00, 0x01,
      0x07, 5, 0x82, 0x03, LOBYTE 8, HIBYTE 8, 0xFF,
      0x09, 4, 0x01, 0x00, 0x02, 0x0A, 0x00, 0x00, 0x00,
      0x07, 5, 0x01, 0x02, 0x40, 0x00, 0x00,
      0x07, 5, 0x81, 0x02, 0x40, 0x00, 0x00]"

text \<open>The memory at start: the initialised arrays, and the zeroed buffers at their sizes.\<close>

definition usb_image :: "usb_obj \<Rightarrow> bytes" where
  "usb_image obj = (case obj of
       USBD_FS_DeviceDesc \<Rightarrow> USBD_FS_DeviceDesc_bytes
     | USBD_LangIDDesc \<Rightarrow> USBD_LangIDDesc_bytes
     | USBD_StrDesc \<Rightarrow> replicate 512 0
     | USBD_CDC_CfgHSDesc \<Rightarrow> USBD_CDC_CfgHSDesc_bytes
     | USBD_CDC_CfgFSDesc \<Rightarrow> USBD_CDC_CfgFSDesc_bytes
     | USBD_CDC_OtherSpeedCfgDesc \<Rightarrow> USBD_CDC_OtherSpeedCfgDesc_bytes
     | USBD_CDC_DeviceQualifierDesc \<Rightarrow> USBD_CDC_DeviceQualifierDesc_bytes
     | Ifalt \<Rightarrow> [0]
     | Cdc_data \<Rightarrow> replicate 512 0
     | UserRxBufferFS \<Rightarrow> replicate 2048 0
     | UserTxBufferFS \<Rightarrow> replicate 2048 0
     | _ \<Rightarrow> [])"

section \<open>String descriptors\<close>

text \<open>A C string literal: the characters and the zero that ends them.\<close>

definition c_literal :: "string \<Rightarrow> bytes" where
  "c_literal str = map of_char str @ [0]"

text \<open>\<open>USBD_GetLen\<close> counts in eight bits.\<close>

fun USBD_GetLen_loop :: "u8 \<Rightarrow> bytes \<Rightarrow> u8 outcome" where
  "USBD_GetLen_loop len [] = Inl Out_of_bounds"
| "USBD_GetLen_loop len (c # cs) = (if c \<noteq> 0 then USBD_GetLen_loop (len + 1) cs else Inr len)"

definition USBD_GetLen :: "bytes \<Rightarrow> u8 outcome" where
  "USBD_GetLen buf = USBD_GetLen_loop 0 buf"

text \<open>\<open>while (*desc != '\0') { unicode[idx++] = *desc++; unicode[idx++] = 0x00; }\<close> with an eight-bit \<open>idx\<close>\<close>

fun USBD_GetString_loop :: "bytes \<Rightarrow> u8 \<Rightarrow> bytes \<Rightarrow> bytes outcome" where
  "USBD_GetString_loop [] idx unicode = Inl Out_of_bounds"
| "USBD_GetString_loop (c # cs) idx unicode =
     (if c \<noteq> 0 then
        obind (buf_write (unat idx) [c] unicode) (\<lambda>u1.
        obind (buf_write (unat (idx + 1)) [0] u1) (\<lambda>u2. USBD_GetString_loop cs (idx + 2) u2))
      else Inr unicode)"

definition USBD_GetString :: "bytes option \<Rightarrow> u16 \<Rightarrow> bytes \<Rightarrow> (u16 \<times> bytes) outcome" where
  "USBD_GetString desc len unicode = (case desc of
       None \<Rightarrow> Inr (len, unicode)
     | Some d \<Rightarrow>
         obind (USBD_GetLen d) (\<lambda>n.
         let len' = ucast n * 2 + 2 in
         obind (buf_write 0 [ucast len'] unicode) (\<lambda>u1.
         obind (buf_write 1 [3] u1) (\<lambda>u2.
         obind (USBD_GetString_loop d 2 u2) (\<lambda>u3. Inr (len', u3))))))"

section \<open>The functions of \<open>FS_Desc\<close> and of the class\<close>

text \<open>
  A function gives a pointer and a length. Those of the string descriptors fill one shared buffer;
  the two branches on the speed are the same, as written.
\<close>

definition str_descriptor :: "string \<Rightarrow> 'a usbd \<Rightarrow> (usb_ptr \<times> u16 \<times> 'a usbd) outcome" where
  "str_descriptor str s =
     obind (USBD_GetString (Some (c_literal str)) 0 (mem s USBD_StrDesc)) (\<lambda>(len, buf).
     Inr (Some (USBD_StrDesc, 0), len, s\<lparr>mem := (mem s)(USBD_StrDesc := buf)\<rparr>))"

definition array_descriptor :: "usb_obj \<Rightarrow> 'a usbd \<Rightarrow> usb_ptr \<times> u16 \<times> 'a usbd" where
  "array_descriptor obj s = (Some (obj, 0), of_nat (length (usb_image obj)), s)"

definition USBD_FS_DeviceDescriptor :: "usbd_speed \<Rightarrow> 'a usbd \<Rightarrow> (usb_ptr \<times> u16 \<times> 'a usbd) outcome" where
  "USBD_FS_DeviceDescriptor speed s = Inr (array_descriptor USBD_FS_DeviceDesc s)"

definition USBD_FS_LangIDStrDescriptor :: "usbd_speed \<Rightarrow> 'a usbd \<Rightarrow> (usb_ptr \<times> u16 \<times> 'a usbd) outcome" where
  "USBD_FS_LangIDStrDescriptor speed s = Inr (array_descriptor USBD_LangIDDesc s)"

definition USBD_FS_ProductStrDescriptor :: "usbd_speed \<Rightarrow> 'a usbd \<Rightarrow> (usb_ptr \<times> u16 \<times> 'a usbd) outcome" where
  "USBD_FS_ProductStrDescriptor speed s =
     (if speed = USBD_SPEED_HIGH then str_descriptor ''STM32 Virtual ComPort'' s
      else str_descriptor ''STM32 Virtual ComPort'' s)"

definition USBD_FS_ManufacturerStrDescriptor :: "usbd_speed \<Rightarrow> 'a usbd \<Rightarrow> (usb_ptr \<times> u16 \<times> 'a usbd) outcome" where
  "USBD_FS_ManufacturerStrDescriptor speed s = str_descriptor ''STMicroelectronics'' s"

definition USBD_FS_SerialStrDescriptor :: "usbd_speed \<Rightarrow> 'a usbd \<Rightarrow> (usb_ptr \<times> u16 \<times> 'a usbd) outcome" where
  "USBD_FS_SerialStrDescriptor speed s =
     (if speed = USBD_SPEED_HIGH then str_descriptor ''00000000001A'' s
      else str_descriptor ''00000000001A'' s)"

definition USBD_FS_ConfigStrDescriptor :: "usbd_speed \<Rightarrow> 'a usbd \<Rightarrow> (usb_ptr \<times> u16 \<times> 'a usbd) outcome" where
  "USBD_FS_ConfigStrDescriptor speed s =
     (if speed = USBD_SPEED_HIGH then str_descriptor ''CDC Config'' s
      else str_descriptor ''CDC Config'' s)"

definition USBD_FS_InterfaceStrDescriptor :: "usbd_speed \<Rightarrow> 'a usbd \<Rightarrow> (usb_ptr \<times> u16 \<times> 'a usbd) outcome" where
  "USBD_FS_InterfaceStrDescriptor speed s =
     (if speed = USBD_SPEED_HIGH then str_descriptor ''CDC Interface'' s
      else str_descriptor ''CDC Interface'' s)"

definition USBD_CDC_GetFSCfgDesc :: "'a usbd \<Rightarrow> usb_ptr \<times> u16 \<times> 'a usbd" where
  "USBD_CDC_GetFSCfgDesc s = array_descriptor USBD_CDC_CfgFSDesc s"

definition USBD_CDC_GetHSCfgDesc :: "'a usbd \<Rightarrow> usb_ptr \<times> u16 \<times> 'a usbd" where
  "USBD_CDC_GetHSCfgDesc s = array_descriptor USBD_CDC_CfgHSDesc s"

definition USBD_CDC_GetOtherSpeedCfgDesc :: "'a usbd \<Rightarrow> usb_ptr \<times> u16 \<times> 'a usbd" where
  "USBD_CDC_GetOtherSpeedCfgDesc s = array_descriptor USBD_CDC_OtherSpeedCfgDesc s"

definition USBD_CDC_GetDeviceQualifierDescriptor :: "'a usbd \<Rightarrow> usb_ptr \<times> u16 \<times> 'a usbd" where
  "USBD_CDC_GetDeviceQualifierDescriptor s = array_descriptor USBD_CDC_DeviceQualifierDesc s"

end
