(* ===== verification/UsbCore.thy ===== *)
theory UsbCore
  imports UsbDesc
begin

text \<open>
  The core of the device library, \<open>usbd_core.c\<close>, and the standard requests, \<open>usbd_ctlreq.c\<close>
  (\<open>Middlewares/ST/STM32_USB_Device_Library/Core/Src\<close>). The class is a record of functions, as
  \<open>USBD_ClassTypeDef\<close> is a table of pointers; a null pointer of the table is \<open>None\<close>. A request
  handler takes the request from the handle, since \<open>req\<close> is always \<open>&pdev->request\<close>.
\<close>

section \<open>The class\<close>

record 's usbd_class =
  cls_Init :: "u8 \<Rightarrow> 's \<Rightarrow> (u8 \<times> 's) outcome"
  cls_DeInit :: "u8 \<Rightarrow> 's \<Rightarrow> 's outcome"
  cls_Setup :: "'s \<Rightarrow> 's outcome"
  cls_EP0_TxSent :: "('s \<Rightarrow> 's outcome) option"
  cls_EP0_RxReady :: "('s \<Rightarrow> 's outcome) option"
  cls_DataIn :: "(u8 \<Rightarrow> 's \<Rightarrow> 's outcome) option"
  cls_DataOut :: "(u8 \<Rightarrow> 's \<Rightarrow> 's outcome) option"
  cls_SOF :: "('s \<Rightarrow> 's outcome) option"
  cls_GetHSConfigDescriptor :: "'s \<Rightarrow> usb_ptr \<times> u16 \<times> 's"
  cls_GetFSConfigDescriptor :: "'s \<Rightarrow> usb_ptr \<times> u16 \<times> 's"
  cls_GetOtherSpeedConfigDescriptor :: "'s \<Rightarrow> usb_ptr \<times> u16 \<times> 's"
  cls_GetDeviceQualifierDescriptor :: "'s \<Rightarrow> usb_ptr \<times> u16 \<times> 's"

text \<open>\<open>pdev->pClass->f(...)\<close> and \<open>pdev->pDesc->f(...)\<close>\<close>

definition via_class :: "('a usbd \<Rightarrow> 'r outcome) \<Rightarrow> 'a usbd \<Rightarrow> 'r outcome" where
  "via_class f s = (if pClass (pdev s) then f s else Inl Null_deref)"

definition via_desc :: "('a usbd \<Rightarrow> 'r outcome) \<Rightarrow> 'a usbd \<Rightarrow> 'r outcome" where
  "via_desc f s = (if pDesc (pdev s) then f s else Inl Null_deref)"

definition USBD_SetClassConfig :: "'a usbd usbd_class \<Rightarrow> u8 \<Rightarrow> 'a usbd \<Rightarrow> (usbd_status \<times> 'a usbd) outcome" where
  "USBD_SetClassConfig cls cfgidx s =
     (if pClass (pdev s)
      then obind (cls_Init cls cfgidx s) (\<lambda>(r, s'). Inr (if r = 0 then USBD_OK_st else USBD_FAIL_st, s'))
      else Inr (USBD_FAIL_st, s))"

definition USBD_ClrClassConfig :: "'a usbd usbd_class \<Rightarrow> u8 \<Rightarrow> 'a usbd \<Rightarrow> 'a usbd outcome" where
  "USBD_ClrClassConfig cls cfgidx = via_class (cls_DeInit cls cfgidx)"

section \<open>Standard requests\<close>

definition USBD_CtlError :: "'a usbd \<Rightarrow> 'a usbd outcome" where
  "USBD_CtlError s = obind (drop_status (USBD_LL_StallEP 0x80 s)) (\<lambda>s1. drop_status (USBD_LL_StallEP 0 s1))"

definition SWAPBYTE :: "bytes \<Rightarrow> nat \<Rightarrow> u16" where
  "SWAPBYTE d i = ucast (d ! i) + push_bit 8 (ucast (d ! (i + 1)))"

definition USBD_ParseSetupRequest :: "bytes \<Rightarrow> setup_req outcome" where
  "USBD_ParseSetupRequest pdata =
     obind (buf_read 0 8 pdata) (\<lambda>d.
     Inr \<lparr>bmRequest = d ! 0, bRequest = d ! 1, wValue = SWAPBYTE d 2, wIndex = SWAPBYTE d 4, wLength = SWAPBYTE d 6\<rparr>)"

text \<open>
  The choice of the descriptor: \<open>None\<close> is the early return after \<open>USBD_CtlError\<close>. The types are
  1 device, 2 configuration, 3 string, 6 qualifier, 7 other speed; the string indices run from 0 to 5.
\<close>

definition string_descriptor :: "u8 \<Rightarrow> 'a usbd \<Rightarrow> (usb_ptr \<times> u16 \<times> 'a usbd) option outcome" where
  "string_descriptor idx s =
     (let speed = dev_speed (pdev s); get = (\<lambda>f. obind (via_desc (f speed) s) (\<lambda>r. Inr (Some r))) in
      if idx = 0 then get USBD_FS_LangIDStrDescriptor
      else if idx = 1 then get USBD_FS_ManufacturerStrDescriptor
      else if idx = 2 then get USBD_FS_ProductStrDescriptor
      else if idx = 3 then get USBD_FS_SerialStrDescriptor
      else if idx = 4 then get USBD_FS_ConfigStrDescriptor
      else if idx = 5 then get USBD_FS_InterfaceStrDescriptor
      else Inr None)"

text \<open>\<open>pbuf[1] = type\<close> after a class function.\<close>

definition retype :: "u8 \<Rightarrow> ('a usbd \<Rightarrow> usb_ptr \<times> u16 \<times> 'a usbd) \<Rightarrow> 'a usbd \<Rightarrow> (usb_ptr \<times> u16 \<times> 'a usbd) option outcome"
where
  "retype t get = via_class (\<lambda>s. case get s of
     (p, len, s1) \<Rightarrow> obind (usb_write (ptr_add p 1) [t] s1) (\<lambda>s2. Inr (Some (p, len, s2))))"

definition find_descriptor :: "'a usbd usbd_class \<Rightarrow> 'a usbd \<Rightarrow> (usb_ptr \<times> u16 \<times> 'a usbd) option outcome" where
  "find_descriptor cls s =
     (let q = request (pdev s); t = drop_bit 8 (wValue q); speed = dev_speed (pdev s) in
      if t = 1 then obind (via_desc (USBD_FS_DeviceDescriptor speed) s) (\<lambda>r. Inr (Some r))
      else if t = 2 then
        (if speed = USBD_SPEED_HIGH then retype 2 (cls_GetHSConfigDescriptor cls) s
         else retype 2 (cls_GetFSConfigDescriptor cls) s)
      else if t = 3 then string_descriptor (ucast (wValue q)) s
      else if t = 6 then
        (if speed = USBD_SPEED_HIGH
         then via_class (\<lambda>s. Inr (Some (cls_GetDeviceQualifierDescriptor cls s))) s else Inr None)
      else if t = 7 then
        (if speed = USBD_SPEED_HIGH then retype 7 (cls_GetOtherSpeedConfigDescriptor cls) s else Inr None)
      else Inr None)"

definition USBD_GetDescriptor :: "'a usbd usbd_class \<Rightarrow> 'a usbd \<Rightarrow> 'a usbd outcome" where
  "USBD_GetDescriptor cls s =
     obind (find_descriptor cls s) (\<lambda>r. case r of
       None \<Rightarrow> USBD_CtlError s
     | Some (pbuf, len, s1) \<Rightarrow>
         (let wl = wLength (request (pdev s1)) in
          if len \<noteq> 0 \<and> wl \<noteq> 0 then USBD_CtlSendData pbuf (if len < wl then len else wl) s1 else Inr s1))"

definition USBD_SetAddress :: "'a usbd \<Rightarrow> 'a usbd outcome" where
  "USBD_SetAddress s =
     (let q = request (pdev s) in
      if wIndex q = 0 \<and> wLength q = 0 then
        (let dev_addr = ucast (wValue q) AND 0x7F in
         if dev_state (pdev s) = USBD_STATE_CONFIGURED then USBD_CtlError s
         else
           obind (drop_status (USBD_LL_SetUSBAddress dev_addr (set_pdev (\<lambda>d. d\<lparr>dev_address := dev_addr\<rparr>) s))) (\<lambda>s1.
           obind (USBD_CtlSendStatus s1) (\<lambda>s2.
           Inr (set_pdev (\<lambda>d. d\<lparr>dev_state :=
             (if dev_addr \<noteq> 0 then USBD_STATE_ADDRESSED else USBD_STATE_DEFAULT)\<rparr>) s2))))
      else USBD_CtlError s)"

text \<open>The common end of two branches: the class is configured, or the request fails.\<close>

definition config_class :: "'a usbd usbd_class \<Rightarrow> u8 \<Rightarrow> 'a usbd \<Rightarrow> 'a usbd outcome" where
  "config_class cls cfgidx s =
     obind (USBD_SetClassConfig cls cfgidx s) (\<lambda>(r, s1).
     if r = USBD_FAIL_st then USBD_CtlError s1 else USBD_CtlSendStatus s1)"

definition USBD_SetConfig :: "'a usbd usbd_class \<Rightarrow> 'a usbd \<Rightarrow> 'a usbd outcome" where
  "USBD_SetConfig cls s =
     (let cfgidx = ucast (wValue (request (pdev s))) :: u8 in
      if 1 < cfgidx then USBD_CtlError s
      else if dev_state (pdev s) = USBD_STATE_ADDRESSED then
        (if cfgidx \<noteq> 0
         then config_class cls cfgidx
                (set_pdev (\<lambda>d. d\<lparr>dev_config := ucast cfgidx, dev_state := USBD_STATE_CONFIGURED\<rparr>) s)
         else USBD_CtlSendStatus s)
      else if dev_state (pdev s) = USBD_STATE_CONFIGURED then
        (if cfgidx = 0 then
           obind (USBD_ClrClassConfig cls cfgidx
                    (set_pdev (\<lambda>d. d\<lparr>dev_state := USBD_STATE_ADDRESSED, dev_config := ucast cfgidx\<rparr>) s))
             USBD_CtlSendStatus
         else if ucast cfgidx \<noteq> dev_config (pdev s) then
           obind (USBD_ClrClassConfig cls (ucast (dev_config (pdev s))) s) (\<lambda>s1.
           config_class cls cfgidx (set_pdev (\<lambda>d. d\<lparr>dev_config := ucast cfgidx\<rparr>) s1))
         else USBD_CtlSendStatus s)
      else USBD_CtlError s)"

definition USBD_GetConfig :: "'a usbd \<Rightarrow> 'a usbd outcome" where
  "USBD_GetConfig s =
     (if wLength (request (pdev s)) \<noteq> 1 then USBD_CtlError s
      else if dev_state (pdev s) = USBD_STATE_ADDRESSED
      then USBD_CtlSendData (Some (Dev_default_config, 0)) 1 (set_pdev (\<lambda>d. d\<lparr>dev_default_config := 0\<rparr>) s)
      else if dev_state (pdev s) = USBD_STATE_CONFIGURED then USBD_CtlSendData (Some (Dev_config, 0)) 1 s
      else USBD_CtlError s)"

definition USBD_GetStatus :: "'a usbd \<Rightarrow> 'a usbd outcome" where
  "USBD_GetStatus s =
     (if dev_state (pdev s) = USBD_STATE_ADDRESSED \<or> dev_state (pdev s) = USBD_STATE_CONFIGURED then
        (let s1 = set_pdev (\<lambda>d. d\<lparr>dev_config_status := 1\<rparr>) s;
             s2 = (if dev_remote_wakeup (pdev s1) \<noteq> 0
                   then set_pdev (\<lambda>d. d\<lparr>dev_config_status := dev_config_status d OR 2\<rparr>) s1 else s1)
         in USBD_CtlSendData (Some (Dev_config_status, 0)) 2 s2)
      else USBD_CtlError s)"

definition USBD_SetFeature :: "'a usbd usbd_class \<Rightarrow> 'a usbd \<Rightarrow> 'a usbd outcome" where
  "USBD_SetFeature cls s =
     (if wValue (request (pdev s)) = 1 then
        obind (via_class (cls_Setup cls) (set_pdev (\<lambda>d. d\<lparr>dev_remote_wakeup := 1\<rparr>) s)) USBD_CtlSendStatus
      else Inr s)"

definition USBD_ClrFeature :: "'a usbd usbd_class \<Rightarrow> 'a usbd \<Rightarrow> 'a usbd outcome" where
  "USBD_ClrFeature cls s =
     (if dev_state (pdev s) = USBD_STATE_ADDRESSED \<or> dev_state (pdev s) = USBD_STATE_CONFIGURED then
        (if wValue (request (pdev s)) = 1 then
           obind (via_class (cls_Setup cls) (set_pdev (\<lambda>d. d\<lparr>dev_remote_wakeup := 0\<rparr>) s)) USBD_CtlSendStatus
         else Inr s)
      else USBD_CtlError s)"

definition USBD_StdDevReq :: "'a usbd usbd_class \<Rightarrow> 'a usbd \<Rightarrow> 'a usbd outcome" where
  "USBD_StdDevReq cls s =
     (let b = bRequest (request (pdev s)) in
      if b = 6 then USBD_GetDescriptor cls s
      else if b = 5 then USBD_SetAddress s
      else if b = 9 then USBD_SetConfig cls s
      else if b = 8 then USBD_GetConfig s
      else if b = 0 then USBD_GetStatus s
      else if b = 3 then USBD_SetFeature cls s
      else if b = 1 then USBD_ClrFeature cls s
      else USBD_CtlError s)"

text \<open>The length is read again after the class has seen the request.\<close>

definition USBD_StdItfReq :: "'a usbd usbd_class \<Rightarrow> 'a usbd \<Rightarrow> 'a usbd outcome" where
  "USBD_StdItfReq cls s =
     (if dev_state (pdev s) = USBD_STATE_CONFIGURED then
        (if LOBYTE (wIndex (request (pdev s))) \<le> 1 then
           obind (via_class (cls_Setup cls) s) (\<lambda>s1.
           if wLength (request (pdev s1)) = 0 then USBD_CtlSendStatus s1 else Inr s1)
         else USBD_CtlError s)
      else USBD_CtlError s)"

text \<open>\<open>pep->status\<close> of an endpoint of the library's handle, which has fifteen in each direction.\<close>

definition set_ep_status :: "u8 \<Rightarrow> u32 \<Rightarrow> 'a usbd \<Rightarrow> (usb_ptr \<times> 'a usbd) outcome" where
  "set_ep_status ep_addr v s =
     (let k = ep_index ep_addr in
      if is_in_addr ep_addr then
        (if k < length (ep_in (pdev s))
         then Inr (Some (Ep_in_status k, 0),
                   set_pdev (\<lambda>d. d\<lparr>ep_in := (ep_in d)[k := (ep_in d ! k)\<lparr>ep_status := v\<rparr>]\<rparr>) s)
         else Inl Out_of_bounds)
      else
        (if k < length (ep_out (pdev s))
         then Inr (Some (Ep_out_status k, 0),
                   set_pdev (\<lambda>d. d\<lparr>ep_out := (ep_out d)[k := (ep_out d ! k)\<lparr>ep_status := v\<rparr>]\<rparr>) s)
         else Inl Out_of_bounds))"

definition ep_set_feature :: "'a usbd usbd_class \<Rightarrow> u8 \<Rightarrow> 'a usbd \<Rightarrow> 'a usbd outcome" where
  "ep_set_feature cls ep_addr s =
     (let stall = (\<lambda>s. if ep_addr \<noteq> 0 \<and> ep_addr \<noteq> 0x80 then drop_status (USBD_LL_StallEP ep_addr s) else Inr s) in
      if dev_state (pdev s) = USBD_STATE_ADDRESSED then stall s
      else if dev_state (pdev s) = USBD_STATE_CONFIGURED then
        obind (if wValue (request (pdev s)) = 0 then stall s else Inr s) (\<lambda>s1.
        obind (via_class (cls_Setup cls) s1) USBD_CtlSendStatus)
      else USBD_CtlError s)"

definition ep_clear_feature :: "'a usbd usbd_class \<Rightarrow> u8 \<Rightarrow> 'a usbd \<Rightarrow> 'a usbd outcome" where
  "ep_clear_feature cls ep_addr s =
     (if dev_state (pdev s) = USBD_STATE_ADDRESSED then
        (if ep_addr \<noteq> 0 \<and> ep_addr \<noteq> 0x80 then drop_status (USBD_LL_StallEP ep_addr s) else Inr s)
      else if dev_state (pdev s) = USBD_STATE_CONFIGURED then
        (if wValue (request (pdev s)) = 0 then
           obind (if ep_addr AND 0x7F \<noteq> 0
                  then obind (drop_status (USBD_LL_ClearStallEP ep_addr s)) (via_class (cls_Setup cls)) else Inr s)
             USBD_CtlSendStatus
         else Inr s)
      else USBD_CtlError s)"

definition ep_get_status :: "u8 \<Rightarrow> 'a usbd \<Rightarrow> 'a usbd outcome" where
  "ep_get_status ep_addr s =
     (if dev_state (pdev s) = USBD_STATE_ADDRESSED then
        (if ep_addr AND 0x7F \<noteq> 0 then drop_status (USBD_LL_StallEP ep_addr s) else Inr s)
      else if dev_state (pdev s) = USBD_STATE_CONFIGURED then
        obind (USBD_LL_IsStallEP ep_addr s) (\<lambda>st.
        obind (set_ep_status ep_addr (if st \<noteq> 0 then 1 else 0) s) (\<lambda>(p, s1). USBD_CtlSendData p 2 s1))
      else USBD_CtlError s)"

definition USBD_StdEPReq :: "'a usbd usbd_class \<Rightarrow> 'a usbd \<Rightarrow> 'a usbd outcome" where
  "USBD_StdEPReq cls s =
     (let q = request (pdev s); ep_addr = LOBYTE (wIndex q) in
      if bmRequest q AND 0x60 = 0x20 then via_class (cls_Setup cls) s
      else if bRequest q = 3 then ep_set_feature cls ep_addr s
      else if bRequest q = 1 then ep_clear_feature cls ep_addr s
      else if bRequest q = 0 then ep_get_status ep_addr s
      else Inr s)"

section \<open>The core\<close>

definition USBD_Init :: "bool \<Rightarrow> u8 \<Rightarrow> 'a usbd \<Rightarrow> 'a usbd" where
  "USBD_Init pdesc dev s =
     (let s1 = (if pClass (pdev s) then set_pdev (\<lambda>d. d\<lparr>pClass := False\<rparr>) s else s);
          s2 = (if pdesc then set_pdev (\<lambda>d. d\<lparr>pDesc := True\<rparr>) s1 else s1);
          s3 = set_pdev (\<lambda>d. d\<lparr>dev_state := USBD_STATE_DEFAULT, dev_id := dev\<rparr>) s2
      in snd (USBD_LL_Init s3))"

definition USBD_DeInit :: "'a usbd usbd_class \<Rightarrow> 'a usbd \<Rightarrow> 'a usbd outcome" where
  "USBD_DeInit cls s =
     obind (via_class (\<lambda>s. cls_DeInit cls (ucast (dev_config (pdev s))) s)
             (set_pdev (\<lambda>d. d\<lparr>dev_state := USBD_STATE_DEFAULT\<rparr>) s)) (\<lambda>s1.
     obind (drop_status (USBD_LL_Stop s1)) (\<lambda>s2. drop_status (USBD_LL_DeInit s2)))"

definition USBD_RegisterClass :: "bool \<Rightarrow> 'a usbd \<Rightarrow> usbd_status \<times> 'a usbd" where
  "USBD_RegisterClass pclass s =
     (if pclass then (USBD_OK_st, set_pdev (\<lambda>d. d\<lparr>pClass := True\<rparr>) s) else (USBD_FAIL_st, s))"

definition USBD_Start :: "'a usbd \<Rightarrow> 'a usbd outcome" where
  "USBD_Start s = drop_status (USBD_LL_Start s)"

definition USBD_Stop :: "'a usbd usbd_class \<Rightarrow> 'a usbd \<Rightarrow> 'a usbd outcome" where
  "USBD_Stop cls s =
     obind (via_class (\<lambda>s. cls_DeInit cls (ucast (dev_config (pdev s))) s) s) (\<lambda>s1. drop_status (USBD_LL_Stop s1))"

definition USBD_LL_SetupStage :: "'a usbd usbd_class \<Rightarrow> bytes \<Rightarrow> 'a usbd \<Rightarrow> 'a usbd outcome" where
  "USBD_LL_SetupStage cls psetup s =
     obind (USBD_ParseSetupRequest psetup) (\<lambda>q.
     let s1 = set_pdev (\<lambda>d. d\<lparr>request := q, ep0_state := USBD_EP0_SETUP, ep0_data_len := ucast (wLength q)\<rparr>) s;
         r = bmRequest q AND 0x1F in
     if r = 0 then USBD_StdDevReq cls s1
     else if r = 1 then USBD_StdItfReq cls s1
     else if r = 2 then USBD_StdEPReq cls s1
     else drop_status (USBD_LL_StallEP (bmRequest q AND 0x80) s1))"

definition USBD_LL_DataOutStage :: "'a usbd usbd_class \<Rightarrow> u8 \<Rightarrow> usb_ptr \<Rightarrow> 'a usbd \<Rightarrow> 'a usbd outcome" where
  "USBD_LL_DataOutStage cls epnum pdata s =
     (if epnum = 0 then
        (if ep0_state (pdev s) = USBD_EP0_DATA_OUT then
           (let pep = ep_out (pdev s) ! 0 in
            if maxpacket pep < rem_length pep then
              (let rem = rem_length pep - maxpacket pep;
                   s1 = set_pdev (ep0_out (\<lambda>e. e\<lparr>rem_length := rem\<rparr>)) s
               in USBD_CtlContinueRx pdata (ucast (if rem < maxpacket pep then rem else maxpacket pep)) s1)
            else
              obind (via_class (\<lambda>s. case cls_EP0_RxReady cls of
                        Some f \<Rightarrow> if dev_state (pdev s) = USBD_STATE_CONFIGURED then f s else Inr s
                      | None \<Rightarrow> Inr s) s) USBD_CtlSendStatus)
         else Inr s)
      else via_class (\<lambda>s. case cls_DataOut cls of
             Some f \<Rightarrow> if dev_state (pdev s) = USBD_STATE_CONFIGURED then f epnum s else Inr s
           | None \<Rightarrow> Inr s) s)"

text \<open>The data stage of a control read: \<open>USBD_LL_PrepareReceive\<close> readies the pipe for an early status.\<close>

definition ep0_data_in :: "'a usbd usbd_class \<Rightarrow> usb_ptr \<Rightarrow> 'a usbd \<Rightarrow> 'a usbd outcome" where
  "ep0_data_in cls pdata s =
     (let pep = ep_in (pdev s) ! 0 in
      if maxpacket pep < rem_length pep then
        (let rem = rem_length pep - maxpacket pep;
             s1 = set_pdev (ep0_in (\<lambda>e. e\<lparr>rem_length := rem\<rparr>)) s
         in obind (USBD_CtlContinueSendData pdata (ucast rem) s1) (\<lambda>s2.
            drop_status (USBD_LL_PrepareReceive 0 None 0 s2)))
      else if total_length pep mod maxpacket pep = 0 \<and> maxpacket pep \<le> total_length pep
                \<and> total_length pep < ep0_data_len (pdev s) then
        obind (USBD_CtlContinueSendData None 0 s) (\<lambda>s1.
        drop_status (USBD_LL_PrepareReceive 0 None 0 (set_pdev (\<lambda>d. d\<lparr>ep0_data_len := 0\<rparr>) s1)))
      else
        obind (via_class (\<lambda>s. case cls_EP0_TxSent cls of
                  Some f \<Rightarrow> if dev_state (pdev s) = USBD_STATE_CONFIGURED then f s else Inr s
                | None \<Rightarrow> Inr s) s) USBD_CtlReceiveStatus)"

definition USBD_LL_DataInStage :: "'a usbd usbd_class \<Rightarrow> u8 \<Rightarrow> usb_ptr \<Rightarrow> 'a usbd \<Rightarrow> 'a usbd outcome" where
  "USBD_LL_DataInStage cls epnum pdata s =
     (if epnum = 0 then
        obind (if ep0_state (pdev s) = USBD_EP0_DATA_IN then ep0_data_in cls pdata s else Inr s) (\<lambda>s1.
        Inr (if dev_test_mode (pdev s1) = 1 then set_pdev (\<lambda>d. d\<lparr>dev_test_mode := 0\<rparr>) s1 else s1))
      else via_class (\<lambda>s. case cls_DataIn cls of
             Some f \<Rightarrow> if dev_state (pdev s) = USBD_STATE_CONFIGURED then f epnum s else Inr s
           | None \<Rightarrow> Inr s) s)"

definition USBD_LL_Reset :: "'a usbd usbd_class \<Rightarrow> 'a usbd \<Rightarrow> 'a usbd outcome" where
  "USBD_LL_Reset cls s =
     obind (drop_status (USBD_LL_OpenEP 0x00 EP_TYPE_CTRL 64 s)) (\<lambda>s1.
     let s2 = set_pdev (ep0_out (\<lambda>e. e\<lparr>maxpacket := 64\<rparr>)) s1 in
     obind (drop_status (USBD_LL_OpenEP 0x80 EP_TYPE_CTRL 64 s2)) (\<lambda>s3.
     let s4 = set_pdev (\<lambda>d. (ep0_in (\<lambda>e. e\<lparr>maxpacket := 64\<rparr>) d)\<lparr>dev_state := USBD_STATE_DEFAULT\<rparr>) s3 in
     if pClassData (pdev s4) \<noteq> None
     then via_class (\<lambda>s. cls_DeInit cls (ucast (dev_config (pdev s))) s) s4 else Inr s4))"

definition USBD_LL_SetSpeed :: "usbd_speed \<Rightarrow> 'a usbd \<Rightarrow> 'a usbd" where
  "USBD_LL_SetSpeed speed = set_pdev (\<lambda>d. d\<lparr>dev_speed := speed\<rparr>)"

definition USBD_LL_Suspend :: "'a usbd \<Rightarrow> 'a usbd" where
  "USBD_LL_Suspend = set_pdev (\<lambda>d. d\<lparr>dev_old_state := dev_state d, dev_state := USBD_STATE_SUSPENDED\<rparr>)"

definition USBD_LL_Resume :: "'a usbd \<Rightarrow> 'a usbd" where
  "USBD_LL_Resume = set_pdev (\<lambda>d. d\<lparr>dev_state := dev_old_state d\<rparr>)"

definition USBD_LL_SOF :: "'a usbd usbd_class \<Rightarrow> 'a usbd \<Rightarrow> 'a usbd outcome" where
  "USBD_LL_SOF cls s =
     (if dev_state (pdev s) = USBD_STATE_CONFIGURED
      then via_class (\<lambda>s. case cls_SOF cls of Some f \<Rightarrow> f s | None \<Rightarrow> Inr s) s else Inr s)"

definition USBD_LL_IsoINIncomplete :: "u8 \<Rightarrow> 'a usbd \<Rightarrow> 'a usbd" where
  "USBD_LL_IsoINIncomplete epnum s = s"

definition USBD_LL_IsoOUTIncomplete :: "u8 \<Rightarrow> 'a usbd \<Rightarrow> 'a usbd" where
  "USBD_LL_IsoOUTIncomplete epnum s = s"

definition USBD_LL_DevConnected :: "'a usbd \<Rightarrow> 'a usbd" where
  "USBD_LL_DevConnected s = s"

definition USBD_LL_DevDisconnected :: "'a usbd usbd_class \<Rightarrow> 'a usbd \<Rightarrow> 'a usbd outcome" where
  "USBD_LL_DevDisconnected cls s =
     via_class (\<lambda>s. cls_DeInit cls (ucast (dev_config (pdev s))) s)
       (set_pdev (\<lambda>d. d\<lparr>dev_state := USBD_STATE_DEFAULT\<rparr>) s)"

end
