(* ===== verification/UsbCdc.thy ===== *)
theory UsbCdc
  imports UsbCore
begin

text \<open>
  The CDC class of the device library, \<open>Class/CDC/Src/usbd_cdc.c\<close>, and the virtual serial port over
  it, \<open>TestUSBTerminal/Src/usbd_cdc_if.c\<close>. The receive callback of the application,
  \<open>_CDC_Receive_FS_user\<close>, is the argument \<open>rx\<close>.
\<close>

type_synonym 'a cdc_rx = "usb_ptr \<Rightarrow> u32 \<Rightarrow> 'a usbd \<Rightarrow> (u8 \<times> 'a usbd) outcome"

abbreviation (input) CDC_IN_EP :: u8 where "CDC_IN_EP \<equiv> 0x81"
abbreviation (input) CDC_OUT_EP :: u8 where "CDC_OUT_EP \<equiv> 0x01"
abbreviation (input) CDC_CMD_EP :: u8 where "CDC_CMD_EP \<equiv> 0x82"

section \<open>The class handle\<close>

text \<open>\<open>hcdc->...\<close>: a null \<open>pClassData\<close> is dereferenced. Its array \<open>data\<close> is at offset 0.\<close>

definition with_hcdc :: "(cdc_handle \<Rightarrow> 'a usbd \<Rightarrow> 'r outcome) \<Rightarrow> 'a usbd \<Rightarrow> 'r outcome" where
  "with_hcdc f s = (case pClassData (pdev s) of None \<Rightarrow> Inl Null_deref | Some h \<Rightarrow> f h s)"

definition set_hcdc :: "cdc_handle \<Rightarrow> 'a usbd \<Rightarrow> 'a usbd" where
  "set_hcdc h = set_pdev (\<lambda>d. d\<lparr>pClassData := Some h\<rparr>)"

definition hcdc_data :: "'a usbd \<Rightarrow> usb_ptr" where
  "hcdc_data s = (case pClassData (pdev s) of None \<Rightarrow> None | Some _ \<Rightarrow> Some (Cdc_data, 0))"

definition via_user :: "('a usbd \<Rightarrow> 'r outcome) \<Rightarrow> 'a usbd \<Rightarrow> 'r outcome" where
  "via_user f s = (if pUserData (pdev s) then f s else Inl Null_deref)"

definition USBD_CDC_RegisterInterface :: "bool \<Rightarrow> 'a usbd \<Rightarrow> usbd_status \<times> 'a usbd" where
  "USBD_CDC_RegisterInterface fops s =
     (if fops then (USBD_OK_st, set_pdev (\<lambda>d. d\<lparr>pUserData := True\<rparr>) s) else (USBD_FAIL_st, s))"

definition USBD_CDC_SetTxBuffer :: "usb_ptr \<Rightarrow> u16 \<Rightarrow> 'a usbd \<Rightarrow> 'a usbd outcome" where
  "USBD_CDC_SetTxBuffer pbuff len =
     with_hcdc (\<lambda>h s. Inr (set_hcdc (h\<lparr>TxBuffer := pbuff, TxLength := ucast len\<rparr>) s))"

definition USBD_CDC_SetRxBuffer :: "usb_ptr \<Rightarrow> 'a usbd \<Rightarrow> 'a usbd outcome" where
  "USBD_CDC_SetRxBuffer pbuff = with_hcdc (\<lambda>h s. Inr (set_hcdc (h\<lparr>RxBuffer := pbuff\<rparr>) s))"

definition USBD_CDC_TransmitPacket :: "'a usbd \<Rightarrow> (usbd_status \<times> 'a usbd) outcome" where
  "USBD_CDC_TransmitPacket s = (case pClassData (pdev s) of
       None \<Rightarrow> Inr (USBD_FAIL_st, s)
     | Some h \<Rightarrow>
         if TxState h = 0 then
           obind (drop_status (USBD_LL_Transmit CDC_IN_EP (TxBuffer h) (ucast (TxLength h)) (set_hcdc (h\<lparr>TxState := 1\<rparr>) s)))
             (\<lambda>s1. Inr (USBD_OK_st, s1))
         else Inr (USBD_BUSY_st, s))"

text \<open>The size of a packet depends on the speed.\<close>

definition cdc_packet_size :: "'a usbd \<Rightarrow> u16" where
  "cdc_packet_size s = (if dev_speed (pdev s) = USBD_SPEED_HIGH then 512 else 64)"

definition USBD_CDC_ReceivePacket :: "'a usbd \<Rightarrow> (usbd_status \<times> 'a usbd) outcome" where
  "USBD_CDC_ReceivePacket s = (case pClassData (pdev s) of
       None \<Rightarrow> Inr (USBD_FAIL_st, s)
     | Some h \<Rightarrow>
         obind (drop_status (USBD_LL_PrepareReceive CDC_OUT_EP (RxBuffer h) (cdc_packet_size s) s))
           (\<lambda>s1. Inr (USBD_OK_st, s1)))"

section \<open>The virtual serial port\<close>

definition CDC_Init_FS :: "'a usbd \<Rightarrow> 'a usbd outcome" where
  "CDC_Init_FS s =
     obind (USBD_CDC_SetTxBuffer (Some (UserTxBufferFS, 0)) 0 s) (USBD_CDC_SetRxBuffer (Some (UserRxBufferFS, 0)))"

definition CDC_DeInit_FS :: "'a usbd \<Rightarrow> 'a usbd outcome" where
  "CDC_DeInit_FS s = Inr s"

text \<open>\<open>0x20\<close> is \<open>CDC_SET_LINE_CODING\<close>, \<open>0x21\<close> \<open>CDC_GET_LINE_CODING\<close>; the other commands do nothing.\<close>

definition CDC_Control_FS :: "u8 \<Rightarrow> usb_ptr \<Rightarrow> u16 \<Rightarrow> 'a usbd \<Rightarrow> 'a usbd outcome" where
  "CDC_Control_FS cmd pbuf len s =
     (if cmd = 0x20 then obind (usb_read s pbuf 7) (\<lambda>bs. Inr (s\<lparr>tLineCoding := bs\<rparr>))
      else if cmd = 0x21 then usb_write pbuf (tLineCoding s) s
      else Inr s)"

definition CDC_Receive_FS :: "'a cdc_rx \<Rightarrow> usb_ptr \<Rightarrow> u32 \<Rightarrow> 'a usbd \<Rightarrow> (u8 \<times> 'a usbd) outcome" where
  "CDC_Receive_FS rx Buf Len s =
     obind (USBD_CDC_SetRxBuffer Buf s) (\<lambda>s1.
     obind (drop_status (USBD_CDC_ReceivePacket s1)) (\<lambda>s2. rx Buf Len s2))"

definition CDC_Transmit_FS :: "usb_ptr \<Rightarrow> u16 \<Rightarrow> 'a usbd \<Rightarrow> (usbd_status \<times> 'a usbd) outcome" where
  "CDC_Transmit_FS Buf Len =
     with_hcdc (\<lambda>h s.
       if TxState h \<noteq> 0 then Inr (USBD_BUSY_st, s)
       else obind (USBD_CDC_SetTxBuffer Buf Len s) USBD_CDC_TransmitPacket)"

section \<open>The callbacks of the class\<close>

definition USBD_CDC_Init :: "u8 \<Rightarrow> 'a usbd \<Rightarrow> (u8 \<times> 'a usbd) outcome" where
  "USBD_CDC_Init cfgidx s =
     obind (drop_status (USBD_LL_OpenEP CDC_IN_EP EP_TYPE_BULK (cdc_packet_size s) s)) (\<lambda>s1.
     obind (drop_status (USBD_LL_OpenEP CDC_OUT_EP EP_TYPE_BULK (cdc_packet_size s1) s1)) (\<lambda>s2.
     obind (drop_status (USBD_LL_OpenEP CDC_CMD_EP EP_TYPE_INTR 8 s2)) (\<lambda>s3.
     let s4 = set_pdev (\<lambda>d. d\<lparr>pClassData := cdc_malloc s3\<rparr>) s3 in
     if pClassData (pdev s4) = None then Inr (1, s4)
     else
       obind (via_user CDC_Init_FS s4)
         (with_hcdc (\<lambda>h s5.
          let s6 = set_hcdc (h\<lparr>TxState := 0, RxState := 0\<rparr>) s5 in
          obind (drop_status (USBD_LL_PrepareReceive CDC_OUT_EP (RxBuffer h) (cdc_packet_size s6) s6))
            (\<lambda>s7. Inr (0, s7)))))))"

definition USBD_CDC_DeInit :: "u8 \<Rightarrow> 'a usbd \<Rightarrow> 'a usbd outcome" where
  "USBD_CDC_DeInit cfgidx s =
     obind (drop_status (USBD_LL_CloseEP CDC_IN_EP s)) (\<lambda>s1.
     obind (drop_status (USBD_LL_CloseEP CDC_OUT_EP s1)) (\<lambda>s2.
     obind (drop_status (USBD_LL_CloseEP CDC_CMD_EP s2)) (\<lambda>s3.
     if pClassData (pdev s3) \<noteq> None
     then obind (via_user CDC_DeInit_FS s3) (\<lambda>s4. Inr (set_pdev (\<lambda>d. d\<lparr>pClassData := None\<rparr>) s4))
     else Inr s3)))"

definition USBD_CDC_Setup :: "'a usbd \<Rightarrow> 'a usbd outcome" where
  "USBD_CDC_Setup s =
     (let req = request (pdev s) in
      if bmRequest req AND 0x60 = 0x20 then
        (if wLength req \<noteq> 0 then
           (if bmRequest req AND 0x80 \<noteq> 0 then
              obind (via_user (CDC_Control_FS (bRequest req) (hcdc_data s) (wLength req)) s)
                (\<lambda>s1. USBD_CtlSendData (hcdc_data s1) (wLength (request (pdev s1))) s1)
            else
              obind (with_hcdc (\<lambda>h s. Inr (set_hcdc (h\<lparr>CmdOpCode := bRequest req, CmdLength := ucast (wLength req)\<rparr>) s)) s)
                (\<lambda>s1. USBD_CtlPrepareRx (hcdc_data s1) (wLength req) s1))
         else via_user (CDC_Control_FS (bRequest req) (Some (Request, 0)) 0) s)
      else if bmRequest req AND 0x60 = 0 then
        (if bRequest req = 0x0A then USBD_CtlSendData (Some (Ifalt, 0)) 1 s else Inr s)
      else Inr s)"

definition USBD_CDC_DataIn :: "u8 \<Rightarrow> 'a usbd \<Rightarrow> 'a usbd outcome" where
  "USBD_CDC_DataIn epnum s = (case pClassData (pdev s) of
       None \<Rightarrow> Inr s
     | Some h \<Rightarrow> Inr (set_hcdc (h\<lparr>TxState := 0\<rparr>) s))"

definition USBD_CDC_DataOut :: "'a cdc_rx \<Rightarrow> u8 \<Rightarrow> 'a usbd \<Rightarrow> 'a usbd outcome" where
  "USBD_CDC_DataOut rx epnum s =
     obind (USBD_LL_GetRxDataSize epnum s) (\<lambda>n.
     with_hcdc (\<lambda>h s.
       drop_status (via_user (CDC_Receive_FS rx (RxBuffer h) n) (set_hcdc (h\<lparr>RxLength := n\<rparr>) s))) s)"

definition USBD_CDC_EP0_RxReady :: "'a usbd \<Rightarrow> 'a usbd outcome" where
  "USBD_CDC_EP0_RxReady s =
     (if pUserData (pdev s) then
        with_hcdc (\<lambda>h s.
          if CmdOpCode h \<noteq> 0xFF then
            obind (CDC_Control_FS (CmdOpCode h) (hcdc_data s) (ucast (CmdLength h)) s)
              (with_hcdc (\<lambda>h s. Inr (set_hcdc (h\<lparr>CmdOpCode := 0xFF\<rparr>) s)))
          else Inr s) s
      else Inr s)"

definition USBD_CDC :: "'a cdc_rx \<Rightarrow> 'a usbd usbd_class" where
  "USBD_CDC rx =
     \<lparr>cls_Init = USBD_CDC_Init, cls_DeInit = USBD_CDC_DeInit, cls_Setup = USBD_CDC_Setup,
      cls_EP0_TxSent = None, cls_EP0_RxReady = Some USBD_CDC_EP0_RxReady,
      cls_DataIn = Some USBD_CDC_DataIn, cls_DataOut = Some (USBD_CDC_DataOut rx), cls_SOF = None,
      cls_GetHSConfigDescriptor = USBD_CDC_GetHSCfgDesc, cls_GetFSConfigDescriptor = USBD_CDC_GetFSCfgDesc,
      cls_GetOtherSpeedConfigDescriptor = USBD_CDC_GetOtherSpeedCfgDesc,
      cls_GetDeviceQualifierDescriptor = USBD_CDC_GetDeviceQualifierDescriptor\<rparr>"

end
