(* ===== verification/UsbIrq.thy ===== *)
theory UsbIrq
  imports UsbCdc
begin

text \<open>
  The interrupts: the branches of \<open>HAL_PCD_IRQHandler\<close> (\<open>stm32f4xx_hal_pcd.c\<close>) with the callbacks
  of \<open>usbd_conf.c\<close> that they call, the start of the device (\<open>usb_device.c\<close>), and two of the
  applications of \<open>TestUSBTerminal/tst\<close>.
\<close>

section \<open>Callbacks of the driver\<close>

definition HAL_PCD_SetupStageCallback :: "'a usbd usbd_class \<Rightarrow> 'a usbd \<Rightarrow> 'a usbd outcome" where
  "HAL_PCD_SetupStageCallback cls s = USBD_LL_SetupStage cls (Setup (hpcd s)) s"

definition HAL_PCD_DataOutStageCallback :: "'a usbd usbd_class \<Rightarrow> u8 \<Rightarrow> 'a usbd \<Rightarrow> 'a usbd outcome" where
  "HAL_PCD_DataOutStageCallback cls epnum s =
     obind (get_out (unat epnum) (hpcd s)) (\<lambda>ep. USBD_LL_DataOutStage cls epnum (xfer_buff ep) s)"

definition HAL_PCD_DataInStageCallback :: "'a usbd usbd_class \<Rightarrow> u8 \<Rightarrow> 'a usbd \<Rightarrow> 'a usbd outcome" where
  "HAL_PCD_DataInStageCallback cls epnum s =
     obind (get_in (unat epnum) (hpcd s)) (\<lambda>ep. USBD_LL_DataInStage cls epnum (xfer_buff ep) s)"

text \<open>\<open>PCD_SPEED_HIGH\<close> is 0 and \<open>PCD_SPEED_FULL\<close> is 2.\<close>

definition HAL_PCD_ResetCallback :: "'a usbd usbd_class \<Rightarrow> 'a usbd \<Rightarrow> 'a usbd outcome" where
  "HAL_PCD_ResetCallback cls s =
     (let speed = (if Init_speed (Init (hpcd s)) = 0 then USBD_SPEED_HIGH
                   else if Init_speed (Init (hpcd s)) = 2 then USBD_SPEED_FULL else USBD_SPEED_FULL)
      in USBD_LL_Reset cls (USBD_LL_SetSpeed speed s))"

definition on_regs :: "(usb_otg \<Rightarrow> usb_otg) \<Rightarrow> 'a usbd \<Rightarrow> 'a usbd" where
  "on_regs f s = s\<lparr>hpcd := (hpcd s)\<lparr>Instance := f (Instance (hpcd s))\<rparr>\<rparr>"

lemma on_regs_code [code]: "on_regs f = hpcd_update (Instance_update f)"
  by (rule ext) (simp add: on_regs_def)

text \<open>The sleep bits of the processor are not part of the state; \<open>low_power_enable\<close> is off.\<close>

definition HAL_PCD_SuspendCallback :: "'a usbd \<Rightarrow> 'a usbd" where
  "HAL_PCD_SuspendCallback s = on_regs (\<lambda>r. r\<lparr>PCGCCTL := PCGCCTL r OR 1\<rparr>) (USBD_LL_Suspend s)"

definition HAL_PCD_ResumeCallback :: "'a usbd \<Rightarrow> 'a usbd" where
  "HAL_PCD_ResumeCallback s = USBD_LL_Resume s"

definition HAL_PCD_SOFCallback :: "'a usbd usbd_class \<Rightarrow> 'a usbd \<Rightarrow> 'a usbd outcome" where
  "HAL_PCD_SOFCallback cls s = USBD_LL_SOF cls s"

definition HAL_PCD_ConnectCallback :: "'a usbd \<Rightarrow> 'a usbd" where
  "HAL_PCD_ConnectCallback s = USBD_LL_DevConnected s"

definition HAL_PCD_DisconnectCallback :: "'a usbd usbd_class \<Rightarrow> 'a usbd \<Rightarrow> 'a usbd outcome" where
  "HAL_PCD_DisconnectCallback cls s = USBD_LL_DevDisconnected cls s"

definition HAL_PCD_ISOINIncompleteCallback :: "u8 \<Rightarrow> 'a usbd \<Rightarrow> 'a usbd" where
  "HAL_PCD_ISOINIncompleteCallback epnum s = USBD_LL_IsoINIncomplete epnum s"

definition HAL_PCD_ISOOUTIncompleteCallback :: "u8 \<Rightarrow> 'a usbd \<Rightarrow> 'a usbd" where
  "HAL_PCD_ISOOUTIncompleteCallback epnum s = USBD_LL_IsoOUTIncomplete epnum s"

section \<open>The interrupt handler\<close>

text \<open>
  One event is one branch of the handler that is taken. The acknowledgement of a flag by writing
  the interrupt registers is not part of the state. \<open>Rx_level\<close> carries the status word popped from
  the receive FIFO and the bytes that follow it, \<open>Tx_fifo_empty\<close> the readings of the free space,
  \<open>Enum_done\<close> the enumerated speed of \<open>DSTS\<close>.
\<close>

datatype pcd_event =
    Out_xfrc u8 | Setup_done | In_xfrc u8 | Tx_fifo_empty u8 "nat \<Rightarrow> u32"
  | Wakeup | Usb_suspend bool | Usb_reset | Enum_done u32 | Rx_level u32 bytes | Sof
  | Iso_in_incomplete u8 | Iso_out_incomplete u8 | Session_request | Session_end bool

abbreviation (input) STS_DATA_UPDT :: u32 where "STS_DATA_UPDT \<equiv> 2"
abbreviation (input) STS_SETUP_UPDT :: u32 where "STS_SETUP_UPDT \<equiv> 6"

definition irq_in_xfrc :: "'a usbd usbd_class \<Rightarrow> u8 \<Rightarrow> 'a usbd \<Rightarrow> 'a usbd outcome" where
  "irq_in_xfrc cls epnum s =
     HAL_PCD_DataInStageCallback cls epnum
       (on_regs (\<lambda>r. r\<lparr>DIEPEMPMSK := DIEPEMPMSK r AND NOT (push_bit (unat epnum) 1)\<rparr>) s)"

definition irq_tx_fifo_empty :: "u8 \<Rightarrow> (nat \<Rightarrow> u32) \<Rightarrow> 'a usbd \<Rightarrow> 'a usbd outcome" where
  "irq_tx_fifo_empty epnum space s =
     obind (PCD_WriteEmptyTxFifo (usb_read s) space (unat epnum) (hpcd s)) (\<lambda>(_, h). Inr (s\<lparr>hpcd := h\<rparr>))"

definition irq_reset :: "'a usbd \<Rightarrow> 'a usbd" where
  "irq_reset s =
     (let cfg = Init (hpcd s); n = unat (dev_endpoints cfg); ep1 = (use_dedicated_ep1 cfg \<noteq> 0) in
      on_regs (\<lambda>r0.
        let r1 = snd (USB_FlushTxFifo 0x10 (r0\<lparr>DCTL := DCTL r0 AND NOT 1\<rparr>))
        in USB_EP0_OutStart
          (r1\<lparr>DIEPINT := (\<lambda>i. if i < n then 0xFF else DIEPINT r1 i),
              DOEPINT := (\<lambda>i. if i < n then 0xFF else DOEPINT r1 i),
              DAINT := 0xFFFFFFFF, DAINTMSK := DAINTMSK r1 OR 0x10001,
              DOUTEP1MSK := DOUTEP1MSK r1 OR (if ep1 then 0xB else 0),
              DINEP1MSK := DINEP1MSK r1 OR (if ep1 then 0xB else 0),
              DOEPMSK := DOEPMSK r1 OR (if ep1 then 0 else 0xB),
              DIEPMSK := DIEPMSK r1 OR (if ep1 then 0 else 0xB),
              DCFG := DCFG r1 AND NOT 0x7F0\<rparr>)) s)"

text \<open>
  \<open>USB_GetDevSpeed\<close>, where \<open>USB_OTG_SPEED_HIGH\<close> is 0, \<open>LOW\<close> 2 and \<open>FULL\<close> 3; the handler takes
  everything but high for full, and sets the turnaround time by the clock of the bus.
\<close>

definition USB_GetDevSpeed :: "u32 \<Rightarrow> u8" where
  "USB_GetDevSpeed dsts =
     (if dsts AND 6 = 0 then 0 else if dsts AND 6 = 2 \<or> dsts AND 6 = 6 then 3
      else if dsts AND 6 = 4 then 2 else 0)"

definition USB_ActivateSetup :: "u32 \<Rightarrow> usb_otg \<Rightarrow> usb_otg" where
  "USB_ActivateSetup dsts r =
     (let r1 = r\<lparr>DIEPCTL := clr_at 0 DIEPCTL_MPSIZ (DIEPCTL r)\<rparr>;
          r2 = (if dsts AND 6 = 4 then r1\<lparr>DIEPCTL := or_at 0 3 (DIEPCTL r1)\<rparr> else r1)
      in r2\<lparr>DCTL := DCTL r2 OR 0x100\<rparr>)"

definition turnaround :: "u32 \<Rightarrow> u32" where
  "turnaround hclk =
     (if 14200000 \<le> hclk \<and> hclk < 15000000 then 0xF
      else if 15000000 \<le> hclk \<and> hclk < 16000000 then 0xE
      else if 16000000 \<le> hclk \<and> hclk < 17200000 then 0xD
      else if 17200000 \<le> hclk \<and> hclk < 18500000 then 0xC
      else if 18500000 \<le> hclk \<and> hclk < 20000000 then 0xB
      else if 20000000 \<le> hclk \<and> hclk < 21800000 then 0xA
      else if 21800000 \<le> hclk \<and> hclk < 24000000 then 9
      else if 24000000 \<le> hclk \<and> hclk < 27700000 then 8
      else if 27700000 \<le> hclk \<and> hclk < 32000000 then 7
      else 6)"

definition enum_speed :: "u32 \<Rightarrow> pcd_handle \<Rightarrow> pcd_handle" where
  "enum_speed dsts h =
     (let high = (USB_GetDevSpeed dsts = 0) in
      h\<lparr>Instance := (Instance h)\<lparr>GUSBCFG := (GUSBCFG (Instance h) AND NOT 0x3C00)
            OR (push_bit 10 (if high then 9 else turnaround (SystemCoreClock (Instance h))) AND 0x3C00)\<rparr>,
        Init := (Init h)\<lparr>Init_speed := (if high then 0 else 3), ep0_mps := (if high then 512 else 64)\<rparr>\<rparr>)"

definition irq_enum_done :: "'a usbd usbd_class \<Rightarrow> u32 \<Rightarrow> 'a usbd \<Rightarrow> 'a usbd outcome" where
  "irq_enum_done cls dsts s =
     (let s1 = on_regs (USB_ActivateSetup dsts) s
      in HAL_PCD_ResetCallback cls (s1\<lparr>hpcd := enum_speed dsts (hpcd s1)\<rparr>))"

text \<open>
  A received packet or setup packet: \<open>temp\<close> is \<open>GRXSTSP\<close>. The pointer and the count advance by the
  number of bytes, while whole words are stored. The interrupt is masked meanwhile.
\<close>

definition rx_pop :: "u32 \<Rightarrow> bytes \<Rightarrow> 'a usbd \<Rightarrow> 'a usbd outcome" where
  "rx_pop temp fifo s =
     (let k = unat (temp AND 0xF); bcnt = drop_bit 4 (temp AND 0x7FF0); sts = drop_bit 17 (temp AND 0x1E0000) in
      obind (get_out k (hpcd s)) (\<lambda>ep.
      if sts = STS_DATA_UPDT then
        (if temp AND 0x7FF0 \<noteq> 0 then
           obind (USB_ReadPacket usb_write (xfer_buff ep) (ucast bcnt) fifo s) (\<lambda>s1.
           Inr (s1\<lparr>hpcd := put_out k (ep\<lparr>xfer_buff := ptr_add (xfer_buff ep) (unat bcnt),
                                        xfer_count := xfer_count ep + bcnt\<rparr>) (hpcd s1)\<rparr>))
         else Inr s)
      else if sts = STS_SETUP_UPDT then
        obind (USB_ReadPacket (\<lambda>_ bs h. obind (buf_write 0 bs (Setup h)) (\<lambda>b. Inr (h\<lparr>Setup := b\<rparr>))) None 8 fifo (hpcd s)) (\<lambda>h.
        Inr (s\<lparr>hpcd := put_out k (ep\<lparr>xfer_count := xfer_count ep + bcnt\<rparr>) h\<rparr>))
      else Inr s))"

definition irq_rx_level :: "u32 \<Rightarrow> bytes \<Rightarrow> 'a usbd \<Rightarrow> 'a usbd outcome" where
  "irq_rx_level temp fifo s =
     obind (rx_pop temp fifo (on_regs (\<lambda>r. r\<lparr>GINTMSK := GINTMSK r AND NOT 0x10\<rparr>) s)) (\<lambda>s1.
     Inr (on_regs (\<lambda>r. r\<lparr>GINTMSK := GINTMSK r OR 0x10\<rparr>) s1))"

fun irq_event :: "'a usbd usbd_class \<Rightarrow> pcd_event \<Rightarrow> 'a usbd \<Rightarrow> 'a usbd outcome" where
  "irq_event cls (Out_xfrc epnum) s = HAL_PCD_DataOutStageCallback cls epnum s"
| "irq_event cls Setup_done s = HAL_PCD_SetupStageCallback cls s"
| "irq_event cls (In_xfrc epnum) s = irq_in_xfrc cls epnum s"
| "irq_event cls (Tx_fifo_empty epnum space) s = irq_tx_fifo_empty epnum space s"
| "irq_event cls Wakeup s =
     Inr (HAL_PCD_ResumeCallback (on_regs (\<lambda>r. r\<lparr>DCTL := DCTL r AND NOT 1\<rparr>) s))"
| "irq_event cls (Usb_suspend suspsts) s = Inr (if suspsts then HAL_PCD_SuspendCallback s else s)"
| "irq_event cls Usb_reset s = Inr (irq_reset s)"
| "irq_event cls (Enum_done dsts) s = irq_enum_done cls dsts s"
| "irq_event cls (Rx_level temp fifo) s = irq_rx_level temp fifo s"
| "irq_event cls Sof s = HAL_PCD_SOFCallback cls s"
| "irq_event cls (Iso_in_incomplete epnum) s = Inr (HAL_PCD_ISOINIncompleteCallback epnum s)"
| "irq_event cls (Iso_out_incomplete epnum) s = Inr (HAL_PCD_ISOOUTIncompleteCallback epnum s)"
| "irq_event cls Session_request s = Inr (HAL_PCD_ConnectCallback s)"
| "irq_event cls (Session_end sedet) s = (if sedet then HAL_PCD_DisconnectCallback cls s else Inr s)"

fun usb_run :: "'a usbd usbd_class \<Rightarrow> pcd_event list \<Rightarrow> 'a usbd \<Rightarrow> 'a usbd outcome" where
  "usb_run cls [] s = Inr s"
| "usb_run cls (e # es) s = obind (irq_event cls e s) (usb_run cls es)"

lemma usb_run_append: "usb_run cls (es @ fs) s = obind (usb_run cls es s) (usb_run cls fs)"
proof (induction es arbitrary: s)
  case (Cons e es)
  show ?case by (cases "irq_event cls e s") (simp_all add: Cons.IH)
qed simp

text \<open>
  What one pass of the handler reads of the peripheral: \<open>GINTSTS\<close> at the test of the mode, at the first
  test and at the tests of the single flags (each is tested once, against the mask that the driver
  has set by then), the registers of the endpoints, and the registers that the branches read.
\<close>

record irq_read =
  gint_mode :: u32
  gint_first :: u32
  gint :: u32
  daint_out :: u32
  daint_in :: u32
  doepint :: "nat \<Rightarrow> u32"
  diepint :: "nat \<Rightarrow> u32"
  tx_space :: "nat \<Rightarrow> nat \<Rightarrow> u32"
  dsts_suspend :: u32
  dsts_enum :: u32
  grxstsp :: u32
  rx_fifo :: bytes
  gotgint :: u32

definition pcd_flag :: "irq_read \<Rightarrow> nat \<Rightarrow> 'a usbd \<Rightarrow> bool" where
  "pcd_flag rd n s \<longleftrightarrow> bit (USB_ReadInterrupts (gint rd) (Instance (hpcd s))) n"

definition USB_ReadDevAllOutEpInterrupt :: "u32 \<Rightarrow> usb_otg \<Rightarrow> u32" where
  "USB_ReadDevAllOutEpInterrupt daint r = drop_bit 16 ((daint AND DAINTMSK r) AND 0xFFFF0000)"

definition USB_ReadDevAllInEpInterrupt :: "u32 \<Rightarrow> usb_otg \<Rightarrow> u32" where
  "USB_ReadDevAllInEpInterrupt daint r = (daint AND DAINTMSK r) AND 0xFFFF"

definition USB_ReadDevOutEPInterrupt :: "u32 \<Rightarrow> usb_otg \<Rightarrow> u32" where
  "USB_ReadDevOutEPInterrupt v r = v AND DOEPMSK r"

definition USB_ReadDevInEPInterrupt :: "u32 \<Rightarrow> nat \<Rightarrow> usb_otg \<Rightarrow> u32" where
  "USB_ReadDevInEPInterrupt v epnum r =
     v AND (DIEPMSK r OR push_bit 7 (drop_bit epnum (DIEPEMPMSK r) AND 1))"

definition take_event :: "'a usbd usbd_class \<Rightarrow> bool \<Rightarrow> pcd_event \<Rightarrow> 'a usbd \<Rightarrow> 'a usbd outcome" where
  "take_event cls c e s = (if c then irq_event cls e s else Inr s)"

text \<open>\<open>while (ep_intr) { ...; epnum++; ep_intr >>= 1U; }\<close>, for the OUT and for the IN endpoints\<close>

lemma shift_decreases: "w \<noteq> 0 \<Longrightarrow> unat (drop_bit (Suc 0) w) < unat w" for w :: u32
  unfolding unat_drop_bit_eq by (simp add: drop_bit_Suc word_unat_eq_iff)

function out_ep_loop :: "'a usbd usbd_class \<Rightarrow> (nat \<Rightarrow> u32) \<Rightarrow> nat \<Rightarrow> u32 \<Rightarrow> 'a usbd \<Rightarrow> 'a usbd outcome" where
  "out_ep_loop cls ints epnum ep_intr s =
     (if ep_intr = 0 then Inr s
      else obind
        (if ep_intr AND 1 \<noteq> 0 then
           (let epint = USB_ReadDevOutEPInterrupt (ints epnum) (Instance (hpcd s)) in
            obind (take_event cls (epint AND 1 = 1) (Out_xfrc (of_nat epnum)) s)
                  (take_event cls (epint AND 8 = 8) Setup_done))
         else Inr s)
        (out_ep_loop cls ints (Suc epnum) (drop_bit 1 ep_intr)))"
  by pat_completeness auto
termination
  by (relation "measure (\<lambda>(cls, ints, epnum, ep_intr, s). unat ep_intr)") (simp_all add: shift_decreases)

function in_ep_loop ::
  "'a usbd usbd_class \<Rightarrow> (nat \<Rightarrow> u32) \<Rightarrow> (nat \<Rightarrow> nat \<Rightarrow> u32) \<Rightarrow> nat \<Rightarrow> u32 \<Rightarrow> 'a usbd \<Rightarrow> 'a usbd outcome" where
  "in_ep_loop cls ints space epnum ep_intr s =
     (if ep_intr = 0 then Inr s
      else obind
        (if ep_intr AND 1 \<noteq> 0 then
           (let epint = USB_ReadDevInEPInterrupt (ints epnum) epnum (Instance (hpcd s)) in
            obind (take_event cls (epint AND 1 = 1) (In_xfrc (of_nat epnum)) s)
                  (take_event cls (epint AND 0x80 = 0x80) (Tx_fifo_empty (of_nat epnum) (space epnum))))
         else Inr s)
        (in_ep_loop cls ints space (Suc epnum) (drop_bit 1 ep_intr)))"
  by pat_completeness auto
termination
  by (relation "measure (\<lambda>(cls, ints, space, epnum, ep_intr, s). unat ep_intr)") (simp_all add: shift_decreases)

declare out_ep_loop.simps [simp del] in_ep_loop.simps [simp del]

text \<open>
  The whole handler: its branches in the order of the code, each with the bit of \<open>GINTSTS\<close> that it tests. The
  branch of the mode mismatch (bit 1) only acknowledges its flag. The chip has no link power
  management, so those branches are compiled out. The endpoint of the isochronous callbacks, which
  ignore it, is the one the loops ended with.
\<close>

definition pcd_branches :: "'a usbd usbd_class \<Rightarrow> irq_read \<Rightarrow> (nat \<times> ('a usbd \<Rightarrow> 'a usbd outcome)) list" where
  "pcd_branches cls rd =
     [(1, Inr),
      (19, \<lambda>s. out_ep_loop cls (doepint rd) 0 (USB_ReadDevAllOutEpInterrupt (daint_out rd) (Instance (hpcd s))) s),
      (18, \<lambda>s. in_ep_loop cls (diepint rd) (tx_space rd) 0 (USB_ReadDevAllInEpInterrupt (daint_in rd) (Instance (hpcd s))) s),
      (31, irq_event cls Wakeup),
      (11, irq_event cls (Usb_suspend (dsts_suspend rd AND 1 = 1))),
      (12, irq_event cls Usb_reset),
      (13, irq_event cls (Enum_done (dsts_enum rd))),
      (4, irq_event cls (Rx_level (grxstsp rd) (rx_fifo rd))),
      (3, irq_event cls Sof),
      (20, irq_event cls (Iso_in_incomplete 0)),
      (21, irq_event cls (Iso_out_incomplete 0)),
      (30, irq_event cls Session_request),
      (2, irq_event cls (Session_end (gotgint rd AND 4 = 4)))]"

fun run_branches :: "irq_read \<Rightarrow> (nat \<times> ('a usbd \<Rightarrow> 'a usbd outcome)) list \<Rightarrow> 'a usbd \<Rightarrow> 'a usbd outcome" where
  "run_branches rd [] s = Inr s"
| "run_branches rd ((n, act) # bs) s = obind (if pcd_flag rd n s then act s else Inr s) (run_branches rd bs)"

definition HAL_PCD_IRQHandler :: "'a usbd usbd_class \<Rightarrow> irq_read \<Rightarrow> 'a usbd \<Rightarrow> 'a usbd outcome" where
  "HAL_PCD_IRQHandler cls rd s =
     (if USB_GetMode (gint_mode rd) \<noteq> 0 \<or> USB_ReadInterrupts (gint_first rd) (Instance (hpcd s)) = 0 then Inr s
      else run_branches rd (pcd_branches cls rd) s)"

lemma pcd_flag_gint [dest]: "pcd_flag rd n s \<Longrightarrow> bit (gint rd) n"
  by (simp add: pcd_flag_def USB_ReadInterrupts_def bit_simps)

text \<open>A pass of the handler is a list of events, each of which its reading flags.\<close>

fun flagged :: "irq_read \<Rightarrow> pcd_event \<Rightarrow> bool" where
  "flagged rd (Out_xfrc k) \<longleftrightarrow> bit (gint rd) 19"
| "flagged rd Setup_done \<longleftrightarrow> bit (gint rd) 19"
| "flagged rd (In_xfrc k) \<longleftrightarrow> bit (gint rd) 18"
| "flagged rd (Tx_fifo_empty k sp) \<longleftrightarrow> bit (gint rd) 18"
| "flagged rd Wakeup \<longleftrightarrow> bit (gint rd) 31"
| "flagged rd (Usb_suspend b) \<longleftrightarrow> bit (gint rd) 11 \<and> b = (dsts_suspend rd AND 1 = 1)"
| "flagged rd Usb_reset \<longleftrightarrow> bit (gint rd) 12"
| "flagged rd (Enum_done d) \<longleftrightarrow> bit (gint rd) 13 \<and> d = dsts_enum rd"
| "flagged rd (Rx_level temp fifo) \<longleftrightarrow> bit (gint rd) 4 \<and> temp = grxstsp rd \<and> fifo = rx_fifo rd"
| "flagged rd Sof \<longleftrightarrow> bit (gint rd) 3"
| "flagged rd (Iso_in_incomplete k) \<longleftrightarrow> bit (gint rd) 20"
| "flagged rd (Iso_out_incomplete k) \<longleftrightarrow> bit (gint rd) 21"
| "flagged rd Session_request \<longleftrightarrow> bit (gint rd) 30"
| "flagged rd (Session_end b) \<longleftrightarrow> bit (gint rd) 2 \<and> b = (gotgint rd AND 4 = 4)"

definition runs_flagged :: "'a usbd usbd_class \<Rightarrow> irq_read \<Rightarrow> 'a usbd \<Rightarrow> 'a usbd outcome \<Rightarrow> bool" where
  "runs_flagged cls rd s m \<longleftrightarrow> (\<exists>es. list_all (flagged rd) es \<and> m = usb_run cls es s)"

lemma runs_none: "runs_flagged cls rd s (Inr s)"
  unfolding runs_flagged_def by (rule exI [of _ "[]"]) simp

lemma runs_take: "(c \<Longrightarrow> flagged rd e) \<Longrightarrow> runs_flagged cls rd s (take_event cls c e s)"
  unfolding runs_flagged_def
  by (rule exI [of _ "if c then [e] else []"], cases "irq_event cls e s") (simp_all add: take_event_def)

lemma runs_bind:
  assumes "runs_flagged cls rd s m" and "\<And>s1. runs_flagged cls rd s1 (f s1)"
  shows "runs_flagged cls rd s (obind m f)"
proof -
  obtain es where es: "list_all (flagged rd) es" "m = usb_run cls es s"
    using assms(1) by (auto simp: runs_flagged_def)
  show ?thesis
  proof (cases m)
    case (Inl e)
    then show ?thesis using es by (auto simp: runs_flagged_def)
  next
    case (Inr s1)
    obtain fs where "list_all (flagged rd) fs" "f s1 = usb_run cls fs s1"
      using assms(2) by (auto simp: runs_flagged_def)
    then have "list_all (flagged rd) (es @ fs) \<and> obind m f = usb_run cls (es @ fs) s"
      using es Inr by (simp add: usb_run_append flip: es(2))
    then show ?thesis unfolding runs_flagged_def by blast
  qed
qed

lemma runs_out_loop: "bit (gint rd) 19 \<Longrightarrow> runs_flagged cls rd s (out_ep_loop cls ints k w s)"
proof (induction cls ints k w s rule: out_ep_loop.induct)
  case (1 cls ints k w s)
  show ?case
    unfolding out_ep_loop.simps [of cls ints k w s] Let_def
    using 1 by (auto intro!: runs_none runs_bind runs_take)
qed

lemma runs_in_loop: "bit (gint rd) 18 \<Longrightarrow> runs_flagged cls rd s (in_ep_loop cls ints space k w s)"
proof (induction cls ints space k w s rule: in_ep_loop.induct)
  case (1 cls ints space k w s)
  show ?case
    unfolding in_ep_loop.simps [of cls ints space k w s] Let_def
    using 1 by (auto intro!: runs_none runs_bind runs_take)
qed

lemma runs_branch: "bit (gint rd) n \<longrightarrow> flagged rd e \<Longrightarrow> pcd_flag rd n s \<Longrightarrow> runs_flagged cls rd s (irq_event cls e s)"
  using runs_take [of True rd e cls s] by (auto simp: take_event_def)

lemma runs_branches:
  "\<forall>(n, act) \<in> set bs. \<forall>s. pcd_flag rd n s \<longrightarrow> runs_flagged cls rd s (act s) \<Longrightarrow> runs_flagged cls rd s (run_branches rd bs s)"
proof (induction bs arbitrary: s)
  case (Cons b bs)
  then show ?case by (cases b) (auto intro!: runs_bind runs_none)
qed (simp add: runs_none)

lemma handler_runs: "runs_flagged cls rd s (HAL_PCD_IRQHandler cls rd s)"
proof -
  have "\<forall>(n, act) \<in> set (pcd_branches cls rd). \<forall>s. pcd_flag rd n s \<longrightarrow> runs_flagged cls rd s (act s)"
    unfolding pcd_branches_def
    by (simp del: irq_event.simps) (auto intro!: runs_none runs_out_loop runs_in_loop intro: runs_branch simp del: irq_event.simps)
  then show ?thesis
    unfolding HAL_PCD_IRQHandler_def by (auto intro!: runs_none runs_branches)
qed

section \<open>The start of the device\<close>

text \<open>The static variables before \<open>main\<close>: zero, except the arrays of \<open>usb_image\<close>.\<close>

definition ep_zero :: usb_ep where
  "ep_zero = \<lparr>ep_num = 0, ep_is_in = 0, ep_is_stall = 0, ep_type = 0, ep_data_pid_start = 0, ep_tx_fifo_num = 0,
     ep_maxpacket = 0, xfer_buff = None, xfer_len = 0, xfer_count = 0\<rparr>"

definition cfg_zero :: otg_cfg where
  "cfg_zero = \<lparr>dev_endpoints = 0, Host_channels = 0, Init_speed = 0, dma_enable = 0, ep0_mps = 0, phy_itface = 0,
     Sof_enable = 0, low_power_enable = 0, lpm_enable = 0, battery_charging_enable = 0, vbus_sensing_enable = 0,
     use_dedicated_ep1 = 0, use_external_vbus = 0\<rparr>"

definition pcd_zero :: "usb_otg \<Rightarrow> pcd_handle" where
  "pcd_zero r = \<lparr>Instance = r, Init = cfg_zero, IN_ep = replicate 16 ep_zero,
     OUT_ep = replicate 16 ep_zero, Lock = False, pcd_State = HAL_PCD_STATE_RESET, Setup = replicate 48 0\<rparr>"

definition usbd_zero :: usbd_handle where
  "usbd_zero = (let e = \<lparr>ep_status = 0, total_length = 0, rem_length = 0, maxpacket = 0\<rparr> in
     \<lparr>dev_id = 0, dev_config = 0, dev_default_config = 0, dev_config_status = 0, dev_speed = USBD_SPEED_HIGH,
      ep_in = replicate 15 e, ep_out = replicate 15 e, ep0_state = 0, ep0_data_len = 0, dev_state = 0,
      dev_old_state = 0, dev_address = 0, dev_test_mode = 0, dev_remote_wakeup = 0,
      request = \<lparr>bmRequest = 0, bRequest = 0, wValue = 0, wIndex = 0, wLength = 0\<rparr>,
      pDesc = False, pClass = False, pClassData = None, pUserData = False, pData = False\<rparr>)"

definition usb_start :: "usb_otg \<Rightarrow> cdc_handle option \<Rightarrow> 'a \<Rightarrow> 'a usbd" where
  "usb_start r m a = \<lparr>pdev = usbd_zero, hpcd = pcd_zero r, mem = usb_image, cdc_malloc = m,
     tLineCoding = replicate 7 0, app = a\<rparr>"

definition MX_USB_DEVICE_Init :: "'a usbd \<Rightarrow> 'a usbd outcome" where
  "MX_USB_DEVICE_Init s =
     (let s1 = USBD_Init True 0 s;
          (_, s2) = USBD_RegisterClass True s1;
          (_, s3) = USBD_CDC_RegisterInterface True s2
      in USBD_Start s3)"

section \<open>Two applications\<close>

text \<open>
  \<open>tst_usb_echo.c\<close>: what was received is sent back, from the buffer it was received in. The status
  of the transmission is not looked at.
\<close>

definition echo_rx :: "'a cdc_rx" where
  "echo_rx Buf Len s = obind (CDC_Transmit_FS Buf (ucast Len) s) (\<lambda>(_, s1). Inr (0, s1))"

text \<open>\<open>tst_helloword_usb.c\<close>\<close>

definition hello_bytes :: bytes where
  "hello_bytes = map of_char ''Hello World '' @ [10, 13]"

definition tst_loop_1hz :: "'a usbd \<Rightarrow> 'a usbd outcome" where
  "tst_loop_1hz s =
     drop_status (CDC_Transmit_FS (Some (App_buffer hello_bytes, 0)) (of_nat (length hello_bytes)) s)"

end
