(* ===== verification/UsbFrame.thy ===== *)
theory UsbFrame
  imports UsbIrq
begin

text \<open>
  What the operations of the USB stack leave alone. Two relations between states are kept by most of
  them: \<open>pcd_like\<close> on the driver's handle, and \<open>dev_same\<close> on the library's state, which keeps the
  device's state, address and configuration and the well-formedness of the state.
\<close>

section \<open>The driver's handle\<close>

definition pcd_like :: "pcd_handle \<Rightarrow> pcd_handle \<Rightarrow> bool" where
  "pcd_like h h' \<longleftrightarrow> Setup h' = Setup h \<and> Lock h' = Lock h \<and> Init h' = Init h
     \<and> PCGCCTL (Instance h') = PCGCCTL (Instance h)
     \<and> length (IN_ep h') = length (IN_ep h) \<and> length (OUT_ep h') = length (OUT_ep h)"

lemma pcd_like_refl [simp, intro]: "pcd_like h h"
  by (simp add: pcd_like_def)

lemma pcd_like_trans [trans]: "pcd_like h h1 \<Longrightarrow> pcd_like h1 h2 \<Longrightarrow> pcd_like h h2"
  by (simp add: pcd_like_def)

lemma pcd_like_put [simp]:
  "pcd_like h (put_in k ep h') \<longleftrightarrow> pcd_like h h'" "pcd_like h (put_out k ep h') \<longleftrightarrow> pcd_like h h'"
  "pcd_like h (put_ep a ep h') \<longleftrightarrow> pcd_like h h'"
  "PCGCCTL r = PCGCCTL (Instance h') \<Longrightarrow> pcd_like h (h'\<lparr>Instance := r\<rparr>) \<longleftrightarrow> pcd_like h h'"
  by (simp_all add: pcd_like_def put_in_def put_out_def put_ep_def)

lemma Instance_put [simp]:
  "Instance (put_in k ep h) = Instance h" "Instance (put_out k ep h) = Instance h" "Instance (put_ep a ep h) = Instance h"
  by (simp_all add: put_in_def put_out_def put_ep_def)

text \<open>No register function of the endpoints touches the clock gate.\<close>

lemma PCGCCTL_regs [simp]:
  "PCGCCTL (USB_ActivateEndpoint ep r) = PCGCCTL r" "PCGCCTL (snd (USB_DeactivateEndpoint ep r)) = PCGCCTL r"
  "PCGCCTL (USB_EPSetStall ep r) = PCGCCTL r" "PCGCCTL (USB_EPClearStall ep r) = PCGCCTL r"
  "PCGCCTL (USB_SetDevAddress ad r) = PCGCCTL r" "PCGCCTL (USB_EP0_OutStart r) = PCGCCTL r"
  "PCGCCTL (USB_DevConnect r) = PCGCCTL r" "PCGCCTL (USB_DevDisconnect r) = PCGCCTL r"
  "PCGCCTL (USB_EnableGlobalInt r) = PCGCCTL r" "PCGCCTL (USB_DisableGlobalInt r) = PCGCCTL r"
  "PCGCCTL (USB_StopDevice r) = PCGCCTL r" "PCGCCTL (snd (USB_EP0StartXfer ep r)) = PCGCCTL r"
  "PCGCCTL (snd (USB_FlushTxFifo k r)) = PCGCCTL r" "PCGCCTL (snd (USB_FlushRxFifo r)) = PCGCCTL r"
  "PCGCCTL (USB_ActivateSetup d r) = PCGCCTL r"
  by (simp_all add: USB_ActivateEndpoint_def USB_DeactivateEndpoint_def USB_EPSetStall_def USB_EPClearStall_def
      USB_SetDevAddress_def USB_EP0_OutStart_def USB_DevConnect_def USB_DevDisconnect_def USB_EnableGlobalInt_def
      USB_DisableGlobalInt_def USB_StopDevice_def USB_EP0StartXfer_def USB_FlushTxFifo_def USB_FlushRxFifo_def
      USB_ActivateSetup_def Let_def split: hal_status.split)

lemma USB_EPStartXfer_gate: "USB_EPStartXfer rd ep r = Inr r' \<Longrightarrow> PCGCCTL r' = PCGCCTL r"
  by (auto simp: USB_EPStartXfer_def USB_WritePacket_def Let_def outcome_simps split: if_splits)

lemma tx_loop_gate_all:
  "tx_loop rd space k n len len32b ep r = Some m \<Longrightarrow> \<forall>l ep' r'. m = Inr (l, ep', r') \<longrightarrow> PCGCCTL r' = PCGCCTL r"
proof (rule tx_loop.raw_induct [where P = "\<lambda>rd space k n len len32b ep r m. \<forall>l ep' r'. m = Inr (l, ep', r') \<longrightarrow> PCGCCTL r' = PCGCCTL r"], goal_cases)
  case (1 loop rd space k n len len32b ep r m)
  then show ?case
    by (fastforce simp: Let_def USB_WritePacket_def outcome_simps split: if_splits sum.splits)
qed

lemma tx_loop_gate: "tx_loop rd space k n len len32b ep r = Some (Inr (l, ep', r')) \<Longrightarrow> PCGCCTL r' = PCGCCTL r"
  using tx_loop_gate_all by blast

lemmas hal_defs = HAL_PCD_EP_Open_def HAL_PCD_EP_Close_def HAL_PCD_EP_Receive_def HAL_PCD_EP_Transmit_def
  HAL_PCD_EP_SetStall_def HAL_PCD_EP_ClrStall_def HAL_PCD_EP_Flush_def HAL_PCD_Start_def HAL_PCD_Stop_def
  HAL_PCD_SetAddress_def PCD_WriteEmptyTxFifo_def

abbreviation like_h :: "pcd_handle \<Rightarrow> hal_status \<times> pcd_handle \<Rightarrow> bool" where
  "like_h h \<equiv> \<lambda>(_, h'). pcd_like h h'"

lemma HAL_EP_Open_like: "post (HAL_PCD_EP_Open a m t h) (like_h h)"
  by (auto simp: hal_defs Let_def post_def outcome_simps split: if_splits)

lemma HAL_EP_Close_like: "post (HAL_PCD_EP_Close a h) (like_h h)"
  by (auto simp: hal_defs Let_def post_def outcome_simps split: if_splits)

lemma HAL_EP_Receive_like: "post (HAL_PCD_EP_Receive rd a p n h) (like_h h)"
  by (auto simp: hal_defs Let_def post_def outcome_simps case_prod_beta USB_EPStartXfer_gate split: if_splits)

lemma HAL_EP_Transmit_like: "post (HAL_PCD_EP_Transmit rd a p n h) (like_h h)"
  by (auto simp: hal_defs Let_def post_def outcome_simps case_prod_beta USB_EPStartXfer_gate split: if_splits)

lemma HAL_EP_SetStall_like: "post (HAL_PCD_EP_SetStall a h) (like_h h)"
  by (auto simp: hal_defs Let_def post_def outcome_simps split: if_splits)

lemma HAL_EP_ClrStall_like: "post (HAL_PCD_EP_ClrStall a h) (like_h h)"
  by (auto simp: hal_defs Let_def post_def outcome_simps split: if_splits)

lemma HAL_simple_like:
  "like_h h (HAL_PCD_Start h)" "like_h h (HAL_PCD_Stop h)" "like_h h (HAL_PCD_SetAddress ad h)"
  "like_h h (HAL_PCD_EP_Flush a h)"
  by (auto simp: hal_defs)

lemma PCD_WriteEmptyTxFifo_like: "post (PCD_WriteEmptyTxFifo rd space k h) (like_h h)"
  by (auto simp: hal_defs Let_def post_def outcome_simps dest!: tx_loop_gate split: if_splits option.splits)

lemma PCD_WriteEmptyTxFifo_likeD: "PCD_WriteEmptyTxFifo rd space k h = Inr (st, h') \<Longrightarrow> pcd_like h h'"
  using PCD_WriteEmptyTxFifo_like [of rd space k h] by (simp add: post_def)

section \<open>The library's state\<close>

text \<open>The device as the host sees it.\<close>

record dev_view =
  v_state :: u8
  v_old_state :: u8
  v_config :: u32
  v_address :: u8
  v_gated :: bool      \<comment> \<open>the clock of the transceiver is stopped\<close>
  v_class :: bool      \<comment> \<open>a class handle is allocated\<close>
  v_malloc :: bool     \<comment> \<open>the heap has room for one\<close>
  v_setup :: bytes     \<comment> \<open>the setup packet received last\<close>

definition dev_view :: "'a usbd \<Rightarrow> dev_view" where
  "dev_view s = \<lparr>v_state = dev_state (pdev s), v_old_state = dev_old_state (pdev s),
     v_config = dev_config (pdev s), v_address = dev_address (pdev s),
     v_gated = bit (PCGCCTL (Instance (hpcd s))) 0, v_class = (pClassData (pdev s) \<noteq> None), v_malloc = (cdc_malloc s \<noteq> None), v_setup = take 8 (Setup (hpcd s))\<rparr>"

definition usb_wf :: "'a usbd \<Rightarrow> bool" where
  "usb_wf s \<longleftrightarrow> length (IN_ep (hpcd s)) = 16 \<and> length (OUT_ep (hpcd s)) = 16 \<and> length (Setup (hpcd s)) = 48
     \<and> \<not> Lock (hpcd s)
     \<and> length (ep_in (pdev s)) = 15 \<and> length (ep_out (pdev s)) = 15
     \<and> pDesc (pdev s) \<and> pClass (pdev s) \<and> pUserData (pdev s) \<and> pData (pdev s)
     \<and> length (tLineCoding s) = 7 \<and> (\<forall>obj. length (mem s obj) = length (usb_image obj))"

definition dev_same :: "'a usbd \<Rightarrow> 'a usbd \<Rightarrow> bool" where
  "dev_same s s' \<longleftrightarrow> (usb_wf s \<longrightarrow> dev_view s' = dev_view s \<and> usb_wf s')"

lemma dev_same_refl [simp, intro]: "dev_same s s"
  by (simp add: dev_same_def)

lemma dev_same_trans [trans]: "dev_same s s1 \<Longrightarrow> dev_same s1 s2 \<Longrightarrow> dev_same s s2"
  by (simp add: dev_same_def)

named_theorems same \<open>operations that keep the device's state\<close>

lemma same_bind [same]:
  assumes "post m (dev_same s)" and "\<And>s1. post (f s1) (dev_same s1)"
  shows "post (obind m f) (dev_same s)"
  unfolding post_simps
  by (rule post_mono [OF assms(1)]) (rule post_mono [OF assms(2)], erule (1) dev_same_trans)

lemma same_from: "dev_same s s1 \<Longrightarrow> post m (dev_same s1) \<Longrightarrow> post m (dev_same s)"
  by (erule post_mono) (erule (1) dev_same_trans)

lemma same_if [same]:
  "(b \<Longrightarrow> post m P) \<Longrightarrow> (\<not> b \<Longrightarrow> post n P) \<Longrightarrow> post (if b then m else n) P"
  by simp

lemma same_Inr [same]: "dev_same s s' \<Longrightarrow> post (Inr s') (dev_same s)"
  by (simp add: post_simps)

lemma same_Inl [same]: "post (Inl e) P"
  by (simp add: post_simps)

lemma drop_status_same: "post m (\<lambda>(_, s'). P s') \<Longrightarrow> post (drop_status m) P"
  by (cases m) (auto simp: drop_status_def post_def)

lemma with_pcd_same:
  assumes "post (f (hpcd s)) (like_h (hpcd s))"
  shows "post (with_pcd f s) (\<lambda>(_, s'). dev_same s s')"
  using assms
  by (auto simp: with_pcd_def post_def outcome_simps pcd_like_def dev_same_def dev_view_def usb_wf_def split: if_splits)

lemma LL_same [same]:
  "post (drop_status (USBD_LL_OpenEP a t m s)) (dev_same s)"
  "post (drop_status (USBD_LL_CloseEP a s)) (dev_same s)"
  "post (drop_status (USBD_LL_StallEP a s)) (dev_same s)"
  "post (drop_status (USBD_LL_ClearStallEP a s)) (dev_same s)"
  "post (drop_status (USBD_LL_SetUSBAddress ad s)) (dev_same s)"
  "post (drop_status (USBD_LL_Transmit a p n s)) (dev_same s)"
  "post (drop_status (USBD_LL_PrepareReceive a p n s)) (dev_same s)"
  "post (drop_status (USBD_LL_Start s)) (dev_same s)"
  "post (drop_status (USBD_LL_Stop s)) (dev_same s)"
  unfolding USBD_LL_OpenEP_def USBD_LL_CloseEP_def USBD_LL_StallEP_def USBD_LL_ClearStallEP_def
    USBD_LL_SetUSBAddress_def USBD_LL_Transmit_def USBD_LL_PrepareReceive_def USBD_LL_Start_def USBD_LL_Stop_def
  by (intro drop_status_same with_pcd_same HAL_EP_Open_like HAL_EP_Close_like HAL_EP_SetStall_like
      HAL_EP_ClrStall_like HAL_EP_Transmit_like HAL_EP_Receive_like post_Inr [THEN iffD2] HAL_simple_like)+

lemma set_pdev_same:
  assumes "dev_view (set_pdev f s) = dev_view s"
    and "length (ep_in (f (pdev s))) = length (ep_in (pdev s))"
    and "length (ep_out (f (pdev s))) = length (ep_out (pdev s))"
    and "pDesc (f (pdev s)) = pDesc (pdev s)" "pClass (f (pdev s)) = pClass (pdev s)"
    and "pUserData (f (pdev s)) = pUserData (pdev s)" "pData (f (pdev s)) = pData (pdev s)"
  shows "dev_same s (set_pdev f s)"
  using assms by (simp add: dev_same_def usb_wf_def set_pdev_def)

lemmas upd_same = set_pdev_same dev_view_def set_pdev_def ep0_in_def ep0_out_def

lemma Ctl_same [same]:
  "post (USBD_CtlSendData p n s) (dev_same s)"
  "post (USBD_CtlContinueSendData p n s) (dev_same s)"
  "post (USBD_CtlPrepareRx p n s) (dev_same s)"
  "post (USBD_CtlContinueRx p n s) (dev_same s)"
  "post (USBD_CtlSendStatus s) (dev_same s)"
  "post (USBD_CtlReceiveStatus s) (dev_same s)"
  "post (USBD_CtlError s) (dev_same s)"
  unfolding USBD_CtlSendData_def USBD_CtlContinueSendData_def USBD_CtlPrepareRx_def USBD_CtlContinueRx_def
    USBD_CtlSendStatus_def USBD_CtlReceiveStatus_def USBD_CtlError_def Let_def
  by (rule same_from [OF _ LL_same(6)] same_from [OF _ LL_same(7)] LL_same same_bind;
      (rule dev_same_refl LL_same set_pdev_same)?; simp add: dev_view_def set_pdev_def ep0_in_def ep0_out_def)+


lemma length_le_buf: "buf_write off bs old = Inr new \<Longrightarrow> length new = length old"
  by (rule buf_write_length)

lemma mem_upd_same: "length bs = length (mem s obj) \<Longrightarrow> dev_same s (s\<lparr>mem := (mem s)(obj := bs)\<rparr>)"
  by (simp add: dev_same_def dev_view_def usb_wf_def)

lemma request_same: "dev_same s (set_pdev (\<lambda>d. d\<lparr>request := q\<rparr>) s)"
  by (rule set_pdev_same) (simp_all add: dev_view_def set_pdev_def)

lemma usb_put_same: "length bs = length (mem s obj) \<Longrightarrow> post (usb_put obj bs s) (dev_same s)"
  by (cases obj) (simp_all add: usb_put_def post_simps mem_upd_same request_same)

lemma usb_put_request_same: "post (usb_put Request bs s) (dev_same s)"
  by (simp add: usb_put_def post_simps request_same)

lemma usb_load_length:
  "usb_load s obj = Inr bs \<Longrightarrow> usb_put obj new s = Inr s' \<Longrightarrow> obj \<noteq> Request \<Longrightarrow> length bs = length (mem s obj)"
  by (cases obj) (auto simp: usb_load_def usb_put_def split: option.splits)

lemma usb_write_same [same]: "post (usb_write p bs s) (dev_same s)"
proof (cases p)
  case None
  then show ?thesis by (simp add: usb_write_def post_simps)
next
  case (Some q)
  obtain obj off where [simp]: "q = (obj, off)" by (cases q)
  have "dev_same s s'" if "usb_load s obj = Inr old" "buf_write off bs old = Inr new" "usb_put obj new s = Inr s'"
    for old new s'
  proof (cases "obj = Request")
    case True
    then show ?thesis using postD [OF usb_put_request_same that(3) [unfolded True]] by simp
  next
    case False
    then have "length new = length (mem s obj)"
      using usb_load_length [OF that(1,3)] buf_write_length [OF that(2)] by simp
    then show ?thesis using postD [OF usb_put_same that(3)] by simp
  qed
  then show ?thesis using Some by (auto simp: usb_write_def post_def outcome_simps)
qed

lemma usb_read_length: "usb_read s p n = Inr bs \<Longrightarrow> length bs = n"
  by (auto simp: usb_read_def buf_read_def outcome_simps split: option.splits if_splits)

section \<open>Descriptors\<close>

lemma GetString_loop_length: "USBD_GetString_loop d idx u = Inr u' \<Longrightarrow> length u' = length u"
proof (induction d idx u rule: USBD_GetString_loop.induct)
  case (2 c cs idx u)
  then show ?case by (auto simp: outcome_simps dest!: buf_write_length split: if_splits)
qed simp

lemma GetString_length: "USBD_GetString d n u = Inr (m, u') \<Longrightarrow> length u' = length u"
  by (auto simp: USBD_GetString_def Let_def outcome_simps split: option.splits
      dest!: buf_write_length GetString_loop_length)

definition desc_same :: "'a usbd \<Rightarrow> (usb_ptr \<times> u16 \<times> 'a usbd) \<Rightarrow> bool" where
  "desc_same s = (\<lambda>(p, n, s1). dev_same s s1)"

lemma str_descriptor_same: "post (str_descriptor str s) (desc_same s)"
  by (auto simp: str_descriptor_def post_def outcome_simps desc_same_def intro!: mem_upd_same dest: GetString_length)

lemmas descriptor_defs = USBD_FS_DeviceDescriptor_def USBD_FS_LangIDStrDescriptor_def
  USBD_FS_ProductStrDescriptor_def USBD_FS_ManufacturerStrDescriptor_def USBD_FS_SerialStrDescriptor_def
  USBD_FS_ConfigStrDescriptor_def USBD_FS_InterfaceStrDescriptor_def
  USBD_CDC_GetFSCfgDesc_def USBD_CDC_GetHSCfgDesc_def USBD_CDC_GetOtherSpeedCfgDesc_def
  USBD_CDC_GetDeviceQualifierDescriptor_def array_descriptor_def

definition odesc_same :: "'a usbd \<Rightarrow> (usb_ptr \<times> u16 \<times> 'a usbd) option \<Rightarrow> bool" where
  "odesc_same s r \<longleftrightarrow> (case r of None \<Rightarrow> True | Some x \<Rightarrow> desc_same s x)"

lemma odesc_some: "post m (desc_same s) \<Longrightarrow> post (obind m (\<lambda>r. Inr (Some r))) (odesc_same s)"
  by (simp add: post_simps odesc_same_def)

lemma via_same: "post (f s) P \<Longrightarrow> post (via_class f s) P" "post (f s) P \<Longrightarrow> post (via_desc f s) P"
  "post (f s) P \<Longrightarrow> post (via_user f s) P"
  by (simp_all add: via_class_def via_desc_def via_user_def post_simps)

lemma string_descriptor_same: "post (string_descriptor i s) (odesc_same s)"
  unfolding string_descriptor_def Let_def
  by (intro same_if odesc_some via_same;
      simp add: descriptor_defs str_descriptor_same [unfolded desc_same_def] post_simps odesc_same_def desc_same_def)

lemma retype_same:
  assumes "\<And>s. \<exists>p n. get s = (p, n, s)"
  shows "post (retype t get s) (odesc_same s)"
proof -
  obtain p n where "get s = (p, n, s)" using assms by blast
  then show ?thesis
    unfolding retype_def
    by (intro via_same) (auto simp: post_simps odesc_same_def desc_same_def intro: usb_write_same)
qed

text \<open>The functions of the CDC class that give a descriptor change nothing.\<close>

lemma find_descriptor_same: "post (find_descriptor (USBD_CDC rx) s) (odesc_same s)"
  unfolding find_descriptor_def Let_def USBD_CDC_def
  by (intro same_if odesc_some via_same string_descriptor_same retype_same;
      simp add: descriptor_defs post_simps odesc_same_def desc_same_def)

lemma USBD_GetDescriptor_same [same]: "post (USBD_GetDescriptor (USBD_CDC rx) s) (dev_same s)"
proof -
  have "post (case r of None \<Rightarrow> USBD_CtlError s
     | Some (pbuf, len, s1) \<Rightarrow> (let wl = wLength (request (pdev s1)) in
          if len \<noteq> 0 \<and> wl \<noteq> 0 then USBD_CtlSendData pbuf (if len < wl then len else wl) s1 else Inr s1)) (dev_same s)"
    if "odesc_same s r" for r
    using that
    by (auto simp: odesc_same_def desc_same_def Let_def post_simps split: option.splits
        intro: same same_from [OF _ Ctl_same(1)])
  then show ?thesis
    unfolding USBD_GetDescriptor_def post_simps
    by (rule post_mono [OF find_descriptor_same])
qed

section \<open>The class\<close>

lemma set_hcdc_same: "pClassData (pdev s) \<noteq> None \<Longrightarrow> dev_same s (set_hcdc h s)"
  unfolding set_hcdc_def by (rule set_pdev_same) (simp_all add: dev_view_def set_pdev_def)

lemma with_hcdc_same [same]:
  "(\<And>h. pClassData (pdev s) = Some h \<Longrightarrow> post (f h s) P) \<Longrightarrow> post (with_hcdc f s) P"
  by (auto simp: with_hcdc_def post_simps split: option.splits)

lemma SetBuffer_same [same]:
  "post (USBD_CDC_SetTxBuffer p n s) (dev_same s)" "post (USBD_CDC_SetRxBuffer p s) (dev_same s)"
  unfolding USBD_CDC_SetTxBuffer_def USBD_CDC_SetRxBuffer_def
  by (intro same set_hcdc_same; simp)+

lemma TransmitPacket_same: "post (USBD_CDC_TransmitPacket s) (\<lambda>(_, s'). dev_same s s')"
proof (cases "pClassData (pdev s)")
  case (Some h)
  show ?thesis
    using Some same_from [OF set_hcdc_same [of s "h\<lparr>TxState := 1\<rparr>"] LL_same(6)]
    by (simp add: USBD_CDC_TransmitPacket_def post_simps)
qed (simp add: USBD_CDC_TransmitPacket_def post_simps)

lemma ReceivePacket_same: "post (USBD_CDC_ReceivePacket s) (\<lambda>(_, s'). dev_same s s')"
  by (auto simp: USBD_CDC_ReceivePacket_def post_simps LL_same split: option.splits)

lemma CDC_Transmit_FS_same: "post (CDC_Transmit_FS p n s) (\<lambda>(_, s'). dev_same s s')"
proof -
  have "post (obind (USBD_CDC_SetTxBuffer p n s) USBD_CDC_TransmitPacket) (\<lambda>(_, s'). dev_same s s')"
    unfolding post_simps
    by (rule post_mono [OF SetBuffer_same(1)], rule post_mono [OF TransmitPacket_same])
      (auto intro: dev_same_trans)
  then show ?thesis
    unfolding CDC_Transmit_FS_def by (intro same) (simp add: post_simps)
qed

lemma CDC_Control_FS_same [same]: "post (CDC_Control_FS c p n s) (dev_same s)"
proof -
  have "dev_same s (s\<lparr>tLineCoding := bs\<rparr>)" if "usb_read s p 7 = Inr bs" for bs
    using usb_read_length [OF that] by (simp add: dev_same_def dev_view_def usb_wf_def)
  then show ?thesis
    unfolding CDC_Control_FS_def
    by (intro same) (auto simp: post_def outcome_simps)
qed

lemma USBD_CDC_Setup_same [same]: "post (USBD_CDC_Setup s) (dev_same s)"
  unfolding USBD_CDC_Setup_def Let_def
  by (intro same via_same set_hcdc_same; simp)

lemma EP0_RxReady_same [same]: "post (USBD_CDC_EP0_RxReady s) (dev_same s)"
  unfolding USBD_CDC_EP0_RxReady_def by (intro same set_hcdc_same; simp)

lemma DataIn_same [same]: "post (USBD_CDC_DataIn k s) (dev_same s)"
  by (auto simp: USBD_CDC_DataIn_def post_simps set_hcdc_same split: option.splits)

end
