(* ===== verification/UsbStates.thy ===== *)
theory UsbStates
  imports UsbFrame
begin

text \<open>
  The device's state machine: what the stack does to the state, the address and the configuration of
  the device is the machine \<open>ch9\<close>, a small function on \<open>dev_view\<close>. Its invariant then holds of
  every state the stack reaches.
\<close>

section \<open>The abstract machine\<close>

definition ch9_set_address :: "setup_req \<Rightarrow> dev_view \<Rightarrow> dev_view" where
  "ch9_set_address q v =
     (if wIndex q = 0 \<and> wLength q = 0 \<and> v_state v \<noteq> USBD_STATE_CONFIGURED
      then let a = ucast (wValue q) AND 0x7F
        in v\<lparr>v_address := a, v_state := (if a \<noteq> 0 then USBD_STATE_ADDRESSED else USBD_STATE_DEFAULT)\<rparr>
      else v)"

definition ch9_set_config :: "u8 \<Rightarrow> dev_view \<Rightarrow> dev_view" where
  "ch9_set_config c v =
     (if 1 < c then v
      else if v_state v = USBD_STATE_ADDRESSED then
        (if c \<noteq> 0 then v\<lparr>v_config := ucast c, v_state := USBD_STATE_CONFIGURED, v_class := v_malloc v\<rparr> else v)
      else if v_state v = USBD_STATE_CONFIGURED then
        (if c = 0 then v\<lparr>v_state := USBD_STATE_ADDRESSED, v_config := 0, v_class := False\<rparr>
         else if ucast c \<noteq> v_config v then v\<lparr>v_config := ucast c, v_class := v_malloc v\<rparr> else v)
      else v)"

definition ch9_request :: "setup_req \<Rightarrow> dev_view \<Rightarrow> dev_view" where
  "ch9_request q v =
     (if bmRequest q AND 0x1F = 0 \<and> bRequest q = 5 then ch9_set_address q v
      else if bmRequest q AND 0x1F = 0 \<and> bRequest q = 9 then ch9_set_config (ucast (wValue q)) v
      else v)"

fun ch9 :: "pcd_event \<Rightarrow> dev_view \<Rightarrow> dev_view" where
  "ch9 Setup_done v = (case USBD_ParseSetupRequest (v_setup v) of Inl e \<Rightarrow> v | Inr q \<Rightarrow> ch9_request q v)"
| "ch9 Wakeup v = v\<lparr>v_state := v_old_state v\<rparr>"
| "ch9 (Usb_suspend b) v = (if b then v\<lparr>v_old_state := v_state v, v_state := USBD_STATE_SUSPENDED, v_gated := True\<rparr> else v)"
| "ch9 (Enum_done d) v = v\<lparr>v_state := USBD_STATE_DEFAULT, v_class := False\<rparr>"
| "ch9 (Session_end b) v = (if b then v\<lparr>v_state := USBD_STATE_DEFAULT, v_class := False\<rparr> else v)"
| "ch9 (Rx_level temp fifo) v =
     (if drop_bit 17 (temp AND 0x1E0000) = STS_SETUP_UPDT
      then v\<lparr>v_setup := take 8 fifo @ drop (length (take 8 fifo)) (v_setup v)\<rparr> else v)"
| "ch9 (Out_xfrc k) v = v"
| "ch9 (In_xfrc k) v = v"
| "ch9 (Tx_fifo_empty k sp) v = v"
| "ch9 Usb_reset v = v"
| "ch9 Sof v = v"
| "ch9 (Iso_in_incomplete k) v = v"
| "ch9 (Iso_out_incomplete k) v = v"
| "ch9 Session_request v = v"

section \<open>Steps of the stack that change the view\<close>

definition dev_to :: "(dev_view \<Rightarrow> dev_view) \<Rightarrow> 'a usbd \<Rightarrow> 'a usbd \<Rightarrow> bool" where
  "dev_to f s s' \<longleftrightarrow> (usb_wf s \<longrightarrow> dev_view s' = f (dev_view s) \<and> usb_wf s')"

lemma dev_to_id: "dev_to (\<lambda>v. v) = dev_same"
  by (simp add: fun_eq_iff dev_to_def dev_same_def)

lemma post_same_to: "post m (dev_same s) \<Longrightarrow> f (dev_view s) = dev_view s \<Longrightarrow> post m (dev_to f s)"
  by (erule post_mono) (simp add: dev_to_def dev_same_def)

lemma to_bind:
  assumes "post m (dev_to g s)" and "\<And>s1. dev_to g s s1 \<Longrightarrow> post (f s1) (dev_to h s1)"
    and "h (g (dev_view s)) = k (dev_view s)"
  shows "post (obind m f) (dev_to k s)"
  unfolding post_simps
  by (rule post_mono [OF assms(1)], rule post_mono [OF assms(2)]) (auto simp: dev_to_def assms(3))

lemma to_then_same:
  assumes "post m (dev_to g s)" and "\<And>s1. post (f s1) (dev_same s1)"
  shows "post (obind m f) (dev_to g s)"
  by (rule to_bind [OF assms(1), where h = "\<lambda>v. v"]) (simp_all add: dev_to_id assms(2))

lemma same_then_to:
  assumes "post m (dev_same s)" and "\<And>s1. dev_same s s1 \<Longrightarrow> post (f s1) (dev_to g s1)"
  shows "post (obind m f) (dev_to g s)"
  by (rule to_bind [where g = "\<lambda>v. v" and h = g]) (simp_all add: dev_to_id assms)

lemma to_from: "dev_to g s s1 \<Longrightarrow> post m (dev_to h s1) \<Longrightarrow> h (g (dev_view s)) = k (dev_view s) \<Longrightarrow> post m (dev_to k s)"
  by (erule post_mono) (auto simp: dev_to_def)

lemma set_pdev_to:
  assumes "dev_view (set_pdev f s) = g (dev_view s)"
    and "length (ep_in (f (pdev s))) = length (ep_in (pdev s))"
    and "length (ep_out (f (pdev s))) = length (ep_out (pdev s))"
    and "pDesc (f (pdev s)) = pDesc (pdev s)" "pClass (f (pdev s)) = pClass (pdev s)"
    and "pUserData (f (pdev s)) = pUserData (pdev s)" "pData (f (pdev s)) = pData (pdev s)"
  shows "dev_to g s (set_pdev f s)"
  using assms by (simp add: dev_to_def usb_wf_def set_pdev_def)

lemma USBD_CDC_DeInit_to: "post (USBD_CDC_DeInit c s) (dev_to (\<lambda>v. v\<lparr>v_class := False\<rparr>) s)"
proof -
  have last: "post (if pClassData (pdev s) \<noteq> None
      then obind (via_user CDC_DeInit_FS s) (\<lambda>s4. Inr (set_pdev (\<lambda>d. d\<lparr>pClassData := None\<rparr>) s4))
      else Inr s) (dev_to (\<lambda>v. v\<lparr>v_class := False\<rparr>) s)" for s :: "'a usbd"
    by (auto simp: post_def outcome_simps via_user_def CDC_DeInit_FS_def dev_to_def dev_view_def usb_wf_def
        set_pdev_def split: if_splits)
  show ?thesis
    unfolding USBD_CDC_DeInit_def
    by (intro same_then_to LL_same last)
qed

lemma USBD_CDC_Init_to:
  "post (USBD_CDC_Init c s) (\<lambda>(_, s'). dev_to (\<lambda>v. v\<lparr>v_class := v_malloc v\<rparr>) s s')"
proof -
  have alloc: "dev_to (\<lambda>v. v\<lparr>v_class := v_malloc v\<rparr>) s (set_pdev (\<lambda>d. d\<lparr>pClassData := cdc_malloc s\<rparr>) s)"
    for s :: "'a usbd"
    by (rule set_pdev_to) (simp_all add: dev_view_def set_pdev_def)
  have "post (obind (via_user CDC_Init_FS s4) (with_hcdc (\<lambda>h s5.
          let s6 = set_hcdc (h\<lparr>TxState := 0, RxState := 0\<rparr>) s5 in
          obind (drop_status (USBD_LL_PrepareReceive CDC_OUT_EP (RxBuffer h) (cdc_packet_size s6) s6)) Inr)))
        (dev_same s4)" for s4 :: "'a usbd"
    unfolding Let_def CDC_Init_FS_def
    by (intro same via_same same_from [OF set_hcdc_same LL_same(7)]; simp add: post_simps)
  then have rest: "post (obind (via_user CDC_Init_FS s4) (with_hcdc (\<lambda>h s5.
          let s6 = set_hcdc (h\<lparr>TxState := 0, RxState := 0\<rparr>) s5 in
          obind (drop_status (USBD_LL_PrepareReceive CDC_OUT_EP (RxBuffer h) (cdc_packet_size s6) s6))
            (\<lambda>s7. Inr (0, s7))))) (\<lambda>(_, s'). dev_same s4 s')" for s4 :: "'a usbd"
    by (auto simp: post_def outcome_simps with_hcdc_def Let_def split: option.splits)
  have step: "post (obind m f) P" if "post m (dev_same s)" "\<And>s1. dev_same s s1 \<Longrightarrow> post (f s1) P"
    for m :: "'a usbd outcome" and f :: "'a usbd \<Rightarrow> (u8 \<times> 'a usbd) outcome" and s P
    unfolding post_simps by (rule post_mono [OF that(1)]) (rule that(2))
  show ?thesis
    unfolding USBD_CDC_Init_def
  proof (rule step, rule LL_same, rule step, rule LL_same, rule step, rule LL_same)
    fix s1 s2 s3 assume "dev_same s s1" "dev_same s1 s2" "dev_same s2 s3"
    then have s3: "dev_same s s3" by (blast intro: dev_same_trans)
    let ?s4 = "set_pdev (\<lambda>d. d\<lparr>pClassData := cdc_malloc s3\<rparr>) s3"
    have s4: "dev_to (\<lambda>v. v\<lparr>v_class := v_malloc v\<rparr>) s ?s4"
      using s3 alloc [of s3] by (simp add: dev_to_def dev_same_def)
    show "post (let s4 = ?s4 in if pClassData (pdev s4) = None then Inr (1, s4)
        else obind (via_user CDC_Init_FS s4) (with_hcdc (\<lambda>h s5.
          let s6 = set_hcdc (h\<lparr>TxState := 0, RxState := 0\<rparr>) s5 in
          obind (drop_status (USBD_LL_PrepareReceive CDC_OUT_EP (RxBuffer h) (cdc_packet_size s6) s6))
            (\<lambda>s7. Inr (0, s7))))) (\<lambda>(_, s'). dev_to (\<lambda>v. v\<lparr>v_class := v_malloc v\<rparr>) s s')"
      unfolding Let_def [of ?s4]
      by (rule same_if, simp add: post_simps s4, rule post_mono [OF rest])
        (use s4 in \<open>auto simp: dev_to_def dev_same_def\<close>)
  qed
qed

lemma config_class_to:
  "post (config_class (USBD_CDC rx) c s) (dev_to (\<lambda>v. v\<lparr>v_class := v_malloc v\<rparr>) s)"
proof -
  have end_same: "post (if r = USBD_FAIL_st then USBD_CtlError s1 else USBD_CtlSendStatus s1) (dev_same s1)"
    for r and s1 :: "'a usbd"
    by (intro same)
  have "post (USBD_SetClassConfig (USBD_CDC rx) c s) (\<lambda>(_, s'). dev_to (\<lambda>v. v\<lparr>v_class := v_malloc v\<rparr>) s s')"
    using USBD_CDC_Init_to [of c s]
    by (auto simp: USBD_SetClassConfig_def USBD_CDC_def post_simps dev_to_def usb_wf_def case_prod_beta elim!: post_mono)
  then show ?thesis
    unfolding config_class_def post_simps
    by (rule post_mono) (auto intro!: post_mono [OF end_same] simp: dev_to_def dev_same_def)
qed

section \<open>Requests\<close>

lemma USBD_SetAddress_to: "post (USBD_SetAddress s) (dev_to (ch9_set_address (request (pdev s))) s)"
proof -
  define a where "a = (ucast (wValue (request (pdev s))) AND 0x7F :: u8)"
  define st where "st = (if a \<noteq> 0 then USBD_STATE_ADDRESSED else USBD_STATE_DEFAULT)"
  have addr: "dev_to (\<lambda>v. v\<lparr>v_address := a\<rparr>) s (set_pdev (\<lambda>d. d\<lparr>dev_address := a\<rparr>) s)"
    by (rule set_pdev_to) (simp_all add: dev_view_def set_pdev_def)
  have state: "post (Inr (set_pdev (\<lambda>d. d\<lparr>dev_state := st\<rparr>) s2)) (dev_to (\<lambda>v. v\<lparr>v_state := st\<rparr>) s2)"
    for s2 :: "'a usbd"
    unfolding post_simps by (rule set_pdev_to) (simp_all add: dev_view_def set_pdev_def)
  have "post (obind (drop_status (USBD_LL_SetUSBAddress a (set_pdev (\<lambda>d. d\<lparr>dev_address := a\<rparr>) s))) (\<lambda>s1.
        obind (USBD_CtlSendStatus s1) (\<lambda>s2. Inr (set_pdev (\<lambda>d. d\<lparr>dev_state := st\<rparr>) s2))))
      (dev_to (\<lambda>v. v\<lparr>v_address := a, v_state := st\<rparr>) s)"
    by (rule to_from [OF addr same_then_to [OF LL_same(5) same_then_to [OF Ctl_same(5) state]]]) simp
  then show ?thesis
    unfolding USBD_SetAddress_def Let_def a_def [symmetric] st_def [symmetric]
    by (auto simp: ch9_set_address_def a_def st_def dev_view_def split: if_splits
        intro!: post_same_to Ctl_same elim!: post_mono simp: dev_to_def)
qed

lemma ClrClassConfig_to:
  "post (USBD_ClrClassConfig (USBD_CDC rx) c s) (dev_to (\<lambda>v. v\<lparr>v_class := False\<rparr>) s)"
  unfolding USBD_ClrClassConfig_def
  by (rule via_same) (simp add: USBD_CDC_def USBD_CDC_DeInit_to)

lemma USBD_SetConfig_to:
  "post (USBD_SetConfig (USBD_CDC rx) s) (dev_to (ch9_set_config (ucast (wValue (request (pdev s))))) s)"
proof -
  define c where "c = (ucast (wValue (request (pdev s))) :: u8)"
  have conf: "dev_to (\<lambda>v. v\<lparr>v_config := x, v_state := y\<rparr>) s
      (set_pdev (\<lambda>d. d\<lparr>dev_config := x, dev_state := y\<rparr>) s)"
    and conf': "dev_to (\<lambda>v. v\<lparr>v_config := x\<rparr>) s' (set_pdev (\<lambda>d. d\<lparr>dev_config := x\<rparr>) s')"
    and unconf: "dev_to (\<lambda>v. v\<lparr>v_state := y, v_config := x\<rparr>) s
      (set_pdev (\<lambda>d. d\<lparr>dev_state := y, dev_config := x\<rparr>) s)" for x y and s' :: "'a usbd"
    by (rule set_pdev_to; simp add: dev_view_def set_pdev_def)+
  have first: "post (config_class (USBD_CDC rx) c (set_pdev (\<lambda>d. d\<lparr>dev_config := ucast c, dev_state := 3\<rparr>) s))
      (dev_to (\<lambda>v. v\<lparr>v_config := ucast c, v_state := 3, v_class := v_malloc v\<rparr>) s)"
    by (rule to_from [OF conf config_class_to]) simp
  have zero: "post (obind (USBD_ClrClassConfig (USBD_CDC rx) c
        (set_pdev (\<lambda>d. d\<lparr>dev_state := 2, dev_config := ucast c\<rparr>) s)) USBD_CtlSendStatus)
      (dev_to (\<lambda>v. v\<lparr>v_state := 2, v_config := ucast c, v_class := False\<rparr>) s)"
    by (rule to_from [OF unconf to_then_same [OF ClrClassConfig_to Ctl_same(5)]]) simp
  have other: "post (obind (USBD_ClrClassConfig (USBD_CDC rx) x s) (\<lambda>s1.
        config_class (USBD_CDC rx) c (set_pdev (\<lambda>d. d\<lparr>dev_config := ucast c\<rparr>) s1)))
      (dev_to (\<lambda>v. v\<lparr>v_config := ucast c, v_class := v_malloc v\<rparr>) s)" for x
    by (rule to_bind [OF ClrClassConfig_to, where h = "\<lambda>v. v\<lparr>v_config := ucast c, v_class := v_malloc v\<rparr>"],
        rule to_from [OF conf' config_class_to]) simp_all
  show ?thesis
    unfolding USBD_SetConfig_def Let_def c_def [symmetric]
    by (intro same_if)
      (use first zero other [of "ucast (dev_config (pdev s))"] in \<open>auto simp: ch9_set_config_def dev_view_def dev_to_def
        intro: post_same_to Ctl_same elim!: post_mono\<close>)
qed

lemma wakeup_same: "dev_same s (set_pdev (\<lambda>d. d\<lparr>dev_remote_wakeup := x\<rparr>) s)"
  "dev_same s (set_pdev (\<lambda>d. d\<lparr>dev_default_config := y\<rparr>) s)"
  "dev_same s (set_pdev (\<lambda>d. d\<lparr>dev_config_status := g d\<rparr>) s)"
  "dev_same s (set_pdev (\<lambda>d. d\<lparr>request := q, ep0_state := e, ep0_data_len := l\<rparr>) s)"
  "dev_same s (set_pdev (\<lambda>d. d\<lparr>ep0_data_len := l\<rparr>) s)"
  "dev_same s (set_pdev (\<lambda>d. d\<lparr>dev_test_mode := t\<rparr>) s)"
  "dev_same s (set_pdev (\<lambda>d. d\<lparr>dev_speed := sp\<rparr>) s)"
  "dev_same s (set_pdev (ep0_in h) s)"
  "dev_same s (set_pdev (ep0_out h) s)"
  by (rule set_pdev_same; simp add: dev_view_def set_pdev_def ep0_in_def ep0_out_def)+

lemma small_requests_same [same]:
  "post (USBD_GetConfig s) (dev_same s)"
  "post (USBD_GetStatus s) (dev_same s)"
  "post (USBD_SetFeature (USBD_CDC rx) s) (dev_same s)"
  "post (USBD_ClrFeature (USBD_CDC rx) s) (dev_same s)"
  "post (USBD_StdItfReq (USBD_CDC rx) s) (dev_same s)"
proof -
  have req: "post (via_class (cls_Setup (USBD_CDC rx)) s) (dev_same s)" for s :: "'a usbd"
    by (rule via_same) (simp add: USBD_CDC_def USBD_CDC_Setup_same)
  show "post (USBD_GetConfig s) (dev_same s)"
    unfolding USBD_GetConfig_def
    by (intro same same_from [OF wakeup_same(2) Ctl_same(1)])
  show "post (USBD_GetStatus s) (dev_same s)"
    unfolding USBD_GetStatus_def Let_def
    by (intro same same_from [OF _ Ctl_same(1)])
      (auto intro: wakeup_same dev_same_trans [OF wakeup_same(3)])
  show "post (USBD_SetFeature (USBD_CDC rx) s) (dev_same s)"
    unfolding USBD_SetFeature_def
    by (intro same same_from [OF wakeup_same(1) req] dev_same_refl)
  show "post (USBD_ClrFeature (USBD_CDC rx) s) (dev_same s)"
    unfolding USBD_ClrFeature_def
    by (intro same same_from [OF wakeup_same(1) req] dev_same_refl)
  show "post (USBD_StdItfReq (USBD_CDC rx) s) (dev_same s)"
    unfolding USBD_StdItfReq_def
    by (intro same req dev_same_refl)
qed

lemma set_ep_status_same: "post (set_ep_status a v s) (\<lambda>(_, s'). dev_same s s')"
  by (auto simp: set_ep_status_def Let_def post_simps dev_same_def usb_wf_def dev_view_def set_pdev_def)

lemma endpoint_requests_same [same]:
  "post (ep_set_feature (USBD_CDC rx) a s) (dev_same s)"
  "post (ep_clear_feature (USBD_CDC rx) a s) (dev_same s)"
  "post (ep_get_status a s) (dev_same s)"
  "post (USBD_StdEPReq (USBD_CDC rx) s) (dev_same s)"
proof -
  have req: "post (via_class (cls_Setup (USBD_CDC rx)) s) (dev_same s)" for s :: "'a usbd"
    by (rule via_same) (simp add: USBD_CDC_def USBD_CDC_Setup_same)
  have setf: "post (ep_set_feature (USBD_CDC rx) a s) (dev_same s)" for a and s :: "'a usbd"
    unfolding ep_set_feature_def Let_def by (intro same req dev_same_refl)
  have clrf: "post (ep_clear_feature (USBD_CDC rx) a s) (dev_same s)" for a and s :: "'a usbd"
    unfolding ep_clear_feature_def by (intro same req dev_same_refl)
  have send: "post (set_ep_status a v s) (\<lambda>x. post (case x of (p, s1) \<Rightarrow> USBD_CtlSendData p 2 s1) (dev_same s))"
    for a v and s :: "'a usbd"
    by (rule post_mono [OF set_ep_status_same]) (auto intro: same_from Ctl_same)
  have stat: "post (ep_get_status a s) (dev_same s)" for a and s :: "'a usbd"
    unfolding ep_get_status_def
    by (intro same dev_same_refl) (auto simp: post_simps post_def [of "USBD_LL_IsStallEP a s"] send)
  show "post (ep_set_feature (USBD_CDC rx) a s) (dev_same s)" by (rule setf)
  show "post (ep_clear_feature (USBD_CDC rx) a s) (dev_same s)" by (rule clrf)
  show "post (ep_get_status a s) (dev_same s)" by (rule stat)
  show "post (USBD_StdEPReq (USBD_CDC rx) s) (dev_same s)"
    unfolding USBD_StdEPReq_def Let_def by (intro same req setf clrf stat dev_same_refl)
qed

lemma USBD_LL_SetupStage_to:
  "post (USBD_LL_SetupStage (USBD_CDC rx) (Setup (hpcd s)) s) (dev_to (ch9 Setup_done) s)"
proof (cases "USBD_ParseSetupRequest (Setup (hpcd s))")
  case (Inl e)
  then show ?thesis by (simp add: USBD_LL_SetupStage_def post_simps)
next
  case (Inr q)
  have view: "USBD_ParseSetupRequest (v_setup (dev_view s)) = Inr q"
    using Inr by (auto simp: USBD_ParseSetupRequest_def dev_view_def buf_read_def outcome_simps split: if_splits)
  define s1 where "s1 = set_pdev (\<lambda>d. d\<lparr>request := q, ep0_state := USBD_EP0_SETUP, ep0_data_len := ucast (wLength q)\<rparr>) s"
  have s1: "dev_same s s1" and q1: "request (pdev s1) = q"
    by (simp_all add: s1_def wakeup_same) (simp add: set_pdev_def)
  have std: "post (USBD_StdDevReq (USBD_CDC rx) s1) (dev_to (ch9_request q) s1)" if "bmRequest q AND 0x1F = 0"
  proof -
    consider (address) "bRequest q = 5" | (config) "bRequest q = 9" | (other) "bRequest q \<noteq> 5" "bRequest q \<noteq> 9" by blast
    then show ?thesis
    proof cases
      case address
      then have "ch9_request q = ch9_set_address q" using that by (simp add: ch9_request_def fun_eq_iff)
      then show ?thesis using USBD_SetAddress_to [of s1] address by (simp add: USBD_StdDevReq_def q1)
    next
      case config
      then have "ch9_request q = ch9_set_config (ucast (wValue q))" using that by (simp add: ch9_request_def fun_eq_iff)
      then show ?thesis using USBD_SetConfig_to [of rx s1] config by (simp add: USBD_StdDevReq_def q1)
    next
      case other
      then have "post (USBD_StdDevReq (USBD_CDC rx) s1) (dev_same s1)"
        unfolding USBD_StdDevReq_def Let_def q1 by (intro same_if) (simp_all add: same)
      then show ?thesis using other by (auto intro: post_same_to simp: ch9_request_def)
    qed
  qed
  have rest: "post (if bmRequest q AND 0x1F = 0 then USBD_StdDevReq (USBD_CDC rx) s1
      else if bmRequest q AND 0x1F = 1 then USBD_StdItfReq (USBD_CDC rx) s1
      else if bmRequest q AND 0x1F = 2 then USBD_StdEPReq (USBD_CDC rx) s1
      else drop_status (USBD_LL_StallEP (bmRequest q AND 0x80) s1)) (dev_to (ch9_request q) s1)"
    by (intro same_if std; (rule post_same_to)?) (simp_all add: same ch9_request_def)
  have "post (USBD_LL_SetupStage (USBD_CDC rx) (Setup (hpcd s)) s) (dev_to (ch9_request q) s1)"
    using rest by (simp only: USBD_LL_SetupStage_def Inr Let_def s1_def obind.simps)
  then show ?thesis
    by (rule post_mono) (use s1 view in \<open>simp add: dev_to_def dev_same_def\<close>)
qed

section \<open>Stages and events\<close>

text \<open>
  What the stack asks of the application: its receive callback leaves the device alone. It may
  transmit.
\<close>

definition keeps_device :: "'a cdc_rx \<Rightarrow> bool" where
  "keeps_device rx \<longleftrightarrow> (\<forall>p n s. post (rx p n s) (\<lambda>(_, s'). dev_same s s'))"

locale cdc_application =
  fixes rx :: "'a cdc_rx"
  assumes rx_same: "post (rx p n s) (\<lambda>(_, s'). dev_same s s')"
begin

lemma CDC_Receive_FS_same: "post (CDC_Receive_FS rx p n s) (\<lambda>(_, s'). dev_same s s')"
  unfolding CDC_Receive_FS_def post_simps
proof (rule post_mono [OF SetBuffer_same(2)])
  fix s1 assume s1: "dev_same s s1"
  show "post (drop_status (USBD_CDC_ReceivePacket s1)) (\<lambda>x. post (rx p n x) (\<lambda>(_, s'). dev_same s s'))"
    by (rule drop_status_same, rule post_mono [OF ReceivePacket_same])
      (auto intro!: post_mono [OF rx_same] elim: dev_same_trans [OF s1 dev_same_trans])
qed

lemma DataOut_same: "post (USBD_CDC_DataOut rx k s) (dev_same s)"
proof -
  have "post (drop_status (via_user (CDC_Receive_FS rx (RxBuffer h) n) (set_hcdc (h\<lparr>RxLength := n\<rparr>) s))) (dev_same s)"
    if "pClassData (pdev s) = Some h" for h n
    by (rule drop_status_same, rule via_same, rule post_mono [OF CDC_Receive_FS_same])
      (use that in \<open>auto intro: dev_same_trans [OF set_hcdc_same]\<close>)
  then show ?thesis
    unfolding USBD_CDC_DataOut_def
    by (auto simp: post_simps post_def [of "USBD_LL_GetRxDataSize k s"] intro!: with_hcdc_same)
qed

lemma DataOutStage_same: "post (USBD_LL_DataOutStage (USBD_CDC rx) k p s) (dev_same s)"
  unfolding USBD_LL_DataOutStage_def Let_def USBD_CDC_def
  by (intro same via_same same_from [OF wakeup_same(9) Ctl_same(4)];
      simp add: DataOut_same EP0_RxReady_same post_simps)

lemma ep0_data_in_same: "post (ep0_data_in (USBD_CDC rx) p s) (dev_same s)"
  unfolding ep0_data_in_def Let_def USBD_CDC_def
  by (intro same via_same same_from [OF wakeup_same(8) same_bind [OF Ctl_same(2) LL_same(7)]]
      same_from [OF wakeup_same(5) LL_same(7)]; simp add: post_simps)

lemma DataInStage_same: "post (USBD_LL_DataInStage (USBD_CDC rx) k p s) (dev_same s)"
proof -
  have "post (Inr (if dev_test_mode (pdev s1) = 1 then set_pdev (\<lambda>d. d\<lparr>dev_test_mode := 0\<rparr>) s1 else s1))
      (dev_same s1)" for s1 :: "'a usbd"
    by (simp add: post_simps wakeup_same)
  then show ?thesis
    unfolding USBD_LL_DataInStage_def
    by (intro same via_same ep0_data_in_same dev_same_refl) (simp_all add: USBD_CDC_def same post_simps)
qed

end

lemma on_regs_same: "(\<And>r. PCGCCTL (f r) = PCGCCTL r) \<Longrightarrow> dev_same s (on_regs f s)"
  by (simp add: on_regs_def dev_same_def dev_view_def usb_wf_def)

lemma hpcd_same: "pcd_like (hpcd s) h \<Longrightarrow> dev_same s (s\<lparr>hpcd := h\<rparr>)"
  by (simp add: dev_same_def dev_view_def usb_wf_def pcd_like_def)

lemma reset_to: "post (USBD_LL_Reset (USBD_CDC rx) s) (dev_to (\<lambda>v. v\<lparr>v_state := USBD_STATE_DEFAULT, v_class := False\<rparr>) s)"
proof -
  have st: "dev_to (\<lambda>v. v\<lparr>v_state := USBD_STATE_DEFAULT\<rparr>) s
      (set_pdev (\<lambda>d. (ep0_in (\<lambda>e. e\<lparr>maxpacket := 64\<rparr>) d)\<lparr>dev_state := USBD_STATE_DEFAULT\<rparr>) s)" for s :: "'a usbd"
    by (rule set_pdev_to) (simp_all add: dev_view_def set_pdev_def ep0_in_def)
  have deinit: "post (if pClassData (pdev s) \<noteq> None
      then via_class (\<lambda>s. cls_DeInit (USBD_CDC rx) (ucast (dev_config (pdev s))) s) s else Inr s)
      (dev_to (\<lambda>v. v\<lparr>v_class := False\<rparr>) s)" for s :: "'a usbd"
    by (rule same_if, rule via_same) (simp_all add: USBD_CDC_def USBD_CDC_DeInit_to post_simps dev_to_def dev_view_def)
  show ?thesis
    unfolding USBD_LL_Reset_def Let_def
    by (intro same_then_to same_from [OF wakeup_same(9) LL_same(1)] LL_same(1) to_from [OF st deinit]) simp
qed

lemma take8: "take 8 (bs @ drop (length bs) d) = bs @ drop (length bs) (take 8 d)" if "length bs \<le> 8"
  using that by (simp add: drop_take)

lemma rx_pop_to: "post (rx_pop temp fifo s) (dev_to (ch9 (Rx_level temp fifo)) s)"
proof -
  define k where "k = unat (temp AND 0xF)"
  define bcnt where "bcnt = drop_bit 4 (temp AND 0x7FF0)"
  define sts where "sts = drop_bit 17 (temp AND 0x1E0000)"
  have data: "post (obind (USB_ReadPacket usb_write (xfer_buff ep) (ucast bcnt) fifo s) (\<lambda>s1.
      Inr (s1\<lparr>hpcd := put_out k (ep\<lparr>xfer_buff := ptr_add (xfer_buff ep) (unat bcnt),
                                   xfer_count := xfer_count ep + bcnt\<rparr>) (hpcd s1)\<rparr>))) (dev_same s)" for ep
    unfolding USB_ReadPacket_def Let_def
    by (intro same hpcd_same) simp_all
  let ?bs = "take 8 fifo"
  have packet: "post (obind (USB_ReadPacket (\<lambda>_ bs h. obind (buf_write 0 bs (Setup h)) (\<lambda>b. Inr (h\<lparr>Setup := b\<rparr>))) None 8 fifo (hpcd s)) (\<lambda>h.
      Inr (s\<lparr>hpcd := put_out k (ep\<lparr>xfer_count := xfer_count ep + bcnt\<rparr>) h\<rparr>)))
      (dev_to (\<lambda>v. v\<lparr>v_setup := ?bs @ drop (length ?bs) (v_setup v)\<rparr>) s)" for ep
    by (auto simp: USB_ReadPacket_def post_def outcome_simps buf_write_def dev_to_def usb_wf_def put_out_def
        dev_view_def take8 drop_take split: if_splits)
  show ?thesis
    unfolding rx_pop_def Let_def k_def [symmetric] bcnt_def [symmetric] sts_def [symmetric]
    unfolding post_simps post_def [of "get_out k (hpcd s)"]
  proof (intro allI impI same_if)
    fix ep
    assume "sts = STS_DATA_UPDT" "temp AND 0x7FF0 \<noteq> 0"
    then show "post (obind (USB_ReadPacket usb_write (xfer_buff ep) (ucast bcnt) fifo s) (\<lambda>s1.
           Inr (s1\<lparr>hpcd := put_out k (ep\<lparr>xfer_buff := ptr_add (xfer_buff ep) (unat bcnt),
                                        xfer_count := xfer_count ep + bcnt\<rparr>) (hpcd s1)\<rparr>))) (dev_to (ch9 (Rx_level temp fifo)) s)"
      by (intro post_same_to [OF data]) (simp add: sts_def)
  qed (use packet in \<open>auto simp: post_simps dev_to_def sts_def elim!: post_mono\<close>)
qed

lemma rx_level_to: "post (irq_rx_level temp fifo s) (dev_to (ch9 (Rx_level temp fifo)) s)"
proof -
  have mask: "dev_to (\<lambda>v. v) s (on_regs (\<lambda>r. r\<lparr>GINTMSK := f r\<rparr>) s)" for f and s :: "'a usbd"
    unfolding dev_to_id by (rule on_regs_same) simp
  show ?thesis
    unfolding irq_rx_level_def
  proof (rule to_from [OF mask])
    let ?s = "on_regs (\<lambda>r. r\<lparr>GINTMSK := GINTMSK r AND NOT 0x10\<rparr>) s"
    show "post (obind (rx_pop temp fifo ?s) (\<lambda>s1. Inr (on_regs (\<lambda>r. r\<lparr>GINTMSK := GINTMSK r OR 0x10\<rparr>) s1)))
        (dev_to (ch9 (Rx_level temp fifo)) ?s)"
      by (rule to_then_same [OF rx_pop_to]) (simp add: post_simps on_regs_same)
  qed simp
qed

lemma enum_done_to: "post (irq_enum_done (USBD_CDC rx) d s) (dev_to (ch9 (Enum_done d)) s)"
proof -
  have "post (HAL_PCD_ResetCallback (USBD_CDC rx) s1) (dev_to (ch9 (Enum_done d)) s1)" for s1
  proof -
    have "dev_to (\<lambda>v. v) s1 (set_pdev (\<lambda>h. h\<lparr>dev_speed := sp\<rparr>) s1)" for sp
      by (rule set_pdev_to) (simp_all add: dev_view_def set_pdev_def)
    then show ?thesis
      unfolding HAL_PCD_ResetCallback_def USBD_LL_SetSpeed_def Let_def
      by (rule to_from [OF _ reset_to]) simp
  qed
  then have reset: "post (HAL_PCD_ResetCallback (USBD_CDC rx) s1) (dev_to (ch9 (Enum_done d)) s)" if "dev_same s s1" for s1
    by (rule to_from [where g = "\<lambda>v. v" and h = "ch9 (Enum_done d)", rotated]) (simp_all add: dev_to_id that)
  have "dev_same s1 (s1\<lparr>hpcd := enum_speed d (hpcd s1)\<rparr>)" for s1 :: "'a usbd"
    by (simp add: enum_speed_def Let_def dev_same_def dev_view_def usb_wf_def)
  moreover have "dev_same s (on_regs (USB_ActivateSetup d) s)" by (rule on_regs_same) simp
  ultimately show ?thesis
    unfolding irq_enum_done_def Let_def by (intro reset) (blast intro: dev_same_trans)
qed

lemma irq_reset_same: "dev_same s (irq_reset s)"
  unfolding irq_reset_def Let_def by (intro on_regs_same) (simp add: USB_FlushTxFifo_def)

lemma suspend_to: "dev_to (ch9 (Usb_suspend True)) s (HAL_PCD_SuspendCallback s)"
  by (auto simp: dev_to_def dev_view_def usb_wf_def set_pdev_def on_regs_def bit_simps
      HAL_PCD_SuspendCallback_def USBD_LL_Suspend_def)

context cdc_application begin

text \<open>Every interrupt does to the device what the abstract machine does.\<close>

lemma irq_to: "post (irq_event (USBD_CDC rx) e s) (dev_to (ch9 e) s)"
proof (cases e)
  case (Out_xfrc k)
  then show ?thesis
    by (auto simp: HAL_PCD_DataOutStageCallback_def post_simps post_def [of "get_out _ _"] DataOutStage_same
        intro!: post_same_to)
next
  case (In_xfrc k)
  have "post (HAL_PCD_DataInStageCallback (USBD_CDC rx) k s1) (dev_same s1)" for s1
    by (auto simp: HAL_PCD_DataInStageCallback_def post_simps post_def [of "get_in _ _"] DataInStage_same)
  then have "post (irq_in_xfrc (USBD_CDC rx) k s) (dev_same s)"
    unfolding irq_in_xfrc_def by (rule same_from [OF on_regs_same, rotated]) simp
  then show ?thesis using In_xfrc by (auto intro: post_same_to)
next
  case (Tx_fifo_empty k sp)
  have "post (irq_tx_fifo_empty k sp s) (dev_same s)"
    unfolding irq_tx_fifo_empty_def post_simps
    by (rule post_mono [OF PCD_WriteEmptyTxFifo_like]) (auto simp: post_simps hpcd_same)
  then show ?thesis using Tx_fifo_empty by (auto intro: post_same_to)
next
  case (Enum_done d)
  then show ?thesis using enum_done_to by simp
next
  case Usb_reset
  then show ?thesis using irq_reset_same [of s] by (simp add: post_simps dev_to_def dev_same_def)
next
  case (Usb_suspend b)
  then show ?thesis using suspend_to [of s] by (cases b) (simp_all add: post_simps dev_to_def)
next
  case (Session_end b)
  have "post (USBD_LL_DevDisconnected (USBD_CDC rx) s) (dev_to (\<lambda>v. v\<lparr>v_state := USBD_STATE_DEFAULT, v_class := False\<rparr>) s)"
  proof -
    have "dev_to (\<lambda>v. v\<lparr>v_state := USBD_STATE_DEFAULT\<rparr>) s (set_pdev (\<lambda>d. d\<lparr>dev_state := USBD_STATE_DEFAULT\<rparr>) s)"
      by (rule set_pdev_to) (simp_all add: dev_view_def set_pdev_def)
    moreover have "post (via_class (\<lambda>s. cls_DeInit (USBD_CDC rx) (ucast (dev_config (pdev s))) s) s1)
        (dev_to (\<lambda>v. v\<lparr>v_class := False\<rparr>) s1)" for s1
      by (rule via_same) (simp add: USBD_CDC_def USBD_CDC_DeInit_to)
    ultimately show ?thesis
      unfolding USBD_LL_DevDisconnected_def by (rule to_from) simp
  qed
  then show ?thesis using Session_end by (auto simp: HAL_PCD_DisconnectCallback_def post_simps dev_to_def elim!: post_mono)
next
  case (Rx_level t f)
  then show ?thesis using rx_level_to [of t f s] by simp
next
  case Setup_done
  then show ?thesis using USBD_LL_SetupStage_to [of rx s] by (simp add: HAL_PCD_SetupStageCallback_def)
next
  case Wakeup
  then show ?thesis
    by (auto simp: post_simps dev_to_def dev_view_def usb_wf_def set_pdev_def on_regs_def HAL_PCD_ResumeCallback_def USBD_LL_Resume_def)
next
  case Sof
  then show ?thesis
    by (auto simp: post_simps dev_to_def dev_view_def usb_wf_def set_pdev_def 
    HAL_PCD_SOFCallback_def  USBD_LL_SOF_def via_class_def USBD_CDC_def )
qed (simp_all add: post_simps HAL_PCD_ConnectCallback_def HAL_PCD_ISOINIncompleteCallback_def
    HAL_PCD_ISOOUTIncompleteCallback_def USBD_LL_IsoINIncomplete_def USBD_LL_IsoOUTIncomplete_def
    USBD_LL_DevConnected_def dev_to_def)

lemma run_to: "post (usb_run (USBD_CDC rx) es s) (dev_to (fold ch9 es) s)"
proof (induction es arbitrary: s)
  case (Cons e es)
  show ?case by (simp add: to_bind [OF irq_to Cons.IH])
qed (simp add: post_simps dev_to_def)

end

end
