(* ===== verification/UsbExample.thy ===== *)
theory UsbExample
  imports UsbIrq
begin

text \<open>
  A concrete device, just started, and the events of a host's packets. The theorems about the USB
  stack are instantiated on them.
\<close>

definition regs0 :: usb_otg where
  "regs0 = \<lparr>DIEPCTL = (\<lambda>_. 0), DIEPTSIZ = (\<lambda>_. 0), DOEPCTL = (\<lambda>_. 0), DOEPTSIZ = (\<lambda>_. 0), DIEPINT = (\<lambda>_. 0),
     DOEPINT = (\<lambda>_. 0), DFIFO = (\<lambda>_. []), DAINT = 0, DAINTMSK = 0, DEACHMSK = 0, DIEPMSK = 0, DOEPMSK = 0, DIEPEMPMSK = 0, DCFG = 0,
     DCTL = 0, DSTS = 0, GAHBCFG = 0,
     GUSBCFG = 0, GCCFG = 0, GINTMSK = 0, PCGCCTL = 0, DTHRCTL = 0, DINEP1MSK = 0, DOUTEP1MSK = 0, GRSTCTL = 0, GRXFSIZ = 0, DIEPTXF0 = 0, DIEPTXF = (\<lambda>_. 0), polled = (\<lambda>_ _. False),
     SystemCoreClock = 168000000\<rparr>"

definition hcdc0 :: cdc_handle where
  "hcdc0 = \<lparr>CmdOpCode = 0, CmdLength = 0, RxBuffer = None, TxBuffer = None, RxLength = 0, TxLength = 0,
     TxState = 0, RxState = 0\<rparr>"

definition started :: "cdc_handle option \<Rightarrow> 'a \<Rightarrow> 'a usbd outcome" where
  "started m a = MX_USB_DEVICE_Init (usb_start regs0 m a)"

text \<open>A packet as the receive FIFO reports it, and the events of an enumeration.\<close>

definition setup_packet :: "bytes \<Rightarrow> pcd_event list" where
  "setup_packet q = [Rx_level (push_bit 17 6 OR push_bit 4 8) q, Setup_done]"

definition out_packet :: "u32 \<Rightarrow> bytes \<Rightarrow> pcd_event list" where
  "out_packet k bs = [Rx_level (push_bit 17 2 OR push_bit 4 (of_nat (length bs)) OR k) bs, Out_xfrc (ucast k)]"

definition in_packet :: "u8 \<Rightarrow> pcd_event list" where
  "in_packet k = [Tx_fifo_empty k (\<lambda>_. 128), In_xfrc k]"

definition addressed_by :: "pcd_event list" where
  "addressed_by = [Usb_reset, Enum_done 6] @ setup_packet [0, 5, 7, 0, 0, 0, 0, 0] @ [In_xfrc 0]"

definition configured_by :: "pcd_event list" where
  "configured_by = addressed_by @ setup_packet [0, 9, 1, 0, 0, 0, 0, 0] @ [In_xfrc 0]"

end
