(* ===== verification/UsbReach.thy ===== *)
theory UsbReach
  imports UsbStates UsbExample
begin

text \<open>
  The states the USB stack reaches: the invariant of the abstract machine, the reachable states of
  the stack under the steps of the bus, the heap and the application, and what holds of them.
\<close>

section \<open>The invariant of the abstract machine\<close>

definition ch9_ok :: "u8 \<Rightarrow> dev_view \<Rightarrow> bool" where
  "ch9_ok st v \<longleftrightarrow> st \<in> {USBD_STATE_DEFAULT, USBD_STATE_ADDRESSED, USBD_STATE_CONFIGURED}
     \<and> (st = USBD_STATE_ADDRESSED \<longrightarrow> v_address v \<noteq> 0)
     \<and> (st = USBD_STATE_CONFIGURED \<longrightarrow> v_address v \<noteq> 0 \<and> v_config v = 1)"

definition ch9_inv :: "dev_view \<Rightarrow> bool" where
  "ch9_inv v \<longleftrightarrow> (if v_state v = USBD_STATE_SUSPENDED then ch9_ok (v_old_state v) v else ch9_ok (v_state v) v)"

text \<open>
  What the bus does: a suspended device hears no request, is not suspended again, and wakes up only
  then.
\<close>

fun bus_may :: "u8 \<Rightarrow> pcd_event \<Rightarrow> bool" where
  "bus_may st Wakeup \<longleftrightarrow> st = USBD_STATE_SUSPENDED"
| "bus_may st (Usb_suspend b) \<longleftrightarrow> st \<noteq> USBD_STATE_SUSPENDED"
| "bus_may st Setup_done \<longleftrightarrow> st \<noteq> USBD_STATE_SUSPENDED"
| "bus_may st e \<longleftrightarrow> True"

lemma cfg_cases: "\<not> 1 < c \<Longrightarrow> c \<noteq> 0 \<Longrightarrow> c = (1 :: u8)"
  by (simp add: word_less_nat_alt word_unat_eq_iff)

lemma ch9_set_config_inv:
  assumes "ch9_inv v" and "v_state v \<noteq> USBD_STATE_SUSPENDED"
  shows "ch9_inv (ch9_set_config c v)"
proof (cases "1 < c")
  case False
  then consider "c = 0" | "c = 1" using cfg_cases by blast
  then show ?thesis
    by cases (use assms in \<open>auto simp: ch9_set_config_def ch9_inv_def ch9_ok_def\<close>)
qed (use assms in \<open>simp add: ch9_set_config_def\<close>)

lemma ch9_set_address_inv: "v_state v \<noteq> USBD_STATE_SUSPENDED \<Longrightarrow> ch9_inv v \<Longrightarrow> ch9_inv (ch9_set_address q v)"
  by (auto simp: ch9_set_address_def ch9_inv_def ch9_ok_def Let_def)

lemma ch9_request_inv: "ch9_inv v \<Longrightarrow> v_state v \<noteq> USBD_STATE_SUSPENDED \<Longrightarrow> ch9_inv (ch9_request q v)"
  by (simp add: ch9_request_def ch9_set_config_inv ch9_set_address_inv)

lemma ch9_step_inv:
  assumes "ch9_inv v" and "bus_may (v_state v) e"
  shows "ch9_inv (ch9 e v)"
proof (cases e)
  case Setup_done
  then show ?thesis using assms by (auto simp: ch9_request_inv split: sum.split)
qed (use assms in \<open>auto simp: ch9_inv_def ch9_ok_def\<close>)

section \<open>Reachable states\<close>

text \<open>
  The device starts; then interrupts happen as the bus may cause them, the heap changes, and the
  application transmits.
\<close>

inductive usb_reach :: "'a cdc_rx \<Rightarrow> 'a usbd \<Rightarrow> bool" for rx where
  start: "MX_USB_DEVICE_Init (usb_start r m a) = Inr s \<Longrightarrow> usb_reach rx s"
| event: "usb_reach rx s \<Longrightarrow> bus_may (dev_state (pdev s)) e \<Longrightarrow> irq_event (USBD_CDC rx) e s = Inr s' \<Longrightarrow> usb_reach rx s'"
| heap: "usb_reach rx s \<Longrightarrow> usb_reach rx (s\<lparr>cdc_malloc := m\<rparr>)"
| transmit: "usb_reach rx s \<Longrightarrow> CDC_Transmit_FS p n s = Inr (st, s') \<Longrightarrow> usb_reach rx s'"

inductive_cases usb_reachE: "usb_reach rx s"

text \<open>A list of events the bus may cause, from a view of the device.\<close>

fun bus_run :: "pcd_event list \<Rightarrow> dev_view \<Rightarrow> bool" where
  "bus_run [] v \<longleftrightarrow> True"
| "bus_run (e # es) v \<longleftrightarrow> bus_may (v_state v) e \<and> bus_run es (ch9 e v)"

lemma started_wf:
  assumes "MX_USB_DEVICE_Init (usb_start r m a) = Inr s"
  shows "usb_wf s \<and> v_state (dev_view s) = USBD_STATE_DEFAULT"
proof -
  obtain s0 where s0: "USBD_Start s0 = Inr s" "usb_wf s0" "v_state (dev_view s0) = USBD_STATE_DEFAULT"
    using assms
    by (auto simp: MX_USB_DEVICE_Init_def USBD_Init_def USBD_RegisterClass_def USBD_CDC_RegisterInterface_def
        USBD_LL_Init_def usb_start_def usbd_zero_def pcd_zero_def Let_def set_pdev_def HAL_PCD_Init_def
        HAL_PCDEx_SetTxFiFo_def HAL_PCDEx_SetRxFiFo_def usb_wf_def dev_view_def)
  then show ?thesis
    using LL_same(8) [of s0] by (simp add: USBD_Start_def post_def dev_same_def)
qed

context cdc_application begin

lemma reach_inv: "usb_reach rx s \<Longrightarrow> usb_wf s \<and> ch9_inv (dev_view s)"
proof (induction rule: usb_reach.induct)
  case (start r m a s)
  then show ?case using started_wf [OF start] by (simp add: ch9_inv_def ch9_ok_def)
next
  case (event s e s')
  have "dev_view s' = ch9 e (dev_view s) \<and> usb_wf s'"
    using irq_to [of e s] event by (simp add: post_def dev_to_def)
  moreover have "v_state (dev_view s) = dev_state (pdev s)" by (simp add: dev_view_def)
  ultimately show ?case using ch9_step_inv [of "dev_view s" e] event by simp
next
  case (heap s m)
  then show ?case by (auto simp: usb_wf_def dev_view_def ch9_inv_def ch9_ok_def split: if_splits)
next
  case (transmit s p n st s')
  then show ?case using CDC_Transmit_FS_same [of p n s] by (simp add: post_def dev_same_def)
qed

lemma reach_run: "usb_reach rx s \<Longrightarrow> bus_run es (dev_view s) \<Longrightarrow> usb_run (USBD_CDC rx) es s = Inr s' \<Longrightarrow> usb_reach rx s'"
proof (induction es arbitrary: s)
  case (Cons e es)
  then obtain s1 where s1: "irq_event (USBD_CDC rx) e s = Inr s1" "usb_run (USBD_CDC rx) es s1 = Inr s'"
    by (auto simp: outcome_simps)
  have "usb_wf s" using reach_inv Cons.prems(1) by blast
  then have view: "dev_view s1 = ch9 e (dev_view s)"
    using irq_to [of e s] s1 by (simp add: post_def dev_to_def)
  have "bus_may (dev_state (pdev s)) e" using Cons.prems(2) by (simp add: dev_view_def)
  then show ?case
    using Cons.IH [OF usb_reach.event [OF Cons.prems(1) _ s1(1)] _ s1(2)] Cons.prems(2) view by simp
qed simp

end

interpretation echo: cdc_application echo_rx
proof
  fix p n and s :: "'a usbd"
  show "post (echo_rx p n s) (\<lambda>(_, s'). dev_same s s')"
    unfolding echo_rx_def post_simps by (rule post_mono [OF CDC_Transmit_FS_same]) (auto simp: post_simps)
qed

lemma keeps_application: "keeps_device rx \<longleftrightarrow> cdc_application rx"
  by (simp add: keeps_device_def cdc_application_def)

lemma echo_keeps: "keeps_device echo_rx"
  by (simp add: keeps_application echo.cdc_application_axioms)

text \<open>C3: the USB stack is a chapter 9 device. Over any run of interrupts, the device's state,
  address, configuration and class handle change as the abstract machine says, which knows only
  the requests and the bus events; and one pass of the interrupt handler is such a run, of events
  that the flags it reads call for.\<close>

theorem usb_device_follows_ch9:
  assumes "keeps_device rx" and "usb_wf s"
  shows "(usb_run (USBD_CDC rx) es s = Inr s1 \<longrightarrow> dev_view s1 = fold ch9 es (dev_view s))
     \<and> (HAL_PCD_IRQHandler (USBD_CDC rx) rd s = Inr s2 \<longrightarrow>
          (\<exists>fs. list_all (flagged rd) fs \<and> dev_view s2 = fold ch9 fs (dev_view s)))"
proof -
  have run: "dev_view s' = fold ch9 fs (dev_view s)" if "usb_run (USBD_CDC rx) fs s = Inr s'" for fs s'
    using cdc_application.run_to [OF assms(1) [unfolded keeps_application], of fs s] that assms(2)
    by (simp add: post_def dev_to_def)
  moreover obtain fs where "list_all (flagged rd) fs" "HAL_PCD_IRQHandler (USBD_CDC rx) rd s = usb_run (USBD_CDC rx) fs s"
    using handler_runs [of "USBD_CDC rx" rd s] by (auto simp: runs_flagged_def)
  ultimately show ?thesis by auto
qed

text \<open>The concrete device, addressed and configured.\<close>

lemma example_run:
  assumes "case started m () of Inl e \<Rightarrow> False
    | Inr s \<Rightarrow> bus_run es (dev_view s) \<and> (case usb_run (USBD_CDC echo_rx) es s of Inl e \<Rightarrow> False | Inr s1 \<Rightarrow> P s1)"
  shows "\<exists>s s1. started m () = Inr s \<and> usb_wf s \<and> usb_run (USBD_CDC echo_rx) es s = Inr s1
     \<and> usb_reach echo_rx s1 \<and> usb_wf s1 \<and> P s1"
proof -
  obtain s s1 where s: "started m () = Inr s" and s1: "usb_run (USBD_CDC echo_rx) es s = Inr s1" "P s1" "bus_run es (dev_view s)"
    using assms by (auto split: sum.splits)
  have "usb_wf s" using started_wf [OF s [unfolded started_def]] by blast
  moreover have "usb_reach echo_rx s" using s by (auto simp: started_def intro: usb_reach.start)
  ultimately show ?thesis
    using s s1 echo.reach_run [OF _ s1(3,1)] echo.reach_inv by blast
qed

lemma example_configured:
  "\<exists>s s1. started (Some hcdc0) () = Inr s \<and> usb_wf s \<and> usb_run (USBD_CDC echo_rx) configured_by s = Inr s1
     \<and> usb_reach echo_rx s1 \<and> usb_wf s1
     \<and> (dev_state (pdev s1) = 3
        \<and> (case pClassData (pdev s1) of None \<Rightarrow> False | Some h \<Rightarrow> TxState h = 0 \<and> RxBuffer h = Some (UserRxBufferFS, 0))
        \<and> ep_type (IN_ep (hpcd s1) ! 1) = 2 \<and> ep_maxpacket (IN_ep (hpcd s1) ! 1) = 64
        \<and> xfer_buff (OUT_ep (hpcd s1) ! 1) = Some (UserRxBufferFS, 0) \<and> xfer_count (OUT_ep (hpcd s1) ! 1) = 0
        \<and> ep_maxpacket (IN_ep (hpcd s1) ! 0) = 64 \<and> ep_maxpacket (OUT_ep (hpcd s1) ! 0) = 64
        \<and> maxpacket (ep_in (pdev s1) ! 0) = 64 \<and> maxpacket (ep_out (pdev s1) ! 0) = 64
        \<and> DFIFO (Instance (hpcd s1)) 0 = [] \<and> DFIFO (Instance (hpcd s1)) 1 = [])"
  by (rule example_run) code_simp

text \<open>The packet of a request, received but not yet looked at.\<close>

definition received_setup :: "bytes \<Rightarrow> pcd_event" where
  "received_setup q = Rx_level (push_bit 17 6 OR push_bit 4 8) q"

lemma setup_received:
  assumes "usb_wf s" "length q = 8"
  shows "\<exists>h'. irq_event cls (received_setup q) s = Inr (s\<lparr>hpcd := h'\<rparr>) \<and> usb_wf (s\<lparr>hpcd := h'\<rparr>)
     \<and> USBD_ParseSetupRequest (Setup h') = USBD_ParseSetupRequest q \<and> DFIFO (Instance h') = DFIFO (Instance (hpcd s))
     \<and> IN_ep h' = IN_ep (hpcd s) \<and> ep_maxpacket (OUT_ep h' ! 0) = ep_maxpacket (OUT_ep (hpcd s) ! 0)"
proof -
  have f: "(push_bit 17 6 OR push_bit 4 8 :: u32) = 0xC0080" by simp
  have wf: "length (OUT_ep (hpcd s)) = 16" "length (Setup (hpcd s)) = 48" using assms(1) by (auto simp: usb_wf_def)
  let ?r = "Instance (hpcd s)" and ?ep = "OUT_ep (hpcd s) ! 0"
  define h' where "h' = (put_out 0 (?ep\<lparr>xfer_count := xfer_count ?ep + 8\<rparr>) (hpcd s))
      \<lparr>Setup := q @ drop 8 (Setup (hpcd s)), Instance := ?r\<lparr>GINTMSK := (GINTMSK ?r AND NOT 0x10) OR 0x10\<rparr>\<rparr>"
  have "irq_event cls (received_setup q) s = Inr (s\<lparr>hpcd := h'\<rparr>)"
    using wf assms(2) unfolding f received_setup_def
    by (simp add: irq_rx_level_def rx_pop_def Let_def get_out_def on_regs_def USB_ReadPacket_def buf_write_def h'_def put_out_def)
  moreover have "usb_wf (s\<lparr>hpcd := h'\<rparr>)"
    using assms wf by (simp add: usb_wf_def h'_def put_out_def)
  moreover have "USBD_ParseSetupRequest (Setup h') = USBD_ParseSetupRequest q"
    using assms(2) wf by (simp add: h'_def USBD_ParseSetupRequest_def buf_read_def)
  ultimately show ?thesis
    using assms(2) wf by (intro exI [of _ h']) (simp add: h'_def put_out_def)
qed

lemma example_setup:
  assumes "usb_reach echo_rx (s :: unit usbd)" "usb_wf s" "length q = 8"
  shows "\<exists>s' :: unit usbd. usb_reach echo_rx s' \<and> usb_wf s' \<and> pdev s' = pdev s \<and> cdc_malloc s' = cdc_malloc s
     \<and> USBD_ParseSetupRequest (Setup (hpcd s')) = USBD_ParseSetupRequest q"
proof -
  obtain h' where h': "irq_event (USBD_CDC echo_rx) (received_setup q) s = Inr (s\<lparr>hpcd := h'\<rparr>)" "usb_wf (s\<lparr>hpcd := h'\<rparr>)"
      "USBD_ParseSetupRequest (Setup h') = USBD_ParseSetupRequest q"
    using setup_received [OF assms(2,3), of "USBD_CDC echo_rx"] by blast
  have "usb_reach echo_rx (s\<lparr>hpcd := h'\<rparr>)"
    by (rule usb_reach.event [OF assms(1) _ h'(1)]) (simp add: received_setup_def)
  then show ?thesis using h'(2,3) by (intro exI [of _ "s\<lparr>hpcd := h'\<rparr>"]) simp
qed

lemma usb_device_follows_ch9_witness:
  "\<exists>s s1. started (Some hcdc0) () = Inr s \<and> usb_run (USBD_CDC echo_rx) configured_by s = Inr s1
     \<and> dev_view s1 = fold ch9 configured_by (dev_view s)"
proof -
  obtain s s1 where s: "started (Some hcdc0) () = Inr s" "usb_wf s" "usb_run (USBD_CDC echo_rx) configured_by s = Inr s1"
    using example_configured by blast
  then show ?thesis using usb_device_follows_ch9 [OF echo_keeps s(2)] by blast
qed

text \<open>C24: a device that a host can reach, from the start of the device under any interrupts that the
  bus may cause, is only configured with an address and with the one configuration there is, also
  when it is suspended.\<close>

theorem configured_has_address:
  assumes "keeps_device rx" "usb_reach rx s"
    and "dev_state (pdev s) = USBD_STATE_CONFIGURED
       \<or> dev_state (pdev s) = USBD_STATE_SUSPENDED \<and> dev_old_state (pdev s) = USBD_STATE_CONFIGURED"
  shows "dev_address (pdev s) \<noteq> 0 \<and> dev_config (pdev s) = 1"
  using cdc_application.reach_inv [OF assms(1) [unfolded keeps_application] assms(2)] assms(3)
  by (auto simp: ch9_inv_def ch9_ok_def dev_view_def)

lemma configured_has_address_witness:
  "\<exists>s. usb_reach echo_rx s \<and> dev_state (pdev s) = 3 \<and> dev_address (pdev (s :: unit usbd)) \<noteq> 0 \<and> dev_config (pdev s) = 1"
proof -
  obtain s where s: "usb_reach echo_rx (s :: unit usbd)" "dev_state (pdev s) = 3"
    using example_configured by blast
  then show ?thesis using configured_has_address [OF echo_keeps s(1)] by blast
qed

text \<open>C25: the state of a reachable device is well formed: the driver has sixteen endpoint structures in
  each direction and the library fifteen, the setup buffer and every descriptor and buffer keeps its
  size, the driver is not locked, and the pointers to the descriptors, the class, the callbacks and
  the driver are set.\<close>

theorem usb_state_well_formed:
  assumes "keeps_device rx" "usb_reach rx s"
  shows "usb_wf s"
  using cdc_application.reach_inv [OF assms(1) [unfolded keeps_application] assms(2)] by simp

lemma usb_state_well_formed_witness:
  "\<exists>s. usb_reach echo_rx s \<and> dev_state (pdev (s :: unit usbd)) = 3 \<and> usb_wf s"
proof -
  obtain s where s: "usb_reach echo_rx (s :: unit usbd)" "dev_state (pdev s) = 3"
    using example_configured by blast
  then show ?thesis using usb_state_well_formed [OF echo_keeps s(1)] by blast
qed

end
