(* ===== verification/UsbStrings.thy ===== *)
theory UsbStrings
  imports UsbDesc
begin

text \<open>
  String descriptors: what \<open>USBD_GetString\<close> builds is the text in sixteen-bit characters behind a
  two-byte header, as long as the text has at most 126 characters.
\<close>

definition wide :: "bytes \<Rightarrow> bytes" where
  "wide cs = concat (map (\<lambda>c. [c, 0]) cs)"

text \<open>Reading a descriptor back, as a host does.\<close>

fun narrow :: "bytes \<Rightarrow> bytes" where
  "narrow (c # z # cs) = c # narrow cs"
| "narrow _ = []"

definition read_string :: "bytes \<Rightarrow> bytes" where
  "read_string d = narrow (drop 2 (take (unat (hd d)) d))"

lemma length_wide [simp]: "length (wide cs) = 2 * length cs"
  by (induction cs) (simp_all add: wide_def)

lemma wide_Cons [simp]: "wide [] = []" "wide (c # cs) = c # 0 # wide cs"
  by (simp_all add: wide_def)

lemma narrow_wide [simp]: "narrow (wide cs) = cs"
  by (induction cs) simp_all

lemma GetLen_loop: "0 \<notin> set cs \<Longrightarrow> USBD_GetLen_loop k (cs @ [0]) = Inr (k + of_nat (length cs))"
  by (induction cs arbitrary: k) (auto simp: algebra_simps)

text \<open>A write in front of what has been written leaves the rest of the buffer.\<close>

lemma write_next:
  assumes "length p = off" "off + length bs \<le> length p + length u"
  shows "buf_write off bs (p @ u) = Inr ((p @ bs) @ drop (length bs) u)"
  using assms by (simp add: buf_write_def)

lemma GetString_loop:
  assumes "0 \<notin> set cs" "unat idx = length p" "length p + 2 * length cs \<le> 256" "2 * length cs \<le> length u"
  shows "USBD_GetString_loop (cs @ [0]) idx (p @ u) = Inr (p @ wide cs @ drop (2 * length cs) u)"
  using assms
proof (induction cs arbitrary: idx p u)
  case (Cons c cs)
  have i: "unat (idx + 1) = length (p @ [c])"
    using Cons.prems(2,3) by (subst unat_add_lem [THEN iffD1]) simp_all
  have tl: "USBD_GetString_loop (cs @ [0]) (idx + 2) ((p @ [c, 0]) @ drop 2 u)
      = Inr ((p @ [c, 0]) @ wide cs @ drop (2 * length cs) (drop 2 u))"
  proof (cases "cs = []")
    case False
    then obtain d ds where "cs = d # ds" by (cases cs) auto
    then have "unat (idx + 2) = length (p @ [c, 0])"
      using Cons.prems(2,3) by (subst unat_add_lem [THEN iffD1]) simp_all
    then show ?thesis using Cons.prems by (intro Cons.IH) simp_all
  qed simp
  have w1: "buf_write (unat idx) [c] (p @ u) = Inr ((p @ [c]) @ drop 1 u)"
    using write_next [of p "unat idx" "[c]" u] Cons.prems(2,4) by simp
  have w2: "buf_write (unat (idx + 1)) [0] (p @ c # drop (Suc 0) u) = Inr (p @ c # 0 # drop 2 u)"
    using write_next [of "p @ [c]" "unat (idx + 1)" "[0]" "drop (Suc 0) u"] i Cons.prems(4)
    by (simp add: numeral_2_eq_2)
  show ?case using Cons.prems(1) w2 tl by (simp add: w1)
qed simp

lemma GetString:
  assumes "0 \<notin> set cs" "length cs \<le> 127" "2 * length cs + 2 \<le> length u"
  shows "USBD_GetString (Some (cs @ [0])) n u
    = Inr (of_nat (2 * length cs + 2), of_nat (2 * length cs + 2) # 3 # wide cs @ drop (2 * length cs + 2) u)"
proof -
  obtain a b v where u: "u = a # b # v" using assms(3) by (cases u; cases "tl u") auto
  have len: "unat (of_nat (length cs) :: u8) = length cs" using assms(2) by (simp add: unat_of_nat)
  have l16: "(ucast (of_nat (length cs) :: u8) * 2 + 2 :: u16) = of_nat (2 * length cs + 2)"
  proof -
    have "(ucast (of_nat (length cs) :: u8) :: u16) = of_nat (length cs)"
      using len by (metis of_nat_unat)
    then show ?thesis by simp
  qed
  have l8: "(ucast (2 + 2 * of_nat (length cs) :: u16) :: u8) = 2 + 2 * of_nat (length cs)"
  proof -
    have "(ucast (of_nat m :: u16) :: u8) = of_nat m" for m
      by (simp add: word_unat_eq_iff unsigned_ucast_eq unat_of_nat take_bit_eq_mod mod_mod_cancel)
    from this [of "2 + 2 * length cs"] show ?thesis by simp
  qed
  show ?thesis
    using GetString_loop [OF assms(1), of 2 "[of_nat (2 * length cs + 2), 3]" v] assms u l16
    by (simp add: USBD_GetString_def USBD_GetLen_def GetLen_loop buf_write_def Let_def l8 add.commute)
qed

text \<open>C34: the string descriptors are faithful up to the size of their length byte. A text of up to
  126 characters comes back from the descriptor that \<open>USBD_GetString\<close> builds of it, which has the
  length given to the caller; with 127 characters the length byte wraps to zero, and a host reads an
  empty string.\<close>

theorem string_descriptor_roundtrip:
  assumes "0 \<notin> set cs" "length cs \<le> 127" "2 * length cs + 2 \<le> length u"
  shows "\<exists>len d. USBD_GetString (Some (cs @ [0])) n u = Inr (len, d) \<and> unat len = 2 * length cs + 2
     \<and> length d = length u \<and> d ! 1 = 3 \<and> read_string d = (if length cs = 127 then [] else cs)"
proof -
  let ?d = "of_nat (2 * length cs + 2) # 3 # wide cs @ drop (2 * length cs + 2) u"
  have byte: "unat (of_nat (2 * length cs + 2) :: u8) = (if length cs = 127 then 0 else 2 * length cs + 2)"
  proof (cases "length cs = 127")
    case False
    then have "2 * length cs + 2 < 256" using assms(2) by simp
    then show ?thesis using False by (simp only: unat_of_nat_u8 if_False)
  qed simp
  have len: "unat (of_nat (2 * length cs + 2) :: u16) = 2 * length cs + 2"
    using assms(2) by (intro unat_of_nat_u16) simp
  have rd: "read_string ?d = (if length cs = 127 then [] else cs)"
    unfolding read_string_def list.sel byte by simp
  have "length ?d = length u" "?d ! 1 = 3" using assms(3) by simp_all
  then show ?thesis unfolding GetString [OF assms] using len rd by blast
qed

lemma string_descriptor_roundtrip_witness:
  "\<exists>len d. USBD_GetString (Some (c_literal ''CDC Config'')) 0 (replicate 512 0) = Inr (len, d)
     \<and> unat len = 22 \<and> read_string d = map of_char ''CDC Config''"
proof -
  have "0 \<notin> set (map of_char ''CDC Config'' :: bytes)" by code_simp
  then show ?thesis
    using string_descriptor_roundtrip [of "map of_char ''CDC Config''" "replicate 512 0" 0]
    by (simp add: c_literal_def) blast
qed

end
