(* ===== verification/UsbSafe.thy ===== *)
theory UsbSafe
  imports UsbReach UsbStrings
begin

text \<open>
  No standard request makes the device library leave an object, follow a null pointer or lose its
  well-formedness. Every operation it uses \<open>works\<close>: from a well-formed state it ends in one.
\<close>

definition works :: "'a usbd \<Rightarrow> 'a usbd outcome \<Rightarrow> bool" where
  "works s m \<longleftrightarrow> (usb_wf s \<longrightarrow> (\<exists>s'. m = Inr s' \<and> usb_wf s'))"

named_theorems works \<open>operations that work\<close>

lemma works_Inr [works]: "dev_same s s' \<Longrightarrow> works s (Inr s')"
  by (simp add: works_def dev_same_def)

lemma works_bind [works]: "works s m \<Longrightarrow> (\<And>s1. works s1 (f s1)) \<Longrightarrow> works s (obind m f)"
  by (auto simp: works_def)

lemma works_if [works]: "(b \<Longrightarrow> works s m) \<Longrightarrow> (\<not> b \<Longrightarrow> works s n) \<Longrightarrow> works s (if b then m else n)"
  by simp

lemma works_from: "dev_same s s1 \<Longrightarrow> works s1 m \<Longrightarrow> works s m"
  by (simp add: works_def dev_same_def)

lemma works_from_to: "dev_to g s s1 \<Longrightarrow> works s1 m \<Longrightarrow> works s m"
  by (simp add: works_def dev_to_def)

lemma works_same: "post m (dev_same s) \<Longrightarrow> (usb_wf s \<Longrightarrow> \<exists>s'. m = Inr s') \<Longrightarrow> works s m"
  by (auto simp: works_def post_def dev_same_def)

lemma works_wf: "(usb_wf s \<Longrightarrow> works s m) \<Longrightarrow> works s m"
  by (simp add: works_def)

section \<open>The low-level interface\<close>

lemma get_ep_ok: "usb_wf s \<Longrightarrow> ep_index a < 16 \<Longrightarrow> \<exists>ep. get_ep a (hpcd s) = Inr ep"
  by (simp add: get_ep_def get_in_def get_out_def usb_wf_def)

lemma with_pcd_ok: "usb_wf s \<Longrightarrow> f (hpcd s) = Inr (st, h) \<Longrightarrow> \<exists>s'. drop_status (with_pcd f s) = Inr s'"
  by (simp add: with_pcd_def drop_status_def usb_wf_def)

lemma HAL_ok:
  assumes "usb_wf s" "ep_index a < 16"
  shows "\<exists>r. HAL_PCD_EP_Open a m t (hpcd s) = Inr r" "\<exists>r. HAL_PCD_EP_Close a (hpcd s) = Inr r"
    "\<exists>r. HAL_PCD_EP_SetStall a (hpcd s) = Inr r" "\<exists>r. HAL_PCD_EP_ClrStall a (hpcd s) = Inr r"
    "\<exists>r. HAL_PCD_EP_Receive rd a p n (hpcd s) = Inr r"
    "ep_index a = 0 \<Longrightarrow> \<exists>r. HAL_PCD_EP_Transmit rd a p n (hpcd s) = Inr r"
  using assms get_ep_ok [OF assms]
  by (auto simp: hal_defs Let_def get_in_def get_out_def usb_wf_def USB_EPStartXfer_def case_prod_beta)

lemma pcd_ok: "\<exists>r. f (hpcd s) = Inr r \<Longrightarrow> usb_wf s \<Longrightarrow> \<exists>s'. drop_status (with_pcd f s) = Inr s'"
  by (auto intro: with_pcd_ok)

lemma ep_indices [simp]: "ep_index 0 = 0" "ep_index 0x80 = 0" "ep_index 0x81 = 1" "ep_index 1 = 1" "ep_index 0x82 = 2"
  by (simp_all add: ep_index_def)

lemma LL_works [works]:
  "ep_index a < 16 \<Longrightarrow> works s (drop_status (USBD_LL_OpenEP a t m s))"
  "ep_index a < 16 \<Longrightarrow> works s (drop_status (USBD_LL_CloseEP a s))"
  "ep_index a < 16 \<Longrightarrow> works s (drop_status (USBD_LL_StallEP a s))"
  "ep_index a < 16 \<Longrightarrow> works s (drop_status (USBD_LL_ClearStallEP a s))"
  "works s (drop_status (USBD_LL_SetUSBAddress ad s))"
  "ep_index a < 16 \<Longrightarrow> works s (drop_status (USBD_LL_PrepareReceive a p n s))"
  "works s (drop_status (USBD_LL_Transmit 0 p n s))"
  unfolding USBD_LL_OpenEP_def USBD_LL_CloseEP_def USBD_LL_StallEP_def USBD_LL_ClearStallEP_def
    USBD_LL_SetUSBAddress_def USBD_LL_PrepareReceive_def USBD_LL_Transmit_def
  by (rule works_same, rule LL_same [unfolded USBD_LL_OpenEP_def USBD_LL_CloseEP_def USBD_LL_StallEP_def
        USBD_LL_ClearStallEP_def USBD_LL_SetUSBAddress_def USBD_LL_PrepareReceive_def USBD_LL_Transmit_def],
      rule pcd_ok, rule HAL_ok exI, assumption?, simp_all)+

lemma Ctl_works [works]:
  "works s (USBD_CtlSendData p n s)" "works s (USBD_CtlContinueSendData p n s)"
  "works s (USBD_CtlSendStatus s)" "works s (USBD_CtlReceiveStatus s)" "works s (USBD_CtlError s)"
  "works s (USBD_CtlContinueRx p n s)" "works s (USBD_CtlPrepareRx p n s)"
  unfolding USBD_CtlSendData_def USBD_CtlContinueSendData_def USBD_CtlSendStatus_def USBD_CtlReceiveStatus_def
    USBD_CtlError_def USBD_CtlContinueRx_def USBD_CtlPrepareRx_def Let_def
  subgoal by (rule works_from [OF set_pdev_same LL_works(7)]) (simp_all add: dev_view_def set_pdev_def ep0_in_def)
  subgoal by (rule LL_works)
  subgoal by (rule works_from [OF set_pdev_same LL_works(7)]) (simp_all add: dev_view_def set_pdev_def)
  subgoal by (rule works_from [OF set_pdev_same LL_works(6)]) (simp_all add: dev_view_def set_pdev_def)
  subgoal by (intro works) simp_all
  subgoal by (rule LL_works) simp
  subgoal by (rule works_from [OF set_pdev_same LL_works(6)]) (simp_all add: dev_view_def set_pdev_def ep0_out_def)
  done

section \<open>Descriptors\<close>

definition desc_works :: "'a usbd \<Rightarrow> (usb_ptr \<times> u16 \<times> 'a usbd) option outcome \<Rightarrow> bool" where
  "desc_works s m \<longleftrightarrow> (usb_wf s \<longrightarrow> (\<exists>r. m = Inr r \<and> odesc_same s r))"

lemma desc_works_same: "post m (odesc_same s) \<Longrightarrow> (usb_wf s \<Longrightarrow> \<exists>r. m = Inr r) \<Longrightarrow> desc_works s m"
  by (auto simp: desc_works_def post_def)

lemma image_lengths: "length (usb_image USBD_StrDesc) = 512" "length (usb_image USBD_CDC_CfgFSDesc) = 67"
  "length (usb_image USBD_CDC_CfgHSDesc) = 67" "length (usb_image USBD_CDC_OtherSpeedCfgDesc) = 67"
  "length (usb_image Cdc_data) = 512" "length (usb_image UserRxBufferFS) = 2048"
  by (simp_all add: usb_image_def USBD_CDC_CfgFSDesc_bytes_def USBD_CDC_CfgHSDesc_bytes_def
      USBD_CDC_OtherSpeedCfgDesc_bytes_def)

lemma wf_mem: "usb_wf s \<Longrightarrow> length (mem s obj) = length (usb_image obj)"
  by (simp add: usb_wf_def)

lemma str_descriptor_ok:
  assumes "usb_wf s" "0 \<notin> set (map of_char str :: bytes)" "length str \<le> 127"
  shows "\<exists>r. str_descriptor str s = Inr r"
proof -
  have "2 * length (map of_char str :: bytes) + 2 \<le> length (mem s USBD_StrDesc)"
    using assms(3) by (simp add: wf_mem [OF assms(1)] image_lengths)
  then show ?thesis
    using GetString [OF assms(2), of "mem s USBD_StrDesc" 0] assms(3)
    by (simp add: str_descriptor_def c_literal_def)
qed

lemma retype_ok:
  assumes "usb_wf s" "get s = (Some (obj, 0), n, s)" "1 < length (mem s obj)"
    and "usb_load s obj = Inr (mem s obj)" "\<And>bs. usb_put obj bs s = Inr (s\<lparr>mem := (mem s)(obj := bs)\<rparr>)"
  shows "\<exists>r. retype t get s = Inr r"
  using assms by (auto simp: retype_def via_class_def usb_wf_def usb_write_def buf_write_def)

lemma strings_plain:
  "0 \<notin> set (map of_char ''STM32 Virtual ComPort'' :: bytes)" "0 \<notin> set (map of_char ''STMicroelectronics'' :: bytes)"
  "0 \<notin> set (map of_char ''00000000001A'' :: bytes)" "0 \<notin> set (map of_char ''CDC Config'' :: bytes)"
  "0 \<notin> set (map of_char ''CDC Interface'' :: bytes)"
  by code_simp+

lemma string_descriptor_works: "desc_works s (string_descriptor i s)"
proof (rule desc_works_same [OF string_descriptor_same])
  assume wf: "usb_wf s"
  have get: "\<exists>r. via_desc (\<lambda>s. str_descriptor str s) s = Inr r"
    if "0 \<notin> set (map of_char str :: bytes)" "length str \<le> 127" for str
    using str_descriptor_ok [OF wf that] wf by (simp add: via_desc_def usb_wf_def)
  show "\<exists>r. string_descriptor i s = Inr r"
    using get [OF strings_plain(1)] get [OF strings_plain(2)] get [OF strings_plain(3)] get [OF strings_plain(4)]
      get [OF strings_plain(5)] wf
    by (auto simp: string_descriptor_def Let_def descriptor_defs via_desc_def usb_wf_def split: if_splits)
qed

lemma find_descriptor_works: "desc_works s (find_descriptor (USBD_CDC rx) s)"
proof (rule desc_works_same [OF find_descriptor_same])
  assume wf: "usb_wf s"
  have str: "\<exists>r. string_descriptor i s = Inr r" for i
    using string_descriptor_works [of s i] wf by (auto simp: desc_works_def)
  have fs: "\<exists>r. retype t USBD_CDC_GetFSCfgDesc s = Inr r" "\<exists>r. retype t USBD_CDC_GetHSCfgDesc s = Inr r"
    "\<exists>r. retype t USBD_CDC_GetOtherSpeedCfgDesc s = Inr r" for t
    by (rule retype_ok [OF wf, where obj = USBD_CDC_CfgFSDesc] retype_ok [OF wf, where obj = USBD_CDC_CfgHSDesc]
        retype_ok [OF wf, where obj = USBD_CDC_OtherSpeedCfgDesc];
        simp add: descriptor_defs wf_mem [OF wf] image_lengths usb_load_def usb_put_def; fail)+
  show "\<exists>r. find_descriptor (USBD_CDC rx) s = Inr r"
    using str fs wf
    by (auto simp: find_descriptor_def Let_def USBD_CDC_def USBD_FS_DeviceDescriptor_def via_desc_def via_class_def usb_wf_def)
qed

lemma USBD_GetDescriptor_works [works]: "works s (USBD_GetDescriptor (USBD_CDC rx) s)"
proof -
  have "works s (case r of None \<Rightarrow> USBD_CtlError s
     | Some (pbuf, len, s1) \<Rightarrow> (let wl = wLength (request (pdev s1)) in
          if len \<noteq> 0 \<and> wl \<noteq> 0 then USBD_CtlSendData pbuf (if len < wl then len else wl) s1 else Inr s1))"
    if "odesc_same s r" for r
    using that
    by (auto simp: odesc_same_def desc_same_def Let_def split: option.splits
        intro: works works_from [OF _ Ctl_works(1)])
  then show ?thesis
    using find_descriptor_works [of s rx] by (auto simp: USBD_GetDescriptor_def desc_works_def works_def)
qed

section \<open>The class\<close>

lemma works_bind_eq: "works s m \<Longrightarrow> (\<And>s1. m = Inr s1 \<Longrightarrow> works s1 (f s1)) \<Longrightarrow> works s (obind m f)"
  by (auto simp: works_def)

lemma via_works:
  "works s (f s) \<Longrightarrow> works s (via_class f s)" "works s (f s) \<Longrightarrow> works s (via_user f s)"
  by (auto simp: works_def via_class_def via_user_def usb_wf_def)

lemma CDC_Init_total: assumes "usb_wf s" shows "\<exists>r. USBD_CDC_Init c s = Inr r"
proof -
  obtain s1 where s1: "drop_status (USBD_LL_OpenEP CDC_IN_EP EP_TYPE_BULK (cdc_packet_size s) s) = Inr s1" "usb_wf s1"
    using LL_works(1) [of CDC_IN_EP s EP_TYPE_BULK "cdc_packet_size s"] assms by (auto simp: works_def)
  obtain s2 where s2: "drop_status (USBD_LL_OpenEP CDC_OUT_EP EP_TYPE_BULK (cdc_packet_size s1) s1) = Inr s2" "usb_wf s2"
    using LL_works(1) [of CDC_OUT_EP s1 EP_TYPE_BULK "cdc_packet_size s1"] s1 by (auto simp: works_def)
  obtain s3 where s3: "drop_status (USBD_LL_OpenEP CDC_CMD_EP EP_TYPE_INTR 8 s2) = Inr s3" "usb_wf s3"
    using LL_works(1) [of CDC_CMD_EP s2 EP_TYPE_INTR 8] s2 by (auto simp: works_def)
  have recv: "\<exists>s'. drop_status (USBD_LL_PrepareReceive CDC_OUT_EP p n s) = Inr s'"
    if "usb_wf s" for p n and s :: "'a usbd"
    using LL_works(6) [of CDC_OUT_EP s p n] that by (auto simp: works_def)
  show ?thesis
  proof (cases "cdc_malloc s3")
    case None
    then show ?thesis using s1 s2 s3 by (simp add: USBD_CDC_Init_def set_pdev_def)
  next
    case (Some h)
    let ?h = "h\<lparr>TxBuffer := Some (UserTxBufferFS, 0), TxLength := 0, RxBuffer := Some (UserRxBufferFS, 0), TxState := 0, RxState := 0\<rparr>"
    let ?s6 = "set_hcdc ?h s3"
    have "usb_wf ?s6" using s3(2) by (simp add: set_hcdc_def set_pdev_def usb_wf_def)
    from recv [OF this, of "Some (UserRxBufferFS, 0)" "cdc_packet_size ?s6"] show ?thesis
      using s1 s2 s3 Some
      by (auto simp: USBD_CDC_Init_def set_pdev_def via_user_def usb_wf_def CDC_Init_FS_def USBD_CDC_SetTxBuffer_def
          USBD_CDC_SetRxBuffer_def with_hcdc_def set_hcdc_def Let_def)
  qed
qed

lemma CDC_DeInit_works: "works s (USBD_CDC_DeInit c s)"
proof -
  have last: "works s (if pClassData (pdev s) \<noteq> None
      then obind (via_user CDC_DeInit_FS s) (\<lambda>s4. Inr (set_pdev (\<lambda>d. d\<lparr>pClassData := None\<rparr>) s4)) else Inr s)"
    for s :: "'a usbd"
    by (auto simp: works_def via_user_def CDC_DeInit_FS_def usb_wf_def set_pdev_def)
  show ?thesis
    unfolding USBD_CDC_DeInit_def by (intro works last) simp_all
qed

lemma config_class_works: "works s (config_class (USBD_CDC rx) c s)"
proof (rule works_wf)
  assume wf: "usb_wf s"
  obtain r s1 where r: "USBD_CDC_Init c s = Inr (r, s1)" using CDC_Init_total [OF wf, of c] by auto
  have "usb_wf s1" using USBD_CDC_Init_to [of c s] wf by (simp add: r post_simps dev_to_def)
  moreover have "works s1 (if b then USBD_CtlError s1 else USBD_CtlSendStatus s1)" for b
    by (intro works)
  ultimately show "works s (config_class (USBD_CDC rx) c s)"
    using wf r by (auto simp: config_class_def USBD_SetClassConfig_def USBD_CDC_def usb_wf_def works_def)
qed

text \<open>A request that is not of the class: the class answers \<open>GET_INTERFACE\<close> and ignores the others.\<close>

lemma CDC_Setup_works: "bmRequest (request (pdev s)) AND 0x60 \<noteq> 0x20 \<Longrightarrow> works s (USBD_CDC_Setup s)"
  unfolding USBD_CDC_Setup_def Let_def by (auto intro!: works dev_same_refl)

lemma LL_pdev: "drop_status (with_pcd f s) = Inr s1 \<Longrightarrow> pdev s1 = pdev s"
  by (auto simp: drop_status_def with_pcd_def outcome_simps split: if_splits)

section \<open>Requests\<close>

lemma USBD_SetAddress_works [works]: "works s (USBD_SetAddress s)"
proof -
  have state: "works s (obind (USBD_CtlSendStatus s) (\<lambda>s2. Inr (set_pdev (\<lambda>d. d\<lparr>dev_state := x\<rparr>) s2)))" for x and s :: "'a usbd"
    by (rule works_bind [OF Ctl_works(3)]) (simp add: works_def usb_wf_def set_pdev_def)
  have addr: "works s (drop_status (USBD_LL_SetUSBAddress a (set_pdev (\<lambda>d. d\<lparr>dev_address := b\<rparr>) s)))" for a b
    by (rule works_from_to [where g = "\<lambda>v. v\<lparr>v_address := b\<rparr>", OF set_pdev_to LL_works(5)])
      (simp_all add: dev_view_def set_pdev_def)
  show ?thesis
    unfolding USBD_SetAddress_def Let_def by (intro works_if Ctl_works(5) works_bind [OF addr state])
qed

lemma upd_works: "works (set_pdev f s) m \<Longrightarrow> (usb_wf s \<Longrightarrow> usb_wf (set_pdev f s)) \<Longrightarrow> works s m"
  by (simp add: works_def)

lemma USBD_SetConfig_works [works]: "works s (USBD_SetConfig (USBD_CDC rx) s)"
proof -
  have clr: "works s (USBD_ClrClassConfig (USBD_CDC rx) c s)" for c and s :: "'a usbd"
    unfolding USBD_ClrClassConfig_def by (rule via_works) (simp add: USBD_CDC_def CDC_DeInit_works)
  have conf: "works s (config_class (USBD_CDC rx) c (set_pdev (\<lambda>d. d\<lparr>dev_config := x, dev_state := y\<rparr>) s))"
    "works s (config_class (USBD_CDC rx) c (set_pdev (\<lambda>d. d\<lparr>dev_config := x\<rparr>) s))"
    "works s (USBD_ClrClassConfig (USBD_CDC rx) c (set_pdev (\<lambda>d. d\<lparr>dev_state := y, dev_config := x\<rparr>) s))"
    for c x y and s :: "'a usbd"
    by (rule upd_works, rule config_class_works clr, simp add: usb_wf_def set_pdev_def)+
  show ?thesis
    unfolding USBD_SetConfig_def Let_def by (intro works conf clr)
qed

lemma small_requests_works:
  "works s (USBD_GetConfig s)" "works s (USBD_GetStatus s)"
  "bmRequest (request (pdev s)) AND 0x60 \<noteq> 0x20 \<Longrightarrow> works s (USBD_SetFeature (USBD_CDC rx) s)"
  "bmRequest (request (pdev s)) AND 0x60 \<noteq> 0x20 \<Longrightarrow> works s (USBD_ClrFeature (USBD_CDC rx) s)"
  "bmRequest (request (pdev s)) AND 0x60 \<noteq> 0x20 \<Longrightarrow> works s (USBD_StdItfReq (USBD_CDC rx) s)"
proof -
  have setup_works: "works s (via_class (cls_Setup (USBD_CDC rx)) s)"
    if "bmRequest (request (pdev s)) AND 0x60 \<noteq> 0x20" for s :: "'a usbd"
    by (rule via_works) (simp add: USBD_CDC_def CDC_Setup_works [OF that])
  have rw: "works s (via_class (cls_Setup (USBD_CDC rx)) (set_pdev (\<lambda>d. d\<lparr>dev_remote_wakeup := x\<rparr>) s))"
    if "bmRequest (request (pdev s)) AND 0x60 \<noteq> 0x20" for x
    by (rule upd_works, rule setup_works) (use that in \<open>simp_all add: set_pdev_def usb_wf_def\<close>)
  show "works s (USBD_GetConfig s)"
    unfolding USBD_GetConfig_def
    by (intro works works_from [OF wakeup_same(2) Ctl_works(1)])
  show "works s (USBD_GetStatus s)"
    unfolding USBD_GetStatus_def Let_def
    by (intro works works_from [OF _ Ctl_works(1)])
      (auto intro: wakeup_same dev_same_trans [OF wakeup_same(3)])
  show "works s (USBD_SetFeature (USBD_CDC rx) s)" if "bmRequest (request (pdev s)) AND 0x60 \<noteq> 0x20"
    unfolding USBD_SetFeature_def by (intro works rw that dev_same_refl)
  show "works s (USBD_ClrFeature (USBD_CDC rx) s)" if "bmRequest (request (pdev s)) AND 0x60 \<noteq> 0x20"
    unfolding USBD_ClrFeature_def by (intro works rw that dev_same_refl)
  show "works s (USBD_StdItfReq (USBD_CDC rx) s)" if "bmRequest (request (pdev s)) AND 0x60 \<noteq> 0x20"
    unfolding USBD_StdItfReq_def by (intro works setup_works that dev_same_refl)
qed

lemma endpoint_requests_works:
  assumes "bmRequest (request (pdev s)) AND 0x60 \<noteq> 0x20" "ep_index a < 15"
  shows "works s (ep_set_feature (USBD_CDC rx) a s)" "works s (ep_clear_feature (USBD_CDC rx) a s)"
    "works s (ep_get_status a s)"
proof -
  have a: "ep_index a < 16" using assms(2) by simp
  have setup_works: "works s1 (via_class (cls_Setup (USBD_CDC rx)) s1)" if "pdev s1 = pdev s" for s1 :: "'a usbd"
    by (rule via_works) (use assms(1) that in \<open>simp add: USBD_CDC_def CDC_Setup_works\<close>)
  have stall: "works s (if b then drop_status (USBD_LL_StallEP a s) else Inr s)" for b
    by (intro works a dev_same_refl)
  have after: "pdev s1 = pdev s" if "(if b then drop_status (USBD_LL_StallEP a s) else Inr s) = Inr s1" for b s1
    using that LL_pdev [of "HAL_PCD_EP_SetStall a" s] by (auto simp: USBD_LL_StallEP_def split: if_splits)
  have then_setup: "works s (obind (if c then if b then drop_status (USBD_LL_StallEP a s) else Inr s else Inr s)
      (\<lambda>s1. obind (via_class (cls_Setup (USBD_CDC rx)) s1) USBD_CtlSendStatus))" for b c
    by (rule works_bind_eq [OF works_if [OF stall works_Inr]], rule dev_same_refl,
        rule works_bind [OF setup_works Ctl_works(3)], cases c, rule after, simp, simp)
  show "works s (ep_set_feature (USBD_CDC rx) a s)"
    unfolding ep_set_feature_def Let_def by (intro works_if stall then_setup Ctl_works)
  have clear: "works s (obind (drop_status (USBD_LL_ClearStallEP a s)) (via_class (cls_Setup (USBD_CDC rx))))"
    by (rule works_bind_eq [OF LL_works(4) [OF a]], rule setup_works)
      (use LL_pdev [of "HAL_PCD_EP_ClrStall a" s] in \<open>simp add: USBD_LL_ClearStallEP_def\<close>)
  have "works s (obind (if b then obind (drop_status (USBD_LL_ClearStallEP a s)) (via_class (cls_Setup (USBD_CDC rx)))
      else Inr s) USBD_CtlSendStatus)" for b
    by (rule works_bind [OF works_if [OF clear works_Inr] Ctl_works(3)]) (rule dev_same_refl)
  then show "works s (ep_clear_feature (USBD_CDC rx) a s)"
    unfolding ep_clear_feature_def by (intro works_if LL_works(3) Ctl_works(5) works_Inr a dev_same_refl)
  have "works s (obind (USBD_LL_IsStallEP a s) (\<lambda>st.
        obind (set_ep_status a (if st \<noteq> 0 then 1 else 0) s) (\<lambda>(p, s1). USBD_CtlSendData p 2 s1)))"
  proof (rule works_wf)
    assume wf: "usb_wf s"
    obtain st where st: "USBD_LL_IsStallEP a s = Inr st"
      using get_ep_ok [OF wf a] wf by (auto simp: USBD_LL_IsStallEP_def usb_wf_def)
    have "\<exists>r. set_ep_status a (if st \<noteq> 0 then 1 else 0) s = Inr r"
      using wf assms(2) by (simp add: set_ep_status_def Let_def usb_wf_def)
    then obtain p s1 where p: "set_ep_status a (if st \<noteq> 0 then 1 else 0) s = Inr (p, s1)" by auto
    have "dev_same s s1" using set_ep_status_same [of a "if st \<noteq> 0 then 1 else 0" s] by (simp add: p post_def)
    from works_from [OF this Ctl_works(1)] show ?thesis by (simp add: st p)
  qed
  then show "works s (ep_get_status a s)"
    unfolding ep_get_status_def by (intro works a dev_same_refl)
qed

lemma setup_stage_works:
  assumes q: "USBD_ParseSetupRequest (Setup (hpcd s)) = Inr q"
    and std: "bmRequest q AND 0x60 \<noteq> 0x20"
    and ep: "bmRequest q AND 0x1F = 2 \<Longrightarrow> ep_index (LOBYTE (wIndex q)) < 15"
  shows "works s (USBD_LL_SetupStage (USBD_CDC rx) (Setup (hpcd s)) s)"
proof -
  define s1 where "s1 = set_pdev (\<lambda>d. d\<lparr>request := q, ep0_state := USBD_EP0_SETUP, ep0_data_len := ucast (wLength q)\<rparr>) s"
  have s1: "dev_same s s1" and q1: "request (pdev s1) = q"
    by (simp_all add: s1_def wakeup_same) (simp add: set_pdev_def)
  have std1: "bmRequest (request (pdev s1)) AND 0x60 \<noteq> 0x20" using std q1 by simp
  have dev: "works s1 (USBD_StdDevReq (USBD_CDC rx) s1)"
    unfolding USBD_StdDevReq_def Let_def by (intro works_if works small_requests_works std1)
  have epr: "works s1 (USBD_StdEPReq (USBD_CDC rx) s1)" if "bmRequest q AND 0x1F = 2"
    unfolding USBD_StdEPReq_def Let_def q1
    by (intro works_if endpoint_requests_works std1 ep that works_Inr dev_same_refl) (simp add: std)
  have bm: "ep_index (bmRequest q AND 0x80) = 0"
    by (simp add: ep_index_def word_bw_assocs)
  have other: "works s1 (drop_status (USBD_LL_StallEP (bmRequest q AND 0x80) s1))"
    by (rule LL_works(3)) (simp add: bm)
  have "works s1 (if bmRequest q AND 0x1F = 0 then USBD_StdDevReq (USBD_CDC rx) s1
      else if bmRequest q AND 0x1F = 1 then USBD_StdItfReq (USBD_CDC rx) s1
      else if bmRequest q AND 0x1F = 2 then USBD_StdEPReq (USBD_CDC rx) s1
      else drop_status (USBD_LL_StallEP (bmRequest q AND 0x80) s1))"
    by (intro works_if dev epr other small_requests_works std1)
  from works_from [OF s1 this] show ?thesis
    unfolding USBD_LL_SetupStage_def q obind.simps Let_def s1_def .
qed

lemma parse_total: "usb_wf s \<Longrightarrow> \<exists>q. USBD_ParseSetupRequest (Setup (hpcd s)) = Inr q"
  by (simp add: USBD_ParseSetupRequest_def buf_read_def usb_wf_def)

text \<open>C4: no request outside the class makes the stack fault. Whatever setup packet a host sends, in
  whatever state the device is, the stack handles it without following a null pointer, leaving an
  object or losing its well-formedness, if the packet is not a class request and names an endpoint
  below 15 when it is for an endpoint.\<close>

theorem standard_requests_never_fault:
  assumes "usb_wf s" "USBD_ParseSetupRequest (Setup (hpcd s)) = Inr q"
    and "bmRequest q AND 0x60 \<noteq> 0x20"
    and "bmRequest q AND 0x1F = 2 \<longrightarrow> ep_index (LOBYTE (wIndex q)) < 15"
  shows "\<exists>s'. irq_event (USBD_CDC rx) Setup_done s = Inr s' \<and> usb_wf s'"
  using setup_stage_works [OF assms(2,3), of rx] assms(1,4)
  by (simp add: works_def HAL_PCD_SetupStageCallback_def)

text \<open>An endpoint's status is looked up without a check of its number. On a configured device,
  a standard \<open>GET_STATUS\<close> for an endpoint numbered 15 or more reads or writes outside the arrays.\<close>

theorem endpoint_status_out_of_bounds:
  assumes "usb_wf s" "USBD_ParseSetupRequest (Setup (hpcd s)) = Inr q" "dev_state (pdev s) = USBD_STATE_CONFIGURED"
    and "bmRequest q AND 0x60 \<noteq> 0x20" "bmRequest q AND 0x1F = 2" "bRequest q = 0"
    and "15 \<le> ep_index (LOBYTE (wIndex q))"
  shows "irq_event (USBD_CDC rx) Setup_done s = Inl Out_of_bounds"
proof -
  let ?a = "LOBYTE (wIndex q)"
  define s1 where "s1 = set_pdev (\<lambda>d. d\<lparr>request := q, ep0_state := USBD_EP0_SETUP, ep0_data_len := ucast (wLength q)\<rparr>) s"
  have s1: "usb_wf s1" "dev_state (pdev s1) = USBD_STATE_CONFIGURED" "request (pdev s1) = q"
    using assms(1,3) by (simp_all add: s1_def set_pdev_def usb_wf_def)
  have "ep_get_status ?a s1 = Inl Out_of_bounds"
  proof (cases "get_ep ?a (hpcd s1)")
    case (Inl e)
    then have "e = Out_of_bounds" by (auto simp: get_ep_def get_in_def get_out_def split: if_splits)
    then show ?thesis using Inl s1 by (simp add: ep_get_status_def USBD_LL_IsStallEP_def usb_wf_def)
  next
    case (Inr ep)
    have "set_ep_status ?a v s1 = Inl Out_of_bounds" for v
      using s1(1) assms(7) by (simp add: set_ep_status_def Let_def usb_wf_def)
    then show ?thesis using Inr s1 by (simp add: ep_get_status_def USBD_LL_IsStallEP_def usb_wf_def)
  qed
  then show ?thesis
    using assms(4-6) s1(3)
    by (simp add: HAL_PCD_SetupStageCallback_def USBD_LL_SetupStage_def assms(2) Let_def s1_def [symmetric] USBD_StdEPReq_def)
qed

text \<open>A device that has no memory for the class handle still enters the configured state. A
  \<open>SET_CONFIGURATION\<close> request then leaves it configured, without a handle: the host sees the
  request stalled, the next packet on the data endpoint and the next transmission follow a null
  pointer.\<close>

theorem unallocated_class_faults:
  assumes "usb_wf s" "USBD_ParseSetupRequest (Setup (hpcd s)) = Inr q" "dev_state (pdev s) = USBD_STATE_ADDRESSED"
    and "cdc_malloc s = None" "bmRequest q = 0" "bRequest q = 9" "wValue q = 1"
  shows "\<exists>s'. irq_event (USBD_CDC rx) Setup_done s = Inr s' \<and> dev_state (pdev s') = USBD_STATE_CONFIGURED
     \<and> pClassData (pdev s') = None \<and> irq_event (USBD_CDC rx) (Out_xfrc 1) s' = Inl Null_deref
     \<and> CDC_Transmit_FS p n s' = Inl Null_deref"
proof -
  obtain s' where s': "irq_event (USBD_CDC rx) Setup_done s = Inr s'" "usb_wf s'"
    using setup_stage_works [OF assms(2), of rx] assms(1,5) by (auto simp: works_def HAL_PCD_SetupStageCallback_def)
  have view: "v_setup (dev_view s) = take 8 (Setup (hpcd s))" by (simp add: dev_view_def)
  have "USBD_ParseSetupRequest (take 8 (Setup (hpcd s))) = Inr q"
    using assms(1,2) by (simp add: USBD_ParseSetupRequest_def buf_read_def usb_wf_def)
  then have "dev_view s' = ch9_set_config 1 (dev_view s)"
    using USBD_LL_SetupStage_to [of rx s] s' assms
    by (simp add: HAL_PCD_SetupStageCallback_def post_def dev_to_def view ch9_request_def)
  then have conf: "dev_state (pdev s') = USBD_STATE_CONFIGURED" and none: "pClassData (pdev s') = None"
    using assms(3,4) by (simp_all add: ch9_set_config_def dev_view_def)
  have "\<exists>ep. get_out 1 (hpcd s') = Inr ep" using s'(2) by (simp add: get_out_def usb_wf_def)
  then obtain ep where "get_out 1 (hpcd s') = Inr ep" by blast
  then have "irq_event (USBD_CDC rx) (Out_xfrc 1) s' = Inl Null_deref"
    using conf none s'(2)
    by (simp add: HAL_PCD_DataOutStageCallback_def USBD_LL_DataOutStage_def via_class_def USBD_CDC_def
        USBD_CDC_DataOut_def USBD_LL_GetRxDataSize_def HAL_PCD_EP_GetRxCount_def usb_wf_def with_hcdc_def)
  then show ?thesis using s'(1) conf none by (simp add: CDC_Transmit_FS_def with_hcdc_def)
qed

section \<open>On the concrete device\<close>

lemma standard_requests_never_fault_witness:
  "\<exists>s s'. usb_reach echo_rx s \<and> dev_state (pdev (s :: unit usbd)) = 3
     \<and> irq_event (USBD_CDC echo_rx) Setup_done s = Inr s' \<and> usb_wf s'"
proof -
  let ?q = "\<lparr>bmRequest = 0x80, bRequest = 6, wValue = 0x200, wIndex = 0, wLength = 0xFF\<rparr>"
  obtain s0 where s0: "usb_reach echo_rx (s0 :: unit usbd)" "usb_wf s0" "dev_state (pdev s0) = 3"
    using example_configured by blast
  have "USBD_ParseSetupRequest [0x80, 6, 0, 2, 0, 0, 0xFF, 0] = Inr ?q"
    by (simp add: USBD_ParseSetupRequest_def buf_read_def SWAPBYTE_def)
  then obtain s where s: "usb_reach echo_rx (s :: unit usbd)" "usb_wf s" "dev_state (pdev s) = 3"
      "USBD_ParseSetupRequest (Setup (hpcd s)) = Inr ?q"
    using example_setup [OF s0(1,2), of "[0x80, 6, 0, 2, 0, 0, 0xFF, 0]"] s0(3) by auto
  have "\<exists>s'. irq_event (USBD_CDC echo_rx) Setup_done s = Inr s' \<and> usb_wf s'"
    by (rule standard_requests_never_fault [OF s(2,4)]) simp_all
  then show ?thesis using s by blast
qed

lemma endpoint_status_out_of_bounds_witness:
  "\<exists>s. usb_reach echo_rx (s :: unit usbd) \<and> irq_event (USBD_CDC echo_rx) Setup_done s = Inl Out_of_bounds"
proof -
  let ?q = "\<lparr>bmRequest = 0x82, bRequest = 0, wValue = 0, wIndex = 0x8F, wLength = 2\<rparr>"
  obtain s0 where s0: "usb_reach echo_rx (s0 :: unit usbd)" "usb_wf s0" "dev_state (pdev s0) = 3"
    using example_configured by blast
  have "USBD_ParseSetupRequest [0x82, 0, 0, 0, 0x8F, 0, 2, 0] = Inr ?q"
    by (simp add: USBD_ParseSetupRequest_def buf_read_def SWAPBYTE_def)
  then obtain s where s: "usb_reach echo_rx (s :: unit usbd)" "usb_wf s" "dev_state (pdev s) = 3"
      "USBD_ParseSetupRequest (Setup (hpcd s)) = Inr ?q"
    using example_setup [OF s0(1,2), of "[0x82, 0, 0, 0, 0x8F, 0, 2, 0]"] s0(3) by auto
  have "irq_event (USBD_CDC echo_rx) Setup_done s = Inl Out_of_bounds"
    by (rule endpoint_status_out_of_bounds [OF s(2,4,3)]) (simp_all add: ep_index_def)
  then show ?thesis using s by blast
qed

lemma unallocated_class_faults_witness:
  "\<exists>s s'. usb_reach echo_rx (s :: unit usbd) \<and> irq_event (USBD_CDC echo_rx) Setup_done s = Inr s'
     \<and> irq_event (USBD_CDC echo_rx) (Out_xfrc 1) s' = Inl Null_deref"
proof -
  let ?q = "\<lparr>bmRequest = 0, bRequest = 9, wValue = 1, wIndex = 0, wLength = 0\<rparr>"
  have "\<exists>s s1. started None () = Inr s \<and> usb_wf s \<and> usb_run (USBD_CDC echo_rx) addressed_by s = Inr s1
      \<and> usb_reach echo_rx s1 \<and> usb_wf s1 \<and> dev_state (pdev s1) = 2 \<and> cdc_malloc s1 = None"
    by (rule example_run) code_simp
  then obtain s0 where s0: "usb_reach echo_rx (s0 :: unit usbd)" "usb_wf s0" "dev_state (pdev s0) = 2" "cdc_malloc s0 = None"
    by blast
  have "USBD_ParseSetupRequest [0, 9, 1, 0, 0, 0, 0, 0] = Inr ?q"
    by (simp add: USBD_ParseSetupRequest_def buf_read_def SWAPBYTE_def)
  then obtain s where s: "usb_reach echo_rx (s :: unit usbd)" "usb_wf s" "dev_state (pdev s) = 2" "cdc_malloc s = None"
      "USBD_ParseSetupRequest (Setup (hpcd s)) = Inr ?q"
    using example_setup [OF s0(1,2), of "[0, 9, 1, 0, 0, 0, 0, 0]"] s0(3,4) by auto
  have "\<exists>s'. irq_event (USBD_CDC echo_rx) Setup_done s = Inr s' \<and> dev_state (pdev s') = USBD_STATE_CONFIGURED
     \<and> pClassData (pdev s') = None \<and> irq_event (USBD_CDC echo_rx) (Out_xfrc 1) s' = Inl Null_deref
     \<and> CDC_Transmit_FS None 0 s' = Inl Null_deref"
    by (rule unallocated_class_faults [OF s(2,5,3,4)]) simp_all
  then show ?thesis using s by blast
qed

end
