(* ===== verification/UsbStart.thy ===== *)
theory UsbStart
  imports UsbReach
begin

text \<open>
  What the start of the device leaves in the registers, and what a suspend does to the clock of the
  transceiver.
\<close>

section \<open>The start\<close>

text \<open>The FIFO memory of the peripheral: a region begins at a word and has a number of words.\<close>

definition rx_region :: "usb_otg \<Rightarrow> nat set" where
  "rx_region r = {0..<unat (GRXFSIZ r AND 0xFFFF)}"

definition tx_region :: "nat \<Rightarrow> usb_otg \<Rightarrow> nat set" where
  "tx_region k r =
     (let f = (if k = 0 then DIEPTXF0 r else DIEPTXF r (k - 1)); start = unat (f AND 0xFFFF)
      in {start..<start + unat (drop_bit 16 f)})"

text \<open>
  The interrupts that the handler serves: those of its branches except the mode mismatch, which only acknowledges its
  flag.
\<close>

definition handled :: "'a usbd usbd_class \<Rightarrow> irq_read \<Rightarrow> nat set" where
  "handled cls rd = fst ` set (pcd_branches cls rd) - {1}"

definition started_regs :: "'a usbd usbd_class \<Rightarrow> irq_read \<Rightarrow> usb_otg \<Rightarrow> bool" where
  "started_regs cls rd r \<longleftrightarrow> (\<forall>n<32. bit (GINTMSK r) n \<longleftrightarrow> n \<in> handled cls rd) \<and> PCGCCTL r = 0
     \<and> \<not> bit (DCTL r) 1 \<and> bit (GAHBCFG r) 0 \<and> bit (GUSBCFG r) 30 \<and> \<not> bit (GUSBCFG r) 29"

lemma handled_eq: "handled cls rd = {2, 3, 4, 11, 12, 13, 18, 19, 20, 21, 30, 31}"
  by (auto simp: handled_def pcd_branches_def)

lemma start_mask: "n < 32 \<Longrightarrow> bit (0xC03C381C :: u32) n \<longleftrightarrow> n \<in> handled cls rd"
proof -
  have "list_all (\<lambda>n. bit (0xC03C381C :: u32) n \<longleftrightarrow> n \<in> {2, 3, 4, 11, 12, 13, 18, 19, 20, 21, 30, 31}) [0..<32]"
    by code_simp
  then show "n < 32 \<Longrightarrow> bit (0xC03C381C :: u32) n \<longleftrightarrow> n \<in> handled cls rd" by (simp add: list_all_iff handled_eq)
qed

definition board_cfg :: "otg_cfg \<Rightarrow> bool" where
  "board_cfg c \<longleftrightarrow> dev_endpoints c = 4 \<and> dma_enable c = 0 \<and> phy_itface c = 2 \<and> Sof_enable c = 1 \<and> vbus_sensing_enable c = 1"

lemma pcd_init_regs:
  assumes "board_cfg (Init h)" "r = Instance (snd (HAL_PCD_Init h))"
  shows "GINTMSK r = 0xC03C381C" "PCGCCTL r = 0" "DIEPTXF r 0 = 0" "bit (GUSBCFG r) 30" "\<not> bit (GUSBCFG r) 29"
  using assms
  by (simp_all add: HAL_PCD_Init_def Let_def USB_DevInit_eq USB_DevDisconnect_def USB_SetCurrentMode_def board_cfg_def bit_simps)

lemma start_regs:
  "\<exists>s h. MX_USB_DEVICE_Init (usb_start r m a) = Inr s \<and> board_cfg (Init h)
     \<and> hpcd s = snd (HAL_PCD_Start (HAL_PCDEx_SetTxFiFo 1 0x80 (HAL_PCDEx_SetTxFiFo 0 0x40 (HAL_PCDEx_SetRxFiFo 0x80
         (snd (HAL_PCD_Init h))))))
     \<and> \<not> Lock h \<and> dev_state (pdev s) = USBD_STATE_DEFAULT \<and> Instance h = r"
proof -
  define c where "c = cfg_zero\<lparr>dev_endpoints := 4, Init_speed := 2, dma_enable := 0, ep0_mps := 0,
      phy_itface := 2, Sof_enable := 1, low_power_enable := 0, lpm_enable := 0, vbus_sensing_enable := 1, use_dedicated_ep1 := 0\<rparr>"
  define h where "h = (pcd_zero r)\<lparr>Init := c\<rparr>"
  define h1 where "h1 = HAL_PCDEx_SetTxFiFo 1 0x80 (HAL_PCDEx_SetTxFiFo 0 0x40 (HAL_PCDEx_SetRxFiFo 0x80 (snd (HAL_PCD_Init h))))"
  have "\<not> Lock h1" by (simp add: h1_def h_def pcd_zero_def HAL_PCD_Init_def HAL_PCDEx_SetTxFiFo_def HAL_PCDEx_SetRxFiFo_def Let_def)
  then have "\<exists>s. MX_USB_DEVICE_Init (usb_start r m a) = Inr s \<and> hpcd s = snd (HAL_PCD_Start h1) \<and> dev_state (pdev s) = USBD_STATE_DEFAULT"
    by (simp add: MX_USB_DEVICE_Init_def USBD_Init_def USBD_RegisterClass_def USBD_CDC_RegisterInterface_def
        USBD_LL_Init_def usb_start_def usbd_zero_def Let_def set_pdev_def USBD_Start_def USBD_LL_Start_def with_pcd_def
        HAL_PCD_Start_def drop_status_def c_def [symmetric] pcd_zero_def h1_def h_def)
  moreover have "board_cfg (Init h)" "\<not> Lock h" "Instance h = r" by (simp_all add: h_def c_def board_cfg_def pcd_zero_def)
  ultimately show ?thesis unfolding h1_def by blast
qed

lemma start_ready:
  "\<exists>s. MX_USB_DEVICE_Init (usb_start r m a) = Inr s \<and> usb_wf s \<and> dev_state (pdev s) = USBD_STATE_DEFAULT
     \<and> started_regs cls rd (Instance (hpcd s))
     \<and> rx_region (Instance (hpcd s)) = {0..<128} \<and> tx_region 0 (Instance (hpcd s)) = {128..<192}
     \<and> tx_region 1 (Instance (hpcd s)) = {192..<320}"
proof -
  obtain s h where s: "MX_USB_DEVICE_Init (usb_start r m a) = Inr s" "board_cfg (Init h)"
      "hpcd s = snd (HAL_PCD_Start (HAL_PCDEx_SetTxFiFo 1 0x80 (HAL_PCDEx_SetTxFiFo 0 0x40 (HAL_PCDEx_SetRxFiFo 0x80
         (snd (HAL_PCD_Init h))))))" "\<not> Lock h" "dev_state (pdev s) = USBD_STATE_DEFAULT"
    using start_regs [of r m a] by blast
  define h0 where "h0 = snd (HAL_PCD_Init h)"
  have h0: "\<not> Lock h0" "GINTMSK (Instance h0) = 0xC03C381C" "PCGCCTL (Instance h0) = 0" "DIEPTXF (Instance h0) 0 = 0"
      "bit (GUSBCFG (Instance h0)) 30" "\<not> bit (GUSBCFG (Instance h0)) 29"
    using s(4) pcd_init_regs [OF s(2) refl] by (simp_all add: h0_def) (simp add: HAL_PCD_Init_def Let_def)
  define q where "q = Instance (hpcd s)"
  have q: "GRXFSIZ q = 0x80" "DIEPTXF0 q = 0x400080" "DIEPTXF q 0 = 0x8000C0" "GINTMSK q = 0xC03C381C" "PCGCCTL q = 0"
      "\<not> bit (DCTL q) 1" "bit (GAHBCFG q) 0" "bit (GUSBCFG q) 30" "\<not> bit (GUSBCFG q) 29"
    using h0 unfolding q_def s(3) h0_def [symmetric]
    by (simp_all add: HAL_PCDEx_SetTxFiFo_def HAL_PCDEx_SetRxFiFo_def HAL_PCD_Start_def Let_def USB_DevConnect_def
        USB_EnableGlobalInt_def bit_simps)
  have "started_regs cls rd q" unfolding started_regs_def q(4) using q start_mask [of _ cls rd] by blast
  moreover have "rx_region q = {0..<128}" "tx_region 0 q = {128..<192}" "tx_region 1 q = {192..<320}"
    using q by (simp_all add: rx_region_def tx_region_def Let_def)
  ultimately show ?thesis using s(1,5) started_wf [OF s(1)] unfolding q_def by blast
qed

text \<open>C26: the start of the device. Whatever the registers and the heap hold, \<open>MX_USB_DEVICE_Init\<close> ends with
  a well-formed device in the default state, forced to be a device and connected, with the clock of the
  transceiver running; the interrupts it enables are exactly those that the handler has a branch for, except the mode
  mismatch, whose branch only acknowledges it and which is not enabled; and the three FIFOs that it lays out follow one another and fill the 320 words of the FIFO memory.\<close>

theorem device_starts:
  "\<exists>s. MX_USB_DEVICE_Init (usb_start r m a) = Inr s \<and> usb_wf s \<and> dev_state (pdev s) = USBD_STATE_DEFAULT
     \<and> started_regs cls rd (Instance (hpcd s))
     \<and> rx_region (Instance (hpcd s)) = {0..<128} \<and> tx_region 0 (Instance (hpcd s)) = {128..<192}
     \<and> tx_region 1 (Instance (hpcd s)) = {192..<320}"
  by (rule start_ready)

section \<open>Suspend\<close>

lemma gated_stays: "v_gated v \<Longrightarrow> v_gated (fold ch9 es v)"
proof (induction es arbitrary: v)
  case (Cons e es)
  have "v_gated (ch9 e v)"
    using Cons.prems by (cases e)
      (auto simp: ch9_request_def ch9_set_address_def ch9_set_config_def Let_def split: sum.split)
  then show ?case using Cons.IH by simp
qed simp

text \<open>C32: after a suspend the clock of the transceiver stays stopped. The suspend callback stops it; the
  resume callback puts the device back into the state it had, but neither that callback nor any later
  event starts the clock again.\<close>

theorem suspended_clock_stays_stopped:
  assumes "keeps_device rx" "usb_wf s"
  shows "\<exists>s1. usb_run (USBD_CDC rx) [Usb_suspend True, Wakeup] s = Inr s1 \<and> usb_wf s1
     \<and> dev_state (pdev s1) = dev_state (pdev s)
     \<and> (\<forall>es s2. usb_run (USBD_CDC rx) es s1 = Inr s2 \<longrightarrow> bit (PCGCCTL (Instance (hpcd s2))) 0)"
proof -
  define s1 where "s1 = HAL_PCD_ResumeCallback (on_regs (\<lambda>r. r\<lparr>DCTL := DCTL r AND NOT 1\<rparr>) (HAL_PCD_SuspendCallback s))"
  have run: "usb_run (USBD_CDC rx) [Usb_suspend True, Wakeup] s = Inr s1" by (simp add: s1_def)
  have to: "dev_view s2 = fold ch9 es (dev_view s') \<and> usb_wf s2"
    if "usb_run (USBD_CDC rx) es s' = Inr s2" "usb_wf s'" for es s' s2
    using cdc_application.run_to [OF assms(1) [unfolded keeps_application], of es s'] that
    by (simp add: post_def dev_to_def)
  have s1: "usb_wf s1" "v_gated (dev_view s1)" "dev_state (pdev s1) = dev_state (pdev s)"
    using to [OF run assms(2)] by (simp_all add: dev_view_def)
  have "bit (PCGCCTL (Instance (hpcd s2))) 0" if "usb_run (USBD_CDC rx) es s1 = Inr s2" for es s2
    using gated_stays [OF s1(2), of es] to [OF that s1(1)] by (metis dev_view.select_convs(5) dev_view_def)
  then show ?thesis using run s1 by blast
qed

lemma suspended_clock_stays_stopped_witness:
  "\<exists>s s1. usb_reach echo_rx (s :: unit usbd) \<and> usb_run (USBD_CDC echo_rx) [Usb_suspend True, Wakeup] s = Inr s1
     \<and> dev_state (pdev s1) = 3 \<and> bit (PCGCCTL (Instance (hpcd s1))) 0"
proof -
  obtain s :: "unit usbd" where s: "usb_reach echo_rx s" "usb_wf s" "dev_state (pdev s) = 3"
    using example_configured by blast
  obtain s1 where s1: "usb_run (USBD_CDC echo_rx) [Usb_suspend True, Wakeup] s = Inr s1" "dev_state (pdev s1) = 3"
    "\<forall>es s2. usb_run (USBD_CDC echo_rx) es s1 = Inr s2 \<longrightarrow> bit (PCGCCTL (Instance (hpcd s2))) 0"
    using suspended_clock_stays_stopped [OF echo_keeps s(2)] s(3) by metis
  have "usb_run (USBD_CDC echo_rx) [] s1 = Inr s1" by simp
  then show ?thesis using s(1) s1 by blast
qed

end
