(* ===== verification/TstProtocomm.thy ===== *)
theory TstProtocomm
  imports DevStm32 ProtoMaster
begin

text \<open>
  The protocol slave of the board, \<open>TestUSBTerminal/tst/tst_protocomm.c\<close>: the USB receive callback
  fills the device's ring, the main loop runs the slave over it, and five registers are served.
\<close>

section \<open>State and operations\<close>

record 'u tst_state = "'u stm32_state" +
  myTable :: bytes
  protoSlave :: proto_hdle

abbreviation (input) MY_TABLE_LEN :: nat where "MY_TABLE_LEN \<equiv> 5"

definition slave_receive :: "('u tst_state) proto_OnReception" where
  "slave_receive cmd args_inout s =
     (if cmd = proto_CMD_SET then
        (if unat (req_reg args_inout) < MY_TABLE_LEN
         then Inr (0, args_inout, s\<lparr>myTable := (myTable s)[unat (req_reg args_inout) := req_value args_inout]\<rparr>)
         else Inr (- 1, args_inout, s))
      else if cmd = proto_CMD_GET then
        (if unat (req_reg args_inout) < MY_TABLE_LEN
         then Inr (0, args_inout\<lparr>raw0 := myTable s ! unat (req_reg args_inout)\<rparr>, s)
         else Inr (- 1, args_inout, s))
      else Inr (- 1, args_inout, s))"

text \<open>
  \<open>tst_init\<close>, from static variables that are zero: the protocol's handle is the device and the
  callback, and its changing part is put in the state.
\<close>

definition tst_init :: "bool \<Rightarrow> bool \<Rightarrow> bool \<Rightarrow> 'u transmit_fs \<Rightarrow> 'u
    \<Rightarrow> ('u tst_state proto_bind \<times> 'u tst_state) outcome"
where
  "tst_init malloc_dev malloc_user malloc_hdle transmit u =
     obind (devstm32_create malloc_dev malloc_user transmit
              \<lparr>stm32_user = fifo_reset, stm32_usb = u, myTable = replicate MY_TABLE_LEN 0, protoSlave = proto_init\<rparr>)
       (\<lambda>(dev, s).
     obind (proto_slave_create malloc_hdle (Some dev) (Some slave_receive)) (\<lambda>(b, h).
       Inr (b, s\<lparr>protoSlave := h\<rparr>)))"

definition CDC_Receive_FS_user :: "bytes \<Rightarrow> u32 \<Rightarrow> 'u tst_state \<Rightarrow> (u8 \<times> 'u tst_state) outcome" where
  "CDC_Receive_FS_user Buf Len s = obind (devstm32_pushBytes Buf (ucast Len) s) (\<lambda>s'. Inr (USBD_OK, s'))"

definition tst_loop_main :: "'u tst_state proto_bind \<Rightarrow> 'u tst_state \<Rightarrow> 'u tst_state outcome" where
  "tst_loop_main b s = obind (proto_slave_main b (protoSlave s) s) (\<lambda>(_, h, s'). Inr (s'\<lparr>protoSlave := h\<rparr>))"

text \<open>What happens at the board: a USB packet arrives, or the main loop goes round.\<close>

datatype board_event = Usb_packet bytes | Main_loop

fun board_step :: "'u tst_state proto_bind \<Rightarrow> board_event \<Rightarrow> 'u tst_state \<Rightarrow> 'u tst_state outcome" where
  "board_step b (Usb_packet p) s = obind (CDC_Receive_FS_user p (of_nat (length p)) s) (\<lambda>(_, s'). Inr s')"
| "board_step b Main_loop s = tst_loop_main b s"

section \<open>Contracts\<close>

abbreviation board_bind :: "'u transmit_fs \<Rightarrow> 'u tst_state proto_bind" where
  "board_bind transmit \<equiv> \<lparr>priv_callback = Some slave_receive, priv_iodevice = Some (stm32_dev transmit)\<rparr>"

definition board_inv :: "'u tst_state \<Rightarrow> bool" where
  "board_inv s \<longleftrightarrow> fifo_inv (stm32_user s) \<and> length (myTable s) = 5"

interpretation board_regs: register_callback slave_receive board_inv myTable "\<lambda>r s. s\<lparr>myTable := r\<rparr>"
  by unfold_locales (auto simp: slave_receive_def reg_serve_def Let_def board_inv_def)

lemma board_take_inv: "board_inv s \<Longrightarrow> board_inv (stm32_take k s)"
  using stm32_taken(1) [of s k] stm32_take_user [of k s] by (auto simp: board_inv_def)

lemma packet_received:
  assumes "fifo_inv (stm32_user s)" "length p < 256"
  shows "\<exists>q. board_step b (Usb_packet p) s = Inr (s\<lparr>stm32_user := q\<rparr>) \<and> fifo_inv q
     \<and> fifo_items q = (let t = length (stm32_pending s) + length p in drop (t - t mod 40) (stm32_pending s @ p))"
proof -
  have "unat (ucast (of_nat (length p) :: u32) :: u8) = length p"
    using assms(2) by (simp add: unsigned_ucast_eq unat_of_nat take_bit_eq_mod)
  then show ?thesis
    using push_all_spec [OF assms(1), of p]
    by (auto simp: CDC_Receive_FS_user_def devstm32_pushBytes_def buf_read_def)
qed

section \<open>Memory safety\<close>

text \<open>The reads of the slave keep the USB stack as it is.\<close>

interpretation stm32_reads: rx_bounded "stm32_dev transmit" "\<lambda>s. board_inv s \<and> stm32_usb s = u"
  for transmit :: "'u transmit_fs" and u :: 'u
proof
  fix s :: "'u tst_state" and t and n :: u8
  assume s: "board_inv s \<and> stm32_usb s = u"
  then have "stm32_inv s" by (simp add: board_inv_def)
  moreover obtain q where "stm32_take (min (unat n) (length (stm32_pending s))) s = s\<lparr>stm32_user := q\<rparr>"
    using stm32_take_user by blast
  moreover have "board_inv (stm32_take (min (unat n) (length (stm32_pending s))) s)"
    by (rule board_take_inv) (use s in simp)
  ultimately show "\<exists>r bs s'. dev_read (stm32_dev transmit) n t s = Inr (r, bs, s') \<and> r \<le> int (unat n)
      \<and> length bs \<le> unat n \<and> board_inv s' \<and> stm32_usb s' = u"
    using stm32_read [of s n t] s by simp
qed

definition board_safe :: "'u tst_state \<Rightarrow> bool" where
  "board_safe s \<longleftrightarrow> board_inv s \<and> unat (priv_nbBytes (protoSlave s)) \<le> 5"

text \<open>An iteration of the slave that sends nothing ends; one that sends a reply ends with the outcome of the write.\<close>

lemma slave_main_cases:
  assumes "board_inv s" "unat (priv_nbBytes h) \<le> 5"
  obtains r h' s' where "proto_slave_main (board_bind transmit) h s = Inr (r, h', s')" "board_inv s'"
      "unat (priv_nbBytes h') \<le> 5" "stm32_usb s' = stm32_usb s"
  | h2 cmd args s2 where "proto_slave_main (board_bind transmit) h s
        = obind (proto_writeFrame (board_bind transmit) h2 cmd args s2) (\<lambda>(_, h3, s3). Inr (1, h3, s3))"
      "board_inv s2" "unat (priv_nbBytes h2) \<le> 5" "stm32_usb s2 = stm32_usb s"
proof -
  obtain st h1 s1 where rd: "proto_readFrame (board_bind transmit) h (- 1) s = Inr (st, h1, s1)" "board_inv s1"
      "stm32_usb s1 = stm32_usb s" "unat (priv_nbBytes h1) \<le> 5" "st \<in> {proto_NO_ERROR, proto_TIMEOUT, proto_ERR_SYS}"
    using stm32_reads.readFrame_bounded [of "board_bind transmit" transmit s "stm32_usb s" h "- 1"] assms by auto
  obtain ds cmd req h2 where dec: "proto_decodeFrame h1 0 (mk_data 0 0) = (ds, cmd, req, h2)"
    by (cases "proto_decodeFrame h1 0 (mk_data 0 0)")
  have h2: "unat (priv_nbBytes h2) \<le> 5"
    using dec rd(4) by (auto simp: proto_decodeFrame_def Let_def split: if_splits)
  obtain r out s2 where cb: "slave_receive cmd req s1 = Inr (r, out, s2)" "board_inv s2"
    using board_regs.callback_total [OF rd(2)] by blast
  have "stm32_usb s2 = stm32_usb s"
    using cb(1) rd(3) by (auto simp: slave_receive_def split: if_splits)
  then show thesis
    using rd dec h2 cb that by (cases st; cases ds) (auto simp: proto_slave_main_def)
qed

lemma tst_init_ok:
  "tst_init True True True transmit u = Inr (b, s) \<Longrightarrow>
     b = board_bind transmit \<and> board_safe s \<and> stm32_pending s = [] \<and> priv_nbBytes (protoSlave s) = 0
     \<and> myTable s = replicate 5 0 \<and> stm32_usb s = u"
  by (auto simp: tst_init_def devstm32_create_def devstm32_init_def devstm32_open_def proto_slave_create_def
      proto_create_def proto_setReceiver_def board_safe_def board_inv_def proto_init_def)

definition transmit_list :: "bytes list transmit_fs" where
  "transmit_list bs sent = Inr (USBD_OK, sent @ [bs])"

section \<open>Requests in pieces\<close>

definition board_holds :: "bytes \<Rightarrow> 'u tst_state \<Rightarrow> bool" where
  "board_holds p s \<longleftrightarrow> board_inv s \<and> stm32_pending s = [] \<and> received p (protoSlave s)"

lemma board_packet:
  assumes "board_holds p s" "length c \<le> 5"
  shows "\<exists>q. board_step b (Usb_packet c) s = Inr (s\<lparr>stm32_user := q\<rparr>) \<and> fifo_inv q \<and> fifo_items q = c"
  using assms packet_received [of s c b] by (simp add: board_holds_def board_inv_def)

lemma stm32_take_0: "stm32_take 0 s = s"
  by (simp add: stm32_take_def)

lemma board_idle_loop:
  assumes "board_holds p s"
  shows "board_step (board_bind transmit) Main_loop s = Inr s"
proof -
  have "stm32_inv s" "stm32_pending s = []" using assms by (simp_all add: board_holds_def board_inv_def)
  from stm32.slave_main_idle [OF _ this, of "board_bind transmit" transmit "protoSlave s"] show ?thesis
    by (simp add: tst_loop_main_def stm32_take_0)
qed

lemma board_piece:
  assumes s: "board_holds p s" and w: "wire w" and pc: "p @ c = take (length p + length c) w" "c \<noteq> []"
    and part: "length p + length c < length w"
  shows "\<exists>s'. ofold (board_step (board_bind transmit)) [Usb_packet c, Main_loop] s = Inr s'
     \<and> board_holds (p @ c) s' \<and> myTable s' = myTable s \<and> stm32_usb s' = stm32_usb s"
proof -
  have "length c \<le> 5" using part wire_length [OF w] by simp
  then obtain q where q: "board_step (board_bind transmit) (Usb_packet c) s = Inr (s\<lparr>stm32_user := q\<rparr>)"
      "fifo_inv q" "fifo_items q = c"
    using board_packet [OF s] by blast
  define s1 where "s1 = s\<lparr>stm32_user := q\<rparr>"
  have s1: "stm32_inv s1" "stm32_pending s1 = c" "received p (protoSlave s)"
    using q s by (simp_all add: s1_def board_holds_def)
  obtain h' where "proto_slave_main (board_bind transmit) (protoSlave s) s1 = Inr (0, h', stm32_take (length c) s1)"
      "received (p @ c) h'"
    using stm32.slave_main_piece [OF _ s1(1,3) w, of "board_bind transmit" transmit] s1(2) pc part by auto
  moreover obtain q' where "stm32_take (length c) s1 = s1\<lparr>stm32_user := q'\<rparr>"
    using stm32_take_user by blast
  ultimately show ?thesis
    using q(1) stm32_taken [OF s1(1), of "length c"] s1(2) s
    by (auto simp: tst_loop_main_def s1_def board_holds_def board_inv_def)
qed

lemma board_reply:
  assumes s: "board_inv s2" and agree: "args_agree cmd data args"
    and cmd: "cmd \<in> {proto_CMD_SET, proto_CMD_GET}"
    and tr: "\<And>bs. transmit bs (stm32_usb s2) = Inr (USBD_OK, tx bs (stm32_usb s2))"
    and srv: "reg_serve cmd args (myTable s2) = (accepted, out, r')"
  shows "\<exists>h3 s3 out'. obind (slave_receive cmd data s2) (\<lambda>(r, out, s2).
           obind (proto_writeFrame (board_bind transmit) h1
                    (if r = 0 then proto_CMD_REPLY else proto_CMD_ERR_ARG) out s2)
             (\<lambda>(_, h3, s3). Inr (1, h3, s3))) = Inr (1 :: int, h3, s3)
     \<and> priv_nbBytes h3 = priv_nbBytes h1 \<and> board_inv s3 \<and> stm32_user s3 = stm32_user s2 \<and> myTable s3 = r'
     \<and> stm32_usb s3
         = tx (frame_sent (priv_frame h1) (if accepted then proto_CMD_REPLY else proto_CMD_ERR_ARG) out') (stm32_usb s2)
     \<and> raw0 out' = raw0 out"
proof -
  define rc :: u32 where "rc = (if accepted then proto_CMD_REPLY else proto_CMD_ERR_ARG)"
  have "args_agree cmd args data" using agree by (simp add: args_agree_def)
  from reg_serve_data [OF srv this cmd]
  obtain out' where srv': "reg_serve cmd data (myTable s2) = (accepted, out', r')" "raw0 out' = raw0 out" by blast
  have cb: "slave_receive cmd data s2 = Inr (if accepted then 0 else - 1, out', s2\<lparr>myTable := r'\<rparr>)"
    using board_regs.callback [OF s, of cmd data] srv'(1) by simp
  have rc: "(if (if accepted then 0 else - 1 :: int) = 0 then proto_CMD_REPLY else proto_CMD_ERR_ARG) = rc"
    by (simp add: rc_def)
  define h3 where "h3 = h1\<lparr>priv_frame := snd (proto_makeFrame (priv_frame h1) rc out')\<rparr>"
  define s3 where "s3 = s2\<lparr>myTable := r', stm32_usb := tx (frame_sent (priv_frame h1) rc out') (stm32_usb s2)\<rparr>"
  have wr: "proto_writeFrame (board_bind transmit) h1 rc out' (s2\<lparr>myTable := r'\<rparr>) = Inr (0, h3, s3)"
    by (simp add: writeFrame_sent [of _ "stm32_dev transmit"] devstm32_write_def tr h3_def s3_def)
  have "board_inv s3" using s reg_serve_length [OF srv] by (simp add: s3_def board_inv_def)
  then show ?thesis
    unfolding cb obind.simps prod.case rc wr using srv'(2)
    by (intro exI [of _ h3] exI [of _ s3] exI [of _ out']) (simp add: h3_def s3_def rc_def)
qed

lemma board_last:
  assumes s: "board_holds p s" and cmd: "cmd \<in> {proto_CMD_SET, proto_CMD_GET}"
    and last: "p @ c = frame_sent f0 cmd args" "c \<noteq> []"
    and tr: "\<And>bs. transmit bs (stm32_usb s) = Inr (USBD_OK, tx bs (stm32_usb s))"
    and srv: "reg_serve cmd args (myTable s) = (accepted, out, r')"
  shows "\<exists>s' f1 out'. ofold (board_step (board_bind transmit)) [Usb_packet c, Main_loop] s = Inr s'
     \<and> board_holds [] s' \<and> myTable s' = r'
     \<and> stm32_usb s' = tx (frame_sent f1 (if accepted then proto_CMD_REPLY else proto_CMD_ERR_ARG) out') (stm32_usb s)
     \<and> raw0 out' = raw0 out"
proof -
  note uc = reg_cmd_ucast [OF cmd]
  have "length (p @ c) \<le> 5" unfolding last(1) using wire_length [OF wire_frame_sent [OF uc]] by blast
  then have "length c \<le> 5" by simp
  then obtain q where q: "board_step (board_bind transmit) (Usb_packet c) s = Inr (s\<lparr>stm32_user := q\<rparr>)"
      "fifo_inv q" "fifo_items q = c"
    using board_packet [OF s] by blast
  define s1 where "s1 = s\<lparr>stm32_user := q\<rparr>"
  have s1: "stm32_inv s1" "stm32_pending s1 = c" "received p (protoSlave s)"
    using q s by (simp_all add: s1_def board_holds_def)
  define s2 where "s2 = stm32_take (length c) s1"
  obtain q' where q': "s2 = s1\<lparr>stm32_user := q'\<rparr>" unfolding s2_def using stm32_take_user by blast
  have s2': "stm32_inv s2" "stm32_pending s2 = []"
    using stm32_taken [OF s1(1), of "length c"] s1(2) by (simp_all add: s2_def)
  have s2: "board_inv s2" "stm32_pending s2 = []" "myTable s2 = myTable s" "stm32_usb s2 = stm32_usb s"
    using s2' s q' by (simp_all add: board_inv_def board_holds_def s1_def)
  obtain data h1 where agree: "args_agree cmd data args" and h1: "priv_nbBytes h1 = 0"
    and main: "proto_slave_main (board_bind transmit) (protoSlave s) s1
         = obind (slave_receive cmd data s2) (\<lambda>(r, out, s2).
           obind (proto_writeFrame (board_bind transmit) h1
                    (if r = 0 then proto_CMD_REPLY else proto_CMD_ERR_ARG) out s2)
             (\<lambda>(_, h3, s3). Inr (1, h3, s3)))"
    using stm32.slave_main_last [OF _ _ s1(1,3) uc, of "board_bind transmit" transmit slave_receive f0 args]
      last s1(2) by (auto simp: s2_def)
  have tr2: "transmit bs (stm32_usb s2) = Inr (USBD_OK, tx bs (stm32_usb s2))" for bs
    using tr [of bs] s2(4) by simp
  obtain h3 s3 out' where r: "proto_slave_main (board_bind transmit) (protoSlave s) s1 = Inr (1, h3, s3)"
      "priv_nbBytes h3 = 0" "board_inv s3" "stm32_user s3 = stm32_user s2" "myTable s3 = r'"
      "stm32_usb s3 = tx (frame_sent (priv_frame h1) (if accepted then proto_CMD_REPLY else proto_CMD_ERR_ARG) out') (stm32_usb s)"
      "raw0 out' = raw0 out"
    unfolding main
    using board_reply [where transmit = transmit and tx = tx, OF s2(1) agree cmd tr2, of accepted out r' h1] srv s2(3,4) h1
    by auto
  have "ofold (board_step (board_bind transmit)) [Usb_packet c, Main_loop] s = Inr (s3\<lparr>protoSlave := h3\<rparr>)"
    using q(1) r(1) by (simp add: tst_loop_main_def s1_def)
  then show ?thesis
    using r s2 by (intro exI [of _ "s3\<lparr>protoSlave := h3\<rparr>"] exI [of _ "priv_frame h1"] exI [of _ out'])
      (simp add: board_holds_def board_inv_def received_def)
qed

lemma board_idle_loops: "board_holds p s \<Longrightarrow> ofold (board_step (board_bind transmit)) (replicate k Main_loop) s = Inr s"
proof (induction k)
  case (Suc k)
  then show ?case using board_idle_loop [OF Suc.prems, of transmit] by simp
qed simp

section \<open>The register service of the board\<close>

definition request_bytes :: "reg_op \<Rightarrow> bytes" where
  "request_bytes x = frame_sent (priv_frame proto_init) (op_cmd x) (op_data x)"

text \<open>The frame \<open>w\<close> is the reply to a request with this status and value.\<close>

definition answers :: "bytes \<Rightarrow> proto_Status \<times> u8 option \<Rightarrow> bool" where
  "answers w r \<longleftrightarrow> (\<exists>f out. w = frame_sent f (if fst r = proto_NO_ERROR then proto_CMD_REPLY else proto_CMD_ERR_ARG) out
     \<and> (\<forall>v. snd r = Some v \<longrightarrow> raw0 out = v))"

lemma reg_serve_spec_step:
  assumes "reg_serve (op_cmd x) (op_data x) regs = (accepted, out, r')"
  shows "spec_step regs x
     = ((if accepted then proto_NO_ERROR else proto_INVALID_ARG,
         if accepted \<and> op_cmd x = proto_CMD_GET then Some (raw0 out) else None), r')"
  using assms by (cases x) (auto simp: reg_serve_def Let_def mk_data_def split: if_splits)

section \<open>Packets that the ring or the receiver loses\<close>

text \<open>C22: the ring keeps no count of its bytes, so a packet that overfills it does not lose only
  its end: after any packet, what is left to read is what remains of the waiting and the new
  bytes once every full group of forty is dropped from the front.\<close>

theorem ring_overflow_drops_forties:
  assumes "fifo_inv (stm32_user s)" "length p \<le> 64"
  shows "\<exists>s'. board_step b (Usb_packet p) s = Inr s' \<and> fifo_inv (stm32_user s')
     \<and> stm32_pending s' = (let t = length (stm32_pending s) + length p in drop (t - t mod 40) (stm32_pending s @ p))"
  using packet_received [OF assms(1), of p b] assms(2) by fastforce

lemma ring_overflow_drops_forties_witness:
  "\<exists>s'. board_step (board_bind transmit_list) (Usb_packet (map of_nat [0..<45])) 
       \<lparr>stm32_user = fifo_reset, stm32_usb = [], myTable = replicate 5 0, protoSlave = proto_init\<rparr> = Inr s'
     \<and> stm32_pending s' = [40, 41, 42, 43, 44]"
proof -
  have "stm32_pending \<lparr>stm32_user = fifo_reset, stm32_usb = [], myTable = replicate 5 0, protoSlave = proto_init\<rparr> = []"
    by simp
  then show ?thesis
    using ring_overflow_drops_forties [of "\<lparr>stm32_user = fifo_reset, stm32_usb = [], myTable = replicate 5 0, protoSlave = proto_init\<rparr>"
        "map of_nat [0..<45]" "board_bind transmit_list"]
    by (simp add: upt_rec) blast
qed

lemma board_loop_stream:
  assumes s: "board_inv s" "priv_nbBytes (protoSlave s) = 0" and cmd: "cmd \<in> {proto_CMD_SET, proto_CMD_GET}"
    and p: "stm32_pending s = frame_sent f0 cmd args @ extra"
    and tr: "\<And>bs. transmit bs (stm32_usb s) = Inr (USBD_OK, tx bs (stm32_usb s))"
    and srv: "reg_serve cmd args (myTable s) = (accepted, out, r')"
  shows "\<exists>s' f1 out'. board_step (board_bind transmit) Main_loop s = Inr s'
     \<and> board_inv s' \<and> priv_nbBytes (protoSlave s') = 0 \<and> myTable s' = r'
     \<and> stm32_pending s' = drop 5 (stm32_pending s)
     \<and> stm32_usb s' = tx (frame_sent f1 (if accepted then proto_CMD_REPLY else proto_CMD_ERR_ARG) out') (stm32_usb s)
     \<and> raw0 out' = raw0 out"
proof -
  note uc = reg_cmd_ucast [OF cmd]
  have inv: "stm32_inv s" using s(1) by (simp add: board_inv_def)
  define k where "k = min 5 (length (stm32_pending s))"
  define s2 where "s2 = stm32_take k s"
  obtain q' where q': "s2 = s\<lparr>stm32_user := q'\<rparr>" unfolding s2_def using stm32_take_user by blast
  have s2': "stm32_inv s2" "stm32_pending s2 = drop 5 (stm32_pending s)"
    using stm32_taken [OF inv, of k] by (simp_all add: s2_def k_def min_def)
  have s2: "board_inv s2" "myTable s2 = myTable s" "stm32_usb s2 = stm32_usb s"
    using s2' s q' by (simp_all add: board_inv_def)
  obtain data h1 where agree: "args_agree cmd data args" and h1: "priv_nbBytes h1 = 0"
    and main: "proto_slave_main (board_bind transmit) (protoSlave s) s
         = obind (slave_receive cmd data s2) (\<lambda>(r, out, s2).
           obind (proto_writeFrame (board_bind transmit) h1
                    (if r = 0 then proto_CMD_REPLY else proto_CMD_ERR_ARG) out s2)
             (\<lambda>(_, h3, s3). Inr (1, h3, s3)))"
    using stm32.slave_main_stream [OF _ _ inv s(2) uc p, of "board_bind transmit" transmit slave_receive]
    by (auto simp: s2_def k_def)
  obtain h3 s3 out' where r: "proto_slave_main (board_bind transmit) (protoSlave s) s = Inr (1, h3, s3)"
      "priv_nbBytes h3 = 0" "board_inv s3" "stm32_user s3 = stm32_user s2" "myTable s3 = r'"
      "stm32_usb s3 = tx (frame_sent (priv_frame h1) (if accepted then proto_CMD_REPLY else proto_CMD_ERR_ARG) out') (stm32_usb s)"
      "raw0 out' = raw0 out"
    unfolding main
    using board_reply [where transmit = transmit and tx = tx, OF s2(1) agree cmd tr [folded s2(3)], of accepted out r' h1] srv s2(2,3) h1
    by auto
  have "board_step (board_bind transmit) Main_loop s = Inr (s3\<lparr>protoSlave := h3\<rparr>)"
    using r(1) by (simp add: tst_loop_main_def)
  then show ?thesis
    using r s2'
    by (intro exI [of _ "s3\<lparr>protoSlave := h3\<rparr>"] exI [of _ "priv_frame h1"] exI [of _ out'])
      (simp add: board_inv_def)
qed

lemma request_get: "request_bytes (Reg_get r) = [proto_START_OF_FRAME, getCRC [1, r], 1, r]"
  by (simp add: request_bytes_def frame_sent_eq args_of_def proto_getArgsSize_def mk_data_def)

lemma getCRC_get_small:
  assumes "unat r < 5"
  shows "proto_START_OF_FRAME \<notin> set [getCRC [1, r], 1, r]"
proof -
  define n where "n = unat r"
  have n: "r = of_nat n" "n < 5" using assms by (simp_all add: n_def)
  then have "n = 0 \<or> n = 1 \<or> n = 2 \<or> n = 3 \<or> n = 4" by arith
  then have "r = 0 \<or> r = 1 \<or> r = 2 \<or> r = 3 \<or> r = 4" using n(1) by auto
  moreover have "getCRC [1, 0] \<noteq> 0x12" "getCRC [1, 1] \<noteq> 0x12" "getCRC [1, 2] \<noteq> 0x12"
      "getCRC [1, 3] \<noteq> 0x12" "getCRC [1, 4] \<noteq> 0x12"
    by code_simp+
  ultimately show ?thesis by auto
qed

end
