(* ===== verification/UsbTx.thy ===== *)
theory UsbTx
  imports UsbReach
begin

text \<open>
  The way of the bytes to the host: the loop that fills a transmit FIFO writes the buffer in packets of
  the endpoint's size, whatever the free space it reads, and ends.
\<close>

section \<open>Packets\<close>

function chunks :: "nat \<Rightarrow> bytes \<Rightarrow> bytes list" where
  "chunks m bs = (if bs = [] \<or> m = 0 then [] else take m bs # chunks m (drop m bs))"
  by pat_completeness auto
termination by (relation "measure (\<lambda>(m, bs). length bs)") auto

declare chunks.simps [simp del]

lemma chunks_Nil [simp]: "chunks m [] = []"
  by (simp add: chunks.simps)

lemma chunks_step: "0 < m \<Longrightarrow> bs \<noteq> [] \<Longrightarrow> chunks m bs = take m bs # chunks m (drop m bs)"
  by (simp add: chunks.simps)

lemma concat_chunks: "0 < m \<Longrightarrow> concat (chunks m bs) = bs"
  by (induction m bs rule: chunks.induct) (subst chunks.simps, auto)

lemma chunks_sizes: "c \<in> set (chunks m bs) \<Longrightarrow> c \<noteq> [] \<and> length c \<le> m"
proof (induction m bs rule: chunks.induct)
  case (1 m bs)
  then show ?case using chunks.simps [of m bs] by (auto split: if_splits)
qed

lemma length_chunks: "0 < m \<Longrightarrow> length (chunks m bs) = (length bs + m - 1) div m"
proof (induction m bs rule: chunks.induct)
  case (1 m bs)
  show ?case
  proof (cases "bs = []")
    case False
    then have "length bs + m - 1 = (length (drop m bs) + m - 1) + m \<or> length bs < m"
      by (cases "length bs < m") auto
    then show ?thesis
    proof
      assume "length bs < m"
      then have "(length bs + m - 1) div m = 1"
        using False 1(2) by (intro div_nat_eqI) (cases bs; simp)+
      then show ?thesis using False 1(2) \<open>length bs < m\<close> by (subst chunks.simps) (simp add: chunks.simps)
    next
      assume e: "length bs + m - 1 = (length (drop m bs) + m - 1) + m"
      have "length (chunks m bs) = Suc (length (chunks m (drop m bs)))"
        using False 1(2) by (simp add: chunks_step)
      also have "\<dots> = Suc ((length (drop m bs) + m - 1) div m)" using False 1 by simp
      also have "\<dots> = (length bs + m - 1) div m" unfolding e using 1(2) by (simp only: div_add_self2)
      finally show ?thesis .
    qed
  qed (use 1(2) in simp)
qed

section \<open>One transfer\<close>

text \<open>
  The transfer of \<open>data\<close> on the IN endpoint \<open>n\<close>: the first \<open>c\<close> of its bytes are in the FIFO, after
  \<open>old\<close>, the rest is still to come.
\<close>

definition sending :: "usb_obj \<Rightarrow> bytes \<Rightarrow> nat \<Rightarrow> nat \<Rightarrow> bytes list \<Rightarrow> nat \<Rightarrow> usb_ep \<Rightarrow> usb_otg \<Rightarrow> bool" where
  "sending obj data m n old c ep r \<longleftrightarrow> c \<le> length data \<and> xfer_buff ep = Some (obj, c)
     \<and> unat (xfer_len ep) = length data \<and> unat (xfer_count ep) = c \<and> unat (ep_maxpacket ep) = m
     \<and> old @ chunks m data = DFIFO r n @ chunks m (drop c data)"

definition reads :: "usb_rd \<Rightarrow> usb_obj \<Rightarrow> bytes \<Rightarrow> bool" where
  "reads rd obj data \<longleftrightarrow> (\<forall>off k. off + k \<le> length data \<longrightarrow> rd (Some (obj, off)) k = Inr (take k (drop off data)))"

lemma tx_chunk_size:
  assumes "sending obj data m n old c ep r"
  shows "unat (tx_chunk ep) = min m (length data - c)"
proof -
  have "unat (xfer_len ep - xfer_count ep) = length data - c"
    using assms by (simp add: sending_def unat_sub word_le_nat_alt)
  then show ?thesis
    using assms by (simp add: tx_chunk_def Let_def sending_def word_less_nat_alt)
qed

lemma tx_loop_sends:
  assumes rd: "reads rd obj data" and m: "0 < m" "m < 65536" and data: "length data < 65536"
  shows "sending obj data m n old c ep r \<Longrightarrow>
    \<exists>len' ep' r' c'. tx_loop rd space k n len len32b ep r = Some (Inr (len', ep', r'))
      \<and> sending obj data m n old c' ep' r' \<and> c \<le> c' \<and> r' = r\<lparr>DFIFO := (DFIFO r)(n := DFIFO r' n)\<rparr>
      \<and> ep' = ep\<lparr>xfer_buff := xfer_buff ep', xfer_count := xfer_count ep'\<rparr>
      \<and> (c < length data \<longrightarrow> len32b < space k AND 0xFFFF \<longrightarrow> min (c + m) (length data) \<le> c')"
proof (induction "length data - c" arbitrary: k len len32b ep r c rule: less_induct)
  case less
  note s = less.prems
  have counts: "xfer_count ep < xfer_len ep \<longleftrightarrow> c < length data" "xfer_len ep \<noteq> 0 \<longleftrightarrow> 0 < length data"
    using s by (auto simp: sending_def word_less_nat_alt word_unat_eq_iff)
  show ?case
  proof (cases "len32b < space k AND 0xFFFF \<and> c < length data")
    case False
    then show ?thesis
      using s counts by (subst tx_loop.simps) (auto intro!: exI [of _ c])
  next
    case True
    define w where "w = min m (length data - c)"
    have w: "0 < w" "c + w \<le> length data" "w < 65536" using True m by (auto simp: w_def)
    have chunk: "unat (tx_chunk ep) = w" by (simp add: tx_chunk_size [OF s] w_def)
    have u16: "unat (ucast (tx_chunk ep) :: u16) = w"
      using chunk w(3) by (simp add: unsigned_ucast_eq take_bit_nat_eq_self_iff)
    define r1 where "r1 = r\<lparr>DFIFO := (DFIFO r)(n := DFIFO r n @ [take w (drop c data)])\<rparr>"
    have wr: "USB_WritePacket rd (xfer_buff ep) n (ucast (tx_chunk ep)) r = Inr r1"
      using rd w s by (simp add: USB_WritePacket_def u16 sending_def reads_def r1_def)
    define ep1 where "ep1 = ep\<lparr>xfer_buff := ptr_add (xfer_buff ep) (unat (tx_chunk ep)), xfer_count := xfer_count ep + tx_chunk ep\<rparr>"
    have cnt: "unat (xfer_count ep + tx_chunk ep) = c + w"
      using s chunk w data by (subst unat_add_lem [THEN iffD1]) (simp_all add: sending_def)
    have "chunks m (drop c data) = take w (drop c data) # chunks m (drop (c + w) data)"
      using True m(1) by (subst chunks_step) (simp_all add: w_def min_def drop_drop add.commute)
    then have s1: "sending obj data m n old (c + w) ep1 r1"
      using s w cnt chunk by (simp add: sending_def ep1_def r1_def)
    have step: "tx_loop rd space k n len len32b ep r
        = tx_loop rd space (Suc k) n (tx_chunk ep) ((tx_chunk ep + 3) div 4) ep1 r1"
      using True counts by (subst tx_loop.simps) (auto simp: Let_def wr ep1_def)
    have "length data - (c + w) < length data - c" using w by simp
    from less.hyps [OF this s1, of "Suc k" "tx_chunk ep" "(tx_chunk ep + 3) div 4"]
    obtain len' ep' r' c' where r: "tx_loop rd space (Suc k) n (tx_chunk ep) ((tx_chunk ep + 3) div 4) ep1 r1 = Some (Inr (len', ep', r'))"
        "sending obj data m n old c' ep' r'" "c + w \<le> c'" "r' = r1\<lparr>DFIFO := (DFIFO r1)(n := DFIFO r' n)\<rparr>"
        "ep' = ep1\<lparr>xfer_buff := xfer_buff ep', xfer_count := xfer_count ep'\<rparr>" by blast
    have "min (c + m) (length data) \<le> c'" "c \<le> c'" using r(3) by (auto simp: w_def)
    moreover have "r' = r\<lparr>DFIFO := (DFIFO r)(n := DFIFO r' n)\<rparr>" using r(4) by (simp add: r1_def)
    moreover have "ep' = ep\<lparr>xfer_buff := xfer_buff ep', xfer_count := xfer_count ep'\<rparr>" using r(5) by (simp add: ep1_def)
    ultimately show ?thesis using step r(1,2) by metis
  qed
qed

text \<open>Space for a packet of \<open>m\<close> bytes at the first reading.\<close>

definition room :: "nat \<Rightarrow> (nat \<Rightarrow> u32) \<Rightarrow> bool" where
  "room m space \<longleftrightarrow> (m + 3) div 4 < unat (space 0 AND 0xFFFF)"

text \<open>A transfer leaves the endpoint's size and type, and the OUT endpoints.\<close>

definition tx_like :: "nat \<Rightarrow> pcd_handle \<Rightarrow> pcd_handle \<Rightarrow> bool" where
  "tx_like n h h' \<longleftrightarrow> OUT_ep h' = OUT_ep h \<and> ep_type (IN_ep h' ! n) = ep_type (IN_ep h ! n)
     \<and> ep_maxpacket (IN_ep h' ! n) = ep_maxpacket (IN_ep h ! n)"

lemma tx_like_trans: "tx_like n h h1 \<Longrightarrow> tx_like n h1 h2 \<Longrightarrow> tx_like n h h2"
  by (simp add: tx_like_def)

lemma tx_fifo_sends:
  assumes s: "sending obj data m n old c (IN_ep h ! n) (Instance h)" "n < length (IN_ep h)"
    and rd: "reads rd obj data" and m: "0 < m" "m < 65536" and data: "length data < 65536"
  shows "\<exists>h' c'. PCD_WriteEmptyTxFifo rd space n h = Inr (HAL_OK, h')
      \<and> sending obj data m n old c' (IN_ep h' ! n) (Instance h') \<and> c \<le> c' \<and> tx_like n h h'
      \<and> (room m space \<longrightarrow> min (c + m) (length data) \<le> c')"
proof -
  let ?ep = "IN_ep h ! n"
  let ?l32 = "(tx_chunk ?ep + 3) div 4"
  obtain len' ep' r' c' where r: "tx_loop rd space 0 n (tx_chunk ?ep) ?l32 ?ep (Instance h) = Some (Inr (len', ep', r'))"
      "sending obj data m n old c' ep' r'" "c \<le> c'"
      "ep' = ?ep\<lparr>xfer_buff := xfer_buff ep', xfer_count := xfer_count ep'\<rparr>"
      "c < length data \<longrightarrow> ?l32 < space 0 AND 0xFFFF \<longrightarrow> min (c + m) (length data) \<le> c'"
    using tx_loop_sends [OF rd m data s(1), of space 0 "tx_chunk ?ep" ?l32] by blast
  have "unat (tx_chunk ?ep + 3) = min m (length data - c) + 3"
    using tx_chunk_size [OF s(1)] m by (subst unat_add_lem [THEN iffD1]) simp_all
  then have "unat ?l32 = (min m (length data - c) + 3) div 4" by (simp add: unat_div)
  also have "\<dots> \<le> (m + 3) div 4" by (intro div_le_mono) simp
  finally have "room m space \<Longrightarrow> ?l32 < space 0 AND 0xFFFF" by (simp add: room_def word_less_nat_alt)
  then have progress: "room m space \<longrightarrow> min (c + m) (length data) \<le> c'"
    using r(3,5) by (cases "c < length data") auto
  define r'' where "r'' = (if len' = 0 then r'\<lparr>DIEPEMPMSK := DIEPEMPMSK r' AND NOT (push_bit n 1)\<rparr> else r')"
  have "PCD_WriteEmptyTxFifo rd space n h = Inr (HAL_OK, (put_in n ep' h)\<lparr>Instance := r''\<rparr>)"
    using s(2) r(1) by (simp add: PCD_WriteEmptyTxFifo_def get_in_def Let_def r''_def)
  moreover have "sending obj data m n old c' (IN_ep ((put_in n ep' h)\<lparr>Instance := r''\<rparr>) ! n) (Instance ((put_in n ep' h)\<lparr>Instance := r''\<rparr>))"
    using r(2) s(2) by (simp add: sending_def put_in_def r''_def)
  moreover have "tx_like n h ((put_in n ep' h)\<lparr>Instance := r''\<rparr>)"
    using s(2) arg_cong [OF r(4), of ep_type] arg_cong [OF r(4), of ep_maxpacket] by (simp add: tx_like_def put_in_def)
  ultimately show ?thesis using r(3) progress by blast
qed

section \<open>The interrupts of a transfer\<close>

definition usb_sending :: "u8 \<Rightarrow> usb_obj \<Rightarrow> bytes \<Rightarrow> nat \<Rightarrow> bytes list \<Rightarrow> nat \<Rightarrow> 'a usbd \<Rightarrow> bool" where
  "usb_sending k obj data m old c s \<longleftrightarrow> usb_wf s \<and> unat k < 16
     \<and> sending obj data m (unat k) old c (IN_ep (hpcd s) ! unat k) (Instance (hpcd s))
     \<and> (\<exists>d. usb_load s obj = Inr d \<and> length data \<le> length d \<and> data = take (length data) d)"

lemma load_reads:
  assumes "usb_load s obj = Inr d" "length data \<le> length d" "data = take (length data) d"
  shows "reads (usb_read s) obj data"
proof -
  have "take k (drop off d) = take k (drop off data)" if "off + k \<le> length data" for off k
    using that by (subst assms(3)) (simp add: take_drop min_def)
  then show ?thesis using assms(1,2) by (simp add: reads_def usb_read_def buf_read_def)
qed

lemma usb_load_hpcd: "usb_load (s\<lparr>hpcd := h\<rparr>) obj = usb_load s obj"
  by (cases obj) (simp_all add: usb_load_def split: option.splits)

lemma wf_hpcd: "usb_wf s \<Longrightarrow> pcd_like (hpcd s) h \<Longrightarrow> usb_wf (s\<lparr>hpcd := h\<rparr>)"
  by (simp add: usb_wf_def pcd_like_def)

lemma tx_event:
  assumes s: "usb_sending k obj data m old c s" and m: "0 < m" "m < 65536" and data: "length data < 65536"
  shows "\<exists>h' c'. irq_event cls (Tx_fifo_empty k space) s = Inr (s\<lparr>hpcd := h'\<rparr>)
      \<and> usb_sending k obj data m old c' (s\<lparr>hpcd := h'\<rparr>) \<and> c \<le> c' \<and> tx_like (unat k) (hpcd s) h'
      \<and> (room m space \<longrightarrow> min (c + m) (length data) \<le> c')"
proof -
  obtain d where d: "usb_load s obj = Inr d" "length data \<le> length d" "data = take (length data) d"
    using s by (auto simp: usb_sending_def)
  have wf: "usb_wf s" "unat k < length (IN_ep (hpcd s))" and sending: "sending obj data m (unat k) old c (IN_ep (hpcd s) ! unat k) (Instance (hpcd s))"
    using s by (auto simp: usb_sending_def usb_wf_def)
  from tx_fifo_sends [OF sending wf(2) load_reads [OF d] m data, of space]
  obtain h' c' where h': "PCD_WriteEmptyTxFifo (usb_read s) space (unat k) (hpcd s) = Inr (HAL_OK, h')"
      "sending obj data m (unat k) old c' (IN_ep h' ! unat k) (Instance h')" "c \<le> c'" "tx_like (unat k) (hpcd s) h'"
      "room m space \<longrightarrow> min (c + m) (length data) \<le> c'" by blast
  have "usb_wf (s\<lparr>hpcd := h'\<rparr>)" by (rule wf_hpcd [OF wf(1) PCD_WriteEmptyTxFifo_likeD [OF h'(1)]])
  then have "usb_sending k obj data m old c' (s\<lparr>hpcd := h'\<rparr>)"
    using s h'(2) by (simp add: usb_sending_def usb_load_hpcd)
  then show ?thesis using h' by (auto simp: irq_tx_fifo_empty_def)
qed

lemma tx_events:
  assumes m: "0 < m" "m < 65536" and data: "length data < 65536"
  shows "\<lbrakk>usb_sending k obj data m old c s; \<forall>sp \<in> set sps. room m sp; length data \<le> c + length sps * m\<rbrakk> \<Longrightarrow>
    \<exists>h'. usb_run cls (map (Tx_fifo_empty k) sps) s = Inr (s\<lparr>hpcd := h'\<rparr>)
      \<and> usb_sending k obj data m old (length data) (s\<lparr>hpcd := h'\<rparr>) \<and> tx_like (unat k) (hpcd s) h'"
proof (induction sps arbitrary: c s)
  case Nil
  then have "c = length data" by (auto simp: usb_sending_def sending_def)
  then show ?case using Nil by (intro exI [of _ "hpcd s"]) (simp add: tx_like_def)
next
  case (Cons sp sps)
  obtain h' c' where h': "irq_event cls (Tx_fifo_empty k sp) s = Inr (s\<lparr>hpcd := h'\<rparr>)"
      "usb_sending k obj data m old c' (s\<lparr>hpcd := h'\<rparr>)" "min (c + m) (length data) \<le> c'"
      "tx_like (unat k) (hpcd s) h'"
    using tx_event [OF Cons.prems(1) m data, of cls sp] Cons.prems(2) by auto
  have "length data \<le> c' + length sps * m" using h'(3) Cons.prems(3) by auto
  from Cons.IH [OF h'(2) _ this] Cons.prems(2) show ?case
    using tx_like_trans [OF h'(4)] by (auto simp: h'(1) simp del: irq_event.simps)
qed

lemma sending_done:
  "sending obj data m n old (length data) ep r \<Longrightarrow> DFIFO r n = old @ chunks m data"
  by (simp add: sending_def)

section \<open>A transmission of the virtual port\<close>

lemma usb_load_hcdc: "pClassData (pdev s) = Some h0 \<Longrightarrow> usb_load (set_hcdc h s) obj = usb_load s obj"
  by (cases obj) (simp_all add: usb_load_def set_hcdc_def set_pdev_def)

lemma wf_hcdc: "usb_wf s \<Longrightarrow> usb_wf (set_hcdc h s)"
  by (simp add: usb_wf_def set_hcdc_def set_pdev_def)

lemma unat_u16_less: "unat (w :: u16) < 65536"
  by (rule order_less_le_trans [OF unsigned_less]) simp

lemma start_in_xfer:
  assumes "ep_type ep \<noteq> EP_TYPE_ISOC" "ep_is_in ep = 1"
  shows "\<exists>r'. USB_EPStartXfer rd ep r = Inr r' \<and> DFIFO r' = DFIFO r"
  using assms by (simp add: USB_EPStartXfer_def Let_def)

lemma transmit_starts:
  assumes wf: "usb_wf s" and ty: "ep_type (IN_ep (hpcd s) ! 1) \<noteq> EP_TYPE_ISOC"
    and ld: "usb_load s obj = Inr d" "unat n \<le> length d"
  shows "\<exists>h'. USBD_LL_Transmit CDC_IN_EP (Some (obj, 0)) n s = Inr (USBD_OK_st, s\<lparr>hpcd := h'\<rparr>)
     \<and> usb_sending 1 obj (take (unat n) d) (unat (ep_maxpacket (IN_ep (hpcd s) ! 1))) (DFIFO (Instance (hpcd s)) 1) 0
         (s\<lparr>hpcd := h'\<rparr>) \<and> tx_like 1 (hpcd s) h'"
proof -
  let ?h = "hpcd s"
  define ep where "ep = (IN_ep ?h ! 1)\<lparr>xfer_buff := Some (obj, 0), xfer_len := ucast n, xfer_count := 0, ep_is_in := 1, ep_num := 1\<rparr>"
  have idx: "ep_index CDC_IN_EP = 1" "CDC_IN_EP AND 0x7F = 1" by (simp_all add: ep_index_def)
  obtain r' where r': "USB_EPStartXfer (usb_read s) ep (Instance ?h) = Inr r'" "DFIFO r' = DFIFO (Instance ?h)"
    using start_in_xfer [of ep "usb_read s" "Instance ?h"] ty by (auto simp: ep_def)
  define h' where "h' = (put_in 1 ep ?h)\<lparr>Instance := r'\<rparr>"
  have len: "length (IN_ep ?h) = 16" "pData (pdev s)" using wf by (simp_all add: usb_wf_def)
  have "USBD_LL_Transmit CDC_IN_EP (Some (obj, 0)) n s = Inr (USBD_OK_st, s\<lparr>hpcd := h'\<rparr>)"
    using r'(1) len idx
    by (simp add: USBD_LL_Transmit_def with_pcd_def HAL_PCD_EP_Transmit_def get_in_def Let_def ep_def h'_def)
  moreover have "usb_wf (s\<lparr>hpcd := h'\<rparr>)" by (rule wf_hpcd [OF wf]) (simp add: h'_def USB_EPStartXfer_gate [OF r'(1)])
  moreover have "unat (ucast n :: u32) = unat n"
    using unat_u16_less [of n] by (simp add: unsigned_ucast_eq take_bit_nat_eq_self_iff)
  ultimately show ?thesis
    using len ld r'(2)
    by (intro exI [of _ h']) (simp add: tx_like_def usb_sending_def sending_def h'_def put_in_def ep_def usb_load_hpcd)
qed

lemma CDC_Transmit_starts:
  assumes wf: "usb_wf s" and h: "pClassData (pdev s) = Some h" "TxState h = 0"
    and ty: "ep_type (IN_ep (hpcd s) ! 1) \<noteq> EP_TYPE_ISOC" and ld: "usb_load s obj = Inr d" "unat n \<le> length d"
  shows "\<exists>h' hc. CDC_Transmit_FS (Some (obj, 0)) n s = Inr (USBD_OK_st, (set_hcdc hc s)\<lparr>hpcd := h'\<rparr>) \<and> TxState hc = 1
     \<and> RxBuffer hc = RxBuffer h \<and> tx_like 1 (hpcd s) h'
     \<and> usb_sending 1 obj (take (unat n) d) (unat (ep_maxpacket (IN_ep (hpcd s) ! 1))) (DFIFO (Instance (hpcd s)) 1) 0
         ((set_hcdc hc s)\<lparr>hpcd := h'\<rparr>)"
proof -
  define hc where "hc = h\<lparr>TxBuffer := Some (obj, 0), TxLength := ucast n, TxState := 1\<rparr>"
  let ?s = "set_hcdc hc s"
  have same: "hpcd ?s = hpcd s" by (simp add: set_hcdc_def set_pdev_def)
  have ld': "usb_load ?s obj = Inr d" using usb_load_hcdc [OF h(1)] ld by simp
  obtain h' where h': "USBD_LL_Transmit CDC_IN_EP (Some (obj, 0)) n ?s = Inr (USBD_OK_st, ?s\<lparr>hpcd := h'\<rparr>)"
     "usb_sending 1 obj (take (unat n) d) (unat (ep_maxpacket (IN_ep (hpcd s) ! 1))) (DFIFO (Instance (hpcd s)) 1) 0 (?s\<lparr>hpcd := h'\<rparr>)"
     "tx_like 1 (hpcd s) h'"
    using transmit_starts [OF wf_hcdc [OF wf], of hc obj d n] ty ld' ld(2) same by auto
  have "(ucast (ucast n :: u32) :: u16) = n" by (rule bit_word_eqI) (simp add: bit_simps)
  then have "CDC_Transmit_FS (Some (obj, 0)) n s = Inr (USBD_OK_st, ?s\<lparr>hpcd := h'\<rparr>)"
    using h h'(1)
    by (simp add: CDC_Transmit_FS_def with_hcdc_def USBD_CDC_SetTxBuffer_def USBD_CDC_TransmitPacket_def set_hcdc_def
        set_pdev_def hc_def drop_status_def)
  moreover have "TxState hc = 1" "RxBuffer hc = RxBuffer h" by (simp_all add: hc_def)
  ultimately show ?thesis using h'(2,3) by blast
qed

lemma in_xfrc_frees:
  assumes "usb_wf s" "dev_state (pdev s) = USBD_STATE_CONFIGURED" "pClassData (pdev s) = Some h"
  shows "\<exists>h'. irq_event (USBD_CDC rx) (In_xfrc 1) s = Inr ((set_hcdc (h\<lparr>TxState := 0\<rparr>) s)\<lparr>hpcd := h'\<rparr>)
     \<and> DFIFO (Instance h') = DFIFO (Instance (hpcd s)) \<and> IN_ep h' = IN_ep (hpcd s) \<and> OUT_ep h' = OUT_ep (hpcd s)
     \<and> pcd_like (hpcd s) h'"
  using assms
  by (intro exI [of _ "(hpcd s)\<lparr>Instance := (Instance (hpcd s))\<lparr>DIEPEMPMSK := DIEPEMPMSK (Instance (hpcd s)) AND NOT (push_bit (unat (1 :: u8)) 1)\<rparr>\<rparr>"])
    (simp add: irq_in_xfrc_def HAL_PCD_DataInStageCallback_def get_in_def usb_wf_def on_regs_def USBD_LL_DataInStage_def
      via_class_def USBD_CDC_def USBD_CDC_DataIn_def set_hcdc_def set_pdev_def pcd_like_def)

text \<open>A whole transmission, and what it leaves as it was.\<close>

lemma transmission:
  assumes "usb_wf s" "dev_state (pdev s) = USBD_STATE_CONFIGURED" "pClassData (pdev s) = Some h" "TxState h = 0"
    and "ep_type (IN_ep (hpcd s) ! 1) = EP_TYPE_BULK" "m = unat (ep_maxpacket (IN_ep (hpcd s) ! 1))" "0 < m" "m < 65536"
    and "usb_load s obj = Inr d" "unat n \<le> length d"
    and "\<forall>sp \<in> set sps. room m sp" "unat n \<le> length sps * m"
  shows "\<exists>s1 s2 h2. CDC_Transmit_FS (Some (obj, 0)) n s = Inr (USBD_OK_st, s1)
     \<and> (\<forall>p k. CDC_Transmit_FS p k s1 = Inr (USBD_BUSY_st, s1))
     \<and> usb_run (USBD_CDC rx) (map (Tx_fifo_empty 1) sps @ [In_xfrc 1]) s1 = Inr s2
     \<and> DFIFO (Instance (hpcd s2)) 1 = DFIFO (Instance (hpcd s)) 1 @ chunks m (take (unat n) d)
     \<and> pClassData (pdev s2) = Some h2 \<and> TxState h2 = 0
     \<and> usb_wf s2 \<and> dev_state (pdev s2) = USBD_STATE_CONFIGURED \<and> tx_like 1 (hpcd s) (hpcd s2)"
proof -
  obtain h' hc where t: "CDC_Transmit_FS (Some (obj, 0)) n s = Inr (USBD_OK_st, (set_hcdc hc s)\<lparr>hpcd := h'\<rparr>)" "TxState hc = 1"
     "usb_sending 1 obj (take (unat n) d) m (DFIFO (Instance (hpcd s)) 1) 0 ((set_hcdc hc s)\<lparr>hpcd := h'\<rparr>)"
     "tx_like 1 (hpcd s) h'"
    using CDC_Transmit_starts [OF assms(1,3,4) _ assms(9,10)] assms(5,6) by auto
  define s1 where "s1 = (set_hcdc hc s)\<lparr>hpcd := h'\<rparr>"
  have cls: "pClassData (pdev s1) = Some hc" by (simp add: s1_def set_hcdc_def set_pdev_def)
  have busy: "CDC_Transmit_FS p k s1 = Inr (USBD_BUSY_st, s1)" for p k
    using cls t(2) by (simp add: CDC_Transmit_FS_def with_hcdc_def)
  have len: "length (take (unat n) d) = unat n" using assms(10) by simp
  note n = unat_u16_less [of n]
  obtain h2 where h2: "usb_run (USBD_CDC rx) (map (Tx_fifo_empty 1) sps) s1 = Inr (s1\<lparr>hpcd := h2\<rparr>)"
      "usb_sending 1 obj (take (unat n) d) m (DFIFO (Instance (hpcd s)) 1) (unat n) (s1\<lparr>hpcd := h2\<rparr>)"
      "tx_like 1 (hpcd s1) h2"
    using tx_events [OF assms(7,8), of "take (unat n) d" 1 obj "DFIFO (Instance (hpcd s)) 1" 0 s1 sps "USBD_CDC rx"]
      t(3) n assms(11,12) unfolding len s1_def [symmetric] by auto
  let ?s = "s1\<lparr>hpcd := h2\<rparr>"
  have sent: "DFIFO (Instance (hpcd ?s)) 1 = DFIFO (Instance (hpcd s)) 1 @ chunks m (take (unat n) d)"
    using h2(2) sending_done [of obj "take (unat n) d" m 1 "DFIFO (Instance (hpcd s)) 1", unfolded len]
    by (auto simp: usb_sending_def)
  have s: "usb_wf ?s" "dev_state (pdev ?s) = USBD_STATE_CONFIGURED" "pClassData (pdev ?s) = Some hc"
    using h2(2) assms(2) cls by (simp_all add: usb_sending_def s1_def set_hcdc_def set_pdev_def)
  from in_xfrc_frees [OF s, of rx] obtain h3 where
    h3: "irq_event (USBD_CDC rx) (In_xfrc 1) ?s = Inr ((set_hcdc (hc\<lparr>TxState := 0\<rparr>) ?s)\<lparr>hpcd := h3\<rparr>)"
      "DFIFO (Instance h3) = DFIFO (Instance (hpcd ?s))" "IN_ep h3 = IN_ep (hpcd ?s)" "OUT_ep h3 = OUT_ep (hpcd ?s)"
      "pcd_like (hpcd ?s) h3" by blast
  define s2 where "s2 = (set_hcdc (hc\<lparr>TxState := 0\<rparr>) ?s)\<lparr>hpcd := h3\<rparr>"
  have "usb_run (USBD_CDC rx) (map (Tx_fifo_empty 1) sps @ [In_xfrc 1]) s1 = Inr s2"
    using h3(1) by (simp add: usb_run_append h2(1) s2_def del: irq_event.simps)
  moreover have "pClassData (pdev s2) = Some (hc\<lparr>TxState := 0\<rparr>)"
    by (simp add: s2_def set_hcdc_def set_pdev_def)
  moreover have "DFIFO (Instance (hpcd s2)) 1 = DFIFO (Instance (hpcd s)) 1 @ chunks m (take (unat n) d)"
    using sent h3(2) by (simp add: s2_def)
  moreover have "TxState (hc\<lparr>TxState := 0\<rparr>) = 0" by simp
  moreover have "usb_wf s2"
    unfolding s2_def by (rule wf_hpcd [OF wf_hcdc [OF s(1)]]) (use h3(5) in \<open>simp add: set_hcdc_def set_pdev_def\<close>)
  moreover have "dev_state (pdev s2) = USBD_STATE_CONFIGURED"
    using s(2) by (simp add: s2_def set_hcdc_def set_pdev_def)
  moreover have "tx_like 1 (hpcd s) (hpcd s2)"
    using t(4) h2(3) h3(3,4) by (simp add: s2_def s1_def tx_like_def)
  ultimately show ?thesis using t(1) busy unfolding s1_def by blast
qed

section \<open>What the peripheral sends of a transfer\<close>

text \<open>
  The size register of an IN endpoint holds the number of packets of the transfer in ten bits and its
  length in nineteen. The peripheral sends that many of the packets in the FIFO, and no more bytes than
  the length; of an empty transfer, one empty packet; of an endpoint that is not enabled, nothing.
\<close>

definition in_pktcnt :: "u32 \<Rightarrow> nat" where
  "in_pktcnt t = unat (drop_bit 19 (t AND TSIZ_PKTCNT))"

definition in_xfrsiz :: "u32 \<Rightarrow> nat" where
  "in_xfrsiz t = unat (t AND TSIZ_XFRSIZ)"

fun in_sent :: "nat \<Rightarrow> nat \<Rightarrow> bytes list \<Rightarrow> bytes list" where
  "in_sent 0 x ps = []"
| "in_sent (Suc k) x [] = (if x = 0 then [[]] else [])"
| "in_sent (Suc k) x (p # ps) = take x p # (if x \<le> length p then [] else in_sent k (x - length p) ps)"

definition in_transfer :: "nat \<Rightarrow> usb_otg \<Rightarrow> bytes list \<Rightarrow> bytes list" where
  "in_transfer n r ps =
     (if DIEPCTL r n AND DIEPCTL_EPENA = 0 then []
      else in_sent (in_pktcnt (DIEPTSIZ r n)) (in_xfrsiz (DIEPTSIZ r n)) ps)"

lemma in_sent_chunks:
  "0 < m \<Longrightarrow> bs \<noteq> [] \<Longrightarrow> in_sent k (length bs) (chunks m bs) = take k (chunks m bs)"
proof (induction k arbitrary: bs)
  case (Suc k)
  have c: "chunks m bs = take m bs # chunks m (drop m bs)" by (rule chunks_step [OF Suc.prems])
  show ?case
  proof (cases "length bs \<le> m")
    case True
    then show ?thesis unfolding c by simp
  next
    case False
    then have "in_sent k (length (drop m bs)) (chunks m (drop m bs)) = take k (chunks m (drop m bs))"
      by (intro Suc.IH) (use Suc.prems in simp_all)
    then show ?thesis using False unfolding c by (simp add: min_def)
  qed
qed simp

lemma tsiz_masks: "TSIZ_PKTCNT = push_bit 19 (mask 10)" "TSIZ_XFRSIZ = mask 19"
  by (simp_all add: mask_eq_exp_minus_1)

lemma in_tsiz_fields:
  assumes "ep_type ep \<noteq> EP_TYPE_ISOC" "unat (xfer_len ep) < 65536" "0 < unat (ep_maxpacket ep)" "unat (ep_maxpacket ep) < 65536"
  shows "in_pktcnt (in_tsiz ep old) = (if xfer_len ep = 0 then 1
      else (unat (xfer_len ep) + unat (ep_maxpacket ep) - 1) div unat (ep_maxpacket ep) mod 1024)"
    and "in_xfrsiz (in_tsiz ep old) = unat (xfer_len ep)"
proof -
  define c where "c = (xfer_len ep + ep_maxpacket ep - 1) div ep_maxpacket ep"
  have sum: "unat (xfer_len ep + ep_maxpacket ep) = unat (xfer_len ep) + unat (ep_maxpacket ep)"
    using assms by (subst unat_add_lem [THEN iffD1]) simp_all
  have "unat (xfer_len ep + ep_maxpacket ep - 1) = unat (xfer_len ep) + unat (ep_maxpacket ep) - 1"
    using sum assms(3) by (subst unat_sub) (simp_all add: word_le_nat_alt)
  then have c: "unat c = (unat (xfer_len ep) + unat (ep_maxpacket ep) - 1) div unat (ep_maxpacket ep)"
    by (simp add: c_def unat_div)
  have e: "bit (524288 :: int) (19 + k) \<longleftrightarrow> k = 0" for k
    using bit_exp_iff [where ?'a = int, of 19 "19 + k"] by simp
  have pk: "drop_bit 19 (in_tsiz ep old AND TSIZ_PKTCNT) = (if xfer_len ep = 0 then 1 else c AND mask 10)"
    using assms(1) unfolding in_tsiz_def c_def [symmetric] tsiz_masks Let_def
    by (intro bit_word_eqI) (auto simp: bit_simps e)
  show "in_pktcnt (in_tsiz ep old) = (if xfer_len ep = 0 then 1
      else (unat (xfer_len ep) + unat (ep_maxpacket ep) - 1) div unat (ep_maxpacket ep) mod 1024)"
    unfolding in_pktcnt_def pk c [symmetric] by (simp add: unat_mod unsigned_take_bit_eq take_bit_eq_mod flip: take_bit_eq_mask)
  have "in_tsiz ep old AND TSIZ_XFRSIZ = xfer_len ep AND mask 19"
    using assms(1) unfolding in_tsiz_def tsiz_masks Let_def
    by (intro bit_word_eqI) (auto simp: bit_simps)
  also have "\<dots> = xfer_len ep"
    using assms(2) by (simp add: word_unat_eq_iff unat_mod unsigned_take_bit_eq take_bit_eq_mod flip: take_bit_eq_mask)
  finally show "in_xfrsiz (in_tsiz ep old) = unat (xfer_len ep)" by (simp only: in_xfrsiz_def)
qed
text \<open>What \<open>CDC_Transmit_FS\<close> leaves in the registers of the endpoint.\<close>

lemma start_in_programs:
  assumes "USB_EPStartXfer rd ep r = Inr r'" "ep_type ep \<noteq> EP_TYPE_ISOC" "ep_is_in ep = 1" "n = unat (ep_num ep)"
  shows "DIEPTSIZ r' n = in_tsiz ep (DIEPTSIZ r n)" "DIEPCTL r' n AND DIEPCTL_EPENA \<noteq> 0"
proof -
  have "(w OR (DIEPCTL_CNAK OR DIEPCTL_EPENA)) AND DIEPCTL_EPENA = DIEPCTL_EPENA" for w
    by (simp add: bit.conj_disj_distrib2 word_ao_absorbs)
  then show "DIEPTSIZ r' n = in_tsiz ep (DIEPTSIZ r n)" "DIEPCTL r' n AND DIEPCTL_EPENA \<noteq> 0"
    using assms by (auto simp: USB_EPStartXfer_def or_at_def Let_def split: if_splits)
qed

lemma CDC_Transmit_programs:
  assumes "CDC_Transmit_FS (Some (obj, 0)) n s = Inr (st, s1)" "usb_wf s" "pClassData (pdev s) = Some h" "TxState h = 0"
    and "ep_type (IN_ep (hpcd s) ! 1) \<noteq> EP_TYPE_ISOC" "m = unat (ep_maxpacket (IN_ep (hpcd s) ! 1))" "0 < m" "m < 65536"
  shows "DIEPCTL (Instance (hpcd s1)) 1 AND DIEPCTL_EPENA \<noteq> 0"
    and "in_pktcnt (DIEPTSIZ (Instance (hpcd s1)) 1) = (if n = 0 then 1 else (unat n + m - 1) div m mod 1024)"
    and "in_xfrsiz (DIEPTSIZ (Instance (hpcd s1)) 1) = unat n"
proof -
  have idx: "ep_index CDC_IN_EP = 1" "CDC_IN_EP AND 0x7F = 1" by (simp_all add: ep_index_def)
  define ep where "ep = (IN_ep (hpcd s) ! 1)\<lparr>xfer_buff := Some (obj, 0), xfer_len := ucast n, xfer_count := 0, ep_is_in := 1, ep_num := 1\<rparr>"
  have len: "unat (ucast n :: u32) = unat n"
    using unat_u16_less [of n] by (simp add: unsigned_ucast_eq take_bit_nat_eq_self_iff)
  have "(ucast (ucast n :: u32) :: u16) = n" by (rule bit_word_eqI) (simp add: bit_simps)
  then obtain rd where r: "USB_EPStartXfer rd ep (Instance (hpcd s)) = Inr (Instance (hpcd s1))"
    using assms(1-5) idx
    by (auto simp: CDC_Transmit_FS_def with_hcdc_def USBD_CDC_SetTxBuffer_def USBD_CDC_TransmitPacket_def set_hcdc_def
        set_pdev_def drop_status_def usb_wf_def USBD_LL_Transmit_def with_pcd_def HAL_PCD_EP_Transmit_def get_in_def Let_def
        put_in_def ep_def obind_Inr_iff)
  have ep: "ep_type ep \<noteq> EP_TYPE_ISOC" "ep_is_in ep = 1" "1 = unat (ep_num ep)" using assms(5) by (simp_all add: ep_def)
  show "DIEPCTL (Instance (hpcd s1)) 1 AND DIEPCTL_EPENA \<noteq> 0" by (rule start_in_programs(2) [OF r ep])
  show "in_pktcnt (DIEPTSIZ (Instance (hpcd s1)) 1) = (if n = 0 then 1 else (unat n + m - 1) div m mod 1024)"
    and "in_xfrsiz (DIEPTSIZ (Instance (hpcd s1)) 1) = unat n"
    using in_tsiz_fields [of ep "DIEPTSIZ (Instance (hpcd s)) 1"] assms(5-8) unat_u16_less [of n]
    unfolding start_in_programs(1) [OF r ep] by (simp_all add: ep_def len word_unat_eq_iff)
qed

lemma CDC_Transmit_sends:
  assumes "CDC_Transmit_FS (Some (obj, 0)) n s = Inr (st, s1)" "usb_wf s" "pClassData (pdev s) = Some h" "TxState h = 0"
    and "ep_type (IN_ep (hpcd s) ! 1) = EP_TYPE_BULK" "m = unat (ep_maxpacket (IN_ep (hpcd s) ! 1))" "0 < m" "m < 65536"
    and "unat n \<le> length d"
  shows "in_transfer 1 (Instance (hpcd s1)) (chunks m (take (unat n) d))
     = (if n = 0 then [[]] else take ((unat n + m - 1) div m mod 1024) (chunks m (take (unat n) d)))"
    (is "?sent = _")
proof -
  note r = CDC_Transmit_programs [OF assms(1-4) _ assms(6-8)]
  have len: "length (take (unat n) d) = unat n" using assms(9) by simp
  show ?thesis
  proof (cases "n = 0")
    case True
    then show ?thesis using r assms(5) by (simp add: in_transfer_def)
  next
    case False
    then have "take (unat n) d \<noteq> []" using len by (auto simp: word_unat_eq_iff)
    from in_sent_chunks [OF assms(7) this] show ?thesis
      using False r assms(5) unfolding len by (simp add: in_transfer_def)
  qed
qed

lemma packets_up_to:
  fixes n m :: nat
  assumes "0 < m"
  shows "n \<le> k * m \<Longrightarrow> (n + m - 1) div m \<le> k" and "k * m < n \<Longrightarrow> k < (n + m - 1) div m"
proof -
  have "n \<le> k * m \<Longrightarrow> n + m - 1 < Suc k * m" using assms by simp
  then show "n \<le> k * m \<Longrightarrow> (n + m - 1) div m \<le> k" using less_mult_imp_div_less [of "n + m - 1" "Suc k" m] by simp
  have "k * m < n \<Longrightarrow> Suc k * m \<le> n + m - 1" using assms by simp
  then show "k * m < n \<Longrightarrow> k < (n + m - 1) div m" using assms by (simp add: less_eq_div_iff_mult_less_eq flip: Suc_le_eq)
qed

text \<open>The number of packets fits its field, or it is the first that does not.\<close>

lemma CDC_Transmit_reaches:
  assumes "CDC_Transmit_FS (Some (obj, 0)) n s = Inr (st, s1)" "usb_wf s" "pClassData (pdev s) = Some h" "TxState h = 0"
    and "ep_type (IN_ep (hpcd s) ! 1) = EP_TYPE_BULK" "m = unat (ep_maxpacket (IN_ep (hpcd s) ! 1))" "0 < m" "m < 65536"
    and "unat n \<le> length d"
  shows "unat n \<le> 1023 * m \<Longrightarrow> in_transfer 1 (Instance (hpcd s1)) (chunks m (take (unat n) d))
      = (if n = 0 then [[]] else chunks m (take (unat n) d))"
    and "1023 * m < unat n \<Longrightarrow> unat n \<le> 1024 * m \<Longrightarrow>
      in_transfer 1 (Instance (hpcd s1)) (chunks m (take (unat n) d)) = []"
proof -
  let ?k = "(unat n + m - 1) div m"
  note sends = CDC_Transmit_sends [OF assms]
  have len: "length (chunks m (take (unat n) d)) = ?k" using assms(7,9) by (simp add: length_chunks)
  show "in_transfer 1 (Instance (hpcd s1)) (chunks m (take (unat n) d))
      = (if n = 0 then [[]] else chunks m (take (unat n) d))" if "unat n \<le> 1023 * m"
    using packets_up_to(1) [OF assms(7) that] len unfolding sends by simp
  show "in_transfer 1 (Instance (hpcd s1)) (chunks m (take (unat n) d)) = []"
    if "1023 * m < unat n" "unat n \<le> 1024 * m"
  proof -
    have "?k = 1024" using packets_up_to(2) [OF assms(7) that(1)] packets_up_to(1) [OF assms(7) that(2)] by linarith
    then show ?thesis using that(1) unfolding sends by auto
  qed
qed
text \<open>C5: a transmission of the virtual port reaches the host. On a configured device with a free
  port, \<open>CDC_Transmit_FS\<close> accepts up to 65535 bytes of any buffer; until the endpoint is done,
  every other transmission is refused as busy; as soon as the interrupts have found room for one packet
  as often as there are packets, the bytes are in the FIFO in packets of the endpoint's size, in
  order, and the port is free again. The size register that the call has left makes the peripheral send all
  these packets, or the one empty packet of an empty transmission, when there are at most 1023. It has no room for
  the count of 1024 packets, which 65473 bytes and more need: it then counts 0 packets and nothing is sent, although the
  call has answered \<open>USBD_OK\<close>.\<close>

theorem cdc_transmit_delivers:
  assumes "usb_wf s" "dev_state (pdev s) = USBD_STATE_CONFIGURED" "pClassData (pdev s) = Some h" "TxState h = 0"
    and "ep_type (IN_ep (hpcd s) ! 1) = EP_TYPE_BULK" "m = unat (ep_maxpacket (IN_ep (hpcd s) ! 1))" "0 < m" "m < 65536"
    and "usb_load s obj = Inr d" "unat n \<le> length d"
    and "\<forall>sp \<in> set sps. room m sp" "unat n \<le> length sps * m"
  shows "\<exists>s1 s2 h2 ps. CDC_Transmit_FS (Some (obj, 0)) n s = Inr (USBD_OK_st, s1)
     \<and> (\<forall>p k. CDC_Transmit_FS p k s1 = Inr (USBD_BUSY_st, s1))
     \<and> usb_run (USBD_CDC rx) (map (Tx_fifo_empty 1) sps @ [In_xfrc 1]) s1 = Inr s2
     \<and> DFIFO (Instance (hpcd s2)) 1 = DFIFO (Instance (hpcd s)) 1 @ ps \<and> ps = chunks m (take (unat n) d)
     \<and> pClassData (pdev s2) = Some h2 \<and> TxState h2 = 0
     \<and> (unat n \<le> 1023 * m \<longrightarrow> in_transfer 1 (Instance (hpcd s1)) ps = (if n = 0 then [[]] else ps))
     \<and> (1023 * m < unat n \<longrightarrow> unat n \<le> 1024 * m \<longrightarrow> in_transfer 1 (Instance (hpcd s1)) ps = [])"
proof -
  obtain s1 s2 h2 where t: "CDC_Transmit_FS (Some (obj, 0)) n s = Inr (USBD_OK_st, s1)"
     "\<forall>p k. CDC_Transmit_FS p k s1 = Inr (USBD_BUSY_st, s1)"
     "usb_run (USBD_CDC rx) (map (Tx_fifo_empty 1) sps @ [In_xfrc 1]) s1 = Inr s2"
     "DFIFO (Instance (hpcd s2)) 1 = DFIFO (Instance (hpcd s)) 1 @ chunks m (take (unat n) d)"
     "pClassData (pdev s2) = Some h2" "TxState h2 = 0"
    using transmission [OF assms, of rx] by blast
  from CDC_Transmit_reaches [OF t(1) assms(1,3-8,10)] t show ?thesis by blast
qed

lemma cdc_transmit_delivers_witness:
  "\<exists>s s1 s2 s3 d. usb_reach echo_rx s
     \<and> CDC_Transmit_FS (Some (App_buffer hello_bytes, 0)) 14 (s :: unit usbd) = Inr (USBD_OK_st, s1)
     \<and> usb_run (USBD_CDC echo_rx) [Tx_fifo_empty 1 (\<lambda>_. 128), In_xfrc 1] s1 = Inr s2
     \<and> DFIFO (Instance (hpcd s2)) 1 = [hello_bytes] \<and> in_transfer 1 (Instance (hpcd s1)) [hello_bytes] = [hello_bytes]
     \<and> CDC_Transmit_FS (Some (App_buffer d, 0)) 65535 s = Inr (USBD_OK_st, s3)
     \<and> in_transfer 1 (Instance (hpcd s3)) (chunks 64 d) = []"
proof -
  obtain s h where s: "usb_reach echo_rx (s :: unit usbd)" "usb_wf s" "dev_state (pdev s) = 3"
      "pClassData (pdev s) = Some h" "TxState h = 0" "ep_type (IN_ep (hpcd s) ! 1) = 2"
      "ep_maxpacket (IN_ep (hpcd s) ! 1) = 64" "DFIFO (Instance (hpcd s)) 1 = []"
    using example_configured by (auto split: option.splits)
  have load: "usb_load s (App_buffer bs) = Inr bs" for bs by (simp add: usb_load_def)
  have hello: "length hello_bytes = 14" "chunks 64 hello_bytes = [hello_bytes]"
    by (simp_all add: hello_bytes_def chunks.simps)
  have room: "\<forall>sp \<in> set (replicate k (\<lambda>_. 128)). room 64 sp" for k by (simp add: room_def)
  obtain d :: bytes where d: "length d = 65535" using Ex_list_of_length by blast
  have "\<exists>s1 s2. CDC_Transmit_FS (Some (App_buffer hello_bytes, 0)) 14 s = Inr (USBD_OK_st, s1)
     \<and> usb_run (USBD_CDC echo_rx) [Tx_fifo_empty 1 (\<lambda>_. 128), In_xfrc 1] s1 = Inr s2
     \<and> DFIFO (Instance (hpcd s2)) 1 = [hello_bytes] \<and> in_transfer 1 (Instance (hpcd s1)) [hello_bytes] = [hello_bytes]"
    using cdc_transmit_delivers [OF s(2-6), of 64 "App_buffer hello_bytes" hello_bytes 14 "replicate 1 (\<lambda>_. 128)" echo_rx]
      room [of 1] s(7,8) load hello by auto
  moreover have "\<exists>s3. CDC_Transmit_FS (Some (App_buffer d, 0)) 65535 s = Inr (USBD_OK_st, s3)
     \<and> in_transfer 1 (Instance (hpcd s3)) (chunks 64 d) = []"
    using cdc_transmit_delivers [OF s(2-6), of 64 "App_buffer d" d 65535 "replicate 1024 (\<lambda>_. 128)" echo_rx]
      room [of 1024] s(7) load d by auto
  ultimately show ?thesis using s(1) by blast
qed

end
