(* ===== verification/UsbRx.thy ===== *)
theory UsbRx
  imports UsbTx
begin

text \<open>
  The way of the bytes from the host: a packet that the receive FIFO reports lands in the port's buffer,
  the application's callback gets it, and the endpoint is ready for the next one.
\<close>

section \<open>The status word of the receive FIFO\<close>

definition rx_status :: "u32 \<Rightarrow> nat \<Rightarrow> u32 \<Rightarrow> u32" where
  "rx_status pktsts n k = push_bit 17 pktsts OR push_bit 4 (of_nat n) OR k"

lemma bit_small: "i < n" if "unat (w :: u32) < 2 ^ n" "bit w i"
proof -
  have "take_bit n w = w"
    using that(1) by (simp add: word_unat_eq_iff unsigned_take_bit_eq take_bit_nat_eq_self_iff)
  then show ?thesis using that(2) bit_take_bit_iff [of n w i] by simp
qed

lemma rx_status_fields:
  assumes "unat p < 16" "n < 2048" "unat k < 16"
  shows "rx_status p n k AND 0xF = k" "drop_bit 4 (rx_status p n k AND 0x7FF0) = of_nat n"
    "drop_bit 17 (rx_status p n k AND 0x1E0000) = p"
proof -
  have masks: "0xF = (mask 4 :: u32)" "0x7FF0 = push_bit 4 (mask 11 :: u32)" "0x1E0000 = push_bit 17 (mask 4 :: u32)"
    by (simp_all add: mask_eq_exp_minus_1 push_bit_eq_mult)
  have n: "unat (of_nat n :: u32) = n" using assms(2) by (simp add: unat_of_nat)
  have bits: "bit (of_nat n :: u32) i \<Longrightarrow> i < 11" "bit k i \<Longrightarrow> i < 4" "bit p i \<Longrightarrow> i < 4" for i
    using bit_small [of "of_nat n" 11 i] bit_small [of k 4 i] bit_small [of p 4 i] assms n by simp_all
  have "bit (rx_status p n k AND mask 4) i \<longleftrightarrow> bit k i" if "i < 32" for i
    using bits(2) [of i] by (auto simp: rx_status_def bit_simps)
  then show "rx_status p n k AND 0xF = k"
    unfolding masks by (intro bit_word_eqI) simp
  have "bit (drop_bit 4 (rx_status p n k AND push_bit 4 (mask 11))) i \<longleftrightarrow> bit (of_nat n :: u32) i" if "i < 32" for i
    using bits(1) [of i] bits(2) [of "4 + i"] by (auto simp: rx_status_def bit_simps)
  then show "drop_bit 4 (rx_status p n k AND 0x7FF0) = of_nat n"
    unfolding masks by (intro bit_word_eqI) simp
  have "bit (drop_bit 17 (rx_status p n k AND push_bit 17 (mask 4))) i \<longleftrightarrow> bit p i" if "i < 32" for i
    using bits(3) [of i] bits(1) [of "13 + i"] bits(2) [of "17 + i"] by (auto simp: rx_status_def bit_simps)
  then show "drop_bit 17 (rx_status p n k AND 0x1E0000) = p"
    unfolding masks by (intro bit_word_eqI) simp
qed

section \<open>A port that is ready\<close>

text \<open>
  The data endpoints of a configured device: packets of up to 64 bytes go out in bulk, and the next
  packet that comes in goes to the start of the port's buffer.
\<close>

definition port_ready :: "'a usbd \<Rightarrow> bool" where
  "port_ready s \<longleftrightarrow> usb_wf s \<and> dev_state (pdev s) = USBD_STATE_CONFIGURED
     \<and> (\<exists>h. pClassData (pdev s) = Some h \<and> RxBuffer h = Some (UserRxBufferFS, 0))
     \<and> ep_type (IN_ep (hpcd s) ! 1) = EP_TYPE_BULK \<and> ep_maxpacket (IN_ep (hpcd s) ! 1) = 64
     \<and> xfer_buff (OUT_ep (hpcd s) ! 1) = Some (UserRxBufferFS, 0) \<and> xfer_count (OUT_ep (hpcd s) ! 1) = 0"

definition port_free :: "'a usbd \<Rightarrow> bool" where
  "port_free s \<longleftrightarrow> (\<exists>h. pClassData (pdev s) = Some h \<and> TxState h = 0)"

text \<open>A packet of the host, as the receive FIFO holds it: whole words, the last one filled up.\<close>

definition out_events :: "bytes \<Rightarrow> bytes \<Rightarrow> pcd_event list" where
  "out_events bs pad = [Rx_level (rx_status 2 (length bs) 1) (bs @ pad), Out_xfrc 1]"

definition word_filler :: "bytes \<Rightarrow> bytes \<Rightarrow> bool" where
  "word_filler bs pad \<longleftrightarrow> length bs + length pad = 4 * ((length bs + 3) div 4)"

text \<open>What a packet leaves in the buffer: whole words, so the filler too\<close>

definition rx_buffer :: "bytes \<Rightarrow> bytes \<Rightarrow> bytes \<Rightarrow> bytes" where
  "rx_buffer bs pad old = (bs @ pad) @ drop (length (bs @ pad)) old"

lemma start_out_xfer:
  assumes "ep_is_in ep = 0"
  shows "\<exists>r'. USB_EPStartXfer rd ep r = Inr r' \<and> DFIFO r' = DFIFO r"
  using assms by (simp add: USB_EPStartXfer_def Let_def)

text \<open>\<open>PrepareReceive\<close> on the data endpoint points it at a buffer and counts from zero.\<close>

lemma receive_arms:
  assumes "usb_wf s"
  shows "\<exists>h'. drop_status (USBD_LL_PrepareReceive CDC_OUT_EP p n s) = Inr (s\<lparr>hpcd := h'\<rparr>)
     \<and> IN_ep h' = IN_ep (hpcd s) \<and> DFIFO (Instance h') = DFIFO (Instance (hpcd s)) \<and> pcd_like (hpcd s) h'
     \<and> xfer_buff (OUT_ep h' ! 1) = p \<and> xfer_count (OUT_ep h' ! 1) = 0 \<and> xfer_len (OUT_ep h' ! 1) = ucast n"
proof -
  let ?h = "hpcd s"
  define ep where "ep = (OUT_ep ?h ! 1)\<lparr>xfer_buff := p, xfer_len := ucast n, xfer_count := 0, ep_is_in := 0, ep_num := 1\<rparr>"
  obtain r' where r': "USB_EPStartXfer (usb_read s) ep (Instance ?h) = Inr r'" "DFIFO r' = DFIFO (Instance ?h)"
    using start_out_xfer [of ep "usb_read s" "Instance ?h"] by (auto simp: ep_def)
  have wf: "length (OUT_ep ?h) = 16" "pData (pdev s)" using assms by (simp_all add: usb_wf_def)
  have "drop_status (USBD_LL_PrepareReceive CDC_OUT_EP p n s) = Inr (s\<lparr>hpcd := (put_out 1 ep ?h)\<lparr>Instance := r'\<rparr>\<rparr>)"
    using wf r' by (simp add: USBD_LL_PrepareReceive_def with_pcd_def HAL_PCD_EP_Receive_def get_out_def Let_def
        ep_index_def ep_def drop_status_def)
  then show ?thesis
    using wf r'(2) by (intro exI [of _ "(put_out 1 ep ?h)\<lparr>Instance := r'\<rparr>"]) (simp add: put_out_def ep_def pcd_like_def USB_EPStartXfer_gate [OF r'(1)])
qed

lemma pop_packet:
  assumes s: "port_ready s" and bs: "length bs \<le> 64" "bs \<noteq> []" and pad: "word_filler bs pad"
  shows "\<exists>h' buf. rx_pop (rx_status 2 (length bs) 1) (bs @ pad) s
        = Inr (s\<lparr>mem := (mem s)(UserRxBufferFS := buf), hpcd := h'\<rparr>)
     \<and> take (length bs) buf = bs \<and> length buf = 2048 \<and> buf = rx_buffer bs pad (mem s UserRxBufferFS)
     \<and> pcd_like (hpcd s) h' \<and> IN_ep h' = IN_ep (hpcd s) \<and> Instance h' = Instance (hpcd s)
     \<and> xfer_count (OUT_ep h' ! 1) = of_nat (length bs)"
proof -
  let ?temp = "rx_status 2 (length bs) 1" and ?ep = "OUT_ep (hpcd s) ! 1"
  have wf: "usb_wf s" "length (OUT_ep (hpcd s)) = 16" "length (mem s UserRxBufferFS) = 2048"
    and ep: "xfer_buff ?ep = Some (UserRxBufferFS, 0)" "xfer_count ?ep = 0"
    using s by (auto simp: port_ready_def usb_wf_def usb_image_def)
  have f: "?temp AND 0xF = 1" "drop_bit 4 (?temp AND 0x7FF0) = of_nat (length bs)" "drop_bit 17 (?temp AND 0x1E0000) = 2"
    using rx_status_fields [of 2 "length bs" 1] bs(1) by simp_all
  have len: "unat (of_nat (length bs) :: u32) = length bs" using bs(1) by (simp add: unat_of_nat)
  have nz: "?temp AND 0x7FF0 \<noteq> 0"
  proof
    assume z: "?temp AND 0x7FF0 = 0"
    from f(2) [unfolded z] have "of_nat (length bs) = (0 :: u32)" by simp
    then show False using len bs(2) by simp
  qed
  have len16: "unat (ucast (of_nat (length bs) :: u32) :: u16) = length bs"
    using bs(1) by (simp add: unsigned_ucast_eq unat_of_nat take_bit_eq_mod)
  have words: "4 * ((length bs + 3) div 4) \<noteq> 0" "length (bs @ pad) = 4 * ((length bs + 3) div 4)"
      "length (bs @ pad) \<le> 2048"
    using bs pad by (cases bs; auto simp: word_filler_def div_greater_zero_iff)+
  define buf where "buf = (bs @ pad) @ drop (length (bs @ pad)) (mem s UserRxBufferFS)"
  have "USB_ReadPacket usb_write (xfer_buff ?ep) (ucast (of_nat (length bs) :: u32)) (bs @ pad) s
      = Inr (s\<lparr>mem := (mem s)(UserRxBufferFS := buf)\<rparr>)"
    using words wf(3) ep(1) bs(2)
    by (simp add: USB_ReadPacket_def Let_def len16 usb_write_def usb_load_def usb_put_def buf_write_def buf_def div_eq_0_iff)
  moreover define h' where
    "h' = put_out 1 (?ep\<lparr>xfer_buff := ptr_add (xfer_buff ?ep) (length bs), xfer_count := of_nat (length bs)\<rparr>) (hpcd s)"
  ultimately have "rx_pop ?temp (bs @ pad) s = Inr (s\<lparr>mem := (mem s)(UserRxBufferFS := buf), hpcd := h'\<rparr>)"
    using wf(2) nz f ep(2) len by (simp add: rx_pop_def Let_def get_out_def)
  moreover have "take (length bs) buf = bs" "length buf = 2048" "buf = rx_buffer bs pad (mem s UserRxBufferFS)"
    using words wf(3) by (simp_all add: buf_def rx_buffer_def)
  moreover have "pcd_like (hpcd s) h'" "IN_ep h' = IN_ep (hpcd s)" "Instance h' = Instance (hpcd s)"
      "xfer_count (OUT_ep h' ! 1) = of_nat (length bs)"
    using wf(2) by (simp_all add: h'_def) (simp_all add: put_out_def)
  ultimately show ?thesis by blast
qed

lemma on_regs_simps [simp]:
  "pdev (on_regs f s) = pdev s" "mem (on_regs f s) = mem s" "app (on_regs f s) = app s"
  "IN_ep (hpcd (on_regs f s)) = IN_ep (hpcd s)" "OUT_ep (hpcd (on_regs f s)) = OUT_ep (hpcd s)"
  "Instance (hpcd (on_regs f s)) = f (Instance (hpcd s))" "usb_wf (on_regs f s) = usb_wf s"
  "port_ready (on_regs f s) = port_ready s"
  by (simp_all add: on_regs_def usb_wf_def port_ready_def)

lemma on_regs_upd:
  "on_regs g ((on_regs f s)\<lparr>mem := m, hpcd := h\<rparr>) = s\<lparr>mem := m, hpcd := h\<lparr>Instance := g (Instance h)\<rparr>\<rparr>"
  by (simp add: on_regs_def)

lemma pcd_like_on_regs [simp]:
  "(\<And>r. PCGCCTL (f r) = PCGCCTL r) \<Longrightarrow> pcd_like (hpcd (on_regs f s)) h \<longleftrightarrow> pcd_like (hpcd s) h"
  by (simp add: on_regs_def pcd_like_def)

lemma rx_event:
  assumes s: "port_ready s" and bs: "length bs \<le> 64" "bs \<noteq> []" and pad: "word_filler bs pad"
  shows "\<exists>h' buf. irq_event cls (Rx_level (rx_status 2 (length bs) 1) (bs @ pad)) s
        = Inr (s\<lparr>mem := (mem s)(UserRxBufferFS := buf), hpcd := h'\<rparr>)
     \<and> take (length bs) buf = bs \<and> length buf = 2048 \<and> buf = rx_buffer bs pad (mem s UserRxBufferFS)
     \<and> pcd_like (hpcd s) h' \<and> IN_ep h' = IN_ep (hpcd s) \<and> DFIFO (Instance h') = DFIFO (Instance (hpcd s))
     \<and> xfer_count (OUT_ep h' ! 1) = of_nat (length bs)"
proof -
  let ?s = "on_regs (\<lambda>r. r\<lparr>GINTMSK := GINTMSK r AND NOT 0x10\<rparr>) s"
  have "port_ready ?s" using s by simp
  from pop_packet [OF this bs pad] obtain h buf where
    h: "rx_pop (rx_status 2 (length bs) 1) (bs @ pad) ?s = Inr (?s\<lparr>mem := (mem ?s)(UserRxBufferFS := buf), hpcd := h\<rparr>)"
      "take (length bs) buf = bs" "length buf = 2048" "buf = rx_buffer bs pad (mem ?s UserRxBufferFS)"
      "pcd_like (hpcd ?s) h" "IN_ep h = IN_ep (hpcd ?s)"
      "Instance h = Instance (hpcd ?s)" "xfer_count (OUT_ep h ! 1) = of_nat (length bs)" by blast
  define h' where "h' = h\<lparr>Instance := (Instance h)\<lparr>GINTMSK := GINTMSK (Instance h) OR 0x10\<rparr>\<rparr>"
  have "irq_event cls (Rx_level (rx_status 2 (length bs) 1) (bs @ pad)) s
      = Inr (s\<lparr>mem := (mem s)(UserRxBufferFS := buf), hpcd := h'\<rparr>)"
    unfolding irq_event.simps irq_rx_level_def h(1) obind.simps on_regs_upd by (simp add: h'_def)
  moreover have "pcd_like (hpcd s) h'" using h(5) by (simp add: h'_def)
  ultimately show ?thesis using h by (intro exI [of _ h'] exI [of _ buf]) (simp add: h'_def)
qed

text \<open>The end of the transfer: the endpoint is armed again before the application's callback is called.\<close>

lemma out_xfrc_event:
  assumes wf: "usb_wf s" and conf: "dev_state (pdev s) = USBD_STATE_CONFIGURED"
    and h: "pClassData (pdev s) = Some h" "RxBuffer h = Some (UserRxBufferFS, 0)"
    and n: "xfer_count (OUT_ep (hpcd s) ! 1) = of_nat n" "n < 65536"
  shows "\<exists>h'. irq_event (USBD_CDC rx) (Out_xfrc 1) s
        = drop_status (rx (Some (UserRxBufferFS, 0)) (of_nat n) ((set_hcdc (h\<lparr>RxLength := of_nat n\<rparr>) s)\<lparr>hpcd := h'\<rparr>))
     \<and> pcd_like (hpcd s) h' \<and> IN_ep h' = IN_ep (hpcd s) \<and> DFIFO (Instance h') = DFIFO (Instance (hpcd s))
     \<and> xfer_buff (OUT_ep h' ! 1) = Some (UserRxBufferFS, 0) \<and> xfer_count (OUT_ep h' ! 1) = 0"
proof -
  let ?s = "set_hcdc (h\<lparr>RxLength := of_nat n\<rparr>) s"
  obtain h' where h': "drop_status (USBD_LL_PrepareReceive CDC_OUT_EP (Some (UserRxBufferFS, 0)) (cdc_packet_size ?s) ?s) = Inr (?s\<lparr>hpcd := h'\<rparr>)"
     "IN_ep h' = IN_ep (hpcd s)" "DFIFO (Instance h') = DFIFO (Instance (hpcd s))" "pcd_like (hpcd s) h'"
     "xfer_buff (OUT_ep h' ! 1) = Some (UserRxBufferFS, 0)" "xfer_count (OUT_ep h' ! 1) = 0"
    using receive_arms [OF wf_hcdc [OF wf, of "h\<lparr>RxLength := of_nat n\<rparr>"], where p = "Some (UserRxBufferFS, 0)" and n = "cdc_packet_size ?s"]
    by (auto simp: set_hcdc_def set_pdev_def)
  have size: "(ucast (ucast (of_nat n :: u32) :: u16) :: u32) = of_nat n"
  proof -
    have "(ucast (ucast w :: u16) :: u32) = take_bit 16 w" for w :: u32
      by (rule bit_word_eqI) (auto simp: bit_simps)
    moreover have "take_bit 16 (of_nat n :: u32) = of_nat n"
      unfolding word_unat_eq_iff unsigned_take_bit_eq
      using n(2) by (intro take_bit_nat_eq_self) (simp add: unat_of_nat)
    ultimately show ?thesis by simp
  qed
  have len: "length (OUT_ep (hpcd s)) = 16" "pClass (pdev s)" "pData (pdev s)" "pUserData (pdev s)"
    using wf by (simp_all add: usb_wf_def)
  have again: "set_hcdc (h\<lparr>RxLength := of_nat n, RxBuffer := Some (UserRxBufferFS, 0)\<rparr>) ?s = ?s"
    using h(2) by (simp add: set_hcdc_def set_pdev_def)
  have "irq_event (USBD_CDC rx) (Out_xfrc 1) s = drop_status (rx (Some (UserRxBufferFS, 0)) (of_nat n) (?s\<lparr>hpcd := h'\<rparr>))"
  proof -
    have size1: "USBD_LL_GetRxDataSize 1 s = Inr (of_nat n)"
      using len n size by (simp add: USBD_LL_GetRxDataSize_def HAL_PCD_EP_GetRxCount_def get_out_def)
    have cls: "pClassData (pdev ?s) = Some (h\<lparr>RxLength := of_nat n\<rparr>)" "pUserData (pdev ?s)"
      using len by (simp_all add: set_hcdc_def set_pdev_def)
    have "USBD_CDC_SetRxBuffer (Some (UserRxBufferFS, 0)) ?s = Inr ?s"
      using cls again by (simp add: USBD_CDC_SetRxBuffer_def with_hcdc_def)
    moreover have "drop_status (USBD_CDC_ReceivePacket ?s) = Inr (?s\<lparr>hpcd := h'\<rparr>)"
      using cls h(2) h'(1) by (simp add: USBD_CDC_ReceivePacket_def drop_status_def outcome_simps)
    ultimately have "CDC_Receive_FS rx (Some (UserRxBufferFS, 0)) (of_nat n) ?s = rx (Some (UserRxBufferFS, 0)) (of_nat n) (?s\<lparr>hpcd := h'\<rparr>)"
      by (simp add: CDC_Receive_FS_def)
    then have "USBD_CDC_DataOut rx 1 s = drop_status (rx (Some (UserRxBufferFS, 0)) (of_nat n) (?s\<lparr>hpcd := h'\<rparr>))"
      using h cls by (simp add: USBD_CDC_DataOut_def size1 with_hcdc_def via_user_def)
    then show ?thesis
      using len conf by (simp add: HAL_PCD_DataOutStageCallback_def get_out_def USBD_LL_DataOutStage_def via_class_def USBD_CDC_def)
  qed
  then show ?thesis using h' by blast
qed

lemma port_ready_like:
  assumes "port_ready s" "pClassData (pdev s') = Some h" "RxBuffer h = Some (UserRxBufferFS, 0)"
    and "pdev s' = (pdev s)\<lparr>pClassData := Some h\<rparr>" "usb_wf s'" "IN_ep (hpcd s') = IN_ep (hpcd s)"
    and "xfer_buff (OUT_ep (hpcd s') ! 1) = Some (UserRxBufferFS, 0)" "xfer_count (OUT_ep (hpcd s') ! 1) = 0"
  shows "port_ready s'"
  using assms by (simp add: port_ready_def)

lemma obind_return: "obind m Inr = m"
  by (cases m) simp_all

lemma usb_run_Nil: "usb_run cls [] = Inr"
  by (rule ext) simp

lemma packet_arrives:
  assumes s: "port_ready s" and bs: "length bs \<le> 64" "bs \<noteq> []" and pad: "word_filler bs pad"
  shows "\<exists>s1. usb_run (USBD_CDC rx) (out_events bs pad) s
          = drop_status (rx (Some (UserRxBufferFS, 0)) (of_nat (length bs)) s1)
     \<and> usb_read s1 (Some (UserRxBufferFS, 0)) (length bs) = Inr bs \<and> port_ready s1 \<and> port_free s1 = port_free s
     \<and> app s1 = app s \<and> dev_view s1 = dev_view s \<and> DFIFO (Instance (hpcd s1)) = DFIFO (Instance (hpcd s))
     \<and> IN_ep (hpcd s1) = IN_ep (hpcd s) \<and> mem s1 UserRxBufferFS = rx_buffer bs pad (mem s UserRxBufferFS)"
proof -
  from s obtain h where wf: "usb_wf s" and conf: "dev_state (pdev s) = USBD_STATE_CONFIGURED"
    and h: "pClassData (pdev s) = Some h" "RxBuffer h = Some (UserRxBufferFS, 0)" by (auto simp: port_ready_def)
  obtain h' buf where e1: "irq_event (USBD_CDC rx) (Rx_level (rx_status 2 (length bs) 1) (bs @ pad)) s
        = Inr (s\<lparr>mem := (mem s)(UserRxBufferFS := buf), hpcd := h'\<rparr>)"
    and buf: "take (length bs) buf = bs" "length buf = 2048" "buf = rx_buffer bs pad (mem s UserRxBufferFS)"
    and h': "pcd_like (hpcd s) h'" "IN_ep h' = IN_ep (hpcd s)" "DFIFO (Instance h') = DFIFO (Instance (hpcd s))"
      "xfer_count (OUT_ep h' ! 1) = of_nat (length bs)"
    using rx_event [OF assms, of "USBD_CDC rx"] by blast
  define s' where "s' = s\<lparr>mem := (mem s)(UserRxBufferFS := buf), hpcd := h'\<rparr>"
  have "length (mem s UserRxBufferFS) = 2048" using wf by (simp add: usb_wf_def usb_image_def)
  then have wf': "usb_wf s'" using wf h'(1) buf(2) by (simp add: s'_def usb_wf_def pcd_like_def)
  have s': "dev_state (pdev s') = USBD_STATE_CONFIGURED" "pClassData (pdev s') = Some h"
      "xfer_count (OUT_ep (hpcd s') ! 1) = of_nat (length bs)" "pdev s' = pdev s"
    using conf h h' by (simp_all add: s'_def)
  have "length bs < 65536" using bs(1) by simp
  from out_xfrc_event [OF wf' s'(1,2) h(2) s'(3) this, of rx] obtain h'' where
    e2: "irq_event (USBD_CDC rx) (Out_xfrc 1) s' = drop_status (rx (Some (UserRxBufferFS, 0)) (of_nat (length bs))
          ((set_hcdc (h\<lparr>RxLength := of_nat (length bs)\<rparr>) s')\<lparr>hpcd := h''\<rparr>))"
    and h'': "pcd_like (hpcd s') h''" "IN_ep h'' = IN_ep (hpcd s')" "DFIFO (Instance h'') = DFIFO (Instance (hpcd s'))"
      "xfer_buff (OUT_ep h'' ! 1) = Some (UserRxBufferFS, 0)" "xfer_count (OUT_ep h'' ! 1) = 0" by blast
  define s1 where "s1 = (set_hcdc (h\<lparr>RxLength := of_nat (length bs)\<rparr>) s')\<lparr>hpcd := h''\<rparr>"
  have run: "usb_run (USBD_CDC rx) (out_events bs pad) s = drop_status (rx (Some (UserRxBufferFS, 0)) (of_nat (length bs)) s1)"
    using e2 by (simp add: out_events_def e1 s'_def [symmetric] s1_def obind_return usb_run_Nil del: irq_event.simps)
  have like: "pcd_like (hpcd s) h''" using h'(1) h''(1) by (simp add: s'_def pcd_like_def)
  have wf1: "usb_wf s1"
    unfolding s1_def by (rule wf_hpcd [OF wf_hcdc [OF wf']]) (use h''(1) in \<open>simp add: set_hcdc_def set_pdev_def\<close>)
  have pd: "pdev s1 = (pdev s)\<lparr>pClassData := Some (h\<lparr>RxLength := of_nat (length bs)\<rparr>)\<rparr>"
    by (simp add: s1_def set_hcdc_def set_pdev_def s'(4))
  have "port_ready s1"
    using s pd h(2) wf1 h'' h'(2)
    by (intro port_ready_like [of s s1 "h\<lparr>RxLength := of_nat (length bs)\<rparr>"]) (simp_all add: s1_def s'_def)
  moreover have "port_free s1 = port_free s" using h by (simp add: port_free_def pd)
  moreover have "usb_read s1 (Some (UserRxBufferFS, 0)) (length bs) = Inr bs"
    using buf(1,2) bs by (simp add: usb_read_def usb_load_def s1_def set_hcdc_def set_pdev_def s'_def buf_read_def)
  moreover have "mem s1 UserRxBufferFS = rx_buffer bs pad (mem s UserRxBufferFS)"
    using buf(3) by (simp add: s1_def set_hcdc_def set_pdev_def s'_def)
  moreover have "app s1 = app s" by (simp add: s1_def set_hcdc_def set_pdev_def s'_def)
  moreover have "dev_view s1 = dev_view s"
    using pd h like by (simp add: dev_view_def s1_def s'_def set_hcdc_def set_pdev_def pcd_like_def)
  moreover have "DFIFO (Instance (hpcd s1)) = DFIFO (Instance (hpcd s))"
    using h''(3) h'(3) by (simp add: s1_def s'_def)
  moreover have "IN_ep (hpcd s1) = IN_ep (hpcd s)" using h''(2) h'(2) by (simp add: s1_def s'_def)
  ultimately show ?thesis using run by blast
qed

text \<open>A ready port transmits: the transfer starts, and the host reads it.\<close>

lemma port_transmits:
  assumes "port_ready s" "port_free s" and ld: "usb_load s obj = Inr d" "unat n \<le> length d"
  shows "\<exists>s'. CDC_Transmit_FS (Some (obj, 0)) n s = Inr (USBD_OK_st, s') \<and> port_ready s' \<and> \<not> port_free s'
     \<and> usb_sending 1 obj (take (unat n) d) 64 (DFIFO (Instance (hpcd s)) 1) 0 s'"
proof -
  obtain h where h: "pClassData (pdev s) = Some h" "TxState h = 0" "RxBuffer h = Some (UserRxBufferFS, 0)"
    using assms(1,2) by (auto simp: port_free_def port_ready_def)
  have u: "usb_wf s" "ep_type (IN_ep (hpcd s) ! 1) \<noteq> EP_TYPE_ISOC" "unat (ep_maxpacket (IN_ep (hpcd s) ! 1)) = 64"
    using assms(1) by (auto simp: port_ready_def)
  obtain h' hc where t: "CDC_Transmit_FS (Some (obj, 0)) n s = Inr (USBD_OK_st, (set_hcdc hc s)\<lparr>hpcd := h'\<rparr>)" "TxState hc = 1"
     "usb_sending 1 obj (take (unat n) d) 64 (DFIFO (Instance (hpcd s)) 1) 0 ((set_hcdc hc s)\<lparr>hpcd := h'\<rparr>)"
     "RxBuffer hc = RxBuffer h" "tx_like 1 (hpcd s) h'"
    using CDC_Transmit_starts [OF u(1) h(1,2) u(2) ld] u(3) by auto
  define s' where "s' = (set_hcdc hc s)\<lparr>hpcd := h'\<rparr>"
  have "usb_wf s'" using t(3) by (simp add: s'_def usb_sending_def)
  then have "port_ready s'"
    using assms(1) t(4,5) h(3) by (simp add: port_ready_def s'_def set_hcdc_def set_pdev_def tx_like_def)
  moreover have "\<not> port_free s'" using t(2) by (simp add: port_free_def s'_def set_hcdc_def set_pdev_def)
  ultimately show ?thesis using t(1,3) by (auto simp: s'_def)
qed

lemma port_sends:
  assumes s: "port_ready s" "usb_sending 1 obj bs 64 old 0 s" and sp: "room 64 sp" and bs: "bs \<noteq> []" "length bs \<le> 64"
  shows "\<exists>s'. usb_run (USBD_CDC rx) [Tx_fifo_empty 1 sp, In_xfrc 1] s = Inr s' \<and> port_ready s' \<and> port_free s'
     \<and> app s' = app s \<and> DFIFO (Instance (hpcd s')) 1 = old @ [bs]"
proof -
  obtain h where h: "pClassData (pdev s) = Some h" "RxBuffer h = Some (UserRxBufferFS, 0)"
    and conf: "dev_state (pdev s) = USBD_STATE_CONFIGURED"
    using s(1) by (auto simp: port_ready_def)
  obtain h1 where h1: "usb_run (USBD_CDC rx) (map (Tx_fifo_empty 1) [sp]) s = Inr (s\<lparr>hpcd := h1\<rparr>)"
      "usb_sending 1 obj bs 64 old (length bs) (s\<lparr>hpcd := h1\<rparr>)" "tx_like 1 (hpcd s) h1"
    using tx_events [of 64 bs 1 obj old 0 s "[sp]" "USBD_CDC rx"] s(2) sp bs by auto
  let ?s1 = "s\<lparr>hpcd := h1\<rparr>"
  have "chunks 64 bs = [bs]" using bs by (simp add: chunks_step)
  then have sent: "DFIFO (Instance h1) 1 = old @ [bs]"
    using h1(2) sending_done [of obj bs 64 1 old] by (auto simp: usb_sending_def)
  have wf1: "usb_wf ?s1" using h1(2) by (simp add: usb_sending_def)
  have "dev_state (pdev ?s1) = USBD_STATE_CONFIGURED" "pClassData (pdev ?s1) = Some h" using conf h by simp_all
  from in_xfrc_frees [OF wf1 this, of rx] obtain h2 where
    h2: "irq_event (USBD_CDC rx) (In_xfrc 1) ?s1 = Inr ((set_hcdc (h\<lparr>TxState := 0\<rparr>) ?s1)\<lparr>hpcd := h2\<rparr>)"
      "DFIFO (Instance h2) = DFIFO (Instance h1)" "IN_ep h2 = IN_ep h1" "OUT_ep h2 = OUT_ep h1" "pcd_like h1 h2" by auto
  define s2 where "s2 = (set_hcdc (h\<lparr>TxState := 0\<rparr>) ?s1)\<lparr>hpcd := h2\<rparr>"
  have "usb_run (USBD_CDC rx) [Tx_fifo_empty 1 sp, In_xfrc 1] s = Inr s2"
    using h1(1) h2(1) by (simp add: s2_def outcome_simps del: irq_event.simps)
  moreover have "usb_wf s2"
    unfolding s2_def by (rule wf_hpcd [OF wf_hcdc [OF wf1]]) (use h2(5) in \<open>simp add: set_hcdc_def set_pdev_def\<close>)
  then have "port_ready s2" "port_free s2"
    using s(1) h(2) h1(3) h2(3,4)
    by (simp_all add: port_ready_def port_free_def s2_def set_hcdc_def set_pdev_def tx_like_def)
  moreover have "app s2 = app s" "DFIFO (Instance (hpcd s2)) 1 = old @ [bs]"
    using sent h2(2) by (simp_all add: s2_def set_hcdc_def set_pdev_def)
  ultimately show ?thesis by blast
qed

text \<open>C6: what the host sends reaches the application. On a port that is ready, a packet of up to 64
  bytes, read from the FIFO in whole words, is handed to the application's callback with its length,
  from a buffer that starts with its bytes; by then the port is ready for the next packet, and neither
  the device's state nor what is being transmitted has changed.\<close>

theorem cdc_packet_received:
  assumes "port_ready s" "length bs \<le> 64" "bs \<noteq> []" "word_filler bs pad"
  shows "\<exists>s1. usb_run (USBD_CDC rx) (out_events bs pad) s
          = drop_status (rx (Some (UserRxBufferFS, 0)) (of_nat (length bs)) s1)
     \<and> usb_read s1 (Some (UserRxBufferFS, 0)) (length bs) = Inr bs \<and> port_ready s1 \<and> port_free s1 = port_free s
     \<and> app s1 = app s \<and> dev_view s1 = dev_view s \<and> DFIFO (Instance (hpcd s1)) = DFIFO (Instance (hpcd s))"
  using packet_arrives [OF assms, of rx] by blast

lemma cdc_packet_received_witness:
  "\<exists>s s1. usb_reach echo_rx (s :: unit usbd)
     \<and> usb_run (USBD_CDC echo_rx) (out_events [1, 2, 3, 4, 5] [0, 0, 0]) s = drop_status (echo_rx (Some (UserRxBufferFS, 0)) 5 s1)
     \<and> usb_read s1 (Some (UserRxBufferFS, 0)) 5 = Inr [1, 2, 3, 4, 5]"
proof -
  obtain s where s: "usb_reach echo_rx (s :: unit usbd)" "port_ready s"
    using example_configured by (auto simp: port_ready_def split: option.splits)
  let ?bs = "[1, 2, 3, 4, 5] :: bytes"
  have five: "length ?bs = 5" and pad: "word_filler ?bs [0, 0, 0]" by (simp_all add: word_filler_def)
  obtain s1 where "usb_run (USBD_CDC echo_rx) (out_events ?bs [0, 0, 0]) s
        = drop_status (echo_rx (Some (UserRxBufferFS, 0)) (of_nat (length ?bs)) s1)"
      "usb_read s1 (Some (UserRxBufferFS, 0)) (length ?bs) = Inr ?bs"
    using cdc_packet_received [OF s(2) _ _ pad, of echo_rx] by auto
  then show ?thesis using s(1) unfolding five of_nat_numeral by blast
qed

end
