(* ===== verification/UsbBoard.thy ===== *)
theory UsbBoard
  imports TstProtocomm UsbRx
begin

text \<open>
  The whole board: the protocol slave of \<open>tst_protocomm.c\<close> on top of the USB stack. Its receive callback
  is the application of the CDC class, and its replies go through \<open>CDC_Transmit_FS\<close>.
\<close>

section \<open>The protocol slave as an application of the stack\<close>

text \<open>The state of the stack with another application state.\<close>

definition usb_with :: "'b \<Rightarrow> 'a usbd \<Rightarrow> 'b usbd" where
  "usb_with a s = \<lparr>pdev = pdev s, hpcd = hpcd s, mem = mem s, cdc_malloc = cdc_malloc s, tLineCoding = tLineCoding s, app = a\<rparr>"

type_synonym board_usb = "unit tst_state usbd"

definition board_of :: "board_usb \<Rightarrow> unit usbd tst_state" where
  "board_of s = \<lparr>stm32_user = stm32_user (app s), stm32_usb = usb_with () s, myTable = myTable (app s),
     protoSlave = protoSlave (app s)\<rparr>"

definition board_into :: "unit usbd tst_state \<Rightarrow> board_usb" where
  "board_into t = usb_with \<lparr>stm32_user = stm32_user t, stm32_usb = (), myTable = myTable t, protoSlave = protoSlave t\<rparr>
     (stm32_usb t)"

text \<open>\<open>_CDC_Receive_FS_user\<close>, with the bytes behind its pointer.\<close>

definition proto_rx :: "unit tst_state cdc_rx" where
  "proto_rx Buf Len s =
     obind (usb_read s Buf (unat Len)) (\<lambda>bs.
     obind (CDC_Receive_FS_user bs Len (app s)) (\<lambda>(r, a). Inr (r, s\<lparr>app := a\<rparr>)))"

text \<open>
  The \<open>CDC_Transmit_FS\<close> that the device of the board calls. It keeps the pointer to the frame; here the
  frame's bytes stand for it, since neither a host that waits for its reply nor bytes without a start of frame let the
  slave change them.
\<close>

fun status_code :: "usbd_status \<Rightarrow> u8" where
  "status_code USBD_OK_st = 0" | "status_code USBD_BUSY_st = 1" | "status_code USBD_FAIL_st = 2"

definition usb_transmit :: "unit usbd transmit_fs" where
  "usb_transmit bs u =
     obind (CDC_Transmit_FS (Some (App_buffer bs, 0)) (of_nat (length bs)) u) (\<lambda>(st, u'). Inr (status_code st, u'))"

datatype usb_board_event = Irq pcd_event | Loop

fun usb_board_step :: "usb_board_event \<Rightarrow> board_usb \<Rightarrow> board_usb outcome" where
  "usb_board_step (Irq e) s = irq_event (USBD_CDC proto_rx) e s"
| "usb_board_step Loop s = obind (tst_loop_main (board_bind usb_transmit) (board_of s)) (\<lambda>t. Inr (board_into t))"

lemma usb_with_simps [simp]:
  "pdev (usb_with a s) = pdev s" "hpcd (usb_with a s) = hpcd s" "mem (usb_with a s) = mem s"
  "tLineCoding (usb_with a s) = tLineCoding s" "app (usb_with a s) = a" "usb_with a (usb_with b s) = usb_with a s"
  "usb_with (app s) s = s"
  by (simp_all add: usb_with_def)

lemma wf_with [simp]: "usb_wf (usb_with a s) = usb_wf s"
  by (simp add: usb_wf_def)

lemma port_with [simp]: "port_ready (usb_with a s) = port_ready s" "port_free (usb_with a s) = port_free s"
  by (simp_all add: port_ready_def port_free_def)

lemma load_with: "usb_load (usb_with a s) obj = usb_load s obj"
  by (cases obj) (simp_all add: usb_load_def split: option.splits)

lemma sending_with [simp]: "usb_sending k obj data m old c (usb_with a s) = usb_sending k obj data m old c s"
  by (simp add: usb_sending_def load_with)

lemma board_of_into [simp]: "board_of (board_into t) = t"
  by (simp add: board_of_def board_into_def usb_with_def)

lemma board_into_of [simp]: "board_into (board_of s) = s"
  by (simp add: board_of_def board_into_def usb_with_def)

lemma port_into [simp]: "port_ready (board_into t) = port_ready (stm32_usb t)" "port_free (board_into t) = port_free (stm32_usb t)"
  "hpcd (board_into t) = hpcd (stm32_usb t)" "myTable (app (board_into t)) = myTable t"
  by (simp_all add: board_into_def)

lemma board_of_simps [simp]: "stm32_usb (board_of s) = usb_with () s" "myTable (board_of s) = myTable (app s)"
  "stm32_user (board_of s) = stm32_user (app s)" "protoSlave (board_of s) = protoSlave (app s)"
  by (simp_all add: board_of_def)

text \<open>The protocol slave touches its own state only, so every theorem about the stack's applications holds of it.\<close>

interpretation board: cdc_application proto_rx
proof
  fix p n and s :: board_usb
  show "post (proto_rx p n s) (\<lambda>(_, s'). dev_same s s')"
    by (auto simp: proto_rx_def post_def outcome_simps CDC_Receive_FS_user_def dev_same_def usb_wf_def dev_view_def split: sum.splits prod.splits)
qed

lemma board_keeps: "keeps_device proto_rx"
  by (simp add: keeps_application board.cdc_application_axioms)

lemma ofold_Irq: "ofold usb_board_step (map Irq es) s = usb_run (USBD_CDC proto_rx) es s"
  proof (induction es arbitrary: s)
  case (Cons e es)
  then show ?case by (cases "irq_event (USBD_CDC proto_rx) e s") (simp_all del: irq_event.simps)
qed simp

section \<open>A packet\<close>

lemma proto_rx_run:
  assumes "usb_read s Buf (length c) = Inr c" "length c < 2 ^ 32"
    and "board_step b (Usb_packet c) t = Inr (t\<lparr>stm32_user := q\<rparr>)" "stm32_user t = stm32_user (app s)"
  shows "drop_status (proto_rx Buf (of_nat (length c)) s) = Inr (s\<lparr>app := (app s)\<lparr>stm32_user := q\<rparr>\<rparr>)"
proof -
  have len: "unat (of_nat (length c) :: u32) = length c" using assms(2) by (simp add: unat_of_nat)
  have "CDC_Receive_FS_user c (of_nat (length c)) (app s) = Inr (0, (app s)\<lparr>stm32_user := q\<rparr>)"
    using assms(3,4) by (auto simp: CDC_Receive_FS_user_def devstm32_pushBytes_def outcome_simps dest!: arg_cong [where f = stm32_user])
  then show ?thesis using assms(1) by (simp add: proto_rx_def len drop_status_def)
qed

text \<open>Nothing but the device's ring and the port's buffer changes when a packet arrives.\<close>

lemma usb_packet:
  assumes s: "port_ready s" "fifo_inv (stm32_user (app s))" and c: "length c \<le> 64" "c \<noteq> []" and pad: "word_filler c pad"
  shows "\<exists>s2 u. usb_run (USBD_CDC proto_rx) (out_events c pad) s = Inr s2 \<and> port_ready s2 \<and> port_free s2 = port_free s
     \<and> DFIFO (Instance (hpcd s2)) = DFIFO (Instance (hpcd s)) \<and> u = usb_with () s2
     \<and> board_step b (Usb_packet c) ((board_of s)\<lparr>stm32_usb := u\<rparr>) = Inr (board_of s2)"
proof -
  from packet_arrives [OF s(1) c pad, of proto_rx] obtain s1 where
    s1: "usb_run (USBD_CDC proto_rx) (out_events c pad) s = drop_status (proto_rx (Some (UserRxBufferFS, 0)) (of_nat (length c)) s1)"
      "usb_read s1 (Some (UserRxBufferFS, 0)) (length c) = Inr c" "port_ready s1" "port_free s1 = port_free s" "app s1 = app s"
      "DFIFO (Instance (hpcd s1)) = DFIFO (Instance (hpcd s))" by blast
  let ?t = "(board_of s)\<lparr>stm32_usb := usb_with () s1\<rparr>"
  obtain q where q: "board_step b (Usb_packet c) ?t = Inr (?t\<lparr>stm32_user := q\<rparr>)"
    using packet_received [of ?t c b] s(2) c(1) by auto
  define s2 where "s2 = s1\<lparr>app := (app s1)\<lparr>stm32_user := q\<rparr>\<rparr>"
  have s2: "s2 = usb_with ((app s1)\<lparr>stm32_user := q\<rparr>) s1" by (simp add: s2_def usb_with_def)
  have "drop_status (proto_rx (Some (UserRxBufferFS, 0)) (of_nat (length c)) s1) = Inr s2"
    unfolding s2_def using c(1) by (intro proto_rx_run [OF s1(2) _ q]) (simp_all add: s1(5))
  moreover have "?t\<lparr>stm32_user := q\<rparr> = board_of s2"
    using s1(5) by (simp add: board_of_def s2)
  moreover have "usb_with () s2 = usb_with () s1" by (simp add: s2)
  ultimately show ?thesis using s1 q by (auto simp: s2)
qed

text \<open>A packet and an iteration of the main loop.\<close>

lemma usb_packet_loop:
  assumes s: "port_ready s" "board_holds p (board_of s)" and c: "length c \<le> 5" "c \<noteq> []" and pad: "word_filler c pad"
    and run: "\<And>u. port_ready u \<Longrightarrow> port_free u = port_free s \<Longrightarrow>
      \<exists>t. ofold (board_step (board_bind usb_transmit)) [Usb_packet c, Main_loop] ((board_of s)\<lparr>stm32_usb := u\<rparr>) = Inr t \<and> P u t"
  shows "\<exists>u t. ofold usb_board_step (map Irq (out_events c pad) @ [Loop]) s = Inr (board_into t)
     \<and> port_ready u \<and> port_free u = port_free s \<and> DFIFO (Instance (hpcd u)) = DFIFO (Instance (hpcd s)) \<and> P u t"
proof -
  have "fifo_inv (stm32_user (app s))" using s(2) by (simp add: board_holds_def board_inv_def)
  moreover have "length c \<le> 64" using c(1) by simp
  ultimately obtain s2 where
    s2: "usb_run (USBD_CDC proto_rx) (out_events c pad) s = Inr s2" "port_ready s2" "port_free s2 = port_free s"
      "DFIFO (Instance (hpcd s2)) = DFIFO (Instance (hpcd s))"
      "board_step (board_bind usb_transmit) (Usb_packet c) ((board_of s)\<lparr>stm32_usb := usb_with () s2\<rparr>) = Inr (board_of s2)"
    using usb_packet [OF s(1) _ _ c(2) pad, of "board_bind usb_transmit"] by blast
  obtain t where t: "ofold (board_step (board_bind usb_transmit)) [Usb_packet c, Main_loop]
      ((board_of s)\<lparr>stm32_usb := usb_with () s2\<rparr>) = Inr t" "P (usb_with () s2) t"
    using run [of "usb_with () s2"] s2(2,3) by auto
  then have "tst_loop_main (board_bind usb_transmit) (board_of s2) = Inr t"
    using s2(5) by (simp add: obind_Inr_iff del: board_step.simps(1))
  then have "ofold usb_board_step (map Irq (out_events c pad) @ [Loop]) s = Inr (board_into t)"
    by (simp add: ofold_append ofold_Irq s2(1))
  then show ?thesis using t(2) s2 by (intro exI [of _ "usb_with () s2"] exI [of _ t]) simp
qed

lemma usb_idle:
  assumes "board_holds p (board_of s)"
  shows "ofold usb_board_step (replicate k Loop) s = Inr s"
proof -
  have "usb_board_step Loop s = Inr s"
    using board_idle_loop [OF assms, of usb_transmit] by simp
  then show ?thesis by (induction k) simp_all
qed

section \<open>A request\<close>

text \<open>What the host sends of a request: packets with what fills their last words, and the iterations after each.\<close>

fun host_sends :: "(bytes \<times> bytes \<times> nat) list \<Rightarrow> usb_board_event list" where
  "host_sends [] = []"
| "host_sends ((c, pad, k) # cs) = map Irq (out_events c pad) @ replicate (Suc k) Loop @ host_sends cs"

definition idle_port :: "board_usb \<Rightarrow> bool" where
  "idle_port s \<longleftrightarrow> port_ready s \<and> port_free s"

definition reply_pending :: "bytes list \<Rightarrow> bytes \<Rightarrow> 'a usbd \<Rightarrow> bool" where
  "reply_pending old w s \<longleftrightarrow> port_ready s \<and> usb_sending 1 (App_buffer w) w 64 old 0 s"

lemma usb_piece:
  assumes s: "idle_port s" "board_holds p (board_of s)" and w: "wire w"
    and pc: "p @ c = take (length p + length c) w" "c \<noteq> []" "length p + length c < length w" and pad: "word_filler c pad"
  shows "\<exists>s'. ofold usb_board_step (map Irq (out_events c pad) @ [Loop]) s = Inr s' \<and> idle_port s'
     \<and> board_holds (p @ c) (board_of s') \<and> myTable (app s') = myTable (app s)
     \<and> DFIFO (Instance (hpcd s')) = DFIFO (Instance (hpcd s))"
proof -
  have "length c \<le> 5" using pc(3) wire_length [OF w] by simp
  moreover have "\<exists>t. ofold (board_step (board_bind usb_transmit)) [Usb_packet c, Main_loop] ((board_of s)\<lparr>stm32_usb := u\<rparr>) = Inr t
      \<and> board_holds (p @ c) t \<and> myTable t = myTable (app s) \<and> stm32_usb t = u" for u
    using board_piece [of p "(board_of s)\<lparr>stm32_usb := u\<rparr>" w c usb_transmit] s(2) w pc
    by (auto simp: board_holds_def board_inv_def)
  ultimately show ?thesis
    using usb_packet_loop [OF _ s(2) _ pc(2) pad,
      of "\<lambda>u t. board_holds (p @ c) t \<and> myTable t = myTable (app s) \<and> stm32_usb t = u"] s(1)
    by (auto simp: idle_port_def)
qed

text \<open>The transmission of a reply starts, whatever its bytes are.\<close>

lemma transmit_pending:
  assumes "port_ready u" "port_free u"
  shows "\<exists>u'. usb_transmit bs u = Inr (USBD_OK, u')
     \<and> (length bs < 65536 \<longrightarrow> reply_pending (DFIFO (Instance (hpcd u)) 1) bs u')"
proof -
  have load: "usb_load u (App_buffer bs) = Inr bs" "unat (of_nat (length bs) :: u16) \<le> length bs"
    by (simp_all add: usb_load_def unat_of_nat)
  from port_transmits [OF assms load] show ?thesis
    by (auto simp: usb_transmit_def reply_pending_def unat_of_nat_u16)
qed

lemma usb_last:
  assumes s: "idle_port s" "board_holds p (board_of s)" and cmd: "cmd \<in> {proto_CMD_SET, proto_CMD_GET}"
    and last: "p @ c = frame_sent f0 cmd args" "c \<noteq> []" and pad: "word_filler c pad"
    and srv: "reg_serve cmd args (myTable (app s)) = (accepted, out, r')"
  shows "\<exists>s' f1 out' w. ofold usb_board_step (map Irq (out_events c pad) @ [Loop]) s = Inr s'
     \<and> board_holds [] (board_of s') \<and> myTable (app s') = r'
     \<and> w = frame_sent f1 (if accepted then proto_CMD_REPLY else proto_CMD_ERR_ARG) out' \<and> raw0 out' = raw0 out
     \<and> reply_pending (DFIFO (Instance (hpcd s)) 1) w s'"
proof -
  have "length (p @ c) \<le> 5"
    unfolding last(1) using wire_length [OF wire_frame_sent [OF reg_cmd_ucast [OF cmd]]] by blast
  then have c5: "length c \<le> 5" by simp
  define Q :: "unit usbd \<Rightarrow> unit usbd tst_state \<Rightarrow> bool" where "Q u t \<longleftrightarrow> board_holds [] t \<and> myTable t = r' \<and> (\<exists>f1 out' w.
      w = frame_sent f1 (if accepted then proto_CMD_REPLY else proto_CMD_ERR_ARG) out' \<and> raw0 out' = raw0 out
      \<and> reply_pending (DFIFO (Instance (hpcd u)) 1) w (stm32_usb t))" for u t
  have run: "\<exists>t. ofold (board_step (board_bind usb_transmit)) [Usb_packet c, Main_loop] ((board_of s)\<lparr>stm32_usb := u\<rparr>) = Inr t \<and> Q u t"
    if u: "port_ready u" "port_free u = port_free s" for u
  proof -
    have free: "port_free u" using u s(1) by (simp add: idle_port_def)
    define tx where "tx bs v = (case usb_transmit bs v of Inr r \<Rightarrow> snd r | Inl e \<Rightarrow> v)" for bs v
    have tr: "usb_transmit bs u = Inr (USBD_OK, tx bs u)" for bs
      using transmit_pending [OF u(1) free, of bs] by (auto simp: tx_def)
    have pending: "reply_pending (DFIFO (Instance (hpcd u)) 1) bs (tx bs u)" if "length bs < 65536" for bs
      using transmit_pending [OF u(1) free, of bs] that by (auto simp: tx_def)
    let ?t = "(board_of s)\<lparr>stm32_usb := u\<rparr>"
    have holds: "board_holds p ?t" using s(2) by (simp add: board_holds_def board_inv_def)
    have "usb_transmit bs (stm32_usb ?t) = Inr (USBD_OK, tx bs (stm32_usb ?t))" for bs using tr by simp
    from board_last [where transmit = usb_transmit and tx = tx, OF holds cmd last this, of accepted out r'] srv
    obtain t f1 out' where t: "ofold (board_step (board_bind usb_transmit)) [Usb_packet c, Main_loop] ?t = Inr t"
      "board_holds [] t" "myTable t = r'" "raw0 out' = raw0 out"
      "stm32_usb t = tx (frame_sent f1 (if accepted then proto_CMD_REPLY else proto_CMD_ERR_ARG) out') u"
      by auto
    let ?w = "frame_sent f1 (if accepted then proto_CMD_REPLY else proto_CMD_ERR_ARG) out'"
    have "wire ?w" by (rule wire_frame_sent) simp
    then have "length ?w \<le> 5" using wire_length by blast
    then have "reply_pending (DFIFO (Instance (hpcd u)) 1) ?w (stm32_usb t)" using pending [of ?w] t(5) by simp
    then show ?thesis unfolding Q_def using t by blast
  qed
  have ready: "port_ready s" using s(1) by (simp add: idle_port_def)
  have "\<exists>u t. ofold usb_board_step (map Irq (out_events c pad) @ [Loop]) s = Inr (board_into t)
     \<and> port_ready u \<and> port_free u = port_free s \<and> DFIFO (Instance (hpcd u)) = DFIFO (Instance (hpcd s)) \<and> Q u t"
    by (rule usb_packet_loop [where P = Q, OF ready s(2) c5 last(2) pad]) (rule run)
  then obtain u t where
    "ofold usb_board_step (map Irq (out_events c pad) @ [Loop]) s = Inr (board_into t)"
    "DFIFO (Instance (hpcd u)) = DFIFO (Instance (hpcd s))" "Q u t" by blast
  moreover have "reply_pending old w (board_into t) = reply_pending old w (stm32_usb t)" for old w
    by (simp add: reply_pending_def board_into_def)
  ultimately show ?thesis unfolding Q_def by (intro exI [of _ "board_into t"]) auto
qed

text \<open>The host reads the reply.\<close>

definition host_reads :: "(nat \<Rightarrow> u32) \<Rightarrow> usb_board_event list" where
  "host_reads space = map Irq [Tx_fifo_empty 1 space, In_xfrc 1]"

lemma usb_reply:
  assumes "reply_pending old w s" "room 64 space" "w \<noteq> []" "length w \<le> 64"
  shows "\<exists>s'. ofold usb_board_step (host_reads space) s = Inr s' \<and> idle_port s' \<and> app s' = app s
     \<and> DFIFO (Instance (hpcd s')) 1 = old @ [w]"
  using port_sends [of s "App_buffer w" w old space proto_rx] assms
  by (auto simp: host_reads_def reply_pending_def idle_port_def ofold_Irq simp del: list.map)

lemma host_sends_step:
  assumes "ofold usb_board_step (map Irq (out_events c pad) @ [Loop]) s = Inr s1" "board_holds p (board_of s1)"
  shows "ofold usb_board_step (host_sends ((c, pad, k) # cs)) s = ofold usb_board_step (host_sends cs) s1"
proof -
  have "host_sends ((c, pad, k) # cs) = (map Irq (out_events c pad) @ [Loop]) @ replicate k Loop @ host_sends cs" by simp
  then have "ofold usb_board_step (host_sends ((c, pad, k) # cs)) s
    = obind (ofold usb_board_step (map Irq (out_events c pad) @ [Loop]) s) (ofold usb_board_step (replicate k Loop @ host_sends cs))"
    by (simp only: ofold_append [of _ "map Irq (out_events c pad) @ [Loop]"])
  also have "\<dots> = ofold usb_board_step (replicate k Loop @ host_sends cs) s1" by (simp only: assms(1) obind.simps)
  also have "\<dots> = ofold usb_board_step (host_sends cs) s1" by (simp add: ofold_append usb_idle [OF assms(2)])
  finally show ?thesis .
qed

lemma usb_request:
  assumes cmd: "cmd \<in> {proto_CMD_SET, proto_CMD_GET}"
  shows "\<lbrakk>idle_port s; board_holds p (board_of s); \<forall>(c, pad, k) \<in> set cs. c \<noteq> [] \<and> word_filler c pad; cs \<noteq> [];
     p @ concat (map fst cs) = frame_sent f0 cmd args; reg_serve cmd args (myTable (app s)) = (accepted, out, r')\<rbrakk> \<Longrightarrow>
     \<exists>s' f1 out' w. ofold usb_board_step (host_sends cs) s = Inr s'
     \<and> board_holds [] (board_of s') \<and> myTable (app s') = r'
     \<and> w = frame_sent f1 (if accepted then proto_CMD_REPLY else proto_CMD_ERR_ARG) out' \<and> raw0 out' = raw0 out
     \<and> reply_pending (DFIFO (Instance (hpcd s)) 1) w s'"
proof (induction cs arbitrary: p s)
  case (Cons x cs)
  obtain c pad k where x: "x = (c, pad, k)" by (cases x)
  have c: "c \<noteq> []" "word_filler c pad" using Cons.prems(3) x by auto
  show ?case
  proof (cases "cs = []")
    case True
    then have "p @ c = frame_sent f0 cmd args" using Cons.prems(5) x by simp
    from usb_last [OF Cons.prems(1,2) cmd this c Cons.prems(6)] obtain s' f1 out' w where
      s': "ofold usb_board_step (map Irq (out_events c pad) @ [Loop]) s = Inr s'" "board_holds [] (board_of s')"
      "myTable (app s') = r'" "w = frame_sent f1 (if accepted then proto_CMD_REPLY else proto_CMD_ERR_ARG) out'"
      "raw0 out' = raw0 out" "reply_pending (DFIFO (Instance (hpcd s)) 1) w s'" by blast
    have "ofold usb_board_step (host_sends (x # cs)) s = Inr s'"
      using host_sends_step [OF s'(1,2), of k "[]"] True x by simp
    then show ?thesis using s' by blast
  next
    case False
    have w: "wire (frame_sent f0 cmd args)" by (rule wire_frame_sent [OF reg_cmd_ucast [OF cmd]])
    have eq: "frame_sent f0 cmd args = (p @ c) @ concat (map fst cs)" using Cons.prems(5) x by simp
    have pc: "p @ c = take (length p + length c) (frame_sent f0 cmd args)" unfolding eq by simp
    have "concat (map fst cs) \<noteq> []" using False Cons.prems(3) by (cases cs) auto
    then have "length p + length c < length (frame_sent f0 cmd args)" unfolding eq by simp
    from usb_piece [OF Cons.prems(1,2) w pc c(1) this c(2)] obtain s1 where
      s1: "ofold usb_board_step (map Irq (out_events c pad) @ [Loop]) s = Inr s1" "idle_port s1"
      "board_holds (p @ c) (board_of s1)" "myTable (app s1) = myTable (app s)"
      "DFIFO (Instance (hpcd s1)) = DFIFO (Instance (hpcd s))" by blast
    have cs: "\<forall>(c, pad, k) \<in> set cs. c \<noteq> [] \<and> word_filler c pad" using Cons.prems(3) by simp
    have "reg_serve cmd args (myTable (app s1)) = (accepted, out, r')" using Cons.prems(6) s1(4) by simp
    from Cons.IH [OF s1(2,3) cs False eq [symmetric] this] show ?thesis
      unfolding s1(5) x host_sends_step [OF s1(1,3)] .
  qed
qed simp

section \<open>The register service over USB\<close>

text \<open>One exchange: the host sends a request, waits while the main loop goes round, and reads the reply.\<close>

fun exchange :: "reg_op \<times> (bytes \<times> bytes \<times> nat) list \<times> (nat \<Rightarrow> u32) \<Rightarrow> usb_board_event list" where
  "exchange (x, cs, space) = host_sends cs @ host_reads space"

fun fair_exchange :: "reg_op \<times> (bytes \<times> bytes \<times> nat) list \<times> (nat \<Rightarrow> u32) \<Rightarrow> bool" where
  "fair_exchange (x, cs, space) \<longleftrightarrow> concat (map fst cs) = request_bytes x \<and> room 64 space
     \<and> list_all (\<lambda>(c, pad, k). c \<noteq> [] \<and> word_filler c pad) cs"

lemma usb_exchange:
  assumes s: "idle_port s" "board_holds [] (board_of s)" and fair: "fair_exchange (x, cs, space)"
  shows "\<exists>s' w. ofold usb_board_step (exchange (x, cs, space)) s = Inr s' \<and> idle_port s' \<and> board_holds [] (board_of s')
     \<and> answers w (fst (spec_step (myTable (app s)) x)) \<and> myTable (app s') = snd (spec_step (myTable (app s)) x)
     \<and> DFIFO (Instance (hpcd s')) 1 = DFIFO (Instance (hpcd s)) 1 @ [w]"
proof -
  obtain accepted out r' where srv: "reg_serve (op_cmd x) (op_data x) (myTable (app s)) = (accepted, out, r')"
    by (cases "reg_serve (op_cmd x) (op_data x) (myTable (app s))")
  have cs: "\<forall>(c, pad, k) \<in> set cs. c \<noteq> [] \<and> word_filler c pad"
      "[] @ concat (map fst cs) = frame_sent (priv_frame proto_init) (op_cmd x) (op_data x)"
    using fair by (auto simp: request_bytes_def list_all_iff)
  have "cs \<noteq> []"
    using cs(2) wire_hd [OF wire_frame_sent [OF reg_cmd_ucast [OF op_cmd_cases]], of "priv_frame proto_init" x "op_data x"]
    by auto
  from usb_request [OF op_cmd_cases s cs(1) this cs(2) srv] obtain s1 f1 out' w where
    s1: "ofold usb_board_step (host_sends cs) s = Inr s1" "board_holds [] (board_of s1)" "myTable (app s1) = r'"
      "w = frame_sent f1 (if accepted then proto_CMD_REPLY else proto_CMD_ERR_ARG) out'" "raw0 out' = raw0 out"
      "reply_pending (DFIFO (Instance (hpcd s)) 1) w s1" by blast
  have "wire w" unfolding s1(4) by (rule wire_frame_sent) simp
  then have w: "w \<noteq> []" "length w \<le> 64" using wire_length [of w] by auto
  have "room 64 space" using fair by simp
  from usb_reply [OF s1(6) this w] obtain s2 where
    s2: "ofold usb_board_step (host_reads space) s1 = Inr s2" "idle_port s2" "app s2 = app s1"
      "DFIFO (Instance (hpcd s2)) 1 = DFIFO (Instance (hpcd s)) 1 @ [w]" by blast
  have "board_holds [] (board_of s2)"
    using s1(2) s2(3) by (simp add: board_holds_def board_inv_def)
  moreover have "answers w (fst (spec_step (myTable (app s)) x))"
    unfolding answers_def reg_serve_spec_step [OF srv] s1(4)
    by (intro exI [of _ f1] exI [of _ out']) (simp add: s1(5))
  moreover have "myTable (app s2) = snd (spec_step (myTable (app s)) x)"
    using s1(3) s2(3) by (simp add: reg_serve_spec_step [OF srv])
  ultimately show ?thesis using s1(1) s2 by (auto simp: ofold_append)
qed

lemma usb_exchanges:
  "\<lbrakk>idle_port s; board_holds [] (board_of s); list_all fair_exchange reqs\<rbrakk> \<Longrightarrow>
     \<exists>s' ws. ofold usb_board_step (concat (map exchange reqs)) s = Inr s'
       \<and> list_all2 answers ws (fst (spec_run (myTable (app s)) (map fst reqs)))
       \<and> DFIFO (Instance (hpcd s')) 1 = DFIFO (Instance (hpcd s)) 1 @ ws
       \<and> myTable (app s') = snd (spec_run (myTable (app s)) (map fst reqs))"
proof (induction reqs arbitrary: s)
  case Nil
  then show ?case by (intro exI [of _ s] exI [of _ "[]"]) simp
next
  case (Cons r reqs)
  obtain x cs space where r: "r = (x, cs, space)" by (cases r)
  have fair: "fair_exchange (x, cs, space)" "list_all fair_exchange reqs" using Cons.prems(3) r by auto
  from usb_exchange [OF Cons.prems(1,2) fair(1)] obtain s1 w where
    s1: "ofold usb_board_step (exchange (x, cs, space)) s = Inr s1" "idle_port s1" "board_holds [] (board_of s1)"
      "answers w (fst (spec_step (myTable (app s)) x))" "myTable (app s1) = snd (spec_step (myTable (app s)) x)"
      "DFIFO (Instance (hpcd s1)) 1 = DFIFO (Instance (hpcd s)) 1 @ [w]" by blast
  from Cons.IH [OF s1(2,3) fair(2)] obtain s' ws where
    s': "ofold usb_board_step (concat (map exchange reqs)) s1 = Inr s'"
      "list_all2 answers ws (fst (spec_run (myTable (app s1)) (map fst reqs)))"
      "DFIFO (Instance (hpcd s')) 1 = DFIFO (Instance (hpcd s1)) 1 @ ws"
      "myTable (app s') = snd (spec_run (myTable (app s1)) (map fst reqs))" by blast
  have run: "spec_run (myTable (app s)) (map fst (r # reqs))
      = (fst (spec_step (myTable (app s)) x) # fst (spec_run (myTable (app s1)) (map fst reqs)),
         snd (spec_run (myTable (app s1)) (map fst reqs)))"
    using s1(5) r by (simp split: prod.split)
  show ?case
    using s1(1,4,6) s' unfolding run
    by (intro exI [of _ s'] exI [of _ "w # ws"]) (simp add: r ofold_append del: exchange.simps)
qed

text \<open>C2: the register service works from the USB pins up. On the configured board that runs the
  protocol slave over the whole stack, a host that sends each request in any packets, lets the main
  loop go round after each and reads the reply before it sends the next request, finds in the transmit
  FIFO one packet per request, with the status and the value of the abstract register service, in order,
  and the registers end as that service leaves them.\<close>

theorem usb_board_serves_registers:
  assumes "tst_init True True True usb_transmit (usb_with () s0) = Inr (b, t)" "s = board_into t"
    and "port_ready s0" "port_free s0" and "list_all fair_exchange reqs"
  shows "\<exists>s' ws. ofold usb_board_step (concat (map exchange reqs)) s = Inr s'
       \<and> list_all2 answers ws (fst (spec_run (replicate 5 0) (map fst reqs)))
       \<and> DFIFO (Instance (hpcd s')) 1 = DFIFO (Instance (hpcd s0)) 1 @ ws
       \<and> myTable (app s') = snd (spec_run (replicate 5 0) (map fst reqs))"
proof -
  have i: "b = board_bind usb_transmit" "board_holds [] t" "myTable t = replicate 5 0" "stm32_usb t = usb_with () s0"
    using tst_init_ok [OF assms(1)] by (simp_all add: board_holds_def board_safe_def received_Nil)
  have "idle_port s" using assms(2-4) i(4) by (simp add: idle_port_def)
  moreover have "board_holds [] (board_of s)" using i(2) assms(2) by simp
  ultimately show ?thesis
    using usb_exchanges [of s reqs] assms(2,5) i(3,4) by simp
qed

text \<open>The configured device, before the protocol slave starts.\<close>

lemma port_example: "\<exists>s. port_ready (s :: unit usbd) \<and> port_free s"
  using example_configured by (auto simp: port_ready_def port_free_def split: option.splits)

lemma room_example: "room 64 (\<lambda>_. 128)"
  by (simp add: room_def)

lemma usb_board_serves_registers_witness:
  "\<exists>b t (s0 :: unit usbd) s' ws. tst_init True True True usb_transmit (usb_with () s0) = Inr (b, t)
     \<and> ofold usb_board_step (concat (map exchange
          [(Reg_set 3 7, [(request_bytes (Reg_set 3 7), [0, 0, 0], 0)], \<lambda>_. 128),
           (Reg_get 3, [(request_bytes (Reg_get 3), [], 2)], \<lambda>_. 128)])) (board_into t) = Inr s'
     \<and> list_all2 answers ws [(proto_NO_ERROR, None), (proto_NO_ERROR, Some 7)]
     \<and> DFIFO (Instance (hpcd s')) 1 = DFIFO (Instance (hpcd s0)) 1 @ ws \<and> myTable (app s') = [0, 0, 0, 7, 0]"
proof -
  obtain s0 :: "unit usbd" where s0: "port_ready s0" "port_free s0" using port_example by blast
  obtain b t where t: "tst_init True True True usb_transmit (usb_with () s0) = Inr (b, t)"
    by (simp add: tst_init_def devstm32_create_def devstm32_init_def devstm32_open_def proto_slave_create_def
      proto_create_def)
  let ?reqs = "[(Reg_set 3 7, [(request_bytes (Reg_set 3 7), [0, 0, 0], 0)], \<lambda>_. 128),
           (Reg_get 3, [(request_bytes (Reg_get 3), [], 2)], \<lambda>_. 128)] :: (reg_op \<times> (bytes \<times> bytes \<times> nat) list \<times> (nat \<Rightarrow> u32)) list"
  have len: "length (request_bytes (Reg_set 3 7)) = 5" "length (request_bytes (Reg_get 3)) = 4"
    by (simp_all add: request_bytes_def frame_sent_eq length_args_of proto_getArgsSize_def)
  then have "list_all fair_exchange ?reqs" by (auto simp: room_example word_filler_def)
  moreover have "spec_run (replicate 5 0) (map fst ?reqs)
      = ([(proto_NO_ERROR, None), (proto_NO_ERROR, Some 7)], [0, 0, 0, 7, 0])"
    by (simp only: list.map fst_conv) code_simp
  ultimately obtain s' ws where run: "ofold usb_board_step (concat (map exchange ?reqs)) (board_into t) = Inr s'"
      "list_all2 answers ws [(proto_NO_ERROR, None), (proto_NO_ERROR, Some 7)]"
      "DFIFO (Instance (hpcd s')) 1 = DFIFO (Instance (hpcd s0)) 1 @ ws" "myTable (app s') = [0, 0, 0, 7, 0]"
    using usb_board_serves_registers [OF t refl s0, of ?reqs] by (simp only: fst_conv snd_conv) blast
  show ?thesis by (intro exI conjI, rule t) (rule run)+
qed

end
