(* ===== verification/UsbControl.thy ===== *)
theory UsbControl
  imports UsbRx
begin

text \<open>
  A class request with data, both ways: the host sets the line coding of the port and reads it back.
\<close>

section \<open>The control pipe of a configured device\<close>

definition ctl_ready :: "'a usbd \<Rightarrow> bool" where
  "ctl_ready s \<longleftrightarrow> usb_wf s \<and> dev_state (pdev s) = USBD_STATE_CONFIGURED \<and> pClassData (pdev s) \<noteq> None
     \<and> ep_maxpacket (IN_ep (hpcd s) ! 0) = 64 \<and> ep_maxpacket (OUT_ep (hpcd s) ! 0) = 64
     \<and> maxpacket (ep_in (pdev s) ! 0) = 64 \<and> maxpacket (ep_out (pdev s) ! 0) = 64"

text \<open>What a step leaves alone: the line coding and what was sent.\<close>

definition ctl_same :: "'a usbd \<Rightarrow> 'a usbd \<Rightarrow> bool" where
  "ctl_same s s' \<longleftrightarrow> tLineCoding s' = tLineCoding s \<and> DFIFO (Instance (hpcd s')) = DFIFO (Instance (hpcd s))"

definition setup_in :: "bytes \<Rightarrow> pcd_event list" where
  "setup_in q = [received_setup q, Setup_done]"

lemma setup_pop:
  assumes "ctl_ready s" "length q = 8"
  shows "\<exists>s'. irq_event cls (received_setup q) s = Inr s' \<and> ctl_ready s' \<and> ctl_same s s'
     \<and> USBD_ParseSetupRequest (Setup (hpcd s')) = USBD_ParseSetupRequest q \<and> pdev s' = pdev s \<and> mem s' = mem s"
proof -
  have "usb_wf s" using assms(1) by (simp add: ctl_ready_def)
  from setup_received [OF this assms(2), of cls] obtain h' where
    h': "irq_event cls (received_setup q) s = Inr (s\<lparr>hpcd := h'\<rparr>)" "usb_wf (s\<lparr>hpcd := h'\<rparr>)"
      "USBD_ParseSetupRequest (Setup h') = USBD_ParseSetupRequest q" "DFIFO (Instance h') = DFIFO (Instance (hpcd s))"
      "IN_ep h' = IN_ep (hpcd s)" "ep_maxpacket (OUT_ep h' ! 0) = ep_maxpacket (OUT_ep (hpcd s) ! 0)" by blast
  then show ?thesis
    using assms(1) by (intro exI [of _ "s\<lparr>hpcd := h'\<rparr>"]) (simp add: ctl_ready_def ctl_same_def)
qed

lemma ep0_start:
  "ep_is_in ep = 1 \<Longrightarrow> \<exists>r'. USB_EP0StartXfer ep r
      = (ep\<lparr>xfer_len := (if ep_maxpacket ep < xfer_len ep then ep_maxpacket ep else xfer_len ep)\<rparr>, r') \<and> DFIFO r' = DFIFO r"
  "ep_is_in ep = 0 \<Longrightarrow> \<exists>r'. USB_EP0StartXfer ep r
      = (ep\<lparr>xfer_len := (if 0 < xfer_len ep then ep_maxpacket ep else xfer_len ep)\<rparr>, r') \<and> DFIFO r' = DFIFO r"
  by (auto simp: USB_EP0StartXfer_def Let_def)

text \<open>A transfer on endpoint 0 starts whatever the buffer is.\<close>

lemma ctl_transmit:
  assumes "ctl_ready s"
  shows "\<exists>h'. drop_status (USBD_LL_Transmit 0 p n s) = Inr (s\<lparr>hpcd := h'\<rparr>) \<and> ctl_ready (s\<lparr>hpcd := h'\<rparr>)
     \<and> DFIFO (Instance h') = DFIFO (Instance (hpcd s)) \<and> OUT_ep h' = OUT_ep (hpcd s) \<and> Setup h' = Setup (hpcd s)
     \<and> xfer_buff (IN_ep h' ! 0) = p \<and> xfer_count (IN_ep h' ! 0) = 0
     \<and> xfer_len (IN_ep h' ! 0) = (if 64 < n then 64 else ucast n)"
proof -
  have wf: "length (IN_ep (hpcd s)) = 16" "pData (pdev s)" "ep_maxpacket (IN_ep (hpcd s) ! 0) = 64"
    using assms by (auto simp: ctl_ready_def usb_wf_def)
  have cmp: "(64 :: u32) < ucast n \<longleftrightarrow> 64 < n"
    using unat_u16_less [of n] by (simp add: word_less_nat_alt unsigned_ucast_eq take_bit_nat_eq_self)
  define ep where "ep = (IN_ep (hpcd s) ! 0)\<lparr>xfer_buff := p, xfer_len := ucast n, xfer_count := 0, ep_is_in := 1, ep_num := 0\<rparr>"
  define ep' where "ep' = ep\<lparr>xfer_len := (if 64 < n then 64 else ucast n)\<rparr>"
  obtain r' where r': "USB_EP0StartXfer ep (Instance (hpcd s)) = (ep', r')" "DFIFO r' = DFIFO (Instance (hpcd s))"
    using ep0_start(1) [of ep "Instance (hpcd s)"] wf(3) cmp by (auto simp: ep_def ep'_def)
  define h' where "h' = (put_in 0 ep' (hpcd s))\<lparr>Instance := r'\<rparr>"
  have "drop_status (USBD_LL_Transmit 0 p n s) = Inr (s\<lparr>hpcd := h'\<rparr>)"
    using wf r'(1)
    by (simp add: USBD_LL_Transmit_def with_pcd_def HAL_PCD_EP_Transmit_def get_in_def ep_index_def Let_def
        drop_status_def ep_def h'_def)
  moreover have "ctl_ready (s\<lparr>hpcd := h'\<rparr>)"
    using assms wf(1) by (simp add: ctl_ready_def usb_wf_def put_in_def ep_def ep'_def h'_def)
  ultimately show ?thesis
    using wf(1) r'(2) by (intro exI [of _ h']) (simp add: put_in_def ep_def ep'_def h'_def)
qed

lemma ctl_receive:
  assumes "ctl_ready s"
  shows "\<exists>h'. drop_status (USBD_LL_PrepareReceive 0 p n s) = Inr (s\<lparr>hpcd := h'\<rparr>) \<and> ctl_ready (s\<lparr>hpcd := h'\<rparr>)
     \<and> DFIFO (Instance h') = DFIFO (Instance (hpcd s)) \<and> IN_ep h' = IN_ep (hpcd s) \<and> Setup h' = Setup (hpcd s)
     \<and> xfer_buff (OUT_ep h' ! 0) = p \<and> xfer_count (OUT_ep h' ! 0) = 0"
proof -
  have wf: "length (OUT_ep (hpcd s)) = 16" "pData (pdev s)" "ep_maxpacket (OUT_ep (hpcd s) ! 0) = 64"
    using assms by (auto simp: ctl_ready_def usb_wf_def)
  define ep where "ep = (OUT_ep (hpcd s) ! 0)\<lparr>xfer_buff := p, xfer_len := ucast n, xfer_count := 0, ep_is_in := 0, ep_num := 0\<rparr>"
  define ep' where "ep' = ep\<lparr>xfer_len := (if 0 < xfer_len ep then ep_maxpacket ep else xfer_len ep)\<rparr>"
  obtain r' where r': "USB_EP0StartXfer ep (Instance (hpcd s)) = (ep', r')" "DFIFO r' = DFIFO (Instance (hpcd s))"
    using ep0_start(2) [of ep "Instance (hpcd s)"] by (auto simp: ep_def ep'_def)
  define h' where "h' = (put_out 0 ep' (hpcd s))\<lparr>Instance := r'\<rparr>"
  have "drop_status (USBD_LL_PrepareReceive 0 p n s) = Inr (s\<lparr>hpcd := h'\<rparr>)"
    using wf r'(1)
    by (simp add: USBD_LL_PrepareReceive_def with_pcd_def HAL_PCD_EP_Receive_def get_out_def ep_index_def Let_def
        drop_status_def ep_def h'_def)
  moreover have "ctl_ready (s\<lparr>hpcd := h'\<rparr>)"
    using assms wf(1) by (simp add: ctl_ready_def usb_wf_def put_out_def ep_def ep'_def h'_def)
  ultimately show ?thesis
    using wf(1) r'(2) by (intro exI [of _ h']) (simp add: put_out_def ep_def ep'_def h'_def)
qed

lemma ctl_pdev:
  assumes "ctl_ready s" "dev_state (f (pdev s)) = dev_state (pdev s)" "pClassData (f (pdev s)) \<noteq> None"
    and "maxpacket (ep_in (f (pdev s)) ! 0) = maxpacket (ep_in (pdev s) ! 0)"
    and "maxpacket (ep_out (f (pdev s)) ! 0) = maxpacket (ep_out (pdev s) ! 0)"
    and "length (ep_in (f (pdev s))) = length (ep_in (pdev s))" "length (ep_out (f (pdev s))) = length (ep_out (pdev s))"
    and "pDesc (f (pdev s)) = pDesc (pdev s)" "pClass (f (pdev s)) = pClass (pdev s)"
    and "pUserData (f (pdev s)) = pUserData (pdev s)" "pData (f (pdev s)) = pData (pdev s)"
  shows "ctl_ready (set_pdev f s)"
  using assms by (simp add: ctl_ready_def usb_wf_def set_pdev_def)

lemma ep0_lengths:
  assumes "ctl_ready s"
  shows "length (ep_in (pdev s)) = 15" "length (ep_out (pdev s)) = 15" "pData (pdev s)" "pClass (pdev s)" "pUserData (pdev s)"
  using assms by (simp_all add: ctl_ready_def usb_wf_def)

section \<open>Setting the line coding\<close>

definition class_req :: "u8 \<Rightarrow> u8 \<Rightarrow> u16 \<Rightarrow> setup_req" where
  "class_req t r w = \<lparr>bmRequest = t, bRequest = r, wValue = 0, wIndex = 0, wLength = w\<rparr>"

definition class_packet :: "u8 \<Rightarrow> u8 \<Rightarrow> u16 \<Rightarrow> bytes" where
  "class_packet t r w = [t, r, 0, 0, 0, 0, ucast w, ucast (drop_bit 8 w)]"

lemma length_class_packet [simp]: "length (class_packet t r w) = 8"
  by (simp add: class_packet_def)

lemma parse_class_req: "USBD_ParseSetupRequest (class_packet t r w) = Inr (class_req t r w)"
proof -
  have "(ucast (ucast w :: u8) + push_bit 8 (ucast (ucast (drop_bit 8 w) :: u8)) :: u16)
      = ucast (ucast w :: u8) OR push_bit 8 (ucast (ucast (drop_bit 8 w) :: u8))"
    by (rule disjunctive_add) (auto simp: bit_simps)
  also have "\<dots> = w" by (rule bit_word_eqI) (auto simp: bit_simps)
  finally show ?thesis by (simp add: USBD_ParseSetupRequest_def buf_read_def SWAPBYTE_def class_req_def class_packet_def)
qed

lemma class_setup:
  assumes s: "ctl_ready s" and q: "USBD_ParseSetupRequest (Setup (hpcd s)) = Inr (class_req t r w)" "t AND 0x1F = 1" "w \<noteq> 0"
    and s1: "s1 = set_pdev (\<lambda>d. d\<lparr>request := class_req t r w, ep0_state := USBD_EP0_SETUP, ep0_data_len := ucast w\<rparr>) s"
    and st: "USBD_CDC_Setup s1 = Inr s2" "request (pdev s2) = class_req t r w"
  shows "irq_event (USBD_CDC rx) Setup_done s = Inr s2"
proof -
  have "pClass (pdev s1)" "dev_state (pdev s1) = 3" "request (pdev s1) = class_req t r w"
    using s by (simp_all add: s1 set_pdev_def ctl_ready_def usb_wf_def)
  then have "USBD_StdItfReq (USBD_CDC rx) s1 = Inr s2"
    using st q(3) by (simp add: USBD_StdItfReq_def via_class_def USBD_CDC_def class_req_def)
  moreover have "USBD_LL_SetupStage (USBD_CDC rx) (Setup (hpcd s)) s = USBD_StdItfReq (USBD_CDC rx) s1"
    unfolding USBD_LL_SetupStage_def q(1) obind.simps Let_def s1
    using q(2) by (simp add: class_req_def)
  ultimately show ?thesis by (simp add: HAL_PCD_SetupStageCallback_def)
qed

lemma class_out_setup:
  assumes s: "ctl_ready s" and q: "USBD_ParseSetupRequest (Setup (hpcd s)) = Inr (class_req 0x21 r w)" and w: "w \<noteq> 0"
  shows "\<exists>s' h. irq_event (USBD_CDC rx) Setup_done s = Inr s' \<and> ctl_ready s' \<and> ctl_same s s'
     \<and> pClassData (pdev s') = Some h \<and> CmdOpCode h = r \<and> ep0_state (pdev s') = USBD_EP0_DATA_OUT
     \<and> rem_length (ep_out (pdev s') ! 0) = ucast w
     \<and> xfer_buff (OUT_ep (hpcd s') ! 0) = Some (Cdc_data, 0)"
proof -
  obtain h0 where h0: "pClassData (pdev s) = Some h0" using s by (auto simp: ctl_ready_def)
  note len = ep0_lengths [OF s]
  define h where "h = h0\<lparr>CmdOpCode := r, CmdLength := ucast w\<rparr>"
  define f where "f = (\<lambda>d. ep0_out (\<lambda>e. e\<lparr>total_length := ucast w, rem_length := ucast w\<rparr>)
      (d\<lparr>request := class_req 0x21 r w, ep0_data_len := ucast w, pClassData := Some h, ep0_state := USBD_EP0_DATA_OUT\<rparr>))"
  have r1: "ctl_ready (set_pdev f s)"
    by (rule ctl_pdev [OF s]) (use len in \<open>simp_all add: f_def ep0_out_def\<close>)
  from ctl_receive [OF r1, of "Some (Cdc_data, 0)" w] obtain h' where
    h': "drop_status (USBD_LL_PrepareReceive 0 (Some (Cdc_data, 0)) w (set_pdev f s)) = Inr ((set_pdev f s)\<lparr>hpcd := h'\<rparr>)"
      "ctl_ready ((set_pdev f s)\<lparr>hpcd := h'\<rparr>)" "DFIFO (Instance h') = DFIFO (Instance (hpcd (set_pdev f s)))"
      "xfer_buff (OUT_ep h' ! 0) = Some (Cdc_data, 0)" by blast
  define s1 where "s1 = set_pdev (\<lambda>d. d\<lparr>request := class_req 0x21 r w, ep0_state := USBD_EP0_SETUP, ep0_data_len := ucast w\<rparr>) s"
  have s1': "set_pdev (\<lambda>d. ep0_out (\<lambda>e. e\<lparr>total_length := ucast w, rem_length := ucast w\<rparr>) (d\<lparr>ep0_state := USBD_EP0_DATA_OUT\<rparr>))
      (set_hcdc h s1) = set_pdev f s"
    by (simp add: s1_def set_pdev_def set_hcdc_def f_def ep0_out_def)
  have "USBD_CDC_Setup s1 = Inr ((set_pdev f s)\<lparr>hpcd := h'\<rparr>)"
  proof -
    have "request (pdev s1) = class_req 0x21 r w" "pClassData (pdev s1) = Some h0"
      using h0 by (simp_all add: s1_def set_pdev_def)
    moreover have "hcdc_data (set_hcdc h s1) = Some (Cdc_data, 0)" by (simp add: hcdc_data_def set_hcdc_def set_pdev_def)
    ultimately show ?thesis
      using h'(1) s1' w
      by (simp add: USBD_CDC_Setup_def Let_def class_req_def with_hcdc_def h_def [symmetric] USBD_CtlPrepareRx_def)
  qed
  from class_setup [OF s q _ w s1_def this] have "irq_event (USBD_CDC rx) Setup_done s = Inr ((set_pdev f s)\<lparr>hpcd := h'\<rparr>)"
    by (simp add: set_pdev_def f_def ep0_out_def)
  then show ?thesis
    using h'(2-4) len
    by (intro exI [of _ "(set_pdev f s)\<lparr>hpcd := h'\<rparr>"] exI [of _ h])
      (simp add: ctl_same_def set_pdev_def f_def ep0_out_def h_def)
qed

text \<open>A packet of the data stage, stored where the endpoint points, and one that does not fit.\<close>

lemma status_word:
  assumes "0 < n" "n \<le> 64"
  shows "rx_status 2 n 0 AND 0xF = 0" "drop_bit 4 (rx_status 2 n 0 AND 0x7FF0) = of_nat n"
    "drop_bit 17 (rx_status 2 n 0 AND 0x1E0000) = 2" "rx_status 2 n 0 AND 0x7FF0 \<noteq> 0"
    "unat (ucast (of_nat n :: u32) :: u16) = n" "unat (of_nat n :: u32) = n"
proof -
  show f: "rx_status 2 n 0 AND 0xF = 0" "drop_bit 4 (rx_status 2 n 0 AND 0x7FF0) = of_nat n"
    "drop_bit 17 (rx_status 2 n 0 AND 0x1E0000) = 2"
    using rx_status_fields [of 2 n 0] assms by simp_all
  show u: "unat (of_nat n :: u32) = n" using assms by (simp add: unat_of_nat)
  then show "unat (ucast (of_nat n :: u32) :: u16) = n"
    using assms by (simp add: unsigned_ucast_eq take_bit_nat_eq_self)
  show "rx_status 2 n 0 AND 0x7FF0 \<noteq> 0"
  proof
    assume z: "rx_status 2 n 0 AND 0x7FF0 = 0"
    from f(2) [unfolded z] have "of_nat n = (0 :: u32)" by simp
    then show False using u assms(1) by simp
  qed
qed

lemma data_packet:
  assumes s: "ctl_ready s" and buf: "xfer_buff (OUT_ep (hpcd s) ! 0) = Some (Cdc_data, off)"
    and bs: "bs \<noteq> []" "length bs \<le> 64" "word_filler bs pad"
  shows "off + length (bs @ pad) \<le> 512 \<Longrightarrow>
      \<exists>s'. irq_event cls (Rx_level (rx_status 2 (length bs) 0) (bs @ pad)) s = Inr s' \<and> ctl_ready s' \<and> pdev s' = pdev s
        \<and> xfer_buff (OUT_ep (hpcd s') ! 0) = Some (Cdc_data, off + length bs) \<and> ctl_same s s'
        \<and> mem s' Cdc_data = take off (mem s Cdc_data) @ (bs @ pad) @ drop (off + length (bs @ pad)) (mem s Cdc_data)"
    and "512 < off + length (bs @ pad) \<Longrightarrow>
      irq_event cls (Rx_level (rx_status 2 (length bs) 0) (bs @ pad)) s = Inl Out_of_bounds"
proof -
  let ?ep = "OUT_ep (hpcd s) ! 0" and ?r = "Instance (hpcd s)" and ?t = "rx_status 2 (length bs) 0"
  have wf: "length (OUT_ep (hpcd s)) = 16" "length (mem s Cdc_data) = 512"
    using s by (auto simp: ctl_ready_def usb_wf_def usb_image_def)
  have n: "0 < length bs" using bs(1) by simp
  note f = status_word [OF n bs(2)]
  have words: "4 * ((length bs + 3) div 4) = length (bs @ pad)" "(length bs + 3) div 4 \<noteq> 0"
    using bs(3) n by (auto simp: word_filler_def div_eq_0_iff)
  obtain h where h: "pClassData (pdev s) = Some h" using s by (auto simp: ctl_ready_def)
  define s0 where "s0 = on_regs (\<lambda>r. r\<lparr>GINTMSK := GINTMSK r AND NOT 0x10\<rparr>) s"
  have s0: "OUT_ep (hpcd s0) = OUT_ep (hpcd s)" "pdev s0 = pdev s" "mem s0 = mem s" by (simp_all add: s0_def)
  have rd: "USB_ReadPacket usb_write (xfer_buff ?ep) (ucast (of_nat (length bs) :: u32)) (bs @ pad) s0
      = usb_write (Some (Cdc_data, off)) (bs @ pad) s0"
    using words f(5) buf by (simp add: USB_ReadPacket_def)
  { assume fits: "off + length (bs @ pad) \<le> 512"
    define m where "m = take off (mem s Cdc_data) @ (bs @ pad) @ drop (off + length (bs @ pad)) (mem s Cdc_data)"
    define s1 where "s1 = s0\<lparr>mem := (mem s)(Cdc_data := m)\<rparr>"
    have wr: "usb_write (Some (Cdc_data, off)) (bs @ pad) s0 = Inr s1"
      using fits wf h s0 by (simp add: usb_write_def usb_load_def usb_put_def buf_write_def m_def s1_def)
    define s' where "s' = on_regs (\<lambda>r. r\<lparr>GINTMSK := GINTMSK r OR 0x10\<rparr>)
        (s1\<lparr>hpcd := put_out 0 (?ep\<lparr>xfer_buff := Some (Cdc_data, off + length bs), xfer_count := xfer_count ?ep + of_nat (length bs)\<rparr>) (hpcd s1)\<rparr>)"
    have "irq_event cls (Rx_level ?t (bs @ pad)) s = Inr s'"
      using wf s0 f buf rd wr unfolding irq_event.simps irq_rx_level_def s0_def [symmetric]
      by (simp add: rx_pop_def Let_def get_out_def s'_def)
    moreover have "length m = 512" using fits wf by (simp add: m_def)
    then have "ctl_ready s'"
      using s wf by (simp add: ctl_ready_def usb_wf_def usb_image_def s'_def s1_def s0_def on_regs_def put_out_def)
    ultimately show "\<exists>s'. irq_event cls (Rx_level ?t (bs @ pad)) s = Inr s' \<and> ctl_ready s' \<and> pdev s' = pdev s
        \<and> xfer_buff (OUT_ep (hpcd s') ! 0) = Some (Cdc_data, off + length bs) \<and> ctl_same s s'
        \<and> mem s' Cdc_data = take off (mem s Cdc_data) @ (bs @ pad) @ drop (off + length (bs @ pad)) (mem s Cdc_data)"
      using wf by (intro exI [of _ s']) (simp add: s'_def s1_def s0_def on_regs_def put_out_def ctl_same_def m_def)
  next
    assume "512 < off + length (bs @ pad)"
    then have "usb_write (Some (Cdc_data, off)) (bs @ pad) s0 = Inl Out_of_bounds"
      using wf h s0 by (simp add: usb_write_def usb_load_def buf_write_def)
    then show "irq_event cls (Rx_level ?t (bs @ pad)) s = Inl Out_of_bounds"
      using wf s0 f buf rd unfolding irq_event.simps irq_rx_level_def s0_def [symmetric]
      by (simp add: rx_pop_def Let_def get_out_def)
  }
qed

lemma set_line_done:
  assumes s: "ctl_ready s" and h: "pClassData (pdev s) = Some h" "CmdOpCode h = 0x20"
    and st: "ep0_state (pdev s) = USBD_EP0_DATA_OUT" "rem_length (ep_out (pdev s) ! 0) = 7"
    and lc: "take 7 (mem s Cdc_data) = lc"
  shows "\<exists>s'. irq_event (USBD_CDC rx) (Out_xfrc 0) s = Inr s' \<and> ctl_ready s' \<and> tLineCoding s' = lc
     \<and> DFIFO (Instance (hpcd s')) = DFIFO (Instance (hpcd s)) \<and> ep0_state (pdev s') = USBD_EP0_STATUS_IN"
proof -
  have wf: "length (OUT_ep (hpcd s)) = 16" "length (mem s Cdc_data) = 512" "maxpacket (ep_out (pdev s) ! 0) = 64" "dev_state (pdev s) = 3"
    using s by (auto simp: ctl_ready_def usb_wf_def usb_image_def)
  note len = ep0_lengths [OF s]
  define s1 where "s1 = set_pdev (\<lambda>d. d\<lparr>pClassData := Some (h\<lparr>CmdOpCode := 0xFF\<rparr>), ep0_state := USBD_EP0_STATUS_IN\<rparr>) (s\<lparr>tLineCoding := lc\<rparr>)"
  have "length lc = 7" using lc wf(2) by auto
  then have r1: "ctl_ready s1" using s by (simp add: s1_def ctl_ready_def usb_wf_def set_pdev_def)
  from ctl_transmit [OF r1, of None 0] obtain h' where
    h': "drop_status (USBD_LL_Transmit 0 None 0 s1) = Inr (s1\<lparr>hpcd := h'\<rparr>)" "ctl_ready (s1\<lparr>hpcd := h'\<rparr>)"
      "DFIFO (Instance h') = DFIFO (Instance (hpcd s1))" by blast
  have "usb_read s (Some (Cdc_data, 0)) 7 = Inr lc"
    using h(1) wf(2) lc by (simp add: usb_read_def usb_load_def buf_read_def)
  then have "USBD_CDC_EP0_RxReady s = Inr (set_hcdc (h\<lparr>CmdOpCode := 0xFF\<rparr>) (s\<lparr>tLineCoding := lc\<rparr>))"
    using h len by (simp add: USBD_CDC_EP0_RxReady_def with_hcdc_def CDC_Control_FS_def hcdc_data_def)
  moreover have "set_pdev (\<lambda>d. d\<lparr>ep0_state := USBD_EP0_STATUS_IN\<rparr>) (set_hcdc (h\<lparr>CmdOpCode := 0xFF\<rparr>) (s\<lparr>tLineCoding := lc\<rparr>)) = s1"
    by (simp add: s1_def set_pdev_def set_hcdc_def)
  ultimately have "irq_event (USBD_CDC rx) (Out_xfrc 0) s = Inr (s1\<lparr>hpcd := h'\<rparr>)"
    using st wf len h'(1)
    by (simp add: HAL_PCD_DataOutStageCallback_def get_out_def USBD_LL_DataOutStage_def Let_def via_class_def USBD_CDC_def
        USBD_CtlSendStatus_def)
  then show ?thesis
    using h'(2,3) by (intro exI [of _ "s1\<lparr>hpcd := h'\<rparr>"]) (simp add: s1_def set_pdev_def)
qed

lemma status_in:
  assumes s: "ctl_ready s" and st: "ep0_state (pdev s) = USBD_EP0_STATUS_IN"
  shows "\<exists>s'. irq_event (USBD_CDC rx) (In_xfrc 0) s = Inr s' \<and> ctl_ready s' \<and> ctl_same s s'"
proof -
  have wf: "length (IN_ep (hpcd s)) = 16" using s by (auto simp: ctl_ready_def usb_wf_def)
  define s1 where "s1 = on_regs (\<lambda>r. r\<lparr>DIEPEMPMSK := DIEPEMPMSK r AND NOT 1\<rparr>) s"
  define s' where "s' = (if dev_test_mode (pdev s1) = 1 then set_pdev (\<lambda>d. d\<lparr>dev_test_mode := 0\<rparr>) s1 else s1)"
  have "irq_event (USBD_CDC rx) (In_xfrc 0) s = Inr s'"
    using st wf by (simp add: irq_in_xfrc_def HAL_PCD_DataInStageCallback_def get_in_def USBD_LL_DataInStage_def s1_def [symmetric] s'_def)
      (simp add: s1_def)
  moreover have "ctl_ready s'" "ctl_same s s'"
    using s by (simp_all add: s'_def s1_def ctl_ready_def ctl_same_def usb_wf_def set_pdev_def on_regs_def)
  ultimately show ?thesis by blast
qed

section \<open>Reading it back\<close>

lemma get_line_setup:
  assumes s: "ctl_ready s" and q: "USBD_ParseSetupRequest (Setup (hpcd s)) = Inr (class_req 0xA1 0x21 7)"
  shows "\<exists>s'. irq_event (USBD_CDC rx) Setup_done s = Inr s' \<and> ctl_ready s' \<and> tLineCoding s' = tLineCoding s
     \<and> usb_sending 0 Cdc_data (tLineCoding s) 64 (DFIFO (Instance (hpcd s)) 0) 0 s'"
proof -
  obtain h where h: "pClassData (pdev s) = Some h" using s by (auto simp: ctl_ready_def)
  note len = ep0_lengths [OF s]
  have wf: "length (mem s Cdc_data) = 512" "length (tLineCoding s) = 7" "IN_ep (hpcd s) \<noteq> []"
    using s by (auto simp: ctl_ready_def usb_wf_def usb_image_def)
  define buf where "buf = tLineCoding s @ drop 7 (mem s Cdc_data)"
  define s1 where "s1 = set_pdev (\<lambda>d. d\<lparr>request := class_req 0xA1 0x21 7, ep0_state := USBD_EP0_SETUP, ep0_data_len := 7\<rparr>) s"
  define s2 where "s2 = set_pdev (\<lambda>d. ep0_in (\<lambda>e. e\<lparr>total_length := 7, rem_length := 7\<rparr>) (d\<lparr>ep0_state := USBD_EP0_DATA_IN\<rparr>))
      (s1\<lparr>mem := (mem s)(Cdc_data := buf)\<rparr>)"
  have "ctl_ready (s\<lparr>mem := (mem s)(Cdc_data := buf)\<rparr>)"
    using s wf by (simp add: ctl_ready_def usb_wf_def buf_def usb_image_def)
  moreover define f where "f = (\<lambda>d. ep0_in (\<lambda>e. e\<lparr>total_length := 7, rem_length := 7\<rparr>)
      (d\<lparr>request := class_req 0xA1 0x21 7, ep0_data_len := 7, ep0_state := USBD_EP0_DATA_IN\<rparr>))"
  moreover have s2': "s2 = set_pdev f (s\<lparr>mem := (mem s)(Cdc_data := buf)\<rparr>)"
    by (simp add: s2_def s1_def set_pdev_def f_def ep0_in_def)
  ultimately have r2: "ctl_ready s2"
    unfolding s2' using len h by (intro ctl_pdev) (simp_all add: f_def ep0_in_def)
  from ctl_transmit [OF r2, of "Some (Cdc_data, 0)" 7] obtain h' where
    h': "drop_status (USBD_LL_Transmit 0 (Some (Cdc_data, 0)) 7 s2) = Inr (s2\<lparr>hpcd := h'\<rparr>)" "ctl_ready (s2\<lparr>hpcd := h'\<rparr>)"
      "DFIFO (Instance h') = DFIFO (Instance (hpcd s2))" "xfer_buff (IN_ep h' ! 0) = Some (Cdc_data, 0)"
      "xfer_count (IN_ep h' ! 0) = 0" "xfer_len (IN_ep h' ! 0) = 7" by (auto simp: word_less_nat_alt)
  have s1: "request (pdev s1) = class_req 0xA1 0x21 7" "pClassData (pdev s1) = Some h" "tLineCoding s1 = tLineCoding s" "mem s1 = mem s"
      "pUserData (pdev s1)"
    using h len by (simp_all add: s1_def set_pdev_def)
  have "CDC_Control_FS 0x21 (Some (Cdc_data, 0)) 7 s1 = Inr (s1\<lparr>mem := (mem s1)(Cdc_data := buf)\<rparr>)"
    using s1 wf by (simp add: CDC_Control_FS_def usb_write_def usb_load_def usb_put_def buf_write_def buf_def)
  then have "USBD_CDC_Setup s1 = Inr (s2\<lparr>hpcd := h'\<rparr>)"
    using s1 h'(1)
    by (simp add: USBD_CDC_Setup_def Let_def class_req_def hcdc_data_def via_user_def USBD_CtlSendData_def s2_def [symmetric])
  from class_setup [OF s q _ _ _ this] have "irq_event (USBD_CDC rx) Setup_done s = Inr (s2\<lparr>hpcd := h'\<rparr>)"
    by (simp add: s2_def s1_def set_pdev_def ep0_in_def)
  moreover have "usb_sending 0 Cdc_data (tLineCoding s) 64 (DFIFO (Instance (hpcd s)) 0) 0 (s2\<lparr>hpcd := h'\<rparr>)"
  proof -
    have "sending Cdc_data (tLineCoding s) 64 0 (DFIFO (Instance (hpcd s)) 0) 0 (IN_ep h' ! 0) (Instance h')"
      using h'(2-6) wf by (simp add: sending_def ctl_ready_def s2' set_pdev_def)
    moreover have "usb_load (s2\<lparr>hpcd := h'\<rparr>) Cdc_data = Inr buf"
      using h by (simp add: usb_load_def s2' set_pdev_def f_def ep0_in_def)
    moreover have "usb_wf (s2\<lparr>hpcd := h'\<rparr>)" using h'(2) by (simp add: ctl_ready_def)
    ultimately show ?thesis by (simp add: usb_sending_def buf_def)
  qed
  moreover have "tLineCoding (s2\<lparr>hpcd := h'\<rparr>) = tLineCoding s" by (simp add: s2' set_pdev_def)
  ultimately show ?thesis using h'(2) by blast
qed

section \<open>The round trip\<close>

definition set_line_events :: "bytes \<Rightarrow> u8 \<Rightarrow> pcd_event list" where
  "set_line_events lc pad = setup_in (class_packet 0x21 0x20 7)
     @ [Rx_level (rx_status 2 7 0) (lc @ [pad]), Out_xfrc 0, In_xfrc 0]"

definition get_line_events :: "(nat \<Rightarrow> u32) \<Rightarrow> pcd_event list" where
  "get_line_events space = setup_in (class_packet 0xA1 0x21 7) @ [Tx_fifo_empty 0 space]"

lemma line_coding_set:
  assumes s: "ctl_ready s" and lc: "length lc = 7"
  shows "\<exists>s'. usb_run (USBD_CDC rx) (set_line_events lc pad) s = Inr s' \<and> ctl_ready s' \<and> tLineCoding s' = lc
     \<and> DFIFO (Instance (hpcd s')) = DFIFO (Instance (hpcd s))"
proof -
  obtain s1 where s1: "irq_event (USBD_CDC rx) (received_setup (class_packet 0x21 0x20 7)) s = Inr s1" "ctl_ready s1" "ctl_same s s1"
      "USBD_ParseSetupRequest (Setup (hpcd s1)) = Inr (class_req 0x21 0x20 7)"
    using setup_pop [OF s, of "class_packet 0x21 0x20 7" "USBD_CDC rx"] by (auto simp: parse_class_req)
  obtain s2 h where s2: "irq_event (USBD_CDC rx) Setup_done s1 = Inr s2" "ctl_ready s2" "ctl_same s1 s2"
      "pClassData (pdev s2) = Some h" "CmdOpCode h = 0x20" "ep0_state (pdev s2) = USBD_EP0_DATA_OUT"
      "rem_length (ep_out (pdev s2) ! 0) = 7" "xfer_buff (OUT_ep (hpcd s2) ! 0) = Some (Cdc_data, 0)"
    using class_out_setup [OF s1(2,4), of rx] by auto
  obtain s3 where s3: "irq_event (USBD_CDC rx) (Rx_level (rx_status 2 7 0) (lc @ [pad])) s2 = Inr s3" "ctl_ready s3" "ctl_same s2 s3"
      "pdev s3 = pdev s2" "take 7 (mem s3 Cdc_data) = lc"
    using data_packet(1) [OF s2(2,8), of lc "[pad]" "USBD_CDC rx"] lc by (cases "lc = []") (auto simp: word_filler_def)
  obtain s4 where s4: "irq_event (USBD_CDC rx) (Out_xfrc 0) s3 = Inr s4" "ctl_ready s4" "tLineCoding s4 = lc"
      "DFIFO (Instance (hpcd s4)) = DFIFO (Instance (hpcd s3))" "ep0_state (pdev s4) = USBD_EP0_STATUS_IN"
    using set_line_done [OF s3(2) _ s2(5) _ _ s3(5), of rx] s2(4,6,7) s3(4) by auto
  obtain s5 where "irq_event (USBD_CDC rx) (In_xfrc 0) s4 = Inr s5" "ctl_ready s5" "ctl_same s4 s5"
    using status_in [OF s4(2,5), of rx] by blast
  then show ?thesis
    using s1 s2 s3 s4
    by (intro exI [of _ s5]) (simp add: set_line_events_def setup_in_def ctl_same_def del: irq_event.simps)
qed

lemma line_coding_read:
  assumes s: "ctl_ready s" and sp: "room 64 space"
  shows "\<exists>s'. usb_run (USBD_CDC rx) (get_line_events space) s = Inr s' \<and> tLineCoding s' = tLineCoding s
     \<and> DFIFO (Instance (hpcd s')) 0 = DFIFO (Instance (hpcd s)) 0 @ [tLineCoding s]"
proof -
  obtain s1 where s1: "irq_event (USBD_CDC rx) (received_setup (class_packet 0xA1 0x21 7)) s = Inr s1" "ctl_ready s1" "ctl_same s s1"
      "USBD_ParseSetupRequest (Setup (hpcd s1)) = Inr (class_req 0xA1 0x21 7)"
    using setup_pop [OF s, of "class_packet 0xA1 0x21 7" "USBD_CDC rx"] by (auto simp: parse_class_req)
  obtain s2 where s2: "irq_event (USBD_CDC rx) Setup_done s1 = Inr s2" "tLineCoding s2 = tLineCoding s1"
      "usb_sending 0 Cdc_data (tLineCoding s1) 64 (DFIFO (Instance (hpcd s1)) 0) 0 s2"
    using get_line_setup [OF s1(2,4), of rx] by blast
  have lc: "length (tLineCoding s1) = 7" "tLineCoding s1 = tLineCoding s"
    using s1(2,3) by (simp_all add: ctl_ready_def usb_wf_def ctl_same_def)
  obtain h' where h': "usb_run (USBD_CDC rx) (map (Tx_fifo_empty 0) [space]) s2 = Inr (s2\<lparr>hpcd := h'\<rparr>)"
      "usb_sending 0 Cdc_data (tLineCoding s1) 64 (DFIFO (Instance (hpcd s1)) 0) (length (tLineCoding s1)) (s2\<lparr>hpcd := h'\<rparr>)"
    using tx_events [of 64 "tLineCoding s1" 0 Cdc_data "DFIFO (Instance (hpcd s1)) 0" 0 s2 "[space]" "USBD_CDC rx"] s2(3) lc(1) sp
    by auto
  have one: "chunks 64 (tLineCoding s1) = [tLineCoding s1]"
    using lc(1) chunks_step [of 64 "tLineCoding s1"] by (cases "tLineCoding s1 = []") auto
  have "DFIFO (Instance (hpcd (s2\<lparr>hpcd := h'\<rparr>))) 0 = DFIFO (Instance (hpcd s1)) 0 @ [tLineCoding s1]"
    using h'(2) one by (auto simp: usb_sending_def dest: sending_done)
  moreover have "usb_run (USBD_CDC rx) (get_line_events space) s = Inr (s2\<lparr>hpcd := h'\<rparr>)"
    using s1(1) s2(1) h'(1) by (simp add: get_line_events_def setup_in_def del: irq_event.simps)
  ultimately show ?thesis using s1(3) s2(2) lc(2) by (intro exI [of _ "s2\<lparr>hpcd := h'\<rparr>"]) (simp add: ctl_same_def)
qed

text \<open>C27: the line coding of the port makes a round trip. On a configured device, the interrupts of a
  \<open>SET_LINE_CODING\<close> transfer with seven bytes of data, and then of a \<open>GET_LINE_CODING\<close> transfer, set the
  port's line coding to the bytes received and put exactly these bytes, in one packet, into the
  transmit FIFO of the control endpoint.\<close>

theorem line_coding_roundtrip:
  assumes "ctl_ready s" "length lc = 7" "room 64 space"
  shows "\<exists>s'. usb_run (USBD_CDC rx) (set_line_events lc pad @ get_line_events space) s = Inr s'
     \<and> tLineCoding s' = lc \<and> DFIFO (Instance (hpcd s')) 0 = DFIFO (Instance (hpcd s)) 0 @ [lc]"
proof -
  obtain s1 where s1: "usb_run (USBD_CDC rx) (set_line_events lc pad) s = Inr s1" "ctl_ready s1" "tLineCoding s1 = lc"
     "DFIFO (Instance (hpcd s1)) = DFIFO (Instance (hpcd s))"
    using line_coding_set [OF assms(1,2)] by blast
  then show ?thesis using line_coding_read [OF s1(2) assms(3), of rx] by (simp add: usb_run_append)
qed

lemma line_coding_roundtrip_witness:
  "\<exists>s s'. usb_reach echo_rx (s :: unit usbd)
     \<and> usb_run (USBD_CDC echo_rx) (set_line_events [0, 0xC2, 1, 0, 0, 0, 8] 0 @ get_line_events (\<lambda>_. 128)) s = Inr s'
     \<and> tLineCoding s' = [0, 0xC2, 1, 0, 0, 0, 8] \<and> DFIFO (Instance (hpcd s')) 0 = DFIFO (Instance (hpcd s)) 0 @ [[0, 0xC2, 1, 0, 0, 0, 8]]"
proof -
  obtain s where s: "usb_reach echo_rx (s :: unit usbd)" "ctl_ready s"
    using example_configured by (auto simp: ctl_ready_def split: option.splits)
  have "room 64 (\<lambda>_. 128)" by (simp add: room_def)
  then show ?thesis
    using line_coding_roundtrip [OF s(2), of "[0, 0xC2, 1, 0, 0, 0, 8]" "\<lambda>_. 128" echo_rx 0] s(1) by auto
qed

end
