(* ===== verification/UsbOverflow.thy ===== *)
theory UsbOverflow
  imports UsbControl
begin

text \<open>
  Class requests with more data than the class handle has room for: the host chooses the length of the data
  stage, and the class receives it into the array \<open>data\<close> of 512 bytes at the start of its handle. What follows in the
  handle are \<open>CmdOpCode\<close> (offset 512), \<open>CmdLength\<close> (513), the pointers \<open>RxBuffer\<close> (516) and \<open>TxBuffer\<close> (520), the two
  lengths and the two states, up to offset 540. The array is an object of its own here (\<open>Cdc_data\<close>), so a store beyond
  it ends the run with \<open>Out_of_bounds\<close>.
\<close>

definition ctl_receiving :: "nat \<Rightarrow> u16 \<Rightarrow> 'a usbd \<Rightarrow> bool" where
  "ctl_receiving k w s \<longleftrightarrow> ctl_ready s \<and> ep0_state (pdev s) = USBD_EP0_DATA_OUT
     \<and> unat (rem_length (ep_out (pdev s) ! 0)) = unat w - 64 * k
     \<and> xfer_buff (OUT_ep (hpcd s) ! 0) = Some (Cdc_data, 64 * k)"

lemma next_packet:
  assumes s: "ctl_ready s" and st: "ep0_state (pdev s) = USBD_EP0_DATA_OUT"
    and rem: "unat (rem_length (ep_out (pdev s) ! 0)) = unat w - 64 * k" "64 * Suc k < unat w"
    and buf: "xfer_buff (OUT_ep (hpcd s) ! 0) = Some (Cdc_data, 64 * Suc k)"
  shows "\<exists>s'. irq_event (USBD_CDC rx) (Out_xfrc 0) s = Inr s' \<and> ctl_receiving (Suc k) w s'"
proof -
  note len = ep0_lengths [OF s]
  have wf: "length (OUT_ep (hpcd s)) = 16" "maxpacket (ep_out (pdev s) ! 0) = 64"
    using s by (auto simp: ctl_ready_def usb_wf_def)
  define r where "r = rem_length (ep_out (pdev s) ! 0)"
  have r: "64 < r" "unat (r - 64) = unat w - 64 * Suc k"
    using rem by (auto simp: r_def word_less_nat_alt unat_sub word_le_nat_alt)
  define s1 where "s1 = set_pdev (ep0_out (\<lambda>e. e\<lparr>rem_length := r - 64\<rparr>)) s"
  have r1: "ctl_ready s1"
    unfolding s1_def by (rule ctl_pdev [OF s]) (use len s in \<open>auto simp: ep0_out_def ctl_ready_def\<close>)
  define n where "n = (ucast (if r - 64 < 64 then r - 64 else maxpacket (ep_out (pdev s) ! 0)) :: u16)"
  obtain h' where h': "drop_status (USBD_LL_PrepareReceive 0 (Some (Cdc_data, 64 * Suc k)) n s1) = Inr (s1\<lparr>hpcd := h'\<rparr>)"
      "ctl_ready (s1\<lparr>hpcd := h'\<rparr>)" "xfer_buff (OUT_ep h' ! 0) = Some (Cdc_data, 64 * Suc k)"
    using ctl_receive [OF r1, of "Some (Cdc_data, 64 * Suc k)" n] by blast
  have "irq_event (USBD_CDC rx) (Out_xfrc 0) s = Inr (s1\<lparr>hpcd := h'\<rparr>)"
    using st wf buf h'(1) r(1)
    by (simp add: HAL_PCD_DataOutStageCallback_def get_out_def USBD_LL_DataOutStage_def Let_def r_def [symmetric]
        USBD_CtlContinueRx_def s1_def [symmetric] n_def [symmetric] del: mult_Suc_right split del: if_split)
  moreover have "ctl_receiving (Suc k) w (s1\<lparr>hpcd := h'\<rparr>)"
    using h'(2,3) st r(2) len unfolding ctl_receiving_def by (simp add: s1_def set_pdev_def ep0_out_def)
  ultimately show ?thesis by blast
qed

text \<open>Whole packets of a data stage, each followed by the end of its transfer.\<close>

definition data_stage :: "bytes list \<Rightarrow> pcd_event list" where
  "data_stage bss = concat (map (\<lambda>bs. [Rx_level (rx_status 2 (length bs) 0) bs, Out_xfrc 0]) bss)"

lemma data_run:
  "\<lbrakk>ctl_receiving k w s; \<forall>bs \<in> set bss. length bs = 64; k + length bss \<le> 8; 64 * (k + length bss) < unat w\<rbrakk> \<Longrightarrow>
    \<exists>s'. usb_run (USBD_CDC rx) (data_stage bss) s = Inr s' \<and> ctl_receiving (k + length bss) w s'"
proof (induction bss arbitrary: k s)
  case Nil
  then show ?case by (simp add: data_stage_def)
next
  case (Cons bs bss)
  have s: "ctl_ready s" "ep0_state (pdev s) = USBD_EP0_DATA_OUT" "unat (rem_length (ep_out (pdev s) ! 0)) = unat w - 64 * k"
      "xfer_buff (OUT_ep (hpcd s) ! 0) = Some (Cdc_data, 64 * k)"
    using Cons.prems(1) by (auto simp: ctl_receiving_def)
  have bs: "length bs = 64" "bs \<noteq> []" "word_filler bs []" using Cons.prems(2) by (auto simp: word_filler_def)
  obtain s1 where s1: "irq_event (USBD_CDC rx) (Rx_level (rx_status 2 (length bs) 0) bs) s = Inr s1" "ctl_ready s1"
      "pdev s1 = pdev s" "xfer_buff (OUT_ep (hpcd s1) ! 0) = Some (Cdc_data, 64 * k + 64)"
    using data_packet(1) [OF s(1,4) bs(2) _ bs(3), of "USBD_CDC rx"] bs(1) Cons.prems(3) by auto
  obtain s2 where s2: "irq_event (USBD_CDC rx) (Out_xfrc 0) s1 = Inr s2" "ctl_receiving (Suc k) w s2"
    using next_packet [OF s1(2), of w k rx] s1(3,4) s(2,3) Cons.prems(4) by auto
  obtain s3 where "usb_run (USBD_CDC rx) (data_stage bss) s2 = Inr s3" "ctl_receiving (Suc k + length bss) w s3"
    using Cons.IH [OF s2(2)] Cons.prems(2-4) by auto
  then show ?case using s1(1) s2(1) by (auto simp: data_stage_def simp del: irq_event.simps)
qed

text \<open>C33: a host can write over the class handle. A class request towards the device, of any number and with a
  length above 512, is accepted whatever it means; after eight whole packets of its data the array \<open>data\<close> at the
  start of the handle is full, the endpoint is armed to store at offset 512, one past its end and the first byte of the handle's own
  \<open>CmdOpCode\<close>, and the next packet, of any size from one byte, is stored from there: an access out of the array's bounds. (A whole packet
  of 64 bytes is more than the 28 bytes the handle has left.)\<close>

theorem class_request_overflows:
  assumes "ctl_ready s" "512 < unat w" "length bss = 8" "\<forall>bs \<in> set bss. length bs = 64"
    and "bs \<noteq> []" "length bs \<le> 64" "word_filler bs pad"
  shows "(\<exists>s'. usb_run (USBD_CDC rx) (setup_in (class_packet 0x21 r w) @ data_stage bss) s = Inr s' \<and> usb_wf s'
        \<and> length (mem s' Cdc_data) = 512 \<and> xfer_buff (OUT_ep (hpcd s') ! 0) = Some (Cdc_data, 512))
     \<and> usb_run (USBD_CDC rx) (setup_in (class_packet 0x21 r w) @ data_stage bss
          @ [Rx_level (rx_status 2 (length bs) 0) (bs @ pad)]) s = Inl Out_of_bounds"
proof -
  obtain s1 where s1: "irq_event (USBD_CDC rx) (received_setup (class_packet 0x21 r w)) s = Inr s1" "ctl_ready s1"
      "USBD_ParseSetupRequest (Setup (hpcd s1)) = Inr (class_req 0x21 r w)"
    using setup_pop [OF assms(1), of "class_packet 0x21 r w" "USBD_CDC rx"] by (auto simp: parse_class_req)
  have "w \<noteq> 0" using assms(2) by auto
  from class_out_setup [OF s1(2,3) this, of rx] obtain s2 where
    s2: "irq_event (USBD_CDC rx) Setup_done s1 = Inr s2" "ctl_ready s2" "ep0_state (pdev s2) = USBD_EP0_DATA_OUT"
      "rem_length (ep_out (pdev s2) ! 0) = ucast w" "xfer_buff (OUT_ep (hpcd s2) ! 0) = Some (Cdc_data, 0)" by blast
  have "unat (ucast w :: u32) = unat w"
    using unat_u16_less [of w] by (simp add: unsigned_ucast_eq take_bit_nat_eq_self)
  then have "ctl_receiving 0 w s2" using s2 by (simp add: ctl_receiving_def)
  from data_run [OF this assms(4), of rx] assms(2,3) obtain s3 where
    s3: "usb_run (USBD_CDC rx) (data_stage bss) s2 = Inr s3" "ctl_receiving 8 w s3" by auto
  have run: "usb_run (USBD_CDC rx) (setup_in (class_packet 0x21 r w)) s = Inr s2"
    using s1(1) s2(1) by (simp add: setup_in_def del: irq_event.simps)
  have s3': "ctl_ready s3" "xfer_buff (OUT_ep (hpcd s3) ! 0) = Some (Cdc_data, 512)"
    using s3(2) by (simp_all add: ctl_receiving_def)
  have "512 < 512 + length (bs @ pad)" using assms(5) by simp
  from data_packet(2) [OF s3' assms(5-7) this]
  have "irq_event (USBD_CDC rx) (Rx_level (rx_status 2 (length bs) 0) (bs @ pad)) s3 = Inl Out_of_bounds" .
  then show ?thesis
    using run s3(1) s3' by (simp add: usb_run_append ctl_ready_def usb_wf_def usb_image_def del: irq_event.simps)
qed

lemma class_request_overflows_witness:
  "\<exists>s s'. usb_reach echo_rx (s :: unit usbd)
     \<and> usb_run (USBD_CDC echo_rx) (setup_in (class_packet 0x21 0x20 513) @ data_stage (replicate 8 (replicate 64 0xAA))) s = Inr s'
     \<and> xfer_buff (OUT_ep (hpcd s') ! 0) = Some (Cdc_data, 512)
     \<and> usb_run (USBD_CDC echo_rx) (setup_in (class_packet 0x21 0x20 513) @ data_stage (replicate 8 (replicate 64 0xAA))
          @ [Rx_level (rx_status 2 1 0) ([0xAA] @ [0, 0, 0])]) s = Inl Out_of_bounds"
proof -
  obtain s where s: "usb_reach echo_rx (s :: unit usbd)" "ctl_ready s"
    using example_configured by (auto simp: ctl_ready_def split: option.splits)
  have "512 < unat (513 :: u16)" "length (replicate 8 (replicate 64 (0xAA :: u8))) = 8"
      "\<forall>bs \<in> set (replicate 8 (replicate 64 (0xAA :: u8))). length bs = 64"
      "[0xAA :: u8] \<noteq> []" "length [0xAA :: u8] \<le> 64" "word_filler [0xAA] [0, 0, 0]"
    by (simp_all add: word_filler_def)
  from class_request_overflows [OF s(2) this, where rx = echo_rx and r = "0x20"] s(1) show ?thesis by auto
qed

end
