(* ===== verification/UsbEcho.thy ===== *)
theory UsbEcho
  imports UsbRx
begin

text \<open>
  The echo application of \<open>tst/tst_usb_echo.c\<close> over the whole stack. It transmits from the buffer that
  the next packet is received into.
\<close>

definition echoing :: "bytes list \<Rightarrow> bytes \<Rightarrow> 'a usbd \<Rightarrow> bool" where
  "echoing old bs s \<longleftrightarrow> port_ready s \<and> \<not> port_free s \<and> usb_sending 1 UserRxBufferFS bs 64 old 0 s"

lemma read_load:
  "usb_read s (Some (obj, 0)) n = Inr bs \<longleftrightarrow> (\<exists>d. usb_load s obj = Inr d \<and> n \<le> length d \<and> take n d = bs)"
  by (auto simp: usb_read_def obind_Inr_iff buf_read_def split: if_splits)

lemma echo_starts:
  assumes "port_ready s" "port_free s" "usb_read s (Some (UserRxBufferFS, 0)) (length bs) = Inr bs" "length bs \<le> 64"
  shows "\<exists>s'. drop_status (echo_rx (Some (UserRxBufferFS, 0)) (of_nat (length bs)) s) = Inr s'
     \<and> echoing (DFIFO (Instance (hpcd s)) 1) bs s'"
proof -
  define n :: u16 where "n = ucast (of_nat (length bs) :: u32)"
  have n: "unat n = length bs"
    using assms(4) by (simp add: n_def unsigned_ucast_eq unat_of_nat take_bit_nat_eq_self)
  obtain d where load: "usb_load s UserRxBufferFS = Inr d" "length bs \<le> length d" "take (length bs) d = bs"
    using assms(3) by (auto simp: read_load)
  from port_transmits [OF assms(1,2) load(1), of n] load(2,3) n show ?thesis
    by (auto simp: echo_rx_def n_def [symmetric] drop_status_def echoing_def)
qed

lemma echo_busy:
  assumes "port_ready s" "\<not> port_free s"
  shows "drop_status (echo_rx p n s) = Inr s"
  using assms by (auto simp: port_ready_def port_free_def echo_rx_def CDC_Transmit_FS_def with_hcdc_def drop_status_def)

lemma packet_echoing:
  assumes "port_ready s" "port_free s" "length bs \<le> 64" "bs \<noteq> []" "word_filler bs pad"
  shows "\<exists>s'. usb_run (USBD_CDC echo_rx) (out_events bs pad) s = Inr s' \<and> echoing (DFIFO (Instance (hpcd s)) 1) bs s'"
proof -
  obtain s1 where s1: "usb_run (USBD_CDC echo_rx) (out_events bs pad) s
        = drop_status (echo_rx (Some (UserRxBufferFS, 0)) (of_nat (length bs)) s1)"
      "usb_read s1 (Some (UserRxBufferFS, 0)) (length bs) = Inr bs" "port_ready s1" "port_free s1 = port_free s"
      "DFIFO (Instance (hpcd s1)) = DFIFO (Instance (hpcd s))"
    using packet_arrives [OF assms(1,3-5), of echo_rx] by blast
  then show ?thesis using echo_starts [OF s1(3) _ s1(2) assms(3)] assms(2) by auto
qed

text \<open>A packet that comes while the last one is being sent back: dropped, but received into the same buffer.\<close>

lemma rx_buffer_prefix:
  assumes "take (length b1) old = b1"
  shows "take (length b1) (rx_buffer b2 pad old) = take (length b1) (rx_buffer b2 pad b1)"
proof -
  have "take (length b1 - l) (drop l old) = drop l b1" for l
    using assms by (metis drop_take)
  then show ?thesis by (simp add: rx_buffer_def)
qed

lemma rx_buffer_length: "length old \<le> length (rx_buffer bs pad old)"
  by (simp add: rx_buffer_def)

lemma packet_overtakes:
  assumes e: "echoing old b1 s" and b2: "length b2 \<le> 64" "b2 \<noteq> []" "word_filler b2 pad"
  shows "\<exists>s'. usb_run (USBD_CDC echo_rx) (out_events b2 pad) s = Inr s' \<and> echoing old (take (length b1) (rx_buffer b2 pad b1)) s'"
proof -
  have s: "port_ready s" "\<not> port_free s" and sending: "usb_sending 1 UserRxBufferFS b1 64 old 0 s"
    using e by (auto simp: echoing_def)
  obtain s1 where s1: "usb_run (USBD_CDC echo_rx) (out_events b2 pad) s
        = drop_status (echo_rx (Some (UserRxBufferFS, 0)) (of_nat (length b2)) s1)"
      "port_ready s1" "port_free s1 = port_free s"
      "DFIFO (Instance (hpcd s1)) = DFIFO (Instance (hpcd s))" "IN_ep (hpcd s1) = IN_ep (hpcd s)"
      "mem s1 UserRxBufferFS = rx_buffer b2 pad (mem s UserRxBufferFS)"
    using packet_arrives [OF s(1) b2(1-3), of echo_rx] by blast
  have d: "length b1 \<le> length (mem s UserRxBufferFS)" "take (length b1) (mem s UserRxBufferFS) = b1"
    using sending by (auto simp: usb_sending_def usb_load_def)
  let ?b = "take (length b1) (rx_buffer b2 pad b1)"
  have b: "length ?b = length b1" using rx_buffer_length [of b1 b2 pad] by simp
  have "take (length b1) (mem s1 UserRxBufferFS) = ?b" using rx_buffer_prefix [OF d(2)] s1(6) by simp
  moreover have "length b1 \<le> length (mem s1 UserRxBufferFS)"
    using d(1) rx_buffer_length [of "mem s UserRxBufferFS" b2 pad] s1(6) by simp
  ultimately have "usb_sending 1 UserRxBufferFS ?b 64 old 0 s1"
    using sending s1(2,4,5) b by (auto simp: usb_sending_def sending_def port_ready_def usb_load_def)
  then show ?thesis
    using s1 s(2) echo_busy [OF s1(2), of "Some (UserRxBufferFS, 0)" "of_nat (length b2)"] by (auto simp: echoing_def)
qed

fun echo_round :: "bytes \<times> bytes \<times> (nat \<Rightarrow> u32) \<Rightarrow> pcd_event list" where
  "echo_round (bs, pad, sp) = out_events bs pad @ [Tx_fifo_empty 1 sp, In_xfrc 1]"

definition good_round :: "bytes \<times> bytes \<times> (nat \<Rightarrow> u32) \<Rightarrow> bool" where
  "good_round r \<longleftrightarrow> (case r of (bs, pad, sp) \<Rightarrow> bs \<noteq> [] \<and> length bs \<le> 64 \<and> word_filler bs pad \<and> room 64 sp)"

lemma echo_one:
  assumes "port_ready s" "port_free s" "good_round r"
  shows "\<exists>s'. usb_run (USBD_CDC echo_rx) (echo_round r) s = Inr s' \<and> port_ready s' \<and> port_free s'
     \<and> DFIFO (Instance (hpcd s')) 1 = DFIFO (Instance (hpcd s)) 1 @ [fst r]"
proof -
  obtain bs pad sp where r: "r = (bs, pad, sp)" by (cases r)
  have bs: "length bs \<le> 64" "bs \<noteq> []" "word_filler bs pad" "room 64 sp" using assms(3) by (auto simp: good_round_def r)
  obtain s1 where s1: "usb_run (USBD_CDC echo_rx) (out_events bs pad) s = Inr s1" "echoing (DFIFO (Instance (hpcd s)) 1) bs s1"
    using packet_echoing [OF assms(1,2) bs(1-3)] by blast
  then show ?thesis
    using port_sends [of s1 UserRxBufferFS bs "DFIFO (Instance (hpcd s)) 1" sp echo_rx] bs
    by (auto simp: r echoing_def usb_run_append simp del: usb_run.simps)
qed

lemma echo_all:
  "\<lbrakk>port_ready s; port_free s; list_all good_round rs\<rbrakk> \<Longrightarrow>
    \<exists>s'. usb_run (USBD_CDC echo_rx) (concat (map echo_round rs)) s = Inr s' \<and> port_ready s' \<and> port_free s'
     \<and> DFIFO (Instance (hpcd s')) 1 = DFIFO (Instance (hpcd s)) 1 @ map fst rs"
proof (induction rs arbitrary: s)
  case (Cons r rs)
  obtain s1 where s1: "usb_run (USBD_CDC echo_rx) (echo_round r) s = Inr s1" "port_ready s1" "port_free s1"
      "DFIFO (Instance (hpcd s1)) 1 = DFIFO (Instance (hpcd s)) 1 @ [fst r]"
    using echo_one [OF Cons.prems(1,2), of r] Cons.prems(3) by (auto simp del: echo_round.simps split_paired_All)
  then show ?case using Cons.IH [OF s1(2,3)] Cons.prems(3) by (auto simp: usb_run_append simp del: echo_round.simps)
qed simp

text \<open>C20: the echo application sends back what it received. To a host that reads each echo before it sends
  on, every packet of up to 64 bytes comes back as it was, in order. But the echo is sent from the buffer
  that the next packet is received into: a second packet that the stack takes before the first one has been
  written to the transmit FIFO is not echoed, and its bytes go out in place of the first one's, as many as the first
  one had. When the second packet is the shorter one, what goes out is its bytes, the bytes that fill its last word and
  then what is left of the first one (\<open>rx_buffer\<close>).\<close>

theorem echo_returns_packets:
  assumes "port_ready s" "port_free s" "list_all good_round rs"
    and "good_round (b1, pad1, sp)" "good_round (b2, pad2, sp)"
  shows "(\<exists>s'. usb_run (USBD_CDC echo_rx) (concat (map echo_round rs)) s = Inr s' \<and> port_ready s' \<and> port_free s'
        \<and> DFIFO (Instance (hpcd s')) 1 = DFIFO (Instance (hpcd s)) 1 @ map fst rs)
     \<and> (\<exists>s'. usb_run (USBD_CDC echo_rx) (out_events b1 pad1 @ out_events b2 pad2 @ [Tx_fifo_empty 1 sp, In_xfrc 1]) s = Inr s'
        \<and> DFIFO (Instance (hpcd s')) 1 = DFIFO (Instance (hpcd s)) 1 @ [take (length b1) (rx_buffer b2 pad2 b1)])"
proof
  show "\<exists>s'. usb_run (USBD_CDC echo_rx) (concat (map echo_round rs)) s = Inr s' \<and> port_ready s' \<and> port_free s'
        \<and> DFIFO (Instance (hpcd s')) 1 = DFIFO (Instance (hpcd s)) 1 @ map fst rs"
    by (rule echo_all [OF assms(1-3)])
next
  let ?old = "DFIFO (Instance (hpcd s)) 1" and ?b = "take (length b1) (rx_buffer b2 pad2 b1)"
  have b: "length b1 \<le> 64" "b1 \<noteq> []" "word_filler b1 pad1" "length b2 \<le> 64" "b2 \<noteq> []" "word_filler b2 pad2" "room 64 sp"
    using assms(4,5) by (auto simp: good_round_def)
  obtain s1 where s1: "usb_run (USBD_CDC echo_rx) (out_events b1 pad1) s = Inr s1" "echoing ?old b1 s1"
    using packet_echoing [OF assms(1,2) b(1-3)] by blast
  obtain s2 where s2: "usb_run (USBD_CDC echo_rx) (out_events b2 pad2) s1 = Inr s2" "echoing ?old ?b s2"
    using packet_overtakes [OF s1(2) b(4-6)] by blast
  have "length ?b = length b1" using rx_buffer_length [of b1 b2 pad2] by simp
  then have "?b \<noteq> []" "length ?b \<le> 64" using b(1,2) by (metis length_0_conv, simp)
  then show "\<exists>s'. usb_run (USBD_CDC echo_rx) (out_events b1 pad1 @ out_events b2 pad2 @ [Tx_fifo_empty 1 sp, In_xfrc 1]) s = Inr s'
        \<and> DFIFO (Instance (hpcd s')) 1 = ?old @ [?b]"
    using port_sends [of s2 UserRxBufferFS ?b ?old sp echo_rx] s1(1) s2 b(7)
    by (auto simp: echoing_def usb_run_append simp del: usb_run.simps)
qed

lemma echo_returns_packets_witness:
  "\<exists>s s1 s2. usb_reach echo_rx (s :: unit usbd)
     \<and> usb_run (USBD_CDC echo_rx) (echo_round ([1, 2, 3], [0], \<lambda>_. 128) @ echo_round ([4], [0, 0, 0], \<lambda>_. 128)) s = Inr s1
     \<and> DFIFO (Instance (hpcd s1)) 1 = [[1, 2, 3], [4]]
     \<and> usb_run (USBD_CDC echo_rx) (out_events [1, 2, 3, 4, 5] [0, 0, 0] @ out_events [7, 8, 9] [6] @ [Tx_fifo_empty 1 (\<lambda>_. 128), In_xfrc 1]) s = Inr s2
     \<and> DFIFO (Instance (hpcd s2)) 1 = [[7, 8, 9, 6, 5]]"
proof -
  obtain s where s: "usb_reach echo_rx (s :: unit usbd)" "port_ready s" "port_free s" "DFIFO (Instance (hpcd s)) 1 = []"
    using example_configured by (auto simp: port_ready_def port_free_def split: option.splits)
  let ?sp = "\<lambda>_. 128 :: u32"
  have good: "list_all good_round [([1, 2, 3], [0], ?sp), ([4], [0, 0, 0], ?sp)]" "good_round ([1, 2, 3, 4, 5], [0, 0, 0], ?sp)"
      "good_round ([7, 8, 9], [6], ?sp)"
    by (simp_all add: good_round_def word_filler_def room_def)
  from echo_returns_packets [OF s(2,3) good] s(1,4) show ?thesis
    by (simp add: rx_buffer_def del: echo_round.simps usb_run.simps) blast
qed

end
