(* ===== verification/UsbApp.thy ===== *)
theory UsbApp
  imports UsbReach
begin

text \<open>
  The application's part of the state: the USB stack changes it through the application's receive
  callback only, so what that callback keeps, every interrupt keeps.
\<close>

section \<open>Rules\<close>

text \<open>The application's state is \<open>a\<close> afterwards.\<close>

abbreviation leaves :: "'a \<Rightarrow> 'a usbd outcome \<Rightarrow> bool" where
  "leaves a m \<equiv> post m (\<lambda>s. app s = a)"

named_theorems leaves \<open>operations that leave the application's state alone\<close>

lemma leaves_bind [leaves]: "leaves a m \<Longrightarrow> (\<And>s. app s = a \<Longrightarrow> leaves a (f s)) \<Longrightarrow> leaves a (obind m f)"
  unfolding post_simps by (erule post_mono) blast

lemma leaves_then: "leaves a m \<Longrightarrow> (\<And>s. app s = a \<Longrightarrow> post (f s) R) \<Longrightarrow> post (obind m f) R"
  unfolding post_simps by (erule post_mono) blast

lemma leaves_if [leaves]: "(b \<Longrightarrow> leaves a m) \<Longrightarrow> (\<not> b \<Longrightarrow> leaves a n) \<Longrightarrow> leaves a (if b then m else n)"
  by simp

lemma leaves_Inr [leaves]: "app s = a \<Longrightarrow> leaves a (Inr s)"
  by (simp add: post_simps)

lemma leaves_Inl [leaves]: "leaves a (Inl e)"
  by (simp add: post_simps)

lemma leaves_status [leaves]: "post m (\<lambda>(_, s). app s = a) \<Longrightarrow> leaves a (drop_status m)"
  by (auto simp: drop_status_def post_simps elim!: post_mono)

lemma leaves_via [leaves]: "leaves a (f s) \<Longrightarrow> leaves a (via_class f s)" "leaves a (f s) \<Longrightarrow> leaves a (via_user f s)"
  by (simp_all add: via_class_def via_user_def post_simps)

lemma leaves_hcdc [leaves]: "(\<And>h. leaves a (f h s)) \<Longrightarrow> leaves a (with_hcdc f s)"
  by (simp add: with_hcdc_def post_simps split: option.splits)

lemma app_simps [simp]: "app (set_pdev f s) = app s" "app (set_hcdc h s) = app s" "app (on_regs g s) = app s"
  by (simp_all add: set_pdev_def set_hcdc_def on_regs_def)

section \<open>The library\<close>

lemma with_pcd_leaves [leaves]: "app s = a \<Longrightarrow> leaves a (drop_status (with_pcd f s))"
  by (auto simp: with_pcd_def drop_status_def post_def outcome_simps split: if_splits)

lemmas LL_defs = USBD_LL_OpenEP_def USBD_LL_CloseEP_def USBD_LL_StallEP_def USBD_LL_ClearStallEP_def
  USBD_LL_SetUSBAddress_def USBD_LL_Transmit_def USBD_LL_PrepareReceive_def

lemmas Ctl_defs = USBD_CtlSendData_def USBD_CtlContinueSendData_def USBD_CtlPrepareRx_def USBD_CtlContinueRx_def
  USBD_CtlSendStatus_def USBD_CtlReceiveStatus_def USBD_CtlError_def

lemma Ctl_leaves [leaves]:
  assumes "app s = a"
  shows "leaves a (USBD_CtlSendData p n s)" "leaves a (USBD_CtlContinueSendData p n s)" "leaves a (USBD_CtlPrepareRx p n s)"
    "leaves a (USBD_CtlContinueRx p n s)" "leaves a (USBD_CtlSendStatus s)" "leaves a (USBD_CtlReceiveStatus s)"
    "leaves a (USBD_CtlError s)"
  unfolding Ctl_defs LL_defs Let_def by (intro leaves; simp add: assms)+

lemma usb_put_leaves [leaves]: "app s = a \<Longrightarrow> leaves a (usb_put obj bs s)"
  by (cases obj) (simp_all add: usb_put_def post_simps)

lemma usb_write_leaves [leaves]: "app s = a \<Longrightarrow> leaves a (usb_write p bs s)"
  by (auto simp: usb_write_def post_simps post_def [of "usb_load _ _"] post_def [of "buf_write _ _ _"] usb_put_leaves
      split: option.splits)

text \<open>The choice of a descriptor.\<close>

abbreviation leaves_desc :: "'a \<Rightarrow> (usb_ptr \<times> u16 \<times> 'a usbd) option outcome \<Rightarrow> bool" where
  "leaves_desc a m \<equiv> post m (\<lambda>r. \<forall>p n s. r = Some (p, n, s) \<longrightarrow> app s = a)"

lemma str_leaves: "app s = a \<Longrightarrow> post (str_descriptor str s) (\<lambda>x. \<forall>p n s. x = (p, n, s) \<longrightarrow> app s = a)"
  by (auto simp: str_descriptor_def post_def outcome_simps)

lemma retype_leaves: "app s = a \<Longrightarrow> (\<And>s. \<exists>p n. get s = (p, n, s)) \<Longrightarrow> leaves_desc a (retype t get s)"
proof -
  assume s: "app s = a" and g: "\<And>s. \<exists>p n. get s = (p, n, s)"
  obtain p n where get: "get s = (p, n, s)" using g by blast
  have "leaves a (usb_write (ptr_add p 1) [t] s)" by (rule usb_write_leaves [OF s])
  then show ?thesis unfolding retype_def via_class_def get by (auto simp: post_def outcome_simps)
qed

lemma string_leaves: "app s = a \<Longrightarrow> leaves_desc a (string_descriptor i s)"
  unfolding string_descriptor_def Let_def
  by (intro same_if; simp add: via_desc_def descriptor_defs str_leaves post_simps)

lemma find_descriptor_leaves: "app s = a \<Longrightarrow> leaves_desc a (find_descriptor (USBD_CDC rx) s)"
  unfolding find_descriptor_def Let_def USBD_CDC_def
  by (intro same_if string_leaves retype_leaves; simp add: via_desc_def via_class_def descriptor_defs post_simps)

lemma GetDescriptor_leaves [leaves]:
  assumes "app s = a"
  shows "leaves a (USBD_GetDescriptor (USBD_CDC rx) s)"
  unfolding USBD_GetDescriptor_def post_simps
proof (rule post_mono [OF find_descriptor_leaves [OF assms]])
  fix r :: "(usb_ptr \<times> u16 \<times> 'a usbd) option"
  assume "\<forall>p n s1. r = Some (p, n, s1) \<longrightarrow> app s1 = a"
  then show "leaves a (case r of None \<Rightarrow> USBD_CtlError s
     | Some (pbuf, len, s1) \<Rightarrow> (let wl = wLength (request (pdev s1)) in
          if len \<noteq> 0 \<and> wl \<noteq> 0 then USBD_CtlSendData pbuf (if len < wl then len else wl) s1 else Inr s1))"
    using assms by (auto simp: Let_def post_simps split: option.splits intro!: leaves)
qed

section \<open>The class\<close>

lemma CDC_buffers_leave [leaves]:
  "app s = a \<Longrightarrow> leaves a (USBD_CDC_SetTxBuffer p n s)" "app s = a \<Longrightarrow> leaves a (USBD_CDC_SetRxBuffer p s)"
  unfolding USBD_CDC_SetTxBuffer_def USBD_CDC_SetRxBuffer_def by (intro leaves; simp)+

lemma CDC_Init_FS_leaves [leaves]: "app s = a \<Longrightarrow> leaves a (CDC_Init_FS s)"
  unfolding CDC_Init_FS_def by (intro leaves; simp)

lemma CDC_Control_FS_leaves [leaves]: "app s = a \<Longrightarrow> leaves a (CDC_Control_FS cmd p n s)"
  unfolding CDC_Control_FS_def
  by (intro leaves) (auto simp: post_simps post_def [of "usb_read _ _ _"])

lemma CDC_ReceivePacket_leaves [leaves]: "app s = a \<Longrightarrow> leaves a (drop_status (USBD_CDC_ReceivePacket s))"
  by (auto simp: USBD_CDC_ReceivePacket_def USBD_LL_PrepareReceive_def drop_status_def with_pcd_def post_def outcome_simps
      split: option.splits if_splits)

lemma CDC_Init_leaves: "app s = a \<Longrightarrow> post (USBD_CDC_Init c s) (\<lambda>(_, s'). app s' = a)"
  unfolding USBD_CDC_Init_def LL_defs Let_def
  by (intro leaves_then leaves same_if; (intro leaves_then leaves with_hcdc_same)?; simp add: post_simps)

lemma CDC_DeInit_leaves [leaves]: "app s = a \<Longrightarrow> leaves a (USBD_CDC_DeInit c s)"
  unfolding USBD_CDC_DeInit_def LL_defs CDC_DeInit_FS_def by (intro leaves; simp)

lemma CDC_Setup_leaves [leaves]: "app s = a \<Longrightarrow> leaves a (USBD_CDC_Setup s)"
  unfolding USBD_CDC_Setup_def Let_def by (intro leaves; simp)

lemma EP0_RxReady_leaves [leaves]: "app s = a \<Longrightarrow> leaves a (USBD_CDC_EP0_RxReady s)"
  unfolding USBD_CDC_EP0_RxReady_def by (intro leaves; simp)

section \<open>Requests\<close>

lemma config_class_leaves [leaves]: "app s = a \<Longrightarrow> leaves a (config_class (USBD_CDC rx) c s)"
  unfolding config_class_def USBD_SetClassConfig_def USBD_CDC_def
  by (auto simp: post_simps intro!: post_mono [OF CDC_Init_leaves [OF refl]] leaves)

lemma requests_leave [leaves]:
  assumes "app s = a"
  shows "leaves a (USBD_SetAddress s)" "leaves a (USBD_SetConfig (USBD_CDC rx) s)" "leaves a (USBD_GetConfig s)"
    "leaves a (USBD_GetStatus s)" "leaves a (USBD_SetFeature (USBD_CDC rx) s)" "leaves a (USBD_ClrFeature (USBD_CDC rx) s)"
  unfolding USBD_SetAddress_def USBD_SetConfig_def USBD_GetConfig_def USBD_GetStatus_def USBD_SetFeature_def
    USBD_ClrFeature_def USBD_ClrClassConfig_def USBD_LL_SetUSBAddress_def Let_def
  by (intro leaves; simp add: assms USBD_CDC_def leaves)+

lemma feature_leaves [leaves]:
  assumes "app s = a"
  shows "leaves a (ep_set_feature (USBD_CDC rx) ad s)" "leaves a (ep_clear_feature (USBD_CDC rx) ad s)"
  unfolding ep_set_feature_def ep_clear_feature_def LL_defs Let_def
  by (intro leaves; simp add: assms USBD_CDC_def leaves)+

lemma set_ep_status_leaves: "app s = a \<Longrightarrow> post (set_ep_status ad v s) (\<lambda>(_, s'). app s' = a)"
  by (simp add: set_ep_status_def post_simps Let_def)

lemma ep_get_status_leaves [leaves]: "app s = a \<Longrightarrow> leaves a (ep_get_status ad s)"
  unfolding ep_get_status_def LL_defs
  by (intro leaves; (simp add: post_simps post_def [of "USBD_LL_IsStallEP _ _"])?)
    (auto intro!: post_mono [OF set_ep_status_leaves] leaves)

lemma SetupStage_leaves [leaves]: "app s = a \<Longrightarrow> leaves a (USBD_LL_SetupStage (USBD_CDC rx) d s)"
proof (cases "USBD_ParseSetupRequest d")
  case (Inr q)
  assume "app s = a"
  then show ?thesis
    unfolding USBD_LL_SetupStage_def Inr obind.simps USBD_StdDevReq_def USBD_StdItfReq_def USBD_StdEPReq_def LL_defs Let_def
    by (intro leaves; simp add: USBD_CDC_def leaves)
qed (simp add: USBD_LL_SetupStage_def post_simps)

section \<open>The events\<close>

lemma DataIn_leaves [leaves]: "app s = a \<Longrightarrow> leaves a (USBD_LL_DataInStage (USBD_CDC rx) k p s)"
  unfolding USBD_LL_DataInStage_def ep0_data_in_def LL_defs Let_def
  by (intro leaves; simp add: USBD_CDC_def USBD_CDC_DataIn_def leaves post_simps split: option.splits)

lemma Reset_leaves [leaves]: "app s = a \<Longrightarrow> leaves a (USBD_LL_Reset (USBD_CDC rx) s)"
  unfolding USBD_LL_Reset_def LL_defs Let_def
  by (intro leaves; simp add: USBD_CDC_def leaves)

lemma usb_write_rx: "app s = a \<Longrightarrow> leaves a (USB_ReadPacket usb_write p n fifo s)"
  by (simp add: USB_ReadPacket_def Let_def leaves)

lemma rx_pop_leaves: "app s = a \<Longrightarrow> leaves a (rx_pop temp fifo s)"
  unfolding rx_pop_def Let_def post_simps post_def [of "get_out _ _"]
  by (intro allI impI leaves usb_write_rx; simp add: post_simps post_def [of "USB_ReadPacket _ _ _ _ (hpcd s)"])

lemma event_leaves:
  assumes "app s = a" "\<And>k. e \<noteq> Out_xfrc k"
  shows "leaves a (irq_event (USBD_CDC rx) e s)"
proof (cases e)
  case (Out_xfrc k)
  then show ?thesis using assms(2) by simp
next
  case (In_xfrc k)
  then show ?thesis
    using assms(1) by (auto simp: irq_in_xfrc_def HAL_PCD_DataInStageCallback_def post_simps post_def [of "get_in _ _"] intro!: leaves)
next
  case (Tx_fifo_empty k sp)
  then show ?thesis
    using assms(1) by (auto simp: irq_tx_fifo_empty_def post_def outcome_simps)
next
  case (Enum_done d)
  then show ?thesis
    using assms(1) by (simp add: irq_enum_done_def HAL_PCD_ResetCallback_def USBD_LL_SetSpeed_def Let_def leaves)
next
  case (Rx_level t f)
  then show ?thesis
    using assms(1) by (auto simp: irq_rx_level_def intro!: leaves rx_pop_leaves)
next
  case (Session_end b)
  then show ?thesis
    using assms(1) by (auto simp: HAL_PCD_DisconnectCallback_def USBD_LL_DevDisconnected_def USBD_CDC_def intro!: leaves)
next
  case Setup_done
  then show ?thesis using assms(1) by (simp add: HAL_PCD_SetupStageCallback_def leaves)
qed (use assms(1) in \<open>auto simp: post_simps HAL_PCD_ResumeCallback_def USBD_LL_Resume_def HAL_PCD_SuspendCallback_def
    USBD_LL_Suspend_def irq_reset_def Let_def HAL_PCD_SOFCallback_def USBD_LL_SOF_def via_class_def USBD_CDC_def
    HAL_PCD_ConnectCallback_def HAL_PCD_ISOINIncompleteCallback_def HAL_PCD_ISOOUTIncompleteCallback_def
    USBD_LL_IsoINIncomplete_def USBD_LL_IsoOUTIncomplete_def USBD_LL_DevConnected_def\<close>)

section \<open>What the callback keeps\<close>

locale app_invariant =
  fixes rx :: "'a cdc_rx" and inv :: "'a \<Rightarrow> bool"
  assumes rx_keeps: "inv (app s) \<Longrightarrow> post (rx p n s) (\<lambda>(_, s'). inv (app s'))"

context app_invariant begin

lemma receive_keeps: "inv (app s) \<Longrightarrow> post (CDC_Receive_FS rx p n s) (\<lambda>(_, s'). inv (app s'))"
  unfolding CDC_Receive_FS_def
  by (intro leaves_then [OF CDC_buffers_leave(2) [OF refl]] leaves_then [OF CDC_ReceivePacket_leaves [OF refl]])
    (simp add: rx_keeps)

lemma DataOut_keeps: "inv (app s) \<Longrightarrow> post (USBD_CDC_DataOut rx k s) (\<lambda>s'. inv (app s'))"
  by (auto simp: USBD_CDC_DataOut_def post_simps post_def [of "USBD_LL_GetRxDataSize _ _"] with_hcdc_def via_user_def
      drop_status_def split: option.splits intro!: post_mono [OF receive_keeps])

lemma DataOutStage_keeps: "inv (app s) \<Longrightarrow> post (USBD_LL_DataOutStage (USBD_CDC rx) k p s) (\<lambda>s'. inv (app s'))"
proof (cases "k = 0")
  case True
  assume "inv (app s)"
  moreover have "leaves (app s) (USBD_LL_DataOutStage (USBD_CDC rx) k p s)"
    unfolding USBD_LL_DataOutStage_def Let_def using True
    by (simp add: USBD_CDC_def leaves)
  ultimately show ?thesis by (elim post_mono) simp
next
  case False
  assume "inv (app s)"
  then show ?thesis
    using False DataOut_keeps [of s k] by (simp add: USBD_LL_DataOutStage_def USBD_CDC_def via_class_def post_simps)
qed

lemma event_keeps: "inv (app s) \<Longrightarrow> post (irq_event (USBD_CDC rx) e s) (\<lambda>s'. inv (app s'))"
proof (cases "\<exists>k. e = Out_xfrc k")
  case True
  assume "inv (app s)"
  then show ?thesis
    using True by (auto simp: HAL_PCD_DataOutStageCallback_def post_simps post_def [of "get_out _ _"] DataOutStage_keeps)
next
  case False
  assume "inv (app s)"
  then show ?thesis using event_leaves [OF refl, of e rx s] False by (auto elim!: post_mono)
qed

end

end
