(* ===== verification/MainLoop.thy ===== *)
theory MainLoop
  imports UsbTx
begin

text \<open>
  The firmware around the USB stack: the main loop of \<open>Src/main.c\<close> with its one hertz branch, the
  system tick (\<open>SysTick_Handler\<close> of \<open>Src/stm32f4xx_it.c\<close>, \<open>HAL_IncTick\<close> and \<open>HAL_GetTick\<close> of
  \<open>stm32f4xx_hal.c\<close>), and the application of \<open>tst/tst_helloword_usb.c\<close> in it. The application
  functions are weak symbols (\<open>tst/tst_iface.h\<close>): \<open>None\<close> is one that no file defines, whose call the
  linker drops.
\<close>

section \<open>The code\<close>

record 's application =
  app_init :: "('s \<Rightarrow> 's outcome) option"
  app_1hz :: "('s \<Rightarrow> 's outcome) option"
  app_main :: "('s \<Rightarrow> 's outcome) option"

definition weak_call :: "('s \<Rightarrow> 's outcome) option \<Rightarrow> 's \<Rightarrow> 's outcome" where
  "weak_call f s = (case f of None \<Rightarrow> Inr s | Some g \<Rightarrow> g s)"

record 's firmware =
  uwTick :: u32
  ulStamp_ms :: u32
  device :: 's

text \<open>\<open>uwTickFreq\<close> is \<open>HAL_TICK_FREQ_1KHZ\<close>, one.\<close>

definition HAL_IncTick :: "'s firmware \<Rightarrow> 's firmware" where
  "HAL_IncTick f = f\<lparr>uwTick := uwTick f + 1\<rparr>"

definition HAL_GetTick :: "'s firmware \<Rightarrow> u32" where
  "HAL_GetTick f = uwTick f"

definition SysTick_Handler :: "'s firmware \<Rightarrow> 's firmware" where
  "SysTick_Handler f = HAL_IncTick f"

text \<open>One pass through \<open>while (1)\<close>\<close>

definition main_iteration :: "'s application \<Rightarrow> 's firmware \<Rightarrow> 's firmware outcome" where
  "main_iteration ap f =
     (let ulDly_ms = HAL_GetTick f in
      obind (if 1000 < ulDly_ms - ulStamp_ms f
             then obind (weak_call (app_1hz ap) (device f)) (\<lambda>d. Inr (f\<lparr>ulStamp_ms := ulDly_ms, device := d\<rparr>))
             else Inr f)
        (\<lambda>f1. obind (weak_call (app_main ap) (device f1)) (\<lambda>d. Inr (f1\<lparr>device := d\<rparr>))))"

text \<open>The part of \<open>main\<close> before the loop, when it ends at the tick \<open>t\<close>\<close>

definition main_start :: "'s application \<Rightarrow> 's outcome \<Rightarrow> u32 \<Rightarrow> 's firmware outcome" where
  "main_start ap usb_init t =
     obind usb_init (\<lambda>d. obind (weak_call (app_init ap) d) (\<lambda>d1.
     Inr \<lparr>uwTick = t, ulStamp_ms = t, device = d1\<rparr>))"

text \<open>The loop, with the interrupts between its passes\<close>

datatype main_event = Sys_tick | Otg_fs pcd_event | Iteration

fun main_step :: "'a cdc_rx \<Rightarrow> 'a usbd application \<Rightarrow> main_event \<Rightarrow> 'a usbd firmware \<Rightarrow> 'a usbd firmware outcome" where
  "main_step rx ap Sys_tick f = Inr (SysTick_Handler f)"
| "main_step rx ap (Otg_fs e) f = obind (irq_event (USBD_CDC rx) e (device f)) (\<lambda>d. Inr (f\<lparr>device := d\<rparr>))"
| "main_step rx ap Iteration f = main_iteration ap f"

fun main_run :: "'a cdc_rx \<Rightarrow> 'a usbd application \<Rightarrow> main_event list \<Rightarrow> 'a usbd firmware \<Rightarrow> 'a usbd firmware outcome" where
  "main_run rx ap [] f = Inr f"
| "main_run rx ap (e # es) f = obind (main_step rx ap e f) (main_run rx ap es)"

lemma main_run_append: "main_run rx ap (es @ fs) f = obind (main_run rx ap es f) (main_run rx ap fs)"
proof (induction es arbitrary: f)
  case (Cons e es)
  show ?case by (cases "main_step rx ap e f") (simp_all add: Cons.IH)
qed simp

section \<open>Time\<close>

text \<open>
  When the one hertz branch is taken, in unbounded time: \<open>ks\<close> are the ticks before each pass.
\<close>

fun due_times :: "nat \<Rightarrow> nat \<Rightarrow> nat list \<Rightarrow> nat list" where
  "due_times st now [] = []"
| "due_times st now (k # ks) =
     (if 1000 < now + k - st then (now + k) # due_times (now + k) (now + k) ks else due_times st (now + k) ks)"

lemma due_spacing:
  assumes "st \<le> now" "now - st \<le> 1000" "\<forall>k \<in> set ks. k \<le> K" "(a, b) \<in> set (zip (st # due_times st now ks) (due_times st now ks))"
  shows "a + 1000 < b \<and> b \<le> a + 1000 + K"
  using assms
proof (induction st now ks rule: due_times.induct)
  case (2 st now k ks)
  show ?case
  proof (cases "1000 < now + k - st")
    case True
    have "now + k \<le> st + 1000 + K" using "2.prems"(1-3) by auto
    moreover have "(a, b) = (st, now + k) \<or> (a, b) \<in> set (zip ((now + k) # due_times (now + k) (now + k) ks) (due_times (now + k) (now + k) ks))"
      using "2.prems"(4) True by auto
    ultimately show ?thesis using "2.IH"(1) [OF True] "2.prems"(3) True by auto
  next
    case False
    then show ?thesis using "2.IH"(2) "2.prems" by auto
  qed
qed simp

lemma due_branch:
  assumes "st \<le> now" "now - st < 2 ^ 32"
  shows "(1000 :: u32) < of_nat now - of_nat st \<longleftrightarrow> 1000 < now - st"
proof -
  have "(of_nat now - of_nat st :: u32) = of_nat (now - st)" using assms(1) by simp
  then show ?thesis using assms(2) by (simp add: word_less_nat_alt unat_of_nat take_bit_nat_eq_self)
qed

lemma ticks_run: "main_run rx ap (replicate k Sys_tick) f = Inr (f\<lparr>uwTick := uwTick f + of_nat k\<rparr>)"
  by (induction k arbitrary: f) (simp_all add: SysTick_Handler_def HAL_IncTick_def algebra_simps)

lemma otg_run: "main_run rx ap (map Otg_fs es) f = obind (usb_run (USBD_CDC rx) es (device f)) (\<lambda>d. Inr (f\<lparr>device := d\<rparr>))"
proof (induction es arbitrary: f)
  case (Cons e es)
  show ?case by (cases "irq_event (USBD_CDC rx) e (device f)") (simp_all add: Cons.IH del: irq_event.simps)
qed simp

section \<open>Hello World, once per second\<close>

definition hello_app :: "'a usbd application" where
  "hello_app = \<lparr>app_init = None, app_1hz = Some tst_loop_1hz, app_main = None\<rparr>"

text \<open>Passes of the loop, each after some ticks; the host reads after each transmission.\<close>

fun hello_events :: "nat \<Rightarrow> nat \<Rightarrow> (nat \<times> (nat \<Rightarrow> u32)) list \<Rightarrow> main_event list" where
  "hello_events st now [] = []"
| "hello_events st now ((k, sp) # rs) = replicate k Sys_tick @ Iteration #
     (if 1000 < now + k - st
      then map Otg_fs [Tx_fifo_empty 1 sp, In_xfrc 1] @ hello_events (now + k) (now + k) rs
      else hello_events st (now + k) rs)"

definition can_greet :: "'a usbd \<Rightarrow> bool" where
  "can_greet s \<longleftrightarrow> usb_wf s \<and> dev_state (pdev s) = USBD_STATE_CONFIGURED
     \<and> (case pClassData (pdev s) of None \<Rightarrow> False | Some h \<Rightarrow> TxState h = 0)
     \<and> ep_type (IN_ep (hpcd s) ! 1) = EP_TYPE_BULK \<and> ep_maxpacket (IN_ep (hpcd s) ! 1) = 64"

lemma hello_sent:
  assumes "can_greet s" "room 64 sp"
  shows "\<exists>s1 s2. tst_loop_1hz s = Inr s1 \<and> usb_run (USBD_CDC rx) [Tx_fifo_empty 1 sp, In_xfrc 1] s1 = Inr s2
     \<and> can_greet s2 \<and> DFIFO (Instance (hpcd s2)) 1 = DFIFO (Instance (hpcd s)) 1 @ [hello_bytes]"
proof -
  obtain h where h: "usb_wf s" "dev_state (pdev s) = 3" "pClassData (pdev s) = Some h" "TxState h = 0"
      "ep_type (IN_ep (hpcd s) ! 1) = 2" "ep_maxpacket (IN_ep (hpcd s) ! 1) = 64"
    using assms(1) by (auto simp: can_greet_def split: option.splits)
  have hello: "length hello_bytes = 14" "chunks 64 hello_bytes = [hello_bytes]"
    by (simp_all add: hello_bytes_def chunks.simps)
  have load: "usb_load s (App_buffer hello_bytes) = Inr hello_bytes" by (simp add: usb_load_def)
  obtain s1 s2 h2 where "CDC_Transmit_FS (Some (App_buffer hello_bytes, 0)) 14 s = Inr (USBD_OK_st, s1)"
      "usb_run (USBD_CDC rx) (map (Tx_fifo_empty 1) [sp] @ [In_xfrc 1]) s1 = Inr s2"
      "DFIFO (Instance (hpcd s2)) 1 = DFIFO (Instance (hpcd s)) 1 @ [hello_bytes]"
      "pClassData (pdev s2) = Some h2" "TxState h2 = 0" "usb_wf s2" "dev_state (pdev s2) = 3" "tx_like 1 (hpcd s) (hpcd s2)"
    using transmission [OF h(1-5), of 64 "App_buffer hello_bytes" hello_bytes 14 "[sp]" rx] h(6) load assms(2) hello by auto
  then show ?thesis
    using h(5,6) hello(1)
    by (intro exI [of _ s1] exI [of _ s2]) (simp add: tst_loop_1hz_def drop_status_def can_greet_def tx_like_def del: irq_event.simps)
qed

lemma hello_busy:
  assumes "can_greet s"
  shows "\<exists>s1 h1. tst_loop_1hz s = Inr s1 \<and> pClassData (pdev s1) = Some h1 \<and> TxState h1 \<noteq> 0"
proof -
  obtain h where h: "usb_wf s" "pClassData (pdev s) = Some h" "TxState h = 0"
      "ep_type (IN_ep (hpcd s) ! 1) = 2" "ep_maxpacket (IN_ep (hpcd s) ! 1) = 64"
    using assms by (auto simp: can_greet_def split: option.splits)
  have load: "usb_load s (App_buffer hello_bytes) = Inr hello_bytes" by (simp add: usb_load_def)
  have hello: "length hello_bytes = 14" by (simp add: hello_bytes_def)
  obtain h' hc where "CDC_Transmit_FS (Some (App_buffer hello_bytes, 0)) 14 s = Inr (USBD_OK_st, (set_hcdc hc s)\<lparr>hpcd := h'\<rparr>)"
      "TxState hc = 1"
    using CDC_Transmit_starts [OF h(1-3) _ load, of 14] h(4,5) hello by auto
  then show ?thesis using hello(1) by (auto simp: tst_loop_1hz_def drop_status_def set_hcdc_def set_pdev_def)
qed

lemma hello_run:
  assumes "can_greet (device f)" "ulStamp_ms f = of_nat st" "uwTick f = of_nat now" "st \<le> now" "now - st \<le> 1000"
    and "\<forall>(k, sp) \<in> set rs. k \<le> K \<and> room 64 sp" "K + 1000 < 2 ^ 32"
  shows "\<exists>f'. main_run rx hello_app (hello_events st now rs) f = Inr f' \<and> can_greet (device f')
     \<and> DFIFO (Instance (hpcd (device f'))) 1
         = DFIFO (Instance (hpcd (device f))) 1 @ replicate (length (due_times st now (map fst rs))) hello_bytes"
  using assms(1-6)
proof (induction rs arbitrary: st now f)
  case (Cons r rs)
  obtain k sp where r: "r = (k, sp)" by (cases r)
  have k: "k \<le> K" "room 64 sp" using Cons.prems(6) r by auto
  define f1 where "f1 = f\<lparr>uwTick := uwTick f + of_nat k\<rparr>"
  have f1: "main_run rx hello_app (replicate k Sys_tick) f = Inr f1" "uwTick f1 = of_nat (now + k)" "ulStamp_ms f1 = of_nat st"
      "device f1 = device f"
    using Cons.prems(2,3) by (simp_all add: ticks_run f1_def)
  have lt: "now + k - st < 2 ^ 32" using k(1) Cons.prems(4,5) assms(7) by simp
  have br: "(1000 :: u32) < uwTick f1 - ulStamp_ms f1 \<longleftrightarrow> 1000 < now + k - st"
    unfolding f1(2,3) using lt Cons.prems(4) by (intro due_branch) auto
  show ?case
  proof (cases "1000 < now + k - st")
    case True
    obtain s1 s2 where s: "tst_loop_1hz (device f) = Inr s1" "usb_run (USBD_CDC rx) [Tx_fifo_empty 1 sp, In_xfrc 1] s1 = Inr s2"
        "can_greet s2" "DFIFO (Instance (hpcd s2)) 1 = DFIFO (Instance (hpcd (device f))) 1 @ [hello_bytes]"
      using hello_sent [OF Cons.prems(1) k(2), of rx] by blast
    define f2 where "f2 = f1\<lparr>ulStamp_ms := uwTick f1, device := s1\<rparr>"
    have f2: "main_iteration hello_app f1 = Inr f2"
      using br True s(1) f1(4) by (simp add: main_iteration_def HAL_GetTick_def hello_app_def weak_call_def f2_def)
    define f3 where "f3 = f2\<lparr>device := s2\<rparr>"
    have f3: "main_run rx hello_app (map Otg_fs [Tx_fifo_empty 1 sp, In_xfrc 1]) f2 = Inr f3"
      unfolding otg_run using s(2) by (simp add: f2_def f3_def)
    have "\<exists>f'. main_run rx hello_app (hello_events (now + k) (now + k) rs) f3 = Inr f' \<and> can_greet (device f')
       \<and> DFIFO (Instance (hpcd (device f'))) 1 = DFIFO (Instance (hpcd (device f3))) 1
           @ replicate (length (due_times (now + k) (now + k) (map fst rs))) hello_bytes"
      by (rule Cons.IH) (use s(3) f1(2) Cons.prems(6) in \<open>simp_all add: f3_def f2_def\<close>)
    moreover have "due_times st now (map fst (r # rs)) = (now + k) # due_times (now + k) (now + k) (map fst rs)"
      using True r by simp
    moreover have "hello_events st now (r # rs) = replicate k Sys_tick @ Iteration # map Otg_fs [Tx_fifo_empty 1 sp, In_xfrc 1]
        @ hello_events (now + k) (now + k) rs"
      using True r by simp
    moreover have "DFIFO (Instance (hpcd (device f3))) 1 = DFIFO (Instance (hpcd (device f))) 1 @ [hello_bytes]"
      using s(4) by (simp add: f3_def)
    ultimately show ?thesis
      using f1(1) f2 f3 by (auto simp: main_run_append simp del: list.map irq_event.simps hello_events.simps)
  next
    case False
    have f2: "main_iteration hello_app f1 = Inr f1"
      using br False by (simp add: main_iteration_def HAL_GetTick_def hello_app_def weak_call_def)
    have "\<exists>f'. main_run rx hello_app (hello_events st (now + k) rs) f1 = Inr f' \<and> can_greet (device f')
       \<and> DFIFO (Instance (hpcd (device f'))) 1 = DFIFO (Instance (hpcd (device f1))) 1
           @ replicate (length (due_times st (now + k) (map fst rs))) hello_bytes"
      by (rule Cons.IH) (use f1(2-4) Cons.prems False in auto)
    then show ?thesis using False f1(1,4) f2 by (auto simp: r main_run_append)
  qed
qed simp

text \<open>C19: the hello application greets once per second, also when the tick wraps around, as long as the
  host reads each greeting before the next one is due. On a configured device with a free port, whatever the 32-bit
  tick is and however the passes of the main loop are spaced (by at most \<open>K\<close> ticks), with a host that reads each
  greeting right after the pass that sends it (\<open>hello_events\<close>: the transmit FIFO has room, then the transfer
  completes), the host gets one greeting for each due pass, in whole, and no error occurs; due passes are more than a
  second apart, by at most \<open>K\<close> ticks more. When the host has not read the last greeting (the port is busy, \<open>sb\<close>),
  the due pass drops its greeting without trace: the device is left as it is, the answer of \<open>CDC_Transmit_FS\<close> is
  ignored and the next attempt comes a second later. A pass that is due before the host has configured the device
  (\<open>s0\<close>) follows the null class handle.\<close>

theorem hello_every_second:
  assumes "can_greet (device f)" "ulStamp_ms f = of_nat now" "uwTick f = of_nat now"
    and "\<forall>(k, sp) \<in> set rs. k \<le> K \<and> room 64 sp" "K + 1000 < 2 ^ 32"
    and "pClassData (pdev s0) = None" "pClassData (pdev sb) = Some hb" "TxState hb \<noteq> 0" "1000 < t - t0"
  shows "(\<exists>f'. main_run rx hello_app (hello_events now now rs) f = Inr f'
        \<and> DFIFO (Instance (hpcd (device f'))) 1
            = DFIFO (Instance (hpcd (device f))) 1 @ replicate (length (due_times now now (map fst rs))) hello_bytes)
     \<and> (\<forall>(a, b) \<in> set (zip (now # due_times now now (map fst rs)) (due_times now now (map fst rs))). a + 1000 < b \<and> b \<le> a + 1000 + K)
     \<and> main_iteration hello_app \<lparr>uwTick = t, ulStamp_ms = t0, device = sb\<rparr>
         = Inr \<lparr>uwTick = t, ulStamp_ms = t, device = sb\<rparr>
     \<and> main_iteration hello_app \<lparr>uwTick = t, ulStamp_ms = t0, device = s0\<rparr> = Inl Null_deref"
proof (intro conjI)
  show "\<exists>f'. main_run rx hello_app (hello_events now now rs) f = Inr f'
        \<and> DFIFO (Instance (hpcd (device f'))) 1
            = DFIFO (Instance (hpcd (device f))) 1 @ replicate (length (due_times now now (map fst rs))) hello_bytes"
    using hello_run [OF assms(1-3) _ _ assms(4,5), of rx] by auto
  have "\<forall>k \<in> set (map fst rs). k \<le> K" using assms(4) by auto
  then show "\<forall>(a, b) \<in> set (zip (now # due_times now now (map fst rs)) (due_times now now (map fst rs))). a + 1000 < b \<and> b \<le> a + 1000 + K"
    using due_spacing [of now now "map fst rs" K] by auto
  show "main_iteration hello_app \<lparr>uwTick = t, ulStamp_ms = t0, device = sb\<rparr>
      = Inr \<lparr>uwTick = t, ulStamp_ms = t, device = sb\<rparr>"
    using assms(7-9) by (simp add: main_iteration_def HAL_GetTick_def hello_app_def weak_call_def tst_loop_1hz_def
        CDC_Transmit_FS_def with_hcdc_def drop_status_def)
  show "main_iteration hello_app \<lparr>uwTick = t, ulStamp_ms = t0, device = s0\<rparr> = Inl Null_deref"
    using assms(6,9) by (simp add: main_iteration_def HAL_GetTick_def hello_app_def weak_call_def tst_loop_1hz_def
        CDC_Transmit_FS_def with_hcdc_def drop_status_def)
qed

lemma hello_every_second_witness:
  "\<exists>s f' sb s0. usb_reach echo_rx (s :: unit usbd)
     \<and> main_run echo_rx hello_app (hello_events 4294967000 4294967000 [(600, \<lambda>_. 128), (600, \<lambda>_. 128), (1100, \<lambda>_. 128)])
         \<lparr>uwTick = 0xFFFFFED8, ulStamp_ms = 0xFFFFFED8, device = s\<rparr> = Inr f'
     \<and> DFIFO (Instance (hpcd (device f'))) 1 = [hello_bytes, hello_bytes]
     \<and> tst_loop_1hz s = Inr sb
     \<and> main_iteration hello_app \<lparr>uwTick = 1001, ulStamp_ms = 0, device = sb\<rparr>
         = Inr \<lparr>uwTick = 1001, ulStamp_ms = 1001, device = sb\<rparr>
     \<and> main_iteration hello_app \<lparr>uwTick = 1001, ulStamp_ms = 0, device = s0 :: unit usbd\<rparr> = Inl Null_deref"
proof -
  obtain s where s: "usb_reach echo_rx (s :: unit usbd)" "can_greet s" "DFIFO (Instance (hpcd s)) 1 = []"
    using example_configured by (auto simp: can_greet_def split: option.splits)
  let ?rs = "[(600, \<lambda>_. 128), (600, \<lambda>_. 128), (1100, \<lambda>_. 128)] :: (nat \<times> (nat \<Rightarrow> u32)) list"
  let ?f = "\<lparr>uwTick = 0xFFFFFED8, ulStamp_ms = 0xFFFFFED8, device = s\<rparr>"
  define s0 :: "unit usbd" where "s0 = set_pdev (\<lambda>d. d\<lparr>pClassData := None\<rparr>) s"
  have none: "pClassData (pdev s0) = None" by (simp add: s0_def set_pdev_def)
  obtain sb hb where sb: "tst_loop_1hz s = Inr sb" "pClassData (pdev sb) = Some hb" "TxState hb \<noteq> 0"
    using hello_busy [OF s(2)] by blast
  have rs: "\<forall>(k, sp) \<in> set ?rs. k \<le> 1100 \<and> room 64 sp" by (simp add: room_def)
  have due: "length (due_times 4294967000 4294967000 (map fst ?rs)) = 2" by simp
  have tick: "ulStamp_ms ?f = of_nat 4294967000" "uwTick ?f = of_nat 4294967000" "can_greet (device ?f)" using s(2) by simp_all
  have "(1000 :: u32) < 1001 - 0" "1100 + 1000 < (2 :: nat) ^ 32" by simp_all
  from hello_every_second [OF tick(3,1,2) rs this(2) none sb(2,3) this(1), of echo_rx] due s(1,3) sb(1) show ?thesis
    by (auto simp: numeral_2_eq_2 simp del: hello_events.simps)
qed

end
