(* ===== verification/BoardRuns.thy ===== *)
theory BoardRuns
  imports UsbBoard UsbApp UsbSafe MainLoop
begin

text \<open>
  Runs of the whole board: USB events in any order with iterations of the main loop. What every event keeps
  of the slave and of the stack, the one way in which an iteration faults, and a request that is lost.
\<close>

section \<open>The application of the main loop\<close>

text \<open>
  \<open>tst_select.h\<close> selects this application. It defines no \<open>tst_loop_1hz\<close>.
\<close>

definition proto_application :: "board_usb application" where
  "proto_application =
     \<lparr>app_init = Some (\<lambda>s. obind (tst_init True True True usb_transmit (usb_with () s)) (\<lambda>(b, t). Inr (board_into t))),
      app_1hz = None, app_main = Some (usb_board_step Loop)\<rparr>"

lemma tst_init_total: "\<exists>t. tst_init True True True transmit u = Inr (board_bind transmit, t)"
  by (simp add: tst_init_def devstm32_create_def devstm32_init_def devstm32_open_def proto_slave_create_def
      proto_create_def proto_setReceiver_def)

lemma usb_with_app: "usb_with a s = s\<lparr>app := a\<rparr>" for s :: "'a usbd"
  by (simp add: usb_with_def)

lemma proto_application_init: "\<exists>a. weak_call (app_init proto_application) s = Inr (s\<lparr>app := a\<rparr>)"
proof -
  obtain t where t: "tst_init True True True usb_transmit (usb_with () s) = Inr (board_bind usb_transmit, t)"
    using tst_init_total [of usb_transmit "usb_with () s"] by blast
  have u: "stm32_usb t = usb_with () s" using tst_init_ok [OF t] by blast
  have "\<exists>a. board_into t = usb_with a s" unfolding board_into_def u usb_with_simps(6) by blast
  then have "\<exists>a. board_into t = s\<lparr>app := a\<rparr>" unfolding usb_with_app .
  moreover have "weak_call (app_init proto_application) s = Inr (board_into t)"
    unfolding proto_application_def weak_call_def application.simps option.case t obind.simps prod.case by (rule refl)
  ultimately show ?thesis by simp
qed

section \<open>What every event keeps\<close>

definition slave_ok :: "unit tst_state \<Rightarrow> bool" where
  "slave_ok a \<longleftrightarrow> fifo_inv (stm32_user a) \<and> length (myTable a) = 5 \<and> unat (priv_nbBytes (protoSlave a)) \<le> 5"

interpretation proto_app: app_invariant proto_rx slave_ok
proof
  fix s :: board_usb and p n
  assume s: "slave_ok (app s)"
  have "post (CDC_Receive_FS_user bs n (app s)) (\<lambda>(_, a). slave_ok a)" for bs
  proof -
    have "fifo_inv q" if "ofold push_byte bs' (stm32_user (app s)) = Inr q" for bs' q
      using push_all_spec [of "stm32_user (app s)" bs'] s that by (auto simp: slave_ok_def)
    then show ?thesis
      using s by (auto simp: CDC_Receive_FS_user_def devstm32_pushBytes_def slave_ok_def post_def outcome_simps)
  qed
  then show "post (proto_rx p n s) (\<lambda>(_, s'). slave_ok (app s'))"
    by (auto simp: proto_rx_def post_def outcome_simps)
qed

definition board_ok :: "board_usb \<Rightarrow> bool" where
  "board_ok s \<longleftrightarrow> usb_wf s \<and> slave_ok (app s)"

lemma irq_keeps_ok: "board_ok s \<Longrightarrow> irq_event (USBD_CDC proto_rx) e s = Inr s' \<Longrightarrow> board_ok s'"
  using board.irq_to [of e s] proto_app.event_keeps [of s e] by (simp add: board_ok_def post_def dev_to_def)

text \<open>The transmission of a reply returns when there is a class handle, and follows the null pointer otherwise.\<close>

lemma start_returns:
  "\<lbrakk>ep_is_in ep = 1; rd (xfer_buff ep) (unat (ucast (xfer_len ep) :: u16)) = Inr d\<rbrakk> \<Longrightarrow> \<exists>r'. USB_EPStartXfer rd ep r = Inr r'"
  by (simp add: USB_EPStartXfer_def USB_WritePacket_def Let_def)

lemma LL_Transmit_returns:
  assumes "usb_wf s" "unat n \<le> length bs"
  shows "\<exists>st s'. USBD_LL_Transmit CDC_IN_EP (Some (App_buffer bs, 0)) n s = Inr (st, s')"
proof -
  have idx: "ep_index CDC_IN_EP = 1" "CDC_IN_EP AND 0x7F = 1" by (simp_all add: ep_index_def)
  define ep where "ep = (IN_ep (hpcd s) ! 1)\<lparr>xfer_buff := Some (App_buffer bs, 0), xfer_len := ucast n, xfer_count := 0, ep_is_in := 1, ep_num := 1\<rparr>"
  have nn: "(ucast (ucast n :: u32) :: u16) = n" by (rule bit_word_eqI) (simp add: bit_simps)
  have "usb_read s (Some (App_buffer bs, 0)) (unat n) = Inr (take (unat n) bs)"
    using assms(2) by (simp add: usb_read_def usb_load_def buf_read_def)
  then obtain r' where "USB_EPStartXfer (usb_read s) ep (Instance (hpcd s)) = Inr r'"
    using start_returns [of ep "usb_read s"] by (auto simp: ep_def nn)
  then show ?thesis
    using assms(1) idx
    by (simp add: USBD_LL_Transmit_def with_pcd_def HAL_PCD_EP_Transmit_def get_in_def usb_wf_def Let_def ep_def)
qed

lemma CDC_Transmit_returns:
  assumes "usb_wf s" "pClassData (pdev s) = Some h" "unat n \<le> length bs"
  shows "\<exists>r. CDC_Transmit_FS (Some (App_buffer bs, 0)) n s = Inr r"
proof (cases "TxState h = 0")
  case False
  then show ?thesis using assms(2) by (simp add: CDC_Transmit_FS_def with_hcdc_def)
next
  case True
  define hc where "hc = h\<lparr>TxBuffer := Some (App_buffer bs, 0), TxLength := ucast n, TxState := 1\<rparr>"
  have "(ucast (ucast n :: u32) :: u16) = n" by (rule bit_word_eqI) (simp add: bit_simps)
  moreover obtain st s' where "USBD_LL_Transmit CDC_IN_EP (Some (App_buffer bs, 0)) n (set_hcdc hc s) = Inr (st, s')"
    using LL_Transmit_returns [OF wf_hcdc [OF assms(1)] assms(3)] by blast
  ultimately show ?thesis
    using assms(2) True
    by (simp add: CDC_Transmit_FS_def with_hcdc_def USBD_CDC_SetTxBuffer_def USBD_CDC_TransmitPacket_def set_hcdc_def
        set_pdev_def hc_def drop_status_def)
qed

lemma usb_transmit_none: "pClassData (pdev u) = None \<Longrightarrow> usb_transmit bs u = Inl Null_deref"
  by (simp add: usb_transmit_def CDC_Transmit_FS_def with_hcdc_def)

lemma usb_transmit_some:
  assumes "usb_wf u" "pClassData (pdev u) \<noteq> None"
  shows "\<exists>r u'. usb_transmit bs u = Inr (r, u') \<and> usb_wf u'"
proof -
  obtain h where "pClassData (pdev u) = Some h" using assms(2) by blast
  moreover have "unat (of_nat (length bs) :: u16) \<le> length bs" by (simp add: unat_of_nat)
  ultimately obtain st u' where "CDC_Transmit_FS (Some (App_buffer bs, 0)) (of_nat (length bs)) u = Inr (st, u')"
    using CDC_Transmit_returns [OF assms(1)] by force
  then show ?thesis
    using CDC_Transmit_FS_same [of "Some (App_buffer bs, 0)" "of_nat (length bs)" u] assms(1)
    by (auto simp: usb_transmit_def post_def dev_same_def)
qed

lemma loop_outcome:
  assumes "board_ok s"
  shows "(\<exists>s'. usb_board_step Loop s = Inr s' \<and> board_ok s')
     \<or> usb_board_step Loop s = Inl Null_deref \<and> pClassData (pdev s) = None"
proof -
  have s: "board_inv (board_of s)" "unat (priv_nbBytes (protoSlave (board_of s))) \<le> 5" "usb_wf s"
    using assms by (simp_all add: board_ok_def slave_ok_def board_inv_def)
  have into: "board_ok (board_into (t\<lparr>protoSlave := h\<rparr>))"
    if "board_inv t" "unat (priv_nbBytes h) \<le> 5" "usb_wf (stm32_usb t)" for t and h
    using that by (simp add: board_ok_def slave_ok_def board_inv_def board_into_def)
  from s(1,2) show ?thesis
  proof (cases rule: slave_main_cases [where transmit = usb_transmit])
    case (1 r h' t)
    then show ?thesis using into [of t h'] s(3) by (simp add: tst_loop_main_def)
  next
    case (2 h2 cmd args t)
    define f where "f = proto_makeFrame (priv_frame h2) cmd args"
    define bs where "bs = take (unat (fst f)) (frame_bytes (snd f))"
    have wr: "proto_writeFrame (board_bind usb_transmit) h2 cmd args t
        = obind (usb_transmit bs (stm32_usb t)) (\<lambda>(r, u). Inr (if r \<noteq> USBD_OK then - 1 else 0,
            h2\<lparr>priv_frame := snd f\<rparr>, t\<lparr>stm32_usb := u\<rparr>))"
      by (simp add: proto_writeFrame_def f_def bs_def case_prod_unfold stm32_dev_def devstm32_write_def outcome_simps Let_def)
    show ?thesis
    proof (cases "pClassData (pdev s) = None")
      case True
      then have "usb_transmit bs (stm32_usb t) = Inl Null_deref" using 2(4) by (simp add: usb_transmit_none)
      then show ?thesis using 2(1) wr True by (simp add: tst_loop_main_def)
    next
      case False
      then obtain r u where u: "usb_transmit bs (stm32_usb t) = Inr (r, u)" "usb_wf u"
        using usb_transmit_some [of "stm32_usb t" bs] 2(4) s(3) by auto
      have "board_inv (t\<lparr>stm32_usb := u\<rparr>)" using 2(2) by (simp add: board_inv_def)
      then show ?thesis
        using into [of "t\<lparr>stm32_usb := u\<rparr>" "h2\<lparr>priv_frame := snd f\<rparr>"] 2(1,3) wr u by (simp add: tst_loop_main_def)
    qed
  qed
qed

lemma run_keeps_ok: "board_ok s \<Longrightarrow> ofold usb_board_step es s = Inr s' \<Longrightarrow> board_ok s'"
proof (induction es arbitrary: s)
  case (Cons e es)
  then obtain s1 where s1: "usb_board_step e s = Inr s1" "ofold usb_board_step es s1 = Inr s'"
    by (auto simp: outcome_simps)
  have "board_ok s1"
    using Cons.prems(1) s1(1) loop_outcome [of s] irq_keeps_ok [of s _ s1] by (cases e) auto
  then show ?case using Cons.IH s1(2) by blast
qed simp

lemma started_ok:
  assumes "tst_init True True True usb_transmit (usb_with () s0) = Inr (b, t)" "usb_wf s0"
  shows "board_ok (board_into t)"
  using tst_init_ok [OF assms(1)] assms(2)
  by (simp add: board_ok_def slave_ok_def board_safe_def board_inv_def board_into_def)

section \<open>A bus reset before the reply\<close>

lemma Reset_works: "works s (USBD_LL_Reset (USBD_CDC rx) s)"
proof -
  have last: "works s (if pClassData (pdev s) \<noteq> None
      then via_class (\<lambda>s. cls_DeInit (USBD_CDC rx) (ucast (dev_config (pdev s))) s) s else Inr s)" for s :: "'a usbd"
    by (intro works_if via_works(1) works_Inr) (simp_all add: USBD_CDC_def CDC_DeInit_works)
  show ?thesis
    unfolding USBD_LL_Reset_def Let_def
    by (intro works_bind LL_works(1) upd_works [OF works_bind [OF LL_works(1)]] upd_works [OF last])
      (simp_all add: usb_wf_def set_pdev_def ep0_in_def ep0_out_def)
qed

lemma ResetCallback_works: "works s (HAL_PCD_ResetCallback (USBD_CDC rx) s)"
  unfolding HAL_PCD_ResetCallback_def USBD_LL_SetSpeed_def Let_def
  by (rule upd_works [OF Reset_works]) (simp add: usb_wf_def set_pdev_def)

lemma bus_reset_frees:
  assumes "board_ok s"
  shows "\<exists>s1. usb_run (USBD_CDC proto_rx) [Usb_reset, Enum_done d] s = Inr s1 \<and> board_ok s1 \<and> app s1 = app s
     \<and> pClassData (pdev s1) = None"
proof -
  let ?s = "irq_reset s"
  have s: "usb_wf ?s" "app ?s = app s"
    using irq_reset_same [of s] assms by (simp_all add: dev_same_def board_ok_def) (simp add: irq_reset_def Let_def)
  define s0 where "s0 = (on_regs (USB_ActivateSetup d) ?s)\<lparr>hpcd := enum_speed d (hpcd (on_regs (USB_ActivateSetup d) ?s))\<rparr>"
  have "usb_wf s0" using s(1) by (simp add: s0_def usb_wf_def on_regs_def enum_speed_def Let_def)
  then have "\<exists>s1. irq_event (USBD_CDC proto_rx) (Enum_done d) ?s = Inr s1"
    using ResetCallback_works [of s0 proto_rx] by (auto simp: irq_enum_done_def s0_def [symmetric] Let_def works_def)
  then obtain s1 where s1: "irq_event (USBD_CDC proto_rx) (Enum_done d) ?s = Inr s1" by blast
  have "dev_view s1 = ch9 (Enum_done d) (dev_view ?s)" "usb_wf s1"
    using board.irq_to [of "Enum_done d" ?s] s1 s(1) by (simp_all add: post_def dev_to_def del: irq_event.simps)
  moreover have "app s1 = app s"
    using event_leaves [OF refl, of "Enum_done d" proto_rx ?s] s1 s(2) by (simp add: post_def del: irq_event.simps)
  ultimately show ?thesis
    using s1 assms by (auto simp: board_ok_def dev_view_def simp del: irq_event.simps(8))
qed

lemma slave_reply_faults:
  assumes s: "board_inv s" "stm32_pending s = frame_sent f0 cmd args" "received [] (protoSlave s)"
    and cmd: "cmd \<in> {proto_CMD_SET, proto_CMD_GET}" and cls: "pClassData (pdev (stm32_usb s)) = None"
  shows "tst_loop_main (board_bind usb_transmit) s = Inl Null_deref"
proof -
  note uc = reg_cmd_ucast [OF cmd]
  define s2 where "s2 = stm32_take (length (stm32_pending s)) s"
  obtain q where q: "s2 = s\<lparr>stm32_user := q\<rparr>" unfolding s2_def using stm32_take_user by blast
  have inv: "stm32_inv s" using s(1) by (simp add: board_inv_def)
  have ne: "frame_sent f0 cmd args \<noteq> []" using wire_hd [OF wire_frame_sent [OF uc]] by auto
  obtain data h1 where main: "proto_slave_main (board_bind usb_transmit) (protoSlave s) s
         = obind (slave_receive cmd data s2) (\<lambda>(r, out, s2).
           obind (proto_writeFrame (board_bind usb_transmit) h1
                    (if r = 0 then proto_CMD_REPLY else proto_CMD_ERR_ARG) out s2)
             (\<lambda>(_, h3, s3). Inr (1, h3, s3)))"
    using stm32.slave_main_last [OF _ _ inv s(3) uc, of "board_bind usb_transmit" usb_transmit slave_receive f0 args]
      s(2) ne by (auto simp: s2_def)
  have "board_inv s2" using board_take_inv [OF s(1)] by (simp add: s2_def)
  then obtain r out s3 where cb: "slave_receive cmd data s2 = Inr (r, out, s3)"
    using board_regs.callback_total by blast
  then have "stm32_usb s3 = stm32_usb s" by (auto simp: slave_receive_def q split: if_splits)
  then have "proto_writeFrame (board_bind usb_transmit) h1 c out s3 = Inl Null_deref" for c
    using cls by (simp add: proto_writeFrame_def case_prod_unfold stm32_dev_def devstm32_write_def usb_transmit_none Let_def)
  then show ?thesis by (simp add: tst_loop_main_def main cb)
qed

text \<open>A packet that the ring can hold waits in it for the main loop.\<close>

lemma packet_waits:
  assumes s: "idle_port s" "board_holds [] (board_of s)" and c: "length c < 40" "c \<noteq> []" and pad: "word_filler c pad"
  shows "\<exists>s2. usb_run (USBD_CDC proto_rx) (out_events c pad) s = Inr s2 \<and> idle_port s2
     \<and> DFIFO (Instance (hpcd s2)) = DFIFO (Instance (hpcd s)) \<and> board_inv (board_of s2)
     \<and> stm32_pending (board_of s2) = c \<and> protoSlave (app s2) = protoSlave (app s) \<and> myTable (app s2) = myTable (app s)"
proof -
  have inv: "fifo_inv (stm32_user (app s))" "length (myTable (app s)) = 5" "stm32_pending (app s) = []"
    using s(2) by (simp_all add: board_holds_def board_inv_def)
  have "length c \<le> 64" using c(1) by simp
  from usb_packet [OF _ inv(1) this c(2) pad, of "board_bind usb_transmit"] s(1) obtain s2 where
    s2: "usb_run (USBD_CDC proto_rx) (out_events c pad) s = Inr s2" "port_ready s2" "port_free s2"
      "DFIFO (Instance (hpcd s2)) = DFIFO (Instance (hpcd s))"
      "board_step (board_bind usb_transmit) (Usb_packet c) ((board_of s)\<lparr>stm32_usb := usb_with () s2\<rparr>) = Inr (board_of s2)"
    by (auto simp: idle_port_def)
  obtain q where q: "board_of s2 = (board_of s)\<lparr>stm32_usb := usb_with () s2, stm32_user := q\<rparr>" "fifo_inv q" "fifo_items q = c"
    using packet_received [of "(board_of s)\<lparr>stm32_usb := usb_with () s2\<rparr>" c "board_bind usb_transmit"] inv c(1) s2(5)
    by (auto simp: Let_def)
  have "app s2 = (app s)\<lparr>stm32_user := q\<rparr>"
    using q(1) by (cases "app s2", cases "app s") (auto simp: board_of_def)
  then show ?thesis using s2 q inv(2) by (auto simp: idle_port_def board_inv_def)
qed

lemma request_then_reset:
  assumes s: "idle_port s" "board_ok s" "board_holds [] (board_of s)" and pad: "word_filler (request_bytes x) pad"
  shows "ofold usb_board_step (map Irq (out_events (request_bytes x) pad @ [Usb_reset, Enum_done d]) @ [Loop]) s = Inl Null_deref"
proof -
  have w: "length (request_bytes x) < 40" "request_bytes x \<noteq> []"
    using wire_frame_sent [OF reg_cmd_ucast [OF op_cmd_cases], of "priv_frame proto_init" x "op_data x"] wire_length wire_hd
    by (fastforce simp: request_bytes_def)+
  from packet_waits [OF s(1,3) w pad] obtain s2 where
    s2: "usb_run (USBD_CDC proto_rx) (out_events (request_bytes x) pad) s = Inr s2" "board_inv (board_of s2)"
      "stm32_pending (board_of s2) = request_bytes x" "protoSlave (app s2) = protoSlave (app s)" by blast
  have "board_ok s2"
    using run_keeps_ok [OF s(2), of "map Irq (out_events (request_bytes x) pad)" s2] s2(1) by (simp add: ofold_Irq)
  then obtain s3 where s3: "usb_run (USBD_CDC proto_rx) [Usb_reset, Enum_done d] s2 = Inr s3" "app s3 = app s2"
      "pClassData (pdev s3) = None"
    using bus_reset_frees by blast
  have "board_inv (board_of s3)" "stm32_pending (board_of s3) = frame_sent (priv_frame proto_init) (op_cmd x) (op_data x)"
      "received [] (protoSlave (board_of s3))"
    using s2 s(3) s3(2) by (simp_all add: board_inv_def board_holds_def request_bytes_def)
  from slave_reply_faults [OF this op_cmd_cases] s3(3) have "usb_board_step Loop s3 = Inl Null_deref" by simp
  moreover have "ofold usb_board_step (map Irq (out_events (request_bytes x) pad @ [Usb_reset, Enum_done d])) s = Inr s3"
    unfolding ofold_Irq usb_run_append s2(1) obind.simps by (rule s3(1))
  ultimately show ?thesis
    unfolding ofold_append [of _ "map Irq (out_events (request_bytes x) pad @ [Usb_reset, Enum_done d])"] by simp
qed

section \<open>Two requests in one packet\<close>

lemma two_gets:
  assumes s: "idle_port s" "board_holds [] (board_of s)" and r2: "unat r2 < 5"
    and pad: "word_filler (request_bytes (Reg_get r1) @ request_bytes (Reg_get r2)) pad"
  shows "\<exists>s' w. ofold usb_board_step (map Irq (out_events (request_bytes (Reg_get r1) @ request_bytes (Reg_get r2)) pad)
            @ [Loop, Loop]) s = Inr s'
     \<and> answers w (fst (spec_step (myTable (app s)) (Reg_get r1)))
     \<and> board_holds [] (board_of s') \<and> reply_pending (DFIFO (Instance (hpcd s)) 1) w s'"
proof -
  let ?p = "request_bytes (Reg_get r1) @ request_bytes (Reg_get r2)"
  have "length ?p < 40" "?p \<noteq> []" by (simp_all add: request_get)
  from packet_waits [OF s this pad] obtain s1 where
    s1: "usb_run (USBD_CDC proto_rx) (out_events ?p pad) s = Inr s1" "idle_port s1" "board_inv (board_of s1)"
      "stm32_pending (board_of s1) = ?p" "protoSlave (app s1) = protoSlave (app s)" "myTable (app s1) = myTable (app s)"
      "DFIFO (Instance (hpcd s1)) = DFIFO (Instance (hpcd s))" by blast
  have h0: "priv_nbBytes (protoSlave (board_of s1)) = 0" using s(2) s1(5) by (simp add: board_holds_def received_def word_unat_eq_iff)
  define tx where "tx bs v = (case usb_transmit bs v of Inr r \<Rightarrow> snd r | Inl e \<Rightarrow> v)" for bs v
  have u: "port_ready (usb_with () s1)" "port_free (usb_with () s1)" using s1(2) by (simp_all add: idle_port_def)
  have tr: "usb_transmit bs (stm32_usb (board_of s1)) = Inr (USBD_OK, tx bs (stm32_usb (board_of s1)))" for bs
    using transmit_pending [OF u, of bs] by (auto simp: tx_def)
  have pending: "reply_pending (DFIFO (Instance (hpcd s1)) 1) bs (tx bs (stm32_usb (board_of s1)))" if "length bs < 65536" for bs
    using transmit_pending [OF u, of bs] that by (auto simp: tx_def)
  obtain accepted out r' where srv: "reg_serve (op_cmd (Reg_get r1)) (op_data (Reg_get r1)) (myTable (board_of s1)) = (accepted, out, r')"
    by (cases "reg_serve (op_cmd (Reg_get r1)) (op_data (Reg_get r1)) (myTable (board_of s1))")
  have p1: "stm32_pending (board_of s1) = frame_sent (priv_frame proto_init) (op_cmd (Reg_get r1)) (op_data (Reg_get r1))
      @ request_bytes (Reg_get r2)"
    using s1(4) by (simp add: request_bytes_def)
  obtain t f1 out' where t: "board_step (board_bind usb_transmit) Main_loop (board_of s1) = Inr t" "board_inv t"
      "priv_nbBytes (protoSlave t) = 0" "stm32_pending t = drop 5 (stm32_pending (board_of s1))"
      "stm32_usb t = tx (frame_sent f1 (if accepted then proto_CMD_REPLY else proto_CMD_ERR_ARG) out') (stm32_usb (board_of s1))"
      "raw0 out' = raw0 out"
    using board_loop_stream [where transmit = usb_transmit and tx = tx, OF s1(3) h0 op_cmd_cases p1 tr srv] by blast
  define w where "w = frame_sent f1 (if accepted then proto_CMD_REPLY else proto_CMD_ERR_ARG) out'"
  have ans: "answers w (fst (spec_step (myTable (app s)) (Reg_get r1)))"
    using reg_serve_spec_step [OF srv] s1(6) t(6) unfolding answers_def w_def by auto
  have "length w \<le> 5" unfolding w_def by (rule wire_length [THEN conjunct2], rule wire_frame_sent) simp
  then have rep: "reply_pending (DFIFO (Instance (hpcd s)) 1) w (stm32_usb t)"
    using pending [of w] t(5) s1(7) by (simp add: w_def)
  have p2: "stm32_pending t = [getCRC [1, r2], 1, r2]" using t(4) s1(4) by (simp add: request_get)
  have inv2: "stm32_inv t" using t(2) by (simp add: board_inv_def)
  obtain q where q: "stm32_take 3 t = t\<lparr>stm32_user := q\<rparr>" using stm32_take_user by blast
  have "proto_slave_main (board_bind usb_transmit) (protoSlave t) t = Inr (0, protoSlave t, stm32_take 3 t)"
    using stm32.slave_main_noise [OF _ inv2 t(3), of "board_bind usb_transmit" usb_transmit] getCRC_get_small [OF r2] p2
    by (simp add: numeral_3_eq_3)
  then have loop2: "tst_loop_main (board_bind usb_transmit) t = Inr (t\<lparr>stm32_user := q\<rparr>)"
    by (simp add: tst_loop_main_def q)
  have "board_holds [] (t\<lparr>stm32_user := q\<rparr>)"
    using stm32_taken [OF inv2, of 3] p2 t(2,3) unfolding q by (simp add: board_holds_def board_inv_def received_Nil)
  moreover have "ofold usb_board_step (map Irq (out_events ?p pad) @ [Loop, Loop]) s = Inr (board_into (t\<lparr>stm32_user := q\<rparr>))"
    using t(1) loop2 by (simp add: ofold_append ofold_Irq s1(1))
  ultimately show ?thesis
    using ans rep by (intro exI [of _ "board_into (t\<lparr>stm32_user := q\<rparr>)"] exI [of _ w] conjI; (unfold board_of_into)?)
      (simp_all add: reply_pending_def board_into_def)
qed

section \<open>The board\<close>

text \<open>The initialised slave on a configured device with a free port.\<close>

lemma started_holds:
  assumes "tst_init True True True usb_transmit (usb_with () s0) = Inr (b, t)" "port_ready s0" "port_free s0"
  shows "idle_port (board_into t)" "board_ok (board_into t)" "board_holds [] (board_of (board_into t))"
    "myTable (app (board_into t)) = replicate 5 0" "hpcd (board_into t) = hpcd s0"
  using tst_init_ok [OF assms(1)] started_ok [OF assms(1)] assms(2,3)
  by (simp_all add: idle_port_def board_holds_def board_safe_def received_Nil port_ready_def [of s0])

text \<open>C17: the main loop of the board faults in one way only. From the initialised slave over the USB stack, after any
  events of the USB peripheral that have not themselves ended in a fault, in any order with iterations of the main loop, the
  registers are five, the indices of the ring are inside it and the receiver's count inside its frame; the next iteration
  returns, or it follows the null class handle in \<open>CDC_Transmit_FS\<close>, and then no class handle is allocated.\<close>

theorem board_loop_faults_unconfigured:
  assumes "tst_init True True True usb_transmit (usb_with () s0) = Inr (b, t)" "usb_wf s0"
    and "ofold usb_board_step es (board_into t) = Inr s"
  shows "length (myTable (app s)) = 5 \<and> unat (fifo_begin (stm32_user (app s))) < 40 \<and> unat (fifo_end (stm32_user (app s))) < 40
     \<and> unat (priv_nbBytes (protoSlave (app s))) \<le> 5
     \<and> ((\<exists>s'. usb_board_step Loop s = Inr s') \<or> usb_board_step Loop s = Inl Null_deref \<and> pClassData (pdev s) = None)"
proof -
  have ok: "board_ok s" using run_keeps_ok [OF started_ok [OF assms(1,2)] assms(3)] .
  then show ?thesis
    using loop_outcome [OF ok] unfolding board_ok_def slave_ok_def fifo_inv_def by blast
qed

lemma board_loop_faults_unconfigured_witness:
  "\<exists>b t s (s0 :: unit usbd). usb_wf s0 \<and> tst_init True True True usb_transmit (usb_with () s0) = Inr (b, t)
     \<and> ofold usb_board_step [Irq Usb_reset, Irq (Enum_done 6)] (board_into t) = Inr s \<and> length (myTable (app s)) = 5"
proof -
  obtain s0 :: "unit usbd" where s0: "usb_wf s0" using port_example by (auto simp: port_ready_def)
  obtain t where t: "tst_init True True True usb_transmit (usb_with () s0) = Inr (board_bind usb_transmit, t)"
    using tst_init_total [of usb_transmit "usb_with () s0"] by blast
  obtain s where s: "usb_run (USBD_CDC proto_rx) [Usb_reset, Enum_done 6] (board_into t) = Inr s"
    using bus_reset_frees [OF started_ok [OF t s0]] by blast
  then have run: "ofold usb_board_step [Irq Usb_reset, Irq (Enum_done 6)] (board_into t) = Inr s"
    using ofold_Irq [of "[Usb_reset, Enum_done 6]" "board_into t"] by (simp only: list.map)
  from board_loop_faults_unconfigured [OF t s0 run] show ?thesis
    using t s0 run by blast
qed

text \<open>C18: a bus reset between a request and its reply aborts the board. When the bytes of a request have reached the
  initialised board, on a configured device with a free port, in one packet (whose last word has filler bytes, \<open>pad\<close>),
  and the host resets the bus, which frees the class handle, before the next iteration of the main loop, that iteration
  follows the null class handle: the application does not know that the device is no longer configured.\<close>

theorem board_aborts_after_bus_reset:
  assumes "tst_init True True True usb_transmit (usb_with () s0) = Inr (b, t)" "port_ready s0" "port_free s0"
    and "word_filler (request_bytes x) pad"
  shows "ofold usb_board_step (map Irq (out_events (request_bytes x) pad @ [Usb_reset, Enum_done d]) @ [Loop]) (board_into t)
     = Inl Null_deref"
  by (rule request_then_reset [OF started_holds(1-3) [OF assms(1-3)] assms(4)])

lemma board_aborts_after_bus_reset_witness:
  "\<exists>b t (s0 :: unit usbd). tst_init True True True usb_transmit (usb_with () s0) = Inr (b, t)
     \<and> ofold usb_board_step (map Irq (out_events (request_bytes (Reg_get 3)) [] @ [Usb_reset, Enum_done 6]) @ [Loop]) (board_into t)
       = Inl Null_deref"
proof -
  obtain s0 :: "unit usbd" where s0: "port_ready s0" "port_free s0" using port_example by blast
  obtain t where t: "tst_init True True True usb_transmit (usb_with () s0) = Inr (board_bind usb_transmit, t)"
    using tst_init_total [of usb_transmit "usb_with () s0"] by blast
  have "word_filler (request_bytes (Reg_get 3)) []" by (simp add: word_filler_def request_get)
  from board_aborts_after_bus_reset [OF t s0 this, of 6] show ?thesis using t by blast
qed

text \<open>C21: of two get requests in one USB packet the second is lost, when it is for an existing register. The read
  that takes the first request, four bytes long, also takes and drops the start of the second, and the next iteration passes
  over the rest as noise. The board sends one packet, the answer to the first request, and however often its
  loop goes round it sends no other and has nothing left to read.\<close>

theorem pipelined_get_lost:
  assumes "tst_init True True True usb_transmit (usb_with () s0) = Inr (b, t)" "port_ready s0" "port_free s0"
    and "unat r2 < 5" "word_filler (request_bytes (Reg_get r1) @ request_bytes (Reg_get r2)) pad" "room 64 space"
  shows "\<exists>s' w. ofold usb_board_step (map Irq (out_events (request_bytes (Reg_get r1) @ request_bytes (Reg_get r2)) pad)
            @ [Loop, Loop] @ host_reads space @ replicate k Loop) (board_into t) = Inr s'
     \<and> answers w (fst (spec_step (replicate 5 0) (Reg_get r1)))
     \<and> DFIFO (Instance (hpcd s')) 1 = DFIFO (Instance (hpcd s0)) 1 @ [w] \<and> port_free s'
     \<and> stm32_pending (app s') = [] \<and> priv_nbBytes (protoSlave (app s')) = 0"
proof -
  note i = started_holds [OF assms(1-3)]
  let ?e = "map Irq (out_events (request_bytes (Reg_get r1) @ request_bytes (Reg_get r2)) pad) @ [Loop, Loop]"
  from two_gets [OF i(1,3) assms(4,5)] obtain s1 w where s1: "ofold usb_board_step ?e (board_into t) = Inr s1"
      "answers w (fst (spec_step (replicate 5 0) (Reg_get r1)))" "board_holds [] (board_of s1)"
      "reply_pending (DFIFO (Instance (hpcd s0)) 1) w s1"
    unfolding i(4,5) by blast
  have "wire w" using s1(2) unfolding answers_def by (auto intro!: wire_frame_sent)
  then have "w \<noteq> []" "length w \<le> 64" using wire_length [of w] by auto
  from usb_reply [OF s1(4) assms(6) this] obtain s2 where s2: "ofold usb_board_step (host_reads space) s1 = Inr s2" "idle_port s2"
      "app s2 = app s1" "DFIFO (Instance (hpcd s2)) 1 = DFIFO (Instance (hpcd s0)) 1 @ [w]" by blast
  have holds: "board_holds [] (board_of s2)" using s1(3) s2(3) by (simp add: board_holds_def board_inv_def)
  have "ofold usb_board_step (?e @ host_reads space @ replicate k Loop) (board_into t) = Inr s2"
    unfolding ofold_append [of _ ?e] s1(1) obind.simps
    by (simp only: ofold_append s2(1) obind.simps usb_idle [OF holds])
  then have "ofold usb_board_step (map Irq (out_events (request_bytes (Reg_get r1) @ request_bytes (Reg_get r2)) pad)
      @ [Loop, Loop] @ host_reads space @ replicate k Loop) (board_into t) = Inr s2"
    by (simp only: append_assoc)
  then show ?thesis
    using s1(2) s2(2,4) holds by (intro exI [of _ s2] exI [of _ w])
      (simp add: idle_port_def board_holds_def received_def word_unat_eq_iff)
qed

lemma pipelined_get_lost_witness:
  "\<exists>b t (s0 :: unit usbd) s' w. tst_init True True True usb_transmit (usb_with () s0) = Inr (b, t)
     \<and> ofold usb_board_step (map Irq (out_events (request_bytes (Reg_get 2) @ request_bytes (Reg_get 3)) [])
            @ [Loop, Loop] @ host_reads (\<lambda>_. 128) @ replicate 7 Loop) (board_into t) = Inr s'
     \<and> DFIFO (Instance (hpcd s')) 1 = DFIFO (Instance (hpcd s0)) 1 @ [w]"
proof -
  obtain s0 :: "unit usbd" where s0: "port_ready s0" "port_free s0" using port_example by blast
  obtain t where t: "tst_init True True True usb_transmit (usb_with () s0) = Inr (board_bind usb_transmit, t)"
    using tst_init_total [of usb_transmit "usb_with () s0"] by blast
  have h: "unat (3 :: u8) < 5" "word_filler (request_bytes (Reg_get 2) @ request_bytes (Reg_get 3)) []"
    by (simp_all add: word_filler_def request_get)
  from pipelined_get_lost [OF t s0 h room_example, of 7] show ?thesis using t by blast
qed

end
