(* ===== verification/TickWait.thy ===== *)
theory TickWait
  imports UsbHal
begin

text \<open>
  The waiting loops of the HAL: a flag of the hardware is read again and again, and the loop gives up when
  the tick says that it is late. A look at the hardware happens at a moment, counted from the start; what
  the hardware gives at each moment is a function, as is the tick.
\<close>

section \<open>One loop\<close>

text \<open>
  \<open>while (! ready) if (late) return HAL_TIMEOUT;\<close>. The result says whether the flag came, and the moment after.
\<close>

partial_function (option) wait_until :: "(nat \<Rightarrow> bool) \<Rightarrow> (nat \<Rightarrow> bool) \<Rightarrow> nat \<Rightarrow> (bool \<times> nat) option" where
  "wait_until ready late n =
     (if ready n then Some (True, Suc n)
      else if late n then Some (False, Suc n)
      else wait_until ready late (Suc n))"

declare wait_until.simps [code]

lemma wait_until_ready: "ready n \<Longrightarrow> wait_until ready late n = Some (True, Suc n)"
  by (simp add: wait_until.simps)

lemma wait_until_late: "\<lbrakk>\<not> ready n; late n\<rbrakk> \<Longrightarrow> wait_until ready late n = Some (False, Suc n)"
  by (simp add: wait_until.simps)

lemma wait_until_again: "\<lbrakk>\<not> ready n; \<not> late n\<rbrakk> \<Longrightarrow> wait_until ready late n = wait_until ready late (Suc n)"
  by (subst wait_until.simps) simp

text \<open>A loop that is late at some time ends, and what it says is so.\<close>

lemma wait_until_ends:
  assumes "n \<le> m" "late m"
  shows "\<exists>r k. wait_until ready late n = Some (r, Suc k) \<and> n \<le> k \<and> k \<le> m \<and> (if r then ready k else late k)"
  using assms(1)
proof (induction rule: inc_induct)
  case base
  then show ?case
    using assms(2) by (cases "ready m") (auto simp: wait_until_ready wait_until_late)
next
  case (step i)
  then show ?case
    by (cases "ready i"; cases "late i") (force simp: wait_until_ready wait_until_late wait_until_again)+
qed

text \<open>A flag that comes while the loop is not yet late is seen.\<close>

lemma wait_until_in_time:
  assumes "n \<le> m" "ready m" "\<And>i. \<lbrakk>n \<le> i; i < m\<rbrakk> \<Longrightarrow> \<not> late i"
  shows "\<exists>k. wait_until ready late n = Some (True, Suc k) \<and> n \<le> k \<and> k \<le> m \<and> ready k"
  using assms(1,3)
proof (induction rule: inc_induct)
  case base
  then show ?case using assms(2) by (auto simp: wait_until_ready)
next
  case (step i)
  then show ?case
    by (cases "ready i") (force simp: wait_until_ready wait_until_again)+
qed

text \<open>A loop that is never ready and never late does not end.\<close>

lemma wait_until_event:
  assumes "wait_until ready late n = Some r"
  shows "\<exists>k\<ge>n. ready k \<or> late k"
proof (rule wait_until.raw_induct [where P = "\<lambda>ready late n r. \<exists>k\<ge>n. ready k \<or> late k", OF _ assms], goal_cases)
  case (1 loop ready late n r)
  show ?case
  proof (cases "ready n \<or> late n")
    case False
    then have "loop ready late (Suc n) = Some r" using 1(2) by simp
    then have "\<exists>k\<ge>Suc n. ready k \<or> late k" by (rule 1(1))
    then show ?thesis by (meson Suc_leD)
  qed auto
qed

lemma wait_until_stuck: "(\<And>k. n \<le> k \<Longrightarrow> \<not> ready k \<and> \<not> late k) \<Longrightarrow> wait_until ready late n = None"
  using wait_until_event [of ready late n] by (cases "wait_until ready late n") blast+

end
