(* ===== verification/Nvic.thy ===== *)
theory Nvic
  imports Prelude
begin

text \<open>
  The priorities of the exceptions: the functions of \<open>core_cm4.h\<close> on the registers of the interrupt controller, and what
  \<open>stm32f4xx_hal_cortex.c\<close> and \<open>Src/stm32f4xx_hal_msp.c\<close> do with them. A priority is a preemption priority and a sub-priority, and
  the grouping says how many of its four bits are which.
\<close>

record nvic =
  SCB_AIRCR :: u32
  SCB_SHP :: "u32 \<Rightarrow> u8"   \<comment> \<open>the priorities of the processor's own exceptions\<close>
  NVIC_IP :: "u32 \<Rightarrow> u8"   \<comment> \<open>those of the device's interrupts\<close>

abbreviation (input) SCB_AIRCR_VECTKEY_Msk :: u32 where "SCB_AIRCR_VECTKEY_Msk \<equiv> 0xFFFF0000"
abbreviation (input) SCB_AIRCR_PRIGROUP_Msk :: u32 where "SCB_AIRCR_PRIGROUP_Msk \<equiv> 0x700"

text \<open>The numbers of the exceptions: negative for those of the processor\<close>

abbreviation (input) MemoryManagement_IRQn :: int where "MemoryManagement_IRQn \<equiv> - 12"
abbreviation (input) BusFault_IRQn :: int where "BusFault_IRQn \<equiv> - 11"
abbreviation (input) UsageFault_IRQn :: int where "UsageFault_IRQn \<equiv> - 10"
abbreviation (input) SVCall_IRQn :: int where "SVCall_IRQn \<equiv> - 5"
abbreviation (input) DebugMonitor_IRQn :: int where "DebugMonitor_IRQn \<equiv> - 4"
abbreviation (input) PendSV_IRQn :: int where "PendSV_IRQn \<equiv> - 2"
abbreviation (input) SysTick_IRQn :: int where "SysTick_IRQn \<equiv> - 1"

section \<open>The operations\<close>

definition NVIC_SetPriorityGrouping :: "u32 \<Rightarrow> nvic \<Rightarrow> nvic" where
  "NVIC_SetPriorityGrouping PriorityGroup s =
     (let PriorityGroupTmp = PriorityGroup AND 0x7;
          reg_value = SCB_AIRCR s AND NOT (SCB_AIRCR_VECTKEY_Msk OR SCB_AIRCR_PRIGROUP_Msk) in
      s\<lparr>SCB_AIRCR := reg_value OR push_bit 16 0x5FA OR push_bit 8 PriorityGroupTmp\<rparr>)"

definition NVIC_GetPriorityGrouping :: "nvic \<Rightarrow> u32" where
  "NVIC_GetPriorityGrouping s = drop_bit 8 (SCB_AIRCR s AND SCB_AIRCR_PRIGROUP_Msk)"

text \<open>The index of a processor's exception, with the wrap-around of the code\<close>

definition SHP_index :: "int \<Rightarrow> u32" where
  "SHP_index IRQn = (word_of_int IRQn AND 0xF) - 4"

definition NVIC_SetPriority :: "int \<Rightarrow> u32 \<Rightarrow> nvic \<Rightarrow> nvic" where
  "NVIC_SetPriority IRQn priority s =
     (if IRQn < 0 then s\<lparr>SCB_SHP := (SCB_SHP s)(SHP_index IRQn := ucast (push_bit (8 - 4) priority AND 0xFF))\<rparr>
      else s\<lparr>NVIC_IP := (NVIC_IP s)(word_of_int IRQn := ucast (push_bit (8 - 4) priority AND 0xFF))\<rparr>)"

definition NVIC_GetPriority :: "int \<Rightarrow> nvic \<Rightarrow> u32" where
  "NVIC_GetPriority IRQn s =
     (if IRQn < 0 then drop_bit (8 - 4) (ucast (SCB_SHP s (SHP_index IRQn)))
      else drop_bit (8 - 4) (ucast (NVIC_IP s (word_of_int IRQn))))"

definition PreemptPriorityBits :: "u32 \<Rightarrow> u32" where
  "PreemptPriorityBits PriorityGroupTmp = (if 4 < 7 - PriorityGroupTmp then 4 else 7 - PriorityGroupTmp)"

definition SubPriorityBits :: "u32 \<Rightarrow> u32" where
  "SubPriorityBits PriorityGroupTmp = (if PriorityGroupTmp + 4 < 7 then 0 else PriorityGroupTmp - 7 + 4)"

definition NVIC_EncodePriority :: "u32 \<Rightarrow> u32 \<Rightarrow> u32 \<Rightarrow> u32" where
  "NVIC_EncodePriority PriorityGroup PreemptPriority SubPriority =
     (let PriorityGroupTmp = PriorityGroup AND 0x7;
          pre = unat (PreemptPriorityBits PriorityGroupTmp); sub = unat (SubPriorityBits PriorityGroupTmp) in
      push_bit sub (PreemptPriority AND (push_bit pre 1 - 1)) OR (SubPriority AND (push_bit sub 1 - 1)))"

definition NVIC_DecodePriority :: "u32 \<Rightarrow> u32 \<Rightarrow> u32 \<times> u32" where
  "NVIC_DecodePriority Priority PriorityGroup =
     (let PriorityGroupTmp = PriorityGroup AND 0x7;
          pre = unat (PreemptPriorityBits PriorityGroupTmp); sub = unat (SubPriorityBits PriorityGroupTmp) in
      (drop_bit sub Priority AND (push_bit pre 1 - 1), Priority AND (push_bit sub 1 - 1)))"

definition HAL_NVIC_SetPriorityGrouping :: "u32 \<Rightarrow> nvic \<Rightarrow> nvic" where
  "HAL_NVIC_SetPriorityGrouping PriorityGroup s = NVIC_SetPriorityGrouping PriorityGroup s"

definition HAL_NVIC_SetPriority :: "int \<Rightarrow> u32 \<Rightarrow> u32 \<Rightarrow> nvic \<Rightarrow> nvic" where
  "HAL_NVIC_SetPriority IRQn PreemptPriority SubPriority s =
     (let prioritygroup = NVIC_GetPriorityGrouping s in
      NVIC_SetPriority IRQn (NVIC_EncodePriority prioritygroup PreemptPriority SubPriority) s)"

definition HAL_NVIC_GetPriorityGrouping :: "nvic \<Rightarrow> u32" where
  "HAL_NVIC_GetPriorityGrouping s = NVIC_GetPriorityGrouping s"

definition HAL_NVIC_GetPriority :: "int \<Rightarrow> u32 \<Rightarrow> nvic \<Rightarrow> u32 \<times> u32" where
  "HAL_NVIC_GetPriority IRQn PriorityGroup s = NVIC_DecodePriority (NVIC_GetPriority IRQn s) PriorityGroup"

abbreviation (input) NVIC_PRIORITYGROUP_4 :: u32 where "NVIC_PRIORITYGROUP_4 \<equiv> 3"

definition HAL_MspInit :: "nvic \<Rightarrow> nvic" where
  "HAL_MspInit s =
     (let s0 = HAL_NVIC_SetPriorityGrouping NVIC_PRIORITYGROUP_4 s;
          s1 = HAL_NVIC_SetPriority MemoryManagement_IRQn 0 0 s0;
          s2 = HAL_NVIC_SetPriority BusFault_IRQn 0 0 s1;
          s3 = HAL_NVIC_SetPriority UsageFault_IRQn 0 0 s2;
          s4 = HAL_NVIC_SetPriority SVCall_IRQn 0 0 s3;
          s5 = HAL_NVIC_SetPriority DebugMonitor_IRQn 0 0 s4;
          s6 = HAL_NVIC_SetPriority PendSV_IRQn 0 0 s5 in
      HAL_NVIC_SetPriority SysTick_IRQn 0 0 s6)"

section \<open>What is set is read back\<close>

lemma AND_ones: "(x :: u32) AND (push_bit n 1 - 1) = take_bit n x"
  by (simp add: take_bit_eq_mask mask_eq_exp_minus_1 push_bit_of_1)

text \<open>The bits of the two parts share four.\<close>

lemma priority_bits:
  "unat (PreemptPriorityBits (g AND 7)) + unat (SubPriorityBits (g AND 7)) = 4"
proof -
  have "unat (g AND 7) \<le> 7"
    using word_and_le1 [of g 7] by (simp add: word_le_nat_alt)
  then have "g AND 7 \<in> {0, 1, 2, 3, 4, 5, 6, 7}"
    by (simp add: word_unat_eq_iff) linarith
  then show ?thesis
    by (elim insertE) (simp_all add: PreemptPriorityBits_def SubPriorityBits_def)
qed

lemma encode_bits:
  "NVIC_EncodePriority g p q = (let sub = unat (SubPriorityBits (g AND 7)) in push_bit sub (take_bit (4 - sub) p) OR take_bit sub q)"
  "NVIC_DecodePriority e g = (let sub = unat (SubPriorityBits (g AND 7)) in (take_bit (4 - sub) (drop_bit sub e), take_bit sub e))"
proof -
  have "unat (PreemptPriorityBits (g AND 7)) = 4 - unat (SubPriorityBits (g AND 7))" using priority_bits [of g] by simp
  then show "NVIC_EncodePriority g p q = (let sub = unat (SubPriorityBits (g AND 7)) in push_bit sub (take_bit (4 - sub) p) OR take_bit sub q)"
    "NVIC_DecodePriority e g = (let sub = unat (SubPriorityBits (g AND 7)) in (take_bit (4 - sub) (drop_bit sub e), take_bit sub e))"
    by (simp_all only: NVIC_EncodePriority_def NVIC_DecodePriority_def Let_def AND_ones)
qed

lemma packed_bits:
  assumes "n \<le> 4"
  shows "take_bit (4 - n) (drop_bit n (push_bit n (take_bit (4 - n) p) OR take_bit n q)) = take_bit (4 - n) (p :: u32)"
    and "take_bit n (push_bit n (take_bit (4 - n) p) OR take_bit n q) = take_bit n (q :: u32)"
    and "take_bit 4 (push_bit n (take_bit (4 - n) p) OR take_bit n q) = push_bit n (take_bit (4 - n) p) OR take_bit n q"
  using assms by (auto intro!: bit_word_eqI simp: bit_simps)

lemma decode_encode:
  "NVIC_DecodePriority (NVIC_EncodePriority g p q) g
     = (take_bit (unat (PreemptPriorityBits (g AND 7))) p, take_bit (unat (SubPriorityBits (g AND 7))) q)"
proof -
  have "unat (PreemptPriorityBits (g AND 7)) = 4 - unat (SubPriorityBits (g AND 7))" "unat (SubPriorityBits (g AND 7)) \<le> 4"
    using priority_bits [of g] by simp_all
  then show ?thesis by (simp only: encode_bits Let_def packed_bits)
qed

lemma encode_four_bits: "take_bit 4 (NVIC_EncodePriority g p q) = NVIC_EncodePriority g p q"
proof -
  have "unat (SubPriorityBits (g AND 7)) \<le> 4" using priority_bits [of g] by simp
  then show ?thesis by (simp only: encode_bits Let_def packed_bits)
qed

text \<open>The bits of the constants\<close>

lemma bit_consts: "bit (255 :: int) n = (n < 8)" "bit (7 :: int) n = (n < 3)"
proof -
  have "(255 :: int) = mask 8" "(7 :: int) = mask 3" by (simp_all add: mask_eq_exp_minus_1)
  then show "bit (255 :: int) n = (n < 8)" "bit (7 :: int) n = (n < 3)" by (simp_all only: bit_mask_iff) simp_all
qed

lemma bit_low: "n < 3 \<Longrightarrow> \<not> bit (248 :: int) n \<and> \<not> bit (391680 :: int) n"
proof -
  assume "n < 3"
  then have "n = 0 \<or> n = 1 \<or> n = 2" by auto
  then show ?thesis by (elim disjE) simp_all
qed

lemma priority_stored: "NVIC_GetPriority i (NVIC_SetPriority i e s) = take_bit 4 e"
  unfolding NVIC_GetPriority_def NVIC_SetPriority_def
  by (auto intro!: bit_word_eqI simp: bit_simps bit_and_iff bit_consts)

lemma grouping_kept: "NVIC_GetPriorityGrouping (NVIC_SetPriority i e s) = NVIC_GetPriorityGrouping s"
  by (simp add: NVIC_GetPriorityGrouping_def NVIC_SetPriority_def)

lemma grouping_set: "NVIC_GetPriorityGrouping (NVIC_SetPriorityGrouping g s) = g AND 7"
  unfolding NVIC_GetPriorityGrouping_def NVIC_SetPriorityGrouping_def Let_def
  by (auto intro!: bit_word_eqI simp: bit_simps bit_and_iff bit_consts bit_low)

text \<open>Under any grouping, an exception has the priorities it was given, as far as the grouping has bits for them.\<close>

theorem priority_roundtrip:
  "HAL_NVIC_GetPriority i (HAL_NVIC_GetPriorityGrouping s) (HAL_NVIC_SetPriority i p q s)
     = (let g = HAL_NVIC_GetPriorityGrouping s AND 7 in
        (take_bit (unat (PreemptPriorityBits g)) p, take_bit (unat (SubPriorityBits g)) q))"
  by (simp add: HAL_NVIC_GetPriority_def HAL_NVIC_SetPriority_def HAL_NVIC_GetPriorityGrouping_def Let_def priority_stored
      encode_four_bits decode_encode)

text \<open>An exception whose priority is zero preempts no other, and none with priority zero preempts another.\<close>

lemma zero_decoded: "NVIC_GetPriority i s = 0 \<Longrightarrow> HAL_NVIC_GetPriority i g s = (0, 0)"
  by (simp add: HAL_NVIC_GetPriority_def NVIC_DecodePriority_def Let_def)

lemma priority_of_other:
  "\<lbrakk>i < 0; 0 \<le> j\<rbrakk> \<Longrightarrow> NVIC_GetPriority i (NVIC_SetPriority j e s) = NVIC_GetPriority i s"
  by (simp add: NVIC_GetPriority_def NVIC_SetPriority_def)

text \<open>Both priorities zero are the priority zero under any grouping.\<close>

lemma zero_priority: "HAL_NVIC_SetPriority i 0 0 s = NVIC_SetPriority i 0 s"
  by (simp add: HAL_NVIC_SetPriority_def NVIC_EncodePriority_def Let_def)

end
