(* ===== verification/Clock.thy ===== *)
theory Clock
  imports TickWait Nvic
begin

text \<open>
  The clocks of the firmware: \<open>SystemInit\<close> (\<open>Src/system_stm32f4xx.c\<close>), \<open>HAL_Init\<close> with the tick
  (\<open>stm32f4xx_hal.c\<close>), the oscillators and the dividers (\<open>stm32f4xx_hal_rcc.c\<close>) and
  \<open>SystemClock_Config\<close> (\<open>Src/main.c\<close>). A register holds what was last written to it; what the hardware
  sets in it (the ready flags, the clock in use) is a function of the register and the moment.
\<close>

section \<open>State\<close>

record rcc_hw =
  flag_at :: "u8 \<Rightarrow> u32 \<Rightarrow> nat \<Rightarrow> bool"   \<comment> \<open>a ready flag, over its register\<close>
  SWS_at :: "u32 \<Rightarrow> nat \<Rightarrow> u32"           \<comment> \<open>the clock in use, over the one selected\<close>
  DBP_at :: "u32 \<Rightarrow> nat \<Rightarrow> bool"
  tick_at :: "nat \<Rightarrow> u32"

record clk =
  RCC_CR :: u32
  RCC_CFGR :: u32
  RCC_PLLCFGR :: u32
  RCC_CIR :: u32
  RCC_BDCR :: u32
  RCC_CSR :: u32
  RCC_APB1ENR :: u32
  PWR_CR :: u32
  FLASH_ACR :: u32
  SysTick_LOAD :: u32
  SysTick_VAL :: u32
  SysTick_CTRL :: u32
  core_clock :: u32   \<comment> \<open>the global \<open>SystemCoreClock\<close>\<close>
  uwTickPrio :: u32
  interrupts :: nvic
  SCB_CPACR :: u32    \<comment> \<open>access to the coprocessors\<close>
  SCB_VTOR :: u32     \<comment> \<open>the address of the vector table\<close>
  moment :: nat

abbreviation (input) HSE_VALUE :: nat where "HSE_VALUE \<equiv> 8000000"
abbreviation (input) HSI_VALUE :: nat where "HSI_VALUE \<equiv> 16000000"

abbreviation (input) RCC_CR_HSION :: u32 where "RCC_CR_HSION \<equiv> 0x1"
abbreviation (input) RCC_CR_HSITRIM :: u32 where "RCC_CR_HSITRIM \<equiv> 0xF8"
abbreviation (input) RCC_CR_HSEON :: u32 where "RCC_CR_HSEON \<equiv> 0x10000"
abbreviation (input) RCC_CR_HSEBYP :: u32 where "RCC_CR_HSEBYP \<equiv> 0x40000"
abbreviation (input) RCC_CR_PLLON :: u32 where "RCC_CR_PLLON \<equiv> 0x1000000"
abbreviation (input) RCC_CFGR_SW :: u32 where "RCC_CFGR_SW \<equiv> 0x3"
abbreviation (input) RCC_CFGR_SWS_HSI :: u32 where "RCC_CFGR_SWS_HSI \<equiv> 0x0"
abbreviation (input) RCC_CFGR_SWS_HSE :: u32 where "RCC_CFGR_SWS_HSE \<equiv> 0x4"
abbreviation (input) RCC_CFGR_SWS_PLL :: u32 where "RCC_CFGR_SWS_PLL \<equiv> 0x8"
abbreviation (input) RCC_CFGR_HPRE :: u32 where "RCC_CFGR_HPRE \<equiv> 0xF0"
abbreviation (input) RCC_CFGR_PPRE1 :: u32 where "RCC_CFGR_PPRE1 \<equiv> 0x1C00"
abbreviation (input) RCC_CFGR_PPRE2 :: u32 where "RCC_CFGR_PPRE2 \<equiv> 0xE000"
abbreviation (input) RCC_PLLCFGR_PLLSRC :: u32 where "RCC_PLLCFGR_PLLSRC \<equiv> 0x400000"
abbreviation (input) RCC_BDCR_LSEON :: u32 where "RCC_BDCR_LSEON \<equiv> 0x1"
abbreviation (input) RCC_BDCR_LSEBYP :: u32 where "RCC_BDCR_LSEBYP \<equiv> 0x4"
abbreviation (input) RCC_CSR_LSION :: u32 where "RCC_CSR_LSION \<equiv> 0x1"
abbreviation (input) RCC_APB1ENR_PWREN :: u32 where "RCC_APB1ENR_PWREN \<equiv> 0x10000000"
abbreviation (input) PWR_CR_DBP :: u32 where "PWR_CR_DBP \<equiv> 0x100"
abbreviation (input) PWR_CR_VOS :: u32 where "PWR_CR_VOS \<equiv> 0xC000"

abbreviation (input) RCC_FLAG_HSIRDY :: u8 where "RCC_FLAG_HSIRDY \<equiv> 0x21"
abbreviation (input) RCC_FLAG_HSERDY :: u8 where "RCC_FLAG_HSERDY \<equiv> 0x31"
abbreviation (input) RCC_FLAG_PLLRDY :: u8 where "RCC_FLAG_PLLRDY \<equiv> 0x39"
abbreviation (input) RCC_FLAG_LSERDY :: u8 where "RCC_FLAG_LSERDY \<equiv> 0x41"
abbreviation (input) RCC_FLAG_LSIRDY :: u8 where "RCC_FLAG_LSIRDY \<equiv> 0x61"

section \<open>Looks at the hardware\<close>

definition modify_reg :: "u32 \<Rightarrow> u32 \<Rightarrow> u32 \<Rightarrow> u32" where
  "modify_reg reg clearmask setmask = (reg AND NOT clearmask) OR setmask"

text \<open>\<open>__HAL_RCC_GET_FLAG\<close> with the register that the upper bits of the flag name\<close>

definition flag_reg :: "u8 \<Rightarrow> clk \<Rightarrow> u32" where
  "flag_reg f s = (if drop_bit 5 f = 1 then RCC_CR s else if drop_bit 5 f = 2 then RCC_BDCR s
     else if drop_bit 5 f = 3 then RCC_CSR s else RCC_CIR s)"

definition get_flag :: "rcc_hw \<Rightarrow> u8 \<Rightarrow> clk \<Rightarrow> nat \<Rightarrow> bool" where
  "get_flag hw f s n = flag_at hw f (flag_reg f s) n"

definition get_sws :: "rcc_hw \<Rightarrow> clk \<Rightarrow> nat \<Rightarrow> u32" where
  "get_sws hw s n = SWS_at hw (RCC_CFGR s AND RCC_CFGR_SW) n"

text \<open>Whether \<open>src\<close> is the clock in use, or the PLL is and has its input from \<open>pllsrc\<close>.\<close>

definition clock_in_use :: "rcc_hw \<Rightarrow> u32 \<Rightarrow> u32 \<Rightarrow> clk \<Rightarrow> bool" where
  "clock_in_use hw src pllsrc s \<longleftrightarrow> get_sws hw s (moment s) = src
     \<or> get_sws hw s (moment s + 1) = RCC_CFGR_SWS_PLL \<and> RCC_PLLCFGR s AND RCC_PLLCFGR_PLLSRC = pllsrc"

text \<open>
  \<open>tickstart = HAL_GetTick (); while (! ready) if (HAL_GetTick () - tickstart > timeout) return HAL_TIMEOUT;\<close>
\<close>

definition hal_wait :: "rcc_hw \<Rightarrow> (nat \<Rightarrow> bool) \<Rightarrow> u32 \<Rightarrow> clk \<Rightarrow> (hal_status \<times> clk) outcome" where
  "hal_wait hw ready timeout s =
     (let tickstart = tick_at hw (moment s) in
      case wait_until ready (\<lambda>n. timeout < tick_at hw n - tickstart) (moment s + 1) of
        None \<Rightarrow> Inl Diverges
      | Some (came, n) \<Rightarrow> Inr (if came then HAL_OK else HAL_TIMEOUT, s\<lparr>moment := n\<rparr>))"

text \<open>The code after a step that returned \<open>HAL_OK\<close>; any other status is returned at once.\<close>

definition if_ok :: "(hal_status \<times> clk) outcome \<Rightarrow> (clk \<Rightarrow> (hal_status \<times> clk) outcome) \<Rightarrow> (hal_status \<times> clk) outcome" where
  "if_ok m f = obind m (\<lambda>(st, s). if st = HAL_OK then f s else Inr (st, s))"

section \<open>Oscillators\<close>

record pll_init =
  PLLState :: u32
  PLLSource :: u32
  PLLM :: u32
  PLLN :: u32
  PLLP :: u32
  PLLQ :: u32

record osc_init =
  OscillatorType :: u32
  HSEState :: u32
  LSEState :: u32
  HSIState :: u32
  HSICalibrationValue :: u32
  LSIState :: u32
  PLL :: pll_init

abbreviation (input) RCC_HSE_OFF :: u32 where "RCC_HSE_OFF \<equiv> 0"
abbreviation (input) RCC_HSE_ON :: u32 where "RCC_HSE_ON \<equiv> 0x10000"
abbreviation (input) RCC_HSE_BYPASS :: u32 where "RCC_HSE_BYPASS \<equiv> 0x50000"
abbreviation (input) RCC_HSI_OFF :: u32 where "RCC_HSI_OFF \<equiv> 0"
abbreviation (input) RCC_HSI_ON :: u32 where "RCC_HSI_ON \<equiv> 1"
abbreviation (input) RCC_LSE_OFF :: u32 where "RCC_LSE_OFF \<equiv> 0"
abbreviation (input) RCC_LSE_ON :: u32 where "RCC_LSE_ON \<equiv> 1"
abbreviation (input) RCC_LSE_BYPASS :: u32 where "RCC_LSE_BYPASS \<equiv> 5"
abbreviation (input) RCC_LSI_OFF :: u32 where "RCC_LSI_OFF \<equiv> 0"
abbreviation (input) RCC_PLL_NONE :: u32 where "RCC_PLL_NONE \<equiv> 0"
abbreviation (input) RCC_PLL_ON :: u32 where "RCC_PLL_ON \<equiv> 2"

definition HSE_CONFIG :: "u32 \<Rightarrow> clk \<Rightarrow> clk" where
  "HSE_CONFIG state s =
     (if state = RCC_HSE_ON then s\<lparr>RCC_CR := RCC_CR s OR RCC_CR_HSEON\<rparr>
      else if state = RCC_HSE_BYPASS then s\<lparr>RCC_CR := RCC_CR s OR RCC_CR_HSEBYP OR RCC_CR_HSEON\<rparr>
      else s\<lparr>RCC_CR := RCC_CR s AND NOT RCC_CR_HSEON AND NOT RCC_CR_HSEBYP\<rparr>)"

definition osc_HSE :: "rcc_hw \<Rightarrow> osc_init \<Rightarrow> clk \<Rightarrow> (hal_status \<times> clk) outcome" where
  "osc_HSE hw o0 s =
     (if OscillatorType o0 AND 1 = 1 then
        (if clock_in_use hw RCC_CFGR_SWS_HSE RCC_PLLCFGR_PLLSRC s then
           Inr (if get_flag hw RCC_FLAG_HSERDY s (moment s + 2) \<and> HSEState o0 = RCC_HSE_OFF then HAL_ERROR else HAL_OK,
                s\<lparr>moment := moment s + 3\<rparr>)
         else
           (let s1 = HSE_CONFIG (HSEState o0) (s\<lparr>moment := moment s + 2\<rparr>) in
            if HSEState o0 \<noteq> RCC_HSE_OFF
            then hal_wait hw (get_flag hw RCC_FLAG_HSERDY s1) 100 s1
            else hal_wait hw (\<lambda>n. \<not> get_flag hw RCC_FLAG_HSERDY s1 n) 100 s1))
      else Inr (HAL_OK, s))"

definition HSI_CALIBRATION :: "u32 \<Rightarrow> clk \<Rightarrow> clk" where
  "HSI_CALIBRATION v s = s\<lparr>RCC_CR := modify_reg (RCC_CR s) RCC_CR_HSITRIM (push_bit 3 v)\<rparr>"

definition osc_HSI :: "rcc_hw \<Rightarrow> osc_init \<Rightarrow> clk \<Rightarrow> (hal_status \<times> clk) outcome" where
  "osc_HSI hw o0 s =
     (if OscillatorType o0 AND 2 = 2 then
        (if clock_in_use hw RCC_CFGR_SWS_HSI 0 s then
           (let s1 = s\<lparr>moment := moment s + 3\<rparr> in
            if get_flag hw RCC_FLAG_HSIRDY s (moment s + 2) \<and> HSIState o0 \<noteq> RCC_HSI_ON then Inr (HAL_ERROR, s1)
            else Inr (HAL_OK, HSI_CALIBRATION (HSICalibrationValue o0) s1))
         else
           (let s1 = s\<lparr>moment := moment s + 2\<rparr> in
            if HSIState o0 \<noteq> RCC_HSI_OFF then
              (let s2 = s1\<lparr>RCC_CR := RCC_CR s1 OR RCC_CR_HSION\<rparr> in
               if_ok (hal_wait hw (get_flag hw RCC_FLAG_HSIRDY s2) 2 s2)
                 (\<lambda>s3. Inr (HAL_OK, HSI_CALIBRATION (HSICalibrationValue o0) s3)))
            else
              (let s2 = s1\<lparr>RCC_CR := RCC_CR s1 AND NOT RCC_CR_HSION\<rparr> in
               hal_wait hw (\<lambda>n. \<not> get_flag hw RCC_FLAG_HSIRDY s2 n) 2 s2)))
      else Inr (HAL_OK, s))"

definition osc_LSI :: "rcc_hw \<Rightarrow> osc_init \<Rightarrow> clk \<Rightarrow> (hal_status \<times> clk) outcome" where
  "osc_LSI hw o0 s =
     (if OscillatorType o0 AND 8 = 8 then
        (if LSIState o0 \<noteq> RCC_LSI_OFF then
           (let s1 = s\<lparr>RCC_CSR := RCC_CSR s OR RCC_CSR_LSION\<rparr> in
            hal_wait hw (get_flag hw RCC_FLAG_LSIRDY s1) 2 s1)
         else
           (let s1 = s\<lparr>RCC_CSR := RCC_CSR s AND NOT RCC_CSR_LSION\<rparr> in
            hal_wait hw (\<lambda>n. \<not> get_flag hw RCC_FLAG_LSIRDY s1 n) 2 s1))
      else Inr (HAL_OK, s))"

definition LSE_CONFIG :: "u32 \<Rightarrow> clk \<Rightarrow> clk" where
  "LSE_CONFIG state s =
     (if state = RCC_LSE_ON then s\<lparr>RCC_BDCR := RCC_BDCR s OR RCC_BDCR_LSEON\<rparr>
      else if state = RCC_LSE_BYPASS then s\<lparr>RCC_BDCR := RCC_BDCR s OR RCC_BDCR_LSEBYP OR RCC_BDCR_LSEON\<rparr>
      else s\<lparr>RCC_BDCR := RCC_BDCR s AND NOT RCC_BDCR_LSEON AND NOT RCC_BDCR_LSEBYP\<rparr>)"

text \<open>A timeout returns without giving the clock of the power interface back, as in the code.\<close>

definition osc_LSE :: "rcc_hw \<Rightarrow> osc_init \<Rightarrow> clk \<Rightarrow> (hal_status \<times> clk) outcome" where
  "osc_LSE hw o0 s =
     (if OscillatorType o0 AND 4 = 4 then
        (let pwrclkchanged = RCC_APB1ENR s AND RCC_APB1ENR_PWREN = 0;
             s1 = (if pwrclkchanged then s\<lparr>RCC_APB1ENR := RCC_APB1ENR s OR RCC_APB1ENR_PWREN\<rparr> else s) in
         if_ok (if \<not> DBP_at hw (PWR_CR s1) (moment s1)
                then (let s2 = s1\<lparr>PWR_CR := PWR_CR s1 OR PWR_CR_DBP, moment := moment s1 + 1\<rparr> in
                      hal_wait hw (DBP_at hw (PWR_CR s2)) 2 s2)
                else Inr (HAL_OK, s1\<lparr>moment := moment s1 + 1\<rparr>)) (\<lambda>s3.
         let s4 = LSE_CONFIG (LSEState o0) s3 in
         if_ok (if LSEState o0 \<noteq> RCC_LSE_OFF
                then hal_wait hw (get_flag hw RCC_FLAG_LSERDY s4) 5000 s4
                else hal_wait hw (\<lambda>n. \<not> get_flag hw RCC_FLAG_LSERDY s4 n) 5000 s4) (\<lambda>s5.
         Inr (HAL_OK, if pwrclkchanged then s5\<lparr>RCC_APB1ENR := RCC_APB1ENR s5 AND NOT RCC_APB1ENR_PWREN\<rparr> else s5))))
      else Inr (HAL_OK, s))"

definition pllcfgr :: "pll_init \<Rightarrow> u32" where
  "pllcfgr p = PLLSource p OR PLLM p OR push_bit 6 (PLLN p) OR push_bit 16 (drop_bit 1 (PLLP p) - 1)
     OR push_bit 24 (PLLQ p)"

definition osc_PLL :: "rcc_hw \<Rightarrow> osc_init \<Rightarrow> clk \<Rightarrow> (hal_status \<times> clk) outcome" where
  "osc_PLL hw o0 s =
     (if PLLState (PLL o0) \<noteq> RCC_PLL_NONE then
        (if get_sws hw s (moment s) \<noteq> RCC_CFGR_SWS_PLL then
           (let s1 = s\<lparr>RCC_CR := RCC_CR s AND NOT RCC_CR_PLLON, moment := moment s + 1\<rparr>;
                stopped = hal_wait hw (\<lambda>n. \<not> get_flag hw RCC_FLAG_PLLRDY s1 n) 2 s1 in
            if PLLState (PLL o0) = RCC_PLL_ON then
              if_ok stopped (\<lambda>s2.
                let s3 = s2\<lparr>RCC_PLLCFGR := pllcfgr (PLL o0), RCC_CR := RCC_CR s2 OR RCC_CR_PLLON\<rparr> in
                hal_wait hw (get_flag hw RCC_FLAG_PLLRDY s3) 2 s3)
            else stopped)
         else Inr (HAL_ERROR, s\<lparr>moment := moment s + 1\<rparr>))
      else Inr (HAL_OK, s))"

definition HAL_RCC_OscConfig :: "rcc_hw \<Rightarrow> osc_init option \<Rightarrow> clk \<Rightarrow> (hal_status \<times> clk) outcome" where
  "HAL_RCC_OscConfig hw RCC_OscInitStruct s =
     (case RCC_OscInitStruct of
        None \<Rightarrow> Inr (HAL_ERROR, s)
      | Some o0 \<Rightarrow> if_ok (osc_HSE hw o0 s) (\<lambda>s1. if_ok (osc_HSI hw o0 s1) (\<lambda>s2.
          if_ok (osc_LSI hw o0 s2) (\<lambda>s3. if_ok (osc_LSE hw o0 s3) (osc_PLL hw o0)))))"

section \<open>Frequencies\<close>

definition AHBPrescTable :: "nat list" where
  "AHBPrescTable = [0, 0, 0, 0, 0, 0, 0, 0, 1, 2, 3, 4, 6, 7, 8, 9]"

definition APBPrescTable :: "nat list" where
  "APBPrescTable = [0, 0, 0, 0, 1, 2, 3, 4]"

text \<open>The products are computed on 64 bits; \<open>src\<close> is what the clock's input runs at.\<close>

definition pll_freq :: "nat \<Rightarrow> clk \<Rightarrow> u32 outcome" where
  "pll_freq src s =
     (let pllm = RCC_PLLCFGR s AND 0x3F;
          plln = drop_bit 6 (RCC_PLLCFGR s AND 0x7FC0);
          pllp = (drop_bit 16 (RCC_PLLCFGR s AND 0x30000) + 1) * 2 in
      if pllm = 0 then Inl Div_by_zero
      else (let pllvco = ucast ((of_nat src * ucast plln :: 64 word) div ucast pllm) :: u32 in
            Inr (pllvco div pllp)))"

definition HAL_RCC_GetSysClockFreq :: "rcc_hw \<Rightarrow> clk \<Rightarrow> u32 outcome" where
  "HAL_RCC_GetSysClockFreq hw s =
     (let sws = get_sws hw s (moment s) in
      if sws = RCC_CFGR_SWS_HSI then Inr (of_nat HSI_VALUE)
      else if sws = RCC_CFGR_SWS_HSE then Inr (of_nat HSE_VALUE)
      else if sws = RCC_CFGR_SWS_PLL then
        pll_freq (if RCC_PLLCFGR s AND RCC_PLLCFGR_PLLSRC \<noteq> 0 then HSE_VALUE else HSI_VALUE) s
      else Inr (of_nat HSI_VALUE))"

definition HAL_RCC_GetHCLKFreq :: "clk \<Rightarrow> u32" where
  "HAL_RCC_GetHCLKFreq s = core_clock s"

definition HAL_RCC_GetPCLK1Freq :: "clk \<Rightarrow> u32" where
  "HAL_RCC_GetPCLK1Freq s =
     drop_bit (APBPrescTable ! unat (drop_bit 10 (RCC_CFGR s AND RCC_CFGR_PPRE1))) (HAL_RCC_GetHCLKFreq s)"

definition HAL_RCC_GetPCLK2Freq :: "clk \<Rightarrow> u32" where
  "HAL_RCC_GetPCLK2Freq s =
     drop_bit (APBPrescTable ! unat (drop_bit 13 (RCC_CFGR s AND RCC_CFGR_PPRE2))) (HAL_RCC_GetHCLKFreq s)"

section \<open>The tick\<close>

definition SysTick_Config :: "u32 \<Rightarrow> clk \<Rightarrow> u32 \<times> clk" where
  "SysTick_Config ticks s =
     (if 0xFFFFFF < ticks - 1 then (1, s)
      else (let s1 = s\<lparr>SysTick_LOAD := ticks - 1\<rparr>;
                s2 = s1\<lparr>interrupts := NVIC_SetPriority SysTick_IRQn (push_bit 4 1 - 1) (interrupts s1)\<rparr> in
            (0, s2\<lparr>SysTick_VAL := 0, SysTick_CTRL := 0x7\<rparr>)))"

definition HAL_SYSTICK_Config :: "u32 \<Rightarrow> clk \<Rightarrow> u32 \<times> clk" where
  "HAL_SYSTICK_Config TicksNumb s = SysTick_Config TicksNumb s"

text \<open>\<open>uwTickFreq\<close> is \<open>HAL_TICK_FREQ_1KHZ\<close>, one; the processor has four bits of priority.\<close>

definition HAL_InitTick :: "u32 \<Rightarrow> clk \<Rightarrow> hal_status \<times> clk" where
  "HAL_InitTick TickPriority s =
     (let (r, s1) = HAL_SYSTICK_Config (core_clock s div (1000 div 1)) s in
      if 0 < r then (HAL_ERROR, s1)
      else if TickPriority < push_bit 4 1 then 
        (HAL_OK, s1\<lparr>interrupts := HAL_NVIC_SetPriority SysTick_IRQn TickPriority 0 (interrupts s1), uwTickPrio := TickPriority\<rparr>)
      else (HAL_ERROR, s1))"

abbreviation (input) TICK_INT_PRIORITY :: u32 where "TICK_INT_PRIORITY \<equiv> 0"

section \<open>The clock tree\<close>

record clk_init =
  ClockType :: u32
  SYSCLKSource :: u32
  AHBCLKDivider :: u32
  APB1CLKDivider :: u32
  APB2CLKDivider :: u32

abbreviation (input) RCC_HCLK_DIV16 :: u32 where "RCC_HCLK_DIV16 \<equiv> 0x1C00"

abbreviation (input) flash_latency :: "clk \<Rightarrow> u32" where "flash_latency s \<equiv> FLASH_ACR s AND 0xF"

text \<open>The latency is written to the lowest byte of the register and read back from its field.\<close>

definition set_latency :: "u32 \<Rightarrow> clk \<Rightarrow> hal_status \<times> clk" where
  "set_latency FLatency s =
     (let s1 = s\<lparr>FLASH_ACR := modify_reg (FLASH_ACR s) 0xFF (ucast (ucast FLatency :: u8))\<rparr> in
      (if flash_latency s1 \<noteq> FLatency then HAL_ERROR else HAL_OK, s1))"

definition clk_HCLK :: "clk_init \<Rightarrow> clk \<Rightarrow> clk" where
  "clk_HCLK c s =
     (if ClockType c AND 2 = 2 then
        (let s1 = (if ClockType c AND 4 = 4
                   then s\<lparr>RCC_CFGR := modify_reg (RCC_CFGR s) RCC_CFGR_PPRE1 RCC_HCLK_DIV16\<rparr> else s);
             s2 = (if ClockType c AND 8 = 8
                   then s1\<lparr>RCC_CFGR := modify_reg (RCC_CFGR s1) RCC_CFGR_PPRE2 (push_bit 3 RCC_HCLK_DIV16)\<rparr> else s1) in
         s2\<lparr>RCC_CFGR := modify_reg (RCC_CFGR s2) RCC_CFGR_HPRE (AHBCLKDivider c)\<rparr>)
      else s)"

definition clk_SYSCLK :: "rcc_hw \<Rightarrow> clk_init \<Rightarrow> clk \<Rightarrow> (hal_status \<times> clk) outcome" where
  "clk_SYSCLK hw c s =
     (if ClockType c AND 1 = 1 then
        (let flag = (if SYSCLKSource c = 1 then RCC_FLAG_HSERDY
                     else if SYSCLKSource c = 2 \<or> SYSCLKSource c = 3 then RCC_FLAG_PLLRDY
                     else RCC_FLAG_HSIRDY);
             s1 = s\<lparr>moment := moment s + 1\<rparr> in
         if \<not> get_flag hw flag s (moment s) then Inr (HAL_ERROR, s1)
         else (let s2 = s1\<lparr>RCC_CFGR := modify_reg (RCC_CFGR s1) RCC_CFGR_SW (SYSCLKSource c)\<rparr> in
               hal_wait hw (\<lambda>n. get_sws hw s2 n = push_bit 2 (SYSCLKSource c)) 5000 s2))
      else Inr (HAL_OK, s))"

definition clk_PCLK :: "clk_init \<Rightarrow> clk \<Rightarrow> clk" where
  "clk_PCLK c s =
     (let s1 = (if ClockType c AND 4 = 4
                then s\<lparr>RCC_CFGR := modify_reg (RCC_CFGR s) RCC_CFGR_PPRE1 (APB1CLKDivider c)\<rparr> else s) in
      if ClockType c AND 8 = 8
      then s1\<lparr>RCC_CFGR := modify_reg (RCC_CFGR s1) RCC_CFGR_PPRE2 (push_bit 3 (APB2CLKDivider c))\<rparr> else s1)"

definition HAL_RCC_ClockConfig :: "rcc_hw \<Rightarrow> clk_init option \<Rightarrow> u32 \<Rightarrow> clk \<Rightarrow> (hal_status \<times> clk) outcome" where
  "HAL_RCC_ClockConfig hw RCC_ClkInitStruct FLatency s =
     (case RCC_ClkInitStruct of
        None \<Rightarrow> Inr (HAL_ERROR, s)
      | Some c \<Rightarrow>
          if_ok (Inr (if flash_latency s < FLatency then set_latency FLatency s else (HAL_OK, s))) (\<lambda>s1.
          if_ok (clk_SYSCLK hw c (clk_HCLK c s1)) (\<lambda>s2.
          if_ok (Inr (if FLatency < flash_latency s2 then set_latency FLatency s2 else (HAL_OK, s2))) (\<lambda>s3.
          let s4 = clk_PCLK c s3 in
          obind (HAL_RCC_GetSysClockFreq hw s4) (\<lambda>f.
          let s5 = s4\<lparr>core_clock := drop_bit (AHBPrescTable ! unat (drop_bit 4 (RCC_CFGR s4 AND RCC_CFGR_HPRE))) f,
                      moment := moment s4 + 1\<rparr> in
          Inr (HAL_OK, snd (HAL_InitTick TICK_INT_PRIORITY s5)))))))"

section \<open>The firmware's clocks\<close>

text \<open>The project builds for the hardware floating point unit.\<close>

abbreviation (input) FLASH_BASE :: u32 where "FLASH_BASE \<equiv> 0x08000000"
abbreviation (input) VECT_TAB_OFFSET :: u32 where "VECT_TAB_OFFSET \<equiv> 0x00"

definition SystemInit :: "clk \<Rightarrow> clk" where
  "SystemInit s =
     (let s0 = s\<lparr>SCB_CPACR := SCB_CPACR s OR (push_bit (10 * 2) 3 OR push_bit (11 * 2) 3)\<rparr>;
          s1 = s0\<lparr>RCC_CR := RCC_CR s0 OR 0x1, RCC_CFGR := 0\<rparr>;
          s2 = s1\<lparr>RCC_CR := RCC_CR s1 AND 0xFEF6FFFF, RCC_PLLCFGR := 0x24003010\<rparr> in
      s2\<lparr>RCC_CR := RCC_CR s2 AND 0xFFFBFFFF, RCC_CIR := 0, SCB_VTOR := FLASH_BASE OR VECT_TAB_OFFSET\<rparr>)"

definition HAL_Init :: "clk \<Rightarrow> clk" where
  "HAL_Init s =
     (let s1 = s\<lparr>FLASH_ACR := FLASH_ACR s OR 0x200 OR 0x400 OR 0x100\<rparr>;
          s2 = s1\<lparr>interrupts := HAL_NVIC_SetPriorityGrouping NVIC_PRIORITYGROUP_4 (interrupts s1)\<rparr>;
          s3 = snd (HAL_InitTick TICK_INT_PRIORITY s2) in
      s3\<lparr>interrupts := HAL_MspInit (interrupts s3)\<rparr>)"

text \<open>\<open>_Error_Handler\<close> is an empty endless loop; its outcome is not that of a wait that hangs.\<close>

definition Error_Handler :: "'a outcome" where
  "Error_Handler = Inl Halted"

definition HAL_SYSTICK_CLKSourceConfig :: "u32 \<Rightarrow> clk \<Rightarrow> clk" where
  "HAL_SYSTICK_CLKSourceConfig CLKSource s =
     (if CLKSource = 4 then s\<lparr>SysTick_CTRL := SysTick_CTRL s OR 4\<rparr> else s\<lparr>SysTick_CTRL := SysTick_CTRL s AND NOT 4\<rparr>)"

text \<open>
  The two structures are locals: what \<open>SystemClock_Config\<close> does not assign (\<open>osc\<close>) is whatever the stack holds.
\<close>

definition osc_of_main :: "osc_init \<Rightarrow> osc_init" where
  "osc_of_main osc = osc\<lparr>OscillatorType := 1, HSEState := RCC_HSE_BYPASS,
     PLL := \<lparr>PLLState = RCC_PLL_ON, PLLSource = RCC_PLLCFGR_PLLSRC, PLLM = 4, PLLN = 168, PLLP = 2, PLLQ = 7\<rparr>\<rparr>"

definition clk_of_main :: clk_init where
  "clk_of_main = \<lparr>ClockType = 2 OR 1 OR 4 OR 8, SYSCLKSource = 2, AHBCLKDivider = 0,
     APB1CLKDivider = 0x1400, APB2CLKDivider = 0x1000\<rparr>"

definition SystemClock_Config :: "rcc_hw \<Rightarrow> osc_init \<Rightarrow> clk \<Rightarrow> clk outcome" where
  "SystemClock_Config hw osc s =
     (let s1 = s\<lparr>RCC_APB1ENR := RCC_APB1ENR s OR RCC_APB1ENR_PWREN\<rparr>;
          s2 = s1\<lparr>PWR_CR := modify_reg (PWR_CR s1) PWR_CR_VOS PWR_CR_VOS\<rparr> in
      obind (HAL_RCC_OscConfig hw (Some (osc_of_main osc)) s2) (\<lambda>(st, s3).
      if st \<noteq> HAL_OK then Error_Handler
      else obind (HAL_RCC_ClockConfig hw (Some clk_of_main) 5 s3) (\<lambda>(st, s4).
        if st \<noteq> HAL_OK then Error_Handler
        else let s5 = HAL_SYSTICK_CLKSourceConfig 4 (snd (HAL_SYSTICK_Config (HAL_RCC_GetHCLKFreq s4 div 1000) s4)) in
          Inr (s5\<lparr>interrupts := HAL_NVIC_SetPriority SysTick_IRQn 0 0 (interrupts s5)\<rparr>))))"

end
