(* ===== verification/ClockStart.thy ===== *)
theory ClockStart
  imports Clock
begin

text \<open>
  What the start of the clocks ends in: every waiting loop of it ends, and the processor, its buses, the USB
  peripheral and the tick get the frequencies that the other parts of the firmware count on.
\<close>

section \<open>Fields of a register, and steps\<close>

lemma modify_reg_field: "v AND NOT m = 0 \<Longrightarrow> modify_reg r m v AND m = v"
  unfolding modify_reg_def by (rule bit_word_eqI, drule arg_cong [where f = "\<lambda>w. bit w _"]) (auto simp: bit_simps)

lemma modify_reg_other:
  assumes "m AND k = 0" "v AND k = 0"
  shows "modify_reg r m v AND k = r AND k"
proof (rule bit_word_eqI)
  fix n
  have "bit (m AND k) n = bit (0 :: u32) n" "bit (v AND k) n = bit (0 :: u32) n" using assms by simp_all
  then show "n < LENGTH(32) \<Longrightarrow> bit (modify_reg r m v AND k) n = bit (r AND k) n"
    by (auto simp: modify_reg_def bit_simps)
qed

lemma if_ok_simps [simp]:
  "if_ok (Inr (HAL_OK, s)) f = f s"
  "st \<noteq> HAL_OK \<Longrightarrow> if_ok (Inr (st, s)) f = Inr (st, s)"
  "if_ok (Inl e) f = Inl e"
  by (simp_all add: if_ok_def)

text \<open>
  What a waiting loop comes to. The tick goes on: from any moment it will be late for any start and
  any timeout of this code.
\<close>

definition waited :: "clk \<Rightarrow> (nat \<Rightarrow> bool) \<Rightarrow> (hal_status \<times> clk) outcome \<Rightarrow> bool" where
  "waited s ready m \<longleftrightarrow> (\<exists>st k. m = Inr (st, s\<lparr>moment := Suc k\<rparr>) \<and> moment s < k
     \<and> (st = HAL_OK \<and> ready k \<or> st = HAL_TIMEOUT))"

definition ticks_go_on :: "rcc_hw \<Rightarrow> bool" where
  "ticks_go_on hw \<longleftrightarrow> (\<forall>start n. \<exists>m\<ge>n. 5000 < tick_at hw m - start)"

lemma hal_wait_ends:
  assumes "ticks_go_on hw" "timeout \<le> 5000"
  shows "waited s ready (hal_wait hw ready timeout s)"
proof -
  obtain m where m: "moment s + 1 \<le> m" "5000 < tick_at hw m - tick_at hw (moment s)"
    using assms(1) unfolding ticks_go_on_def by blast
  have "timeout < tick_at hw m - tick_at hw (moment s)" using assms(2) m(2) by (rule le_less_trans)
  from wait_until_ends [where late = "\<lambda>n. timeout < tick_at hw n - tick_at hw (moment s)" and ready = ready, OF m(1) this]
  obtain r k where "wait_until ready (\<lambda>n. timeout < tick_at hw n - tick_at hw (moment s)) (moment s + 1) = Some (r, Suc k)"
      "moment s + 1 \<le> k" "if r then ready k else timeout < tick_at hw k - tick_at hw (moment s)" by blast
  then show ?thesis unfolding waited_def hal_wait_def Let_def
    by (intro exI [of _ "if r then HAL_OK else HAL_TIMEOUT"] exI [of _ k]) auto
qed

text \<open>The flag comes while the tick says less than \<open>timeout\<close>.\<close>

definition in_time :: "rcc_hw \<Rightarrow> (nat \<Rightarrow> bool) \<Rightarrow> u32 \<Rightarrow> nat \<Rightarrow> bool" where
  "in_time hw ready timeout n \<longleftrightarrow> (\<exists>m>n. ready m \<and> (\<forall>i. n < i \<and> i < m \<longrightarrow> tick_at hw i - tick_at hw n \<le> timeout))"

lemma hal_wait_in_time:
  assumes "in_time hw ready timeout (moment s)"
  shows "\<exists>k. hal_wait hw ready timeout s = Inr (HAL_OK, s\<lparr>moment := Suc k\<rparr>) \<and> moment s < k \<and> ready k"
proof -
  obtain m where m: "moment s + 1 \<le> m" "ready m"
      "\<And>i. \<lbrakk>moment s + 1 \<le> i; i < m\<rbrakk> \<Longrightarrow> \<not> timeout < tick_at hw i - tick_at hw (moment s)"
    using assms unfolding in_time_def by (auto simp: not_less Suc_le_eq)
  have "\<exists>k. wait_until ready (\<lambda>n. timeout < tick_at hw n - tick_at hw (moment s)) (moment s + 1) = Some (True, Suc k)
     \<and> moment s + 1 \<le> k \<and> k \<le> m \<and> ready k"
    by (rule wait_until_in_time) (use m in auto)
  then obtain k where "wait_until ready (\<lambda>n. timeout < tick_at hw n - tick_at hw (moment s)) (moment s + 1) = Some (True, Suc k)"
      "moment s + 1 \<le> k" "ready k" by blast
  then show ?thesis unfolding hal_wait_def Let_def by (intro exI [of _ k]) auto
qed


lemma waited_E:
  assumes "waited s ready m"
  obtains k where "m = Inr (HAL_OK, s\<lparr>moment := Suc k\<rparr>)" "moment s < k" "ready k"
  | k where "m = Inr (HAL_TIMEOUT, s\<lparr>moment := Suc k\<rparr>)"
  using assms by (auto simp: waited_def)

lemma osc_of_main_simps [simp]:
  "OscillatorType (osc_of_main osc) = 1" "HSEState (osc_of_main osc) = 0x50000"
  "PLL (osc_of_main osc) = \<lparr>PLLState = 2, PLLSource = 0x400000, PLLM = 4, PLLN = 168, PLLP = 2, PLLQ = 7\<rparr>"
  by (simp_all add: osc_of_main_def)

lemma clk_of_main_simps [simp]:
  "ClockType clk_of_main = 15" "SYSCLKSource clk_of_main = 2" "AHBCLKDivider clk_of_main = 0"
  "APB1CLKDivider clk_of_main = 0x1400" "APB2CLKDivider clk_of_main = 0x1000"
  by (simp_all add: clk_of_main_def)

lemma osc_skipped [simp]:
  "osc_HSI hw (osc_of_main osc) s = Inr (HAL_OK, s)"
  "osc_LSI hw (osc_of_main osc) s = Inr (HAL_OK, s)"
  "osc_LSE hw (osc_of_main osc) s = Inr (HAL_OK, s)"
  by (simp_all add: osc_HSI_def osc_LSI_def osc_LSE_def)

text \<open>Whatever the hardware does, each step ends.\<close>

lemma osc_HSE_ends:
  assumes "ticks_go_on hw"
  shows "\<exists>st s1. osc_HSE hw (osc_of_main osc) s = Inr (st, s1)"
proof -
  let ?s = "HSE_CONFIG 0x50000 (s\<lparr>moment := moment s + 2\<rparr>)"
  have "waited ?s (get_flag hw RCC_FLAG_HSERDY ?s) (hal_wait hw (get_flag hw RCC_FLAG_HSERDY ?s) 100 ?s)"
    by (rule hal_wait_ends [OF assms]) simp
  then show ?thesis
    by (cases rule: waited_E; cases "clock_in_use hw RCC_CFGR_SWS_HSE RCC_PLLCFGR_PLLSRC s")
      (simp_all add: osc_HSE_def)
qed

text \<open>The contents of the two configuration registers at the end.\<close>

definition main_pll :: u32 where "main_pll = 0x7402A04"

lemma main_pllcfgr: "pllcfgr \<lparr>PLLState = 2, PLLSource = 0x400000, PLLM = 4, PLLN = 168, PLLP = 2, PLLQ = 7\<rparr> = main_pll"
  by (simp add: pllcfgr_def main_pll_def)

lemma osc_PLL_ends:
  assumes "ticks_go_on hw"
  shows "\<exists>st s1. osc_PLL hw (osc_of_main osc) s = Inr (st, s1) \<and> (st = HAL_OK \<longrightarrow> RCC_PLLCFGR s1 = main_pll)"
proof (cases "get_sws hw s (moment s) = RCC_CFGR_SWS_PLL")
  case False
  let ?s1 = "s\<lparr>RCC_CR := RCC_CR s AND NOT RCC_CR_PLLON, moment := moment s + 1\<rparr>"
  let ?off = "\<lambda>n. \<not> get_flag hw RCC_FLAG_PLLRDY ?s1 n"
  have "waited ?s1 ?off (hal_wait hw ?off 2 ?s1)" by (rule hal_wait_ends [OF assms]) simp
  then show ?thesis
  proof (cases rule: waited_E)
    case (1 k)
    let ?s2 = "?s1\<lparr>moment := Suc k\<rparr>"
    let ?s3 = "?s2\<lparr>RCC_PLLCFGR := main_pll, RCC_CR := RCC_CR ?s2 OR RCC_CR_PLLON\<rparr>"
    have "waited ?s3 (get_flag hw RCC_FLAG_PLLRDY ?s3) (hal_wait hw (get_flag hw RCC_FLAG_PLLRDY ?s3) 2 ?s3)"
      by (rule hal_wait_ends [OF assms]) simp
    then show ?thesis
      using False 1 by (cases rule: waited_E) (auto simp: osc_PLL_def Let_def main_pllcfgr)
  next
    case (2 k)
    then show ?thesis using False by (simp add: osc_PLL_def Let_def)
  qed
qed (simp add: osc_PLL_def)

lemma OscConfig_ends:
  assumes "ticks_go_on hw"
  shows "\<exists>st s1. HAL_RCC_OscConfig hw (Some (osc_of_main osc)) s = Inr (st, s1)
     \<and> (st = HAL_OK \<longrightarrow> RCC_PLLCFGR s1 = main_pll)"
proof -
  obtain st s1 where hse: "osc_HSE hw (osc_of_main osc) s = Inr (st, s1)"
    using osc_HSE_ends [OF assms] by blast
  then show ?thesis
    using osc_PLL_ends [OF assms, of osc s1] by (cases "st = HAL_OK") (simp_all add: HAL_RCC_OscConfig_def)
qed

text \<open>The last look of the switch saw the PLL in use; it stays so.\<close>

definition pll_stays :: "rcc_hw \<Rightarrow> bool" where
  "pll_stays hw \<longleftrightarrow> (\<forall>n. SWS_at hw 2 n = RCC_CFGR_SWS_PLL \<longrightarrow> SWS_at hw 2 (Suc n) = RCC_CFGR_SWS_PLL)"

text \<open>
  The PLL has a second output, for the USB peripheral, with a divider of its own; the code sets it but never computes with it.
\<close>

definition usb_clock :: "clk \<Rightarrow> nat" where
  "usb_clock s = HSE_VALUE * unat (drop_bit 6 (RCC_PLLCFGR s AND 0x7FC0)) div unat (RCC_PLLCFGR s AND 0x3F)
     div unat (drop_bit 24 (RCC_PLLCFGR s AND 0xF000000))"

text \<open>The clocks as the rest of the firmware expects them.\<close>

definition clocks_168 :: "clk \<Rightarrow> bool" where
  "clocks_168 s \<longleftrightarrow> HAL_RCC_GetHCLKFreq s = 168000000 \<and> HAL_RCC_GetPCLK1Freq s = 42000000
     \<and> HAL_RCC_GetPCLK2Freq s = 84000000 \<and> flash_latency s = 5
     \<and> unat (SysTick_LOAD s) + 1 = 168000 \<and> SysTick_CTRL s = 7
     \<and> usb_clock s = 48000000 \<and> RCC_CFGR s AND RCC_CFGR_SW = 2"

text \<open>The latency is written when it is lower before the switch, or when it is higher after it.\<close>

lemma latency_field: "modify_reg a 0xFF 5 AND 0xF = (5 :: u32)"
proof -
  have "modify_reg a 0xFF 5 AND 0xF = (modify_reg a 0xFF 5 AND 0xFF) AND 0xF" by (simp add: and.assoc)
  also have "\<dots> = 5 AND 0xF" by (subst modify_reg_field) simp_all
  finally show ?thesis by simp
qed

lemma set_latency_5: "set_latency 5 s = (HAL_OK, s\<lparr>FLASH_ACR := modify_reg (FLASH_ACR s) 0xFF 5\<rparr>)"
  by (simp add: set_latency_def latency_field)


lemma latency_low:
  "(if flash_latency s < 5 then set_latency 5 s else (HAL_OK, s))
     = (HAL_OK, s\<lparr>FLASH_ACR := if flash_latency s < 5 then modify_reg (FLASH_ACR s) 0xFF 5 else FLASH_ACR s\<rparr>)"
  by (simp add: set_latency_5)

definition main_cfgr :: "u32 \<Rightarrow> u32" where
  "main_cfgr r = modify_reg (modify_reg (modify_reg (modify_reg (modify_reg (modify_reg r 0x1C00 0x1C00) 0xE000 0xE000)
     0xF0 0) 3 2) 0x1C00 0x1400) 0xE000 0x8000"

lemma main_cfgr_fields:
  "main_cfgr r AND 0x1C00 = 0x1400" "main_cfgr r AND 0xE000 = 0x8000" "main_cfgr r AND 0xF0 = 0" "main_cfgr r AND 3 = 2"
  unfolding main_cfgr_def by (simp_all add: modify_reg_field modify_reg_other)

lemma SYSCLK_ends:
  assumes "ticks_go_on hw"
  shows "(\<exists>st s1. st \<noteq> HAL_OK \<and> clk_SYSCLK hw clk_of_main s = Inr (st, s1))
     \<or> (\<exists>k. clk_SYSCLK hw clk_of_main s = Inr (HAL_OK, s\<lparr>RCC_CFGR := modify_reg (RCC_CFGR s) 3 2, moment := Suc k\<rparr>)
          \<and> SWS_at hw 2 k = RCC_CFGR_SWS_PLL)"
proof (cases "get_flag hw RCC_FLAG_PLLRDY s (moment s)")
  case True
  let ?s2 = "s\<lparr>moment := moment s + 1, RCC_CFGR := modify_reg (RCC_CFGR s) 3 2\<rparr>"
  have sw: "modify_reg (RCC_CFGR s) 3 2 AND 3 = 2" by (rule modify_reg_field) simp
  let ?sw = "\<lambda>n. get_sws hw ?s2 n = push_bit 2 2"
  have run: "clk_SYSCLK hw clk_of_main s = hal_wait hw ?sw 5000 ?s2"
    using True by (simp add: clk_SYSCLK_def Let_def)
  have "waited ?s2 ?sw (hal_wait hw ?sw 5000 ?s2)" by (rule hal_wait_ends [OF assms]) simp
  then show ?thesis
  proof (cases rule: waited_E)
    case (1 k)
    then have "SWS_at hw 2 k = RCC_CFGR_SWS_PLL" by (simp add: get_sws_def sw)
    with 1(1) run show ?thesis by (intro disjI2 exI [of _ k]) simp
  next
    case (2 k)
    then show ?thesis unfolding run by blast
  qed
qed (simp add: clk_SYSCLK_def)

lemma pll_freq_main: "RCC_PLLCFGR s = main_pll \<Longrightarrow> pll_freq HSE_VALUE s = Inr 168000000"
  by (simp add: pll_freq_def main_pll_def Let_def)


lemma ClockConfig_tail:
  assumes "RCC_CFGR s = main_cfgr r" "RCC_PLLCFGR s = main_pll" "flash_latency s = 5"
    and "SWS_at hw 2 (moment s) = RCC_CFGR_SWS_PLL"
  shows "HAL_RCC_GetSysClockFreq hw s = Inr 168000000"
    and "clocks_168 (snd (HAL_InitTick 0 (s\<lparr>core_clock :=
        drop_bit (AHBPrescTable ! unat (drop_bit 4 (RCC_CFGR s AND RCC_CFGR_HPRE))) 168000000, moment := moment s + 1\<rparr>)))"
proof -
  have "main_pll AND 0x400000 \<noteq> 0" by (simp add: main_pll_def)
  then show "HAL_RCC_GetSysClockFreq hw s = Inr 168000000"
    using assms(1,2,4) pll_freq_main [OF assms(2)]
    by (simp add: HAL_RCC_GetSysClockFreq_def get_sws_def main_cfgr_fields)
  have ahb: "drop_bit (AHBPrescTable ! unat (drop_bit 4 (RCC_CFGR s AND RCC_CFGR_HPRE))) 168000000 = (168000000 :: u32)"
    by (simp add: assms(1) main_cfgr_fields AHBPrescTable_def)
  show "clocks_168 (snd (HAL_InitTick 0 (s\<lparr>core_clock :=
        drop_bit (AHBPrescTable ! unat (drop_bit 4 (RCC_CFGR s AND RCC_CFGR_HPRE))) 168000000, moment := moment s + 1\<rparr>)))"
    unfolding ahb
    using assms(1-3)
    by (simp add: clocks_168_def HAL_InitTick_def HAL_SYSTICK_Config_def SysTick_Config_def HAL_RCC_GetHCLKFreq_def
        HAL_RCC_GetPCLK1Freq_def HAL_RCC_GetPCLK2Freq_def main_cfgr_fields APBPrescTable_def usb_clock_def main_pll_def)
qed

lemma ClockConfig_ends:
  assumes "ticks_go_on hw" "pll_stays hw" "RCC_PLLCFGR s = main_pll"
  shows "\<exists>st s1. HAL_RCC_ClockConfig hw (Some clk_of_main) 5 s = Inr (st, s1) \<and> (st = HAL_OK \<longrightarrow> clocks_168 s1)
     \<and> ((\<forall>t. RCC_CR t = RCC_CR s \<and> moment t = moment s \<longrightarrow> (\<exists>t1. clk_SYSCLK hw clk_of_main t = Inr (HAL_OK, t1)))
        \<longrightarrow> st = HAL_OK)"
proof -
  define s1 where "s1 = s\<lparr>FLASH_ACR := if flash_latency s < 5 then modify_reg (FLASH_ACR s) 0xFF 5 else FLASH_ACR s\<rparr>"
  define s2 where "s2 = clk_HCLK clk_of_main s1"
  have s2: "s2 = s1\<lparr>RCC_CFGR := modify_reg (modify_reg (modify_reg (RCC_CFGR s) 0x1C00 0x1C00) 0xE000 0xE000) 0xF0 0\<rparr>"
    by (simp add: s2_def s1_def clk_HCLK_def Let_def)
  have run: "HAL_RCC_ClockConfig hw (Some clk_of_main) 5 s = if_ok (clk_SYSCLK hw clk_of_main s2) (\<lambda>s2.
        if_ok (Inr (if 5 < flash_latency s2 then set_latency 5 s2 else (HAL_OK, s2))) (\<lambda>s3.
        let s4 = clk_PCLK clk_of_main s3 in
        obind (HAL_RCC_GetSysClockFreq hw s4) (\<lambda>f.
        let s5 = s4\<lparr>core_clock := drop_bit (AHBPrescTable ! unat (drop_bit 4 (RCC_CFGR s4 AND RCC_CFGR_HPRE))) f,
                    moment := moment s4 + 1\<rparr> in
        Inr (HAL_OK, snd (HAL_InitTick TICK_INT_PRIORITY s5)))))"
    unfolding HAL_RCC_ClockConfig_def option.case latency_low if_ok_simps s1_def [symmetric] s2_def [symmetric] ..
  consider (err) st s3 where "st \<noteq> HAL_OK" "clk_SYSCLK hw clk_of_main s2 = Inr (st, s3)"
    | (ok) k where "clk_SYSCLK hw clk_of_main s2 = Inr (HAL_OK, s2\<lparr>RCC_CFGR := modify_reg (RCC_CFGR s2) 3 2, moment := Suc k\<rparr>)"
        "SWS_at hw 2 k = RCC_CFGR_SWS_PLL"
    using SYSCLK_ends [OF assms(1), of s2] by blast
  then show ?thesis
  proof cases
    case err
    have "RCC_CR s2 = RCC_CR s" "moment s2 = moment s" by (simp_all add: s2 s1_def)
    then show ?thesis using err unfolding run by fastforce
  next
    case ok
    define s3 where "s3 = s2\<lparr>RCC_CFGR := modify_reg (RCC_CFGR s2) 3 2, moment := Suc k\<rparr>"
    define s3' where "s3' = s3\<lparr>FLASH_ACR := if 5 < flash_latency s3 then modify_reg (FLASH_ACR s3) 0xFF 5 else FLASH_ACR s3\<rparr>"
    define s4 where "s4 = clk_PCLK clk_of_main s3'"
    have high: "(if 5 < flash_latency s3 then set_latency 5 s3 else (HAL_OK, s3)) = (HAL_OK, s3')"
      by (simp add: s3'_def set_latency_5)
    have lat1: "5 \<le> flash_latency s1" by (simp add: s1_def latency_field not_less)
    have "flash_latency s3 = flash_latency s1" by (simp add: s3_def s2)
    then have lat: "flash_latency s3' = 5" using lat1 by (auto simp: s3'_def latency_field)
    have s4: "RCC_CFGR s4 = main_cfgr (RCC_CFGR s)" "RCC_PLLCFGR s4 = main_pll" "flash_latency s4 = 5" "moment s4 = Suc k"
      using lat by (simp_all add: s4_def clk_PCLK_def Let_def s3'_def s3_def s2 s1_def main_cfgr_def assms(3))
    have "SWS_at hw 2 (moment s4) = RCC_CFGR_SWS_PLL" using ok(2) assms(2) s4(4) by (simp add: pll_stays_def)
    from ClockConfig_tail [OF s4(1-3) this] show ?thesis
      unfolding run ok(1) s3_def [symmetric] if_ok_simps high s4_def [symmetric] Let_def by simp
  qed
qed

lemma clocks_168_interrupts [simp]: "clocks_168 (s\<lparr>interrupts := i\<rparr>) = clocks_168 s"
  by (simp add: clocks_168_def HAL_RCC_GetHCLKFreq_def HAL_RCC_GetPCLK1Freq_def HAL_RCC_GetPCLK2Freq_def usb_clock_def)

text \<open>The tick has the highest priority, whatever the grouping.\<close>

lemma tick_priority:
  assumes "SystemClock_Config hw osc s = Inr c"
  shows "NVIC_GetPriority SysTick_IRQn (interrupts c) = 0"
  using assms by (auto simp: SystemClock_Config_def Let_def Error_Handler_def obind_Inr_iff zero_priority priority_stored split: if_splits)

lemma clocks_168_tick:
  "clocks_168 s \<Longrightarrow> clocks_168 (HAL_SYSTICK_CLKSourceConfig 4 (snd (HAL_SYSTICK_Config (HAL_RCC_GetHCLKFreq s div 1000) s)))"
  by (auto simp: clocks_168_def HAL_SYSTICK_CLKSourceConfig_def HAL_SYSTICK_Config_def SysTick_Config_def
      HAL_RCC_GetHCLKFreq_def HAL_RCC_GetPCLK1Freq_def HAL_RCC_GetPCLK2Freq_def usb_clock_def)

text \<open>
  For any hardware whose tick goes on and that stays on the PLL, and any contents of the registers, the
  configuration ends with the clocks or in the error handler.
\<close>

lemma clock_config_ends:
  assumes "ticks_go_on hw" "pll_stays hw"
  shows "SystemClock_Config hw osc s = Error_Handler \<or> (\<exists>s1. SystemClock_Config hw osc s = Inr s1 \<and> clocks_168 s1)"
proof -
  define s2 where "s2 = s\<lparr>RCC_APB1ENR := RCC_APB1ENR s OR RCC_APB1ENR_PWREN, PWR_CR := modify_reg (PWR_CR s) PWR_CR_VOS PWR_CR_VOS\<rparr>"
  obtain st s3 where 3: "HAL_RCC_OscConfig hw (Some (osc_of_main osc)) s2 = Inr (st, s3)"
      "st = HAL_OK \<longrightarrow> RCC_PLLCFGR s3 = main_pll"
    using OscConfig_ends [OF assms(1)] by blast
  show ?thesis
  proof (cases "st = HAL_OK")
    case True
    then obtain st' s4 where 4: "HAL_RCC_ClockConfig hw (Some clk_of_main) 5 s3 = Inr (st', s4)" "st' = HAL_OK \<longrightarrow> clocks_168 s4"
      using ClockConfig_ends [OF assms] 3(2) by blast
    show ?thesis
    proof (cases "st' = HAL_OK")
      case True
      then show ?thesis
        using \<open>st = HAL_OK\<close> 3(1) 4 clocks_168_tick [of s4] unfolding SystemClock_Config_def Let_def
        by (simp add: s2_def)
    next
      case False
      then show ?thesis
        using \<open>st = HAL_OK\<close> 3(1) 4(1) by (simp add: SystemClock_Config_def Let_def s2_def)
    qed
  next
    case False
    then show ?thesis using 3(1) by (simp add: SystemClock_Config_def Let_def s2_def)
  qed
qed


text \<open>
  Hardware that answers in the time the code allows: the oscillators follow their switches within their
  timeouts, the PLL stays locked, the processor runs from the internal oscillator as long as that is selected and
  takes the PLL within five seconds.
\<close>

definition rcc_in_time :: "rcc_hw \<Rightarrow> bool" where
  "rcc_in_time hw \<longleftrightarrow>
     (\<forall>cr n. cr AND RCC_CR_HSEON \<noteq> 0 \<longrightarrow> in_time hw (flag_at hw RCC_FLAG_HSERDY cr) 100 n)
   \<and> (\<forall>cr n. cr AND RCC_CR_PLLON = 0 \<longrightarrow> in_time hw (\<lambda>m. \<not> flag_at hw RCC_FLAG_PLLRDY cr m) 2 n)
   \<and> (\<forall>cr n. cr AND RCC_CR_PLLON \<noteq> 0 \<longrightarrow> in_time hw (flag_at hw RCC_FLAG_PLLRDY cr) 2 n
        \<and> (flag_at hw RCC_FLAG_PLLRDY cr n \<longrightarrow> flag_at hw RCC_FLAG_PLLRDY cr (Suc n)))
   \<and> (\<forall>n. SWS_at hw 0 n = RCC_CFGR_SWS_HSI \<and> in_time hw (\<lambda>m. SWS_at hw 2 m = RCC_CFGR_SWS_PLL) 5000 n)"

lemma flag_regs [simp]:
  "flag_reg 49 s = RCC_CR s" "flag_reg 57 s = RCC_CR s" "flag_reg 33 s = RCC_CR s"
  by (simp_all add: flag_reg_def)

lemma bit_set_nonzero: "bit m n \<Longrightarrow> (w OR m) AND m \<noteq> (0 :: u32)"
  by (metis bit_0_eq bit_and_iff bit_or_iff bot_apply bot_bool_def)

lemma PLLON_cleared: "(w AND NOT RCC_CR_PLLON) AND RCC_CR_PLLON = 0"
  by (simp add: and.assoc)

lemma OscConfig_in_time:
  assumes hw: "rcc_in_time hw" and s: "RCC_CFGR s AND 3 = 0"
  shows "\<exists>s1. HAL_RCC_OscConfig hw (Some (osc_of_main osc)) s = Inr (HAL_OK, s1)
     \<and> get_flag hw RCC_FLAG_PLLRDY s1 (moment s1)"
proof -
  have sws: "get_sws hw t n = 0" if "RCC_CFGR t = RCC_CFGR s" for t n
    using hw s that by (simp add: get_sws_def rcc_in_time_def)
  let ?s1 = "HSE_CONFIG 0x50000 (s\<lparr>moment := moment s + 2\<rparr>)"
  have "bit (RCC_CR_HSEON) 16" by simp
  then have "RCC_CR ?s1 AND RCC_CR_HSEON \<noteq> 0"
    using bit_set_nonzero [of "0x10000" 16 "RCC_CR s OR 0x40000"] by (simp add: HSE_CONFIG_def or.assoc)
  then have "in_time hw (get_flag hw RCC_FLAG_HSERDY ?s1) 100 (moment ?s1)"
    using hw by (simp add: rcc_in_time_def get_flag_def [abs_def])
  from hal_wait_in_time [OF this] obtain k where
      1: "hal_wait hw (get_flag hw RCC_FLAG_HSERDY ?s1) 100 ?s1 = Inr (HAL_OK, ?s1\<lparr>moment := Suc k\<rparr>)" by blast
  define s2 where "s2 = ?s1\<lparr>moment := Suc k\<rparr>"
  have hse: "osc_HSE hw (osc_of_main osc) s = Inr (HAL_OK, s2)"
    using 1 sws by (simp add: osc_HSE_def clock_in_use_def s2_def)
  have cfgr: "RCC_CFGR s2 = RCC_CFGR s" by (simp add: s2_def HSE_CONFIG_def)
  let ?s3 = "s2\<lparr>RCC_CR := RCC_CR s2 AND NOT RCC_CR_PLLON, moment := moment s2 + 1\<rparr>"
  let ?off = "\<lambda>n. \<not> get_flag hw RCC_FLAG_PLLRDY ?s3 n"
  have "RCC_CR ?s3 AND RCC_CR_PLLON = 0" using PLLON_cleared [of "RCC_CR s2"] by simp
  then have "in_time hw ?off 2 (moment ?s3)"
    using hw unfolding rcc_in_time_def get_flag_def flag_regs by blast
  from hal_wait_in_time [OF this] obtain k where
      3: "hal_wait hw ?off 2 ?s3 = Inr (HAL_OK, ?s3\<lparr>moment := Suc k\<rparr>)" by blast
  let ?s4 = "?s3\<lparr>moment := Suc k\<rparr>"
  let ?s5 = "?s4\<lparr>RCC_PLLCFGR := main_pll, RCC_CR := RCC_CR ?s4 OR RCC_CR_PLLON\<rparr>"
  have "bit (RCC_CR_PLLON) 24" by simp
  then have on: "RCC_CR ?s5 AND RCC_CR_PLLON \<noteq> 0"
    using bit_set_nonzero [of "0x1000000" 24 "RCC_CR ?s4"] by simp
  then have "in_time hw (get_flag hw RCC_FLAG_PLLRDY ?s5) 2 (moment ?s5)"
    using hw unfolding rcc_in_time_def get_flag_def [abs_def] flag_regs by blast
  from hal_wait_in_time [OF this] obtain j where
      5: "hal_wait hw (get_flag hw RCC_FLAG_PLLRDY ?s5) 2 ?s5 = Inr (HAL_OK, ?s5\<lparr>moment := Suc j\<rparr>)"
         "get_flag hw RCC_FLAG_PLLRDY ?s5 j" by blast
  have pll: "osc_PLL hw (osc_of_main osc) s2 = Inr (HAL_OK, ?s5\<lparr>moment := Suc j\<rparr>)"
    using 3 5(1) sws [OF cfgr] by (simp add: osc_PLL_def Let_def main_pllcfgr)
  have "get_flag hw RCC_FLAG_PLLRDY ?s5 (Suc j)"
    using 5(2) on hw unfolding rcc_in_time_def get_flag_def flag_regs by blast
  then show ?thesis
    using hse pll by (simp add: HAL_RCC_OscConfig_def get_flag_def)
qed

lemma SYSCLK_in_time:
  assumes "rcc_in_time hw" "get_flag hw RCC_FLAG_PLLRDY s (moment s)"
  shows "\<exists>s1. clk_SYSCLK hw clk_of_main s = Inr (HAL_OK, s1)"
proof -
  let ?s2 = "s\<lparr>moment := moment s + 1, RCC_CFGR := modify_reg (RCC_CFGR s) 3 2\<rparr>"
  have sw: "modify_reg (RCC_CFGR s) 3 2 AND 3 = 2" by (rule modify_reg_field) simp
  have "in_time hw (\<lambda>n. get_sws hw ?s2 n = push_bit 2 2) 5000 (moment ?s2)"
    using assms(1) by (simp add: rcc_in_time_def get_sws_def sw)
  from hal_wait_in_time [OF this] show ?thesis
    using assms(2) by (auto simp: clk_SYSCLK_def Let_def)
qed

text \<open>Over hardware in time, from the internal oscillator, it does not end in the error handler.\<close>

lemma clock_config_in_time:
  assumes "ticks_go_on hw" "pll_stays hw" "rcc_in_time hw" "RCC_CFGR s AND 3 = 0"
  shows "\<exists>s1. SystemClock_Config hw osc s = Inr s1"
proof -
  define s2 where "s2 = s\<lparr>RCC_APB1ENR := RCC_APB1ENR s OR RCC_APB1ENR_PWREN, PWR_CR := modify_reg (PWR_CR s) PWR_CR_VOS PWR_CR_VOS\<rparr>"
  have "RCC_CFGR s2 AND 3 = 0" using assms(4) by (simp add: s2_def)
  from OscConfig_in_time [OF assms(3) this, of osc] obtain s3 where
      3: "HAL_RCC_OscConfig hw (Some (osc_of_main osc)) s2 = Inr (HAL_OK, s3)"
         "get_flag hw RCC_FLAG_PLLRDY s3 (moment s3)" by blast
  have pll: "RCC_PLLCFGR s3 = main_pll" using OscConfig_ends [OF assms(1), of osc s2] 3(1) by auto
  have "\<exists>t1. clk_SYSCLK hw clk_of_main t = Inr (HAL_OK, t1)" if "RCC_CR t = RCC_CR s3 \<and> moment t = moment s3" for t
    using that 3(2) by (intro SYSCLK_in_time [OF assms(3)]) (simp add: get_flag_def)
  then obtain s4 where "HAL_RCC_ClockConfig hw (Some clk_of_main) 5 s3 = Inr (HAL_OK, s4)"
    using ClockConfig_ends [OF assms(1,2) pll] by blast
  then show ?thesis using 3(1) by (simp add: SystemClock_Config_def Let_def s2_def)
qed

lemma started_on_HSI: "RCC_CFGR (HAL_Init (SystemInit z)) = 0"
  by (simp add: HAL_Init_def HAL_InitTick_def HAL_SYSTICK_Config_def SysTick_Config_def SystemInit_def Let_def)

text \<open>Hardware that follows at once, with one tick per look.\<close>

definition prompt_rcc :: rcc_hw where
  "prompt_rcc = \<lparr>flag_at = \<lambda>f reg n. reg AND (if f = RCC_FLAG_HSERDY then RCC_CR_HSEON else RCC_CR_PLLON) \<noteq> 0,
     SWS_at = \<lambda>sw n. push_bit 2 sw, DBP_at = \<lambda>reg n. reg AND PWR_CR_DBP \<noteq> 0, tick_at = \<lambda>n. of_nat n\<rparr>"

lemma ticks_of_nat: "\<exists>m\<ge>n. 5000 < (of_nat m :: u32) - start"
proof (intro exI conjI)
  let ?k = "unat (start + 5001 - of_nat n)"
  show "n \<le> n + ?k" by simp
  show "5000 < (of_nat (n + ?k) :: u32) - start" by simp
qed

lemma prompt_rcc_ok: "ticks_go_on prompt_rcc" "pll_stays prompt_rcc" "rcc_in_time prompt_rcc"
proof -
  show "ticks_go_on prompt_rcc" using ticks_of_nat by (simp add: ticks_go_on_def prompt_rcc_def)
  show "pll_stays prompt_rcc" by (simp add: pll_stays_def prompt_rcc_def)
  have "in_time hw ready t n" if "ready (Suc n)" for hw ready t n
    using that by (auto simp: in_time_def intro!: exI [of _ "Suc n"])
  then show "rcc_in_time prompt_rcc" by (simp add: rcc_in_time_def prompt_rcc_def)
qed

end
