(* ===== verification/Gpio.thy ===== *)
theory Gpio
  imports Prelude
begin

text \<open>
  The general purpose pins: \<open>stm32f4xx_hal_gpio.c\<close> over the registers of the ports, of the external interrupt lines and of the
  clock gates. Each pin owns a field in every register of its port and one line of the external interrupts; the
  view \<open>pin_of\<close> and \<open>line_of\<close> of a pin refines the registers. Parameter checks (\<open>assert_param\<close>) are compiled out.
\<close>

section \<open>State\<close>

datatype gpio_port = GPIOA | GPIOB | GPIOC | GPIOD | GPIOE | GPIOF | GPIOG | GPIOH | GPIOI | GPIOJ | GPIOK

record gpio =
  MODER :: u32
  OTYPER :: u32
  OSPEEDR :: u32
  PUPDR :: u32
  ODR :: u32
  AFR :: "nat \<Rightarrow> u32"   \<comment> \<open>two registers\<close>

record pins =
  port :: "gpio_port \<Rightarrow> gpio"
  EXTICR :: "nat \<Rightarrow> u32"   \<comment> \<open>four registers\<close>
  EXTI_IMR :: u32
  EXTI_EMR :: u32
  EXTI_RTSR :: u32
  EXTI_FTSR :: u32
  RCC_AHB1ENR :: u32
  RCC_AHB2ENR :: u32
  RCC_APB2ENR :: u32
  NVIC_ISER :: "nat \<Rightarrow> u32"   \<comment> \<open>the interrupts enabled, 32 in each register\<close>

record gpio_init =
  Pin :: u32
  PinMode :: u32
  Pull :: u32
  PinSpeed :: u32
  Alternate :: u32

abbreviation (input) GPIO_MODE_INPUT :: u32 where "GPIO_MODE_INPUT \<equiv> 0x0"
abbreviation (input) GPIO_MODE_OUTPUT_PP :: u32 where "GPIO_MODE_OUTPUT_PP \<equiv> 0x1"
abbreviation (input) GPIO_MODE_OUTPUT_OD :: u32 where "GPIO_MODE_OUTPUT_OD \<equiv> 0x11"
abbreviation (input) GPIO_MODE_AF_PP :: u32 where "GPIO_MODE_AF_PP \<equiv> 0x2"
abbreviation (input) GPIO_MODE_AF_OD :: u32 where "GPIO_MODE_AF_OD \<equiv> 0x12"
abbreviation (input) GPIO_MODE_IT_RISING :: u32 where "GPIO_MODE_IT_RISING \<equiv> 0x10110000"
abbreviation (input) EXTI_MODE :: u32 where "EXTI_MODE \<equiv> 0x10000000"
abbreviation (input) GPIO_MODE_IT :: u32 where "GPIO_MODE_IT \<equiv> 0x10000"
abbreviation (input) GPIO_MODE_EVT :: u32 where "GPIO_MODE_EVT \<equiv> 0x20000"
abbreviation (input) RISING_EDGE :: u32 where "RISING_EDGE \<equiv> 0x100000"
abbreviation (input) FALLING_EDGE :: u32 where "FALLING_EDGE \<equiv> 0x200000"
abbreviation (input) RCC_APB2ENR_SYSCFGEN :: u32 where "RCC_APB2ENR_SYSCFGEN \<equiv> 0x4000"
abbreviation (input) RCC_AHB2ENR_OTGFSEN :: u32 where "RCC_AHB2ENR_OTGFSEN \<equiv> 0x80"

definition GPIO_GET_INDEX :: "gpio_port \<Rightarrow> u32" where
  "GPIO_GET_INDEX gp = (case gp of GPIOA \<Rightarrow> 0 | GPIOB \<Rightarrow> 1 | GPIOC \<Rightarrow> 2 | GPIOD \<Rightarrow> 3 | GPIOE \<Rightarrow> 4 | GPIOF \<Rightarrow> 5
     | GPIOG \<Rightarrow> 6 | GPIOH \<Rightarrow> 7 | GPIOI \<Rightarrow> 8 | GPIOJ \<Rightarrow> 9 | GPIOK \<Rightarrow> 10)"

section \<open>Operations\<close>

text \<open>\<open>temp = reg; temp &= ~(clear << sh); temp |= (val << sh); reg = temp;\<close>\<close>

definition set_field :: "u32 \<Rightarrow> nat \<Rightarrow> u32 \<Rightarrow> u32 \<Rightarrow> u32" where
  "set_field reg sh clear val = (reg AND NOT (push_bit sh clear)) OR push_bit sh val"

text \<open>\<open>temp = reg; temp &= ~line; if (on) temp |= line; reg = temp;\<close>\<close>

definition set_line :: "u32 \<Rightarrow> u32 \<Rightarrow> bool \<Rightarrow> u32" where
  "set_line reg line on = (if on then (reg AND NOT line) OR line else reg AND NOT line)"

definition is_AF :: "u32 \<Rightarrow> bool" where
  "is_AF m \<longleftrightarrow> m = GPIO_MODE_AF_PP \<or> m = GPIO_MODE_AF_OD"

definition is_driven :: "u32 \<Rightarrow> bool" where
  "is_driven m \<longleftrightarrow> m = GPIO_MODE_OUTPUT_PP \<or> m = GPIO_MODE_AF_PP \<or> m = GPIO_MODE_OUTPUT_OD \<or> m = GPIO_MODE_AF_OD"

definition init_pin :: "gpio_init \<Rightarrow> nat \<Rightarrow> gpio \<Rightarrow> gpio" where
  "init_pin gi position g =
     (let g1 = (if is_AF (PinMode gi)
                then g\<lparr>AFR := (AFR g)(position div 8 :=
                       set_field (AFR g (position div 8)) (position mod 8 * 4) 0xF (Alternate gi))\<rparr> else g);
          g2 = g1\<lparr>MODER := set_field (MODER g1) (position * 2) 0x3 (PinMode gi AND 0x3)\<rparr>;
          g3 = (if is_driven (PinMode gi)
                then g2\<lparr>OSPEEDR := set_field (OSPEEDR g2) (position * 2) 0x3 (PinSpeed gi),
                        OTYPER := set_field (OTYPER g2) position 0x1 (drop_bit 4 (PinMode gi AND 0x10))\<rparr> else g2) in
      g3\<lparr>PUPDR := set_field (PUPDR g3) (position * 2) 0x3 (Pull gi)\<rparr>)"

definition init_line :: "gpio_port \<Rightarrow> gpio_init \<Rightarrow> nat \<Rightarrow> u32 \<Rightarrow> pins \<Rightarrow> pins" where
  "init_line gp gi position iocurrent s =
     (if PinMode gi AND EXTI_MODE = EXTI_MODE then
        s\<lparr>RCC_APB2ENR := RCC_APB2ENR s OR RCC_APB2ENR_SYSCFGEN,
          EXTICR := (EXTICR s)(position div 4 :=
            set_field (EXTICR s (position div 4)) (4 * (position mod 4)) 0xF (GPIO_GET_INDEX gp)),
          EXTI_IMR := set_line (EXTI_IMR s) iocurrent (PinMode gi AND GPIO_MODE_IT = GPIO_MODE_IT),
          EXTI_EMR := set_line (EXTI_EMR s) iocurrent (PinMode gi AND GPIO_MODE_EVT = GPIO_MODE_EVT),
          EXTI_RTSR := set_line (EXTI_RTSR s) iocurrent (PinMode gi AND RISING_EDGE = RISING_EDGE),
          EXTI_FTSR := set_line (EXTI_FTSR s) iocurrent (PinMode gi AND FALLING_EDGE = FALLING_EDGE)\<rparr>
      else s)"

definition init_position :: "gpio_port \<Rightarrow> gpio_init \<Rightarrow> nat \<Rightarrow> pins \<Rightarrow> pins" where
  "init_position gp gi position s =
     (let ioposition = push_bit position 1; iocurrent = Pin gi AND ioposition in
      if iocurrent = ioposition
      then init_line gp gi position iocurrent (s\<lparr>port := (port s)(gp := init_pin gi position (port s gp))\<rparr>)
      else s)"

definition HAL_GPIO_Init :: "gpio_port \<Rightarrow> gpio_init \<Rightarrow> pins \<Rightarrow> pins" where
  "HAL_GPIO_Init GPIOx GPIO_Init s = fold (init_position GPIOx GPIO_Init) [0..<16] s"

definition deinit_pin :: "nat \<Rightarrow> gpio \<Rightarrow> gpio" where
  "deinit_pin position g =
     g\<lparr>MODER := MODER g AND NOT (push_bit (position * 2) 0x3),
       AFR := (AFR g)(position div 8 := AFR g (position div 8) AND NOT (push_bit (position mod 8 * 4) 0xF)),
       OSPEEDR := OSPEEDR g AND NOT (push_bit (position * 2) 0x3),
       OTYPER := OTYPER g AND NOT (push_bit position 0x1),
       PUPDR := PUPDR g AND NOT (push_bit (position * 2) 0x3)\<rparr>"

definition deinit_line :: "gpio_port \<Rightarrow> nat \<Rightarrow> u32 \<Rightarrow> pins \<Rightarrow> pins" where
  "deinit_line gp position iocurrent s =
     (if EXTICR s (position div 4) AND push_bit (4 * (position mod 4)) 0xF = push_bit (4 * (position mod 4)) (GPIO_GET_INDEX gp) then
        s\<lparr>EXTICR := (EXTICR s)(position div 4 := EXTICR s (position div 4) AND NOT (push_bit (4 * (position mod 4)) 0xF)),
          EXTI_IMR := EXTI_IMR s AND NOT iocurrent, EXTI_EMR := EXTI_EMR s AND NOT iocurrent,
          EXTI_RTSR := EXTI_RTSR s AND NOT iocurrent, EXTI_FTSR := EXTI_FTSR s AND NOT iocurrent\<rparr>
      else s)"

definition deinit_position :: "gpio_port \<Rightarrow> u32 \<Rightarrow> nat \<Rightarrow> pins \<Rightarrow> pins" where
  "deinit_position gp pin position s =
     (let ioposition = push_bit position 1; iocurrent = pin AND ioposition in
      if iocurrent = ioposition
      then deinit_line gp position iocurrent (s\<lparr>port := (port s)(gp := deinit_pin position (port s gp))\<rparr>)
      else s)"

definition HAL_GPIO_DeInit :: "gpio_port \<Rightarrow> u32 \<Rightarrow> pins \<Rightarrow> pins" where
  "HAL_GPIO_DeInit GPIOx GPIO_Pin s = fold (deinit_position GPIOx GPIO_Pin) [0..<16] s"

text \<open>A write to \<open>BSRR\<close> sets the output bits of its lower half and clears those of its upper half.\<close>

definition HAL_GPIO_WritePin :: "gpio_port \<Rightarrow> u16 \<Rightarrow> bool \<Rightarrow> pins \<Rightarrow> pins" where
  "HAL_GPIO_WritePin GPIOx GPIO_Pin PinState s =
     (let g = port s GPIOx in
      s\<lparr>port := (port s)(GPIOx := g\<lparr>ODR := (if PinState then ODR g OR ucast GPIO_Pin else ODR g AND NOT (ucast GPIO_Pin))\<rparr>)\<rparr>)"

definition HAL_GPIO_TogglePin :: "gpio_port \<Rightarrow> u16 \<Rightarrow> pins \<Rightarrow> pins" where
  "HAL_GPIO_TogglePin GPIOx GPIO_Pin s =
     s\<lparr>port := (port s)(GPIOx := (port s GPIOx)\<lparr>ODR := ODR (port s GPIOx) XOR ucast GPIO_Pin\<rparr>)\<rparr>"

definition GPIO_CLK_ENABLE :: "gpio_port \<Rightarrow> pins \<Rightarrow> pins" where
  "GPIO_CLK_ENABLE gp s = s\<lparr>RCC_AHB1ENR := RCC_AHB1ENR s OR push_bit (unat (GPIO_GET_INDEX gp)) 1\<rparr>"

text \<open>Writing ones to an enable register of the interrupt controller enables these interrupts.\<close>

definition HAL_NVIC_EnableIRQ :: "nat \<Rightarrow> pins \<Rightarrow> pins" where
  "HAL_NVIC_EnableIRQ IRQn s = s\<lparr>NVIC_ISER := (NVIC_ISER s)(IRQn div 32 := NVIC_ISER s (IRQn div 32) OR push_bit (IRQn mod 32) 1)\<rparr>"

end
