(* ===== verification/Pins.thy ===== *)
theory Pins
  imports Gpio
begin

text \<open>
  What the operations on pins do, pin by pin: the registers of a port and of the external interrupts are arrays of
  fields, and each operation changes the fields of the selected pins and no other.
\<close>

section \<open>Fields of a register\<close>

definition field :: "nat \<Rightarrow> u32 \<Rightarrow> nat \<Rightarrow> u32" where
  "field k r i = take_bit k (drop_bit (i * k) r)"

lemma field_bits: "bit (field k r i) m \<longleftrightarrow> m < k \<and> bit r (i * k + m)"
  by (simp add: field_def bit_simps)

lemma fields_apart:
  assumes "m < (k :: nat)" "m' < k" "i * k + m = j * k + m'"
  shows "i = j"
proof -
  have "(i * k + m) div k = i" "(j * k + m') div k = j" using assms(1,2) by simp_all
  then show ?thesis using assms(3) by simp
qed

lemma field_set:
  assumes "take_bit k v = v" "j * k + k \<le> 32"
  shows "field k (set_field r (i * k) (mask k) v) j = (if i = j then v else field k r j)"
proof (rule bit_word_eqI)
  fix m assume "m < LENGTH(32)"
  show "bit (field k (set_field r (i * k) (mask k) v) j) m = bit (if i = j then v else field k r j) m"
  proof (cases "m < k")
    case True
    then have lt: "j * k + m < 32" using assms(2) by simp
    show ?thesis
    proof (cases "i = j")
      case True
      then show ?thesis using \<open>m < k\<close> lt by (simp add: field_bits set_field_def bit_simps)
    next
      case False
      have "\<not> bit (mask k :: u32) (j * k + m - i * k) \<or> \<not> i * k \<le> j * k + m"
        using fields_apart [of "j * k + m - i * k" k m i j] True False by (auto simp: bit_mask_iff)
      moreover have "\<not> bit v (j * k + m - i * k) \<or> \<not> i * k \<le> j * k + m"
      proof (rule ccontr)
        assume "\<not> ?thesis"
        then have b: "bit v (j * k + m - i * k)" "i * k \<le> j * k + m" by auto
        then have "j * k + m - i * k < k" using assms(1) by (metis bit_take_bit_iff)
        then show False using fields_apart [of "j * k + m - i * k" k m i j] True False b(2) by simp
      qed
      ultimately show ?thesis using True False lt by (auto simp: field_bits set_field_def bit_simps)
    qed
  next
    case False
    then have "\<not> bit v m" using assms(1) by (metis bit_take_bit_iff)
    then show ?thesis using False by (simp add: field_bits)
  qed
qed

lemma field_clear:
  assumes "j * k + k \<le> 32"
  shows "field k (r AND NOT (push_bit (i * k) (mask k))) j = (if i = j then 0 else field k r j)"
  using field_set [OF _ assms, of 0 r i] by (simp add: set_field_def)

lemma selected_iff:
  assumes "n < 32"
  shows "x AND push_bit n 1 = push_bit n 1 \<longleftrightarrow> bit (x :: u32) n"
proof
  note n = assms
  assume "x AND push_bit n 1 = push_bit n 1"
  then have "bit (x AND push_bit n 1) n = bit (push_bit n 1 :: u32) n" by simp
  then show "bit x n" using n by (simp add: bit_simps)
next
  assume "bit x n"
  then show "x AND push_bit n 1 = push_bit n 1"
    by (intro bit_word_eqI) (auto simp: bit_simps)
qed

lemma set_line_bit: "\<lbrakk>n < 32; m < 32\<rbrakk> \<Longrightarrow> bit (set_line r (push_bit n 1) on) m = (if n = m then on else bit r m)"
  by (auto simp: set_line_def bit_simps)

lemmas set_line_exp = set_line_bit [simplified]

lemma clear_line_bit: "\<lbrakk>n < 32; m < 32\<rbrakk> \<Longrightarrow> bit (r AND NOT (push_bit n 1) :: u32) m \<longleftrightarrow> n \<noteq> m \<and> bit r m"
  by (auto simp: bit_simps)

section \<open>A pin and its line\<close>

record pin =
  mode :: u32
  open_drain :: bool
  speed :: u32
  pull :: u32
  alternate :: u32
  level :: bool   \<comment> \<open>what the pin is told to put out\<close>

definition pin_of :: "gpio \<Rightarrow> nat \<Rightarrow> pin" where
  "pin_of g n = \<lparr>mode = field 2 (MODER g) n, open_drain = bit (OTYPER g) n, speed = field 2 (OSPEEDR g) n,
     pull = field 2 (PUPDR g) n, alternate = field 4 (AFR g (n div 8)) (n mod 8), level = bit (ODR g) n\<rparr>"

record line =
  source :: u32
  interrupt :: bool
  event :: bool
  rising :: bool
  falling :: bool

definition line_of :: "pins \<Rightarrow> nat \<Rightarrow> line" where
  "line_of s n = \<lparr>source = field 4 (EXTICR s (n div 4)) (n mod 4), interrupt = bit (EXTI_IMR s) n, event = bit (EXTI_EMR s) n,
     rising = bit (EXTI_RTSR s) n, falling = bit (EXTI_FTSR s) n\<rparr>"

text \<open>What one pin, or its line, becomes.\<close>

definition pin_init :: "gpio_init \<Rightarrow> pin \<Rightarrow> pin" where
  "pin_init gi p = \<lparr>mode = PinMode gi AND 3,
     open_drain = (if is_driven (PinMode gi) then bit (PinMode gi) 4 else open_drain p),
     speed = (if is_driven (PinMode gi) then PinSpeed gi else speed p),
     pull = Pull gi,
     alternate = (if is_AF (PinMode gi) then Alternate gi else alternate p),
     level = level p\<rparr>"

definition line_init :: "gpio_port \<Rightarrow> gpio_init \<Rightarrow> line \<Rightarrow> line" where
  "line_init gp gi l =
     (if bit (PinMode gi) 28
      then \<lparr>source = GPIO_GET_INDEX gp, interrupt = bit (PinMode gi) 16, event = bit (PinMode gi) 17,
            rising = bit (PinMode gi) 20, falling = bit (PinMode gi) 21\<rparr>
      else l)"

definition pin_reset :: "pin \<Rightarrow> pin" where
  "pin_reset p = \<lparr>mode = 0, open_drain = False, speed = 0, pull = 0, alternate = 0, level = level p\<rparr>"

definition line_reset :: "gpio_port \<Rightarrow> line \<Rightarrow> line" where
  "line_reset gp l =
     (if source l = GPIO_GET_INDEX gp
      then \<lparr>source = 0, interrupt = False, event = False, rising = False, falling = False\<rparr> else l)"

text \<open>The values that the parameter checks admit, as far as the mode uses them.\<close>

definition init_ok :: "gpio_init \<Rightarrow> bool" where
  "init_ok gi \<longleftrightarrow> Pull gi < 4 \<and> (is_driven (PinMode gi) \<longrightarrow> PinSpeed gi < 4) \<and> (is_AF (PinMode gi) \<longrightarrow> Alternate gi < 16)"

section \<open>One position\<close>

lemma take_bit_small: "x < 4 \<Longrightarrow> take_bit 2 (x :: u32) = x" "x < 16 \<Longrightarrow> take_bit 4 (x :: u32) = x"
  by (simp_all add: word_unat_eq_iff unsigned_take_bit_eq take_bit_nat_eq_self word_less_nat_alt)

lemma field2:
  assumes "take_bit 2 v = v" "m < 16"
  shows "field 2 (set_field r (n * 2) 0x3 v) m = (if n = m then v else field 2 r m)"
  using field_set [of 2 v m r n] assms by (simp add: mask_eq_exp_minus_1)

lemma field4:
  assumes "take_bit 4 v = v" "m < 8"
  shows "field 4 (set_field r (n * 4) 0xF v) m = (if n = m then v else field 4 r m)"
  using field_set [of 4 v m r n] assms by (simp add: mask_eq_exp_minus_1)

lemma type_bit:
  fixes r v :: u32
  assumes "v \<le> 1" "n < 32" "m < 32"
  shows "bit (set_field r n 0x1 v) m = (if n = m then bit v 0 else bit r m)"
proof -
  have "v = 0 \<or> v = 1" using assms(1) by (auto simp: word_le_nat_alt word_unat_eq_iff le_Suc_eq)
  then show ?thesis using assms(2,3) by (auto simp: set_field_def bit_simps)
qed

lemma mode_bits: "take_bit 2 (x AND 3) = (x AND 3 :: u32)" "drop_bit 4 (x AND 0x10) \<le> (1 :: u32)"
    "bit (drop_bit 4 (x AND 0x10) :: u32) 0 = bit x 4"
proof -
  have m: "(3 :: u32) = mask 2" by (simp add: mask_eq_exp_minus_1)
  show "take_bit 2 (x AND 3) = x AND 3" unfolding m by (simp add: take_bit_eq_mask [symmetric])
  have "drop_bit 4 (x AND 0x10) = drop_bit 4 x AND 1" by (simp add: drop_bit_and)
  then show "drop_bit 4 (x AND 0x10) \<le> 1" by (simp add: word_and_le1)
  show "bit (drop_bit 4 (x AND 0x10)) 0 = bit x 4" by (simp add: bit_simps)
qed

lemma mode_field: "m < 16 \<Longrightarrow> field 2 (set_field r (n * 2) 0x3 (x AND 3)) m = (if n = m then x AND 3 else field 2 r m)"
  by (rule field2) (simp_all only: mode_bits)

lemma type_field:
  "\<lbrakk>n < 32; m < 32\<rbrakk> \<Longrightarrow> bit (set_field r n 0x1 (drop_bit 4 x AND 1)) m = (if n = m then bit (x :: u32) 4 else bit r m)"
  using type_bit [OF mode_bits(2) [of x], of n m r] mode_bits(3) [of x] by simp

lemma div_mod_inj: "(n :: nat) div 8 = m div 8 \<Longrightarrow> n mod 8 = m mod 8 \<longleftrightarrow> n = m"
  by (metis div_mult_mod_eq)

lemma init_pin_view:
  assumes "init_ok gi" "n < 16" "m < 16"
  shows "pin_of (init_pin gi n g) m = (if n = m then pin_init gi (pin_of g m) else pin_of g m)"
proof -
  have v: "take_bit 2 (Pull gi) = Pull gi" "is_driven (PinMode gi) \<Longrightarrow> take_bit 2 (PinSpeed gi) = PinSpeed gi"
      "is_AF (PinMode gi) \<Longrightarrow> take_bit 4 (Alternate gi) = Alternate gi"
    using assms(1) by (auto simp: init_ok_def intro!: take_bit_small)
  show ?thesis
    using assms(2,3) v div_mod_inj [of n m]
    by (auto simp: pin_of_def pin_init_def init_pin_def Let_def field2 field4 mode_field type_field)
qed

text \<open>The line of a pin\<close>

lemma field4_line:
  assumes "take_bit 4 v = v" "m < 8"
  shows "field 4 (set_field r (4 * n) 0xF v) m = (if n = m then v else field 4 r m)"
  using field4 [OF assms, of r n] by (simp add: mult.commute)

lemma flag_bit: "x AND 0x10000000 = 0x10000000 \<longleftrightarrow> bit (x :: u32) 28" "x AND 0x10000 = 0x10000 \<longleftrightarrow> bit x 16"
    "x AND 0x20000 = 0x20000 \<longleftrightarrow> bit x 17" "x AND 0x100000 = 0x100000 \<longleftrightarrow> bit x 20" "x AND 0x200000 = 0x200000 \<longleftrightarrow> bit x 21"
  using selected_iff [of 28 x] selected_iff [of 16 x] selected_iff [of 17 x] selected_iff [of 20 x] selected_iff [of 21 x]
  by simp_all

lemma index_small: "take_bit 4 (GPIO_GET_INDEX gp) = GPIO_GET_INDEX gp"
  by (cases gp) (simp_all add: GPIO_GET_INDEX_def)

lemma div_mod_inj4: "(n :: nat) div 4 = m div 4 \<Longrightarrow> n mod 4 = m mod 4 \<longleftrightarrow> n = m"
  by (metis div_mult_mod_eq)

lemma mod_4_8: "(m :: nat) mod 4 < 8"
  using mod_less_divisor [of 4 m] by simp

lemma init_line_view:
  assumes "n < 16" "m < 16"
  shows "line_of (init_line gp gi n (push_bit n 1) s) m = (if n = m then line_init gp gi (line_of s m) else line_of s m)"
  using assms div_mod_inj4 [of n m]
  by (auto simp: line_of_def line_init_def init_line_def flag_bit field4_line index_small mod_4_8 set_line_exp)

lemma init_line_port [simp]: "port (init_line gp gi n c s) = port s" by (simp add: init_line_def)

lemma line_of_port [simp]: "line_of (s\<lparr>port := p\<rparr>) = line_of s" by (simp add: line_of_def fun_eq_iff)

lemma init_position_view:
  assumes "init_ok gi" "n < 16" "m < 16"
  shows "pin_of (port (init_position gp gi n s) q) m =
      (if n = m \<and> q = gp \<and> bit (Pin gi) n then pin_init gi (pin_of (port s q) m) else pin_of (port s q) m)"
    and "line_of (init_position gp gi n s) m =
      (if n = m \<and> bit (Pin gi) n then line_init gp gi (line_of s m) else line_of s m)"
  using assms selected_iff [of n "Pin gi"] by (auto simp: init_position_def Let_def init_pin_view init_line_view [simplified])

lemma init_fold_view:
  assumes "init_ok gi" "k \<le> 16" "m < 16"
  shows "pin_of (port (fold (init_position gp gi) [0..<k] s) q) m =
      (if m < k \<and> q = gp \<and> bit (Pin gi) m then pin_init gi (pin_of (port s q) m) else pin_of (port s q) m)
    \<and> line_of (fold (init_position gp gi) [0..<k] s) m =
      (if m < k \<and> bit (Pin gi) m then line_init gp gi (line_of s m) else line_of s m)"
  using assms(2)
proof (induction k)
  case (Suc k)
  then show ?case using assms(1,3) by (auto simp: init_position_view less_Suc_eq)
qed simp

lemmas HAL_GPIO_Init_view = init_fold_view [of _ 16, folded HAL_GPIO_Init_def, simplified, THEN conjunct1]
  init_fold_view [of _ 16, folded HAL_GPIO_Init_def, simplified, THEN conjunct2]

section \<open>Back to the reset state, and the outputs\<close>

lemma clear_fields:
  "m < 16 \<Longrightarrow> field 2 (r AND NOT (push_bit (n * 2) 0x3)) m = (if n = m then 0 else field 2 r m)"
  "m < 8 \<Longrightarrow> field 4 (r AND NOT (push_bit (n * 4) 0xF)) m = (if n = m then 0 else field 4 r m)"
  "m < 8 \<Longrightarrow> field 4 (r AND NOT (push_bit (4 * n) 0xF)) m = (if n = m then 0 else field 4 r m)"
  using field_clear [of m 2 r n] field_clear [of m 4 r n] by (simp_all add: mask_eq_exp_minus_1 mult.commute)

lemmas clear_line_exp = clear_line_bit [simplified]

lemma deinit_pin_view:
  assumes "n < 16" "m < 16"
  shows "pin_of (deinit_pin n g) m = (if n = m then pin_reset (pin_of g m) else pin_of g m)"
  using assms div_mod_inj [of n m]
  by (auto simp: pin_of_def pin_reset_def deinit_pin_def clear_fields clear_line_exp)

lemma field_match:
  assumes "take_bit 4 v = v" "n < 8"
  shows "r AND push_bit (4 * n) 0xF = push_bit (4 * n) v \<longleftrightarrow> field 4 r n = v"
proof
  assume eq: "r AND push_bit (4 * n) 0xF = push_bit (4 * n) v"
  show "field 4 r n = v"
  proof (rule bit_word_eqI)
    fix m assume "m < LENGTH(32)"
    show "bit (field 4 r n) m = bit v m"
    proof (cases "m < 4")
      case True
      then have lt: "4 * n + m < 32" "bit (0xF :: u32) m" using assms(2) by (auto simp: less_Suc_eq numeral_eq_Suc)
      have "bit (r AND push_bit (4 * n) 0xF) (4 * n + m) = bit (push_bit (4 * n) v) (4 * n + m)" using eq by simp
      then show ?thesis using True lt by (simp add: bit_and_iff bit_push_bit_iff field_bits mult.commute)
    next
      case False
      then have "\<not> bit v m" using assms(1) by (metis bit_take_bit_iff)
      then show ?thesis using False by (simp add: field_bits)
    qed
  qed
next
  assume v: "field 4 r n = v"
  have m: "(0xF :: u32) = mask 4" by (simp add: mask_eq_exp_minus_1)
  show "r AND push_bit (4 * n) 0xF = push_bit (4 * n) v"
    unfolding v [symmetric] m
    by (rule bit_word_eqI) (auto simp: bit_and_iff bit_push_bit_iff bit_mask_iff field_bits mult.commute)
qed

lemma deinit_line_view:
  assumes "n < 16" "m < 16"
  shows "line_of (deinit_line gp n (push_bit n 1) s) m = (if n = m then line_reset gp (line_of s m) else line_of s m)"
  using assms div_mod_inj4 [of n m]
  by (auto simp: line_of_def line_reset_def deinit_line_def field_match index_small mod_4_8 clear_fields clear_line_exp)

lemma deinit_line_port [simp]: "port (deinit_line gp n c s) = port s" by (simp add: deinit_line_def)

lemma deinit_position_view:
  assumes "n < 16" "m < 16"
  shows "pin_of (port (deinit_position gp p n s) q) m =
      (if n = m \<and> q = gp \<and> bit p n then pin_reset (pin_of (port s q) m) else pin_of (port s q) m)"
    and "line_of (deinit_position gp p n s) m = (if n = m \<and> bit p n then line_reset gp (line_of s m) else line_of s m)"
  using assms selected_iff [of n p]
  by (auto simp: deinit_position_def Let_def deinit_pin_view deinit_line_view [simplified])

lemma deinit_fold_view:
  assumes "k \<le> 16" "m < 16"
  shows "pin_of (port (fold (deinit_position gp p) [0..<k] s) q) m =
      (if m < k \<and> q = gp \<and> bit p m then pin_reset (pin_of (port s q) m) else pin_of (port s q) m)
    \<and> line_of (fold (deinit_position gp p) [0..<k] s) m =
      (if m < k \<and> bit p m then line_reset gp (line_of s m) else line_of s m)"
  using assms(1)
proof (induction k)
  case (Suc k)
  then show ?case using assms(2) by (auto simp: deinit_position_view less_Suc_eq)
qed simp

lemmas HAL_GPIO_DeInit_view = deinit_fold_view [of 16, folded HAL_GPIO_DeInit_def, simplified, THEN conjunct1]
  deinit_fold_view [of 16, folded HAL_GPIO_DeInit_def, simplified, THEN conjunct2]

lemma HAL_GPIO_WritePin_view:
  assumes "n < 16"
  shows "pin_of (port (HAL_GPIO_WritePin gp p on s) q) n =
      (if q = gp \<and> bit p n then (pin_of (port s q) n)\<lparr>level := on\<rparr> else pin_of (port s q) n)"
    and "line_of (HAL_GPIO_WritePin gp p on s) = line_of s"
  using assms by (auto simp: HAL_GPIO_WritePin_def Let_def pin_of_def bit_simps)

lemma HAL_GPIO_TogglePin_view:
  assumes "n < 16"
  shows "pin_of (port (HAL_GPIO_TogglePin gp p s) q) n =
      (if q = gp \<and> bit p n then (pin_of (port s q) n)\<lparr>level := \<not> level (pin_of (port s q) n)\<rparr> else pin_of (port s q) n)"
  using assms by (auto simp: HAL_GPIO_TogglePin_def pin_of_def bit_simps)

text \<open>C29: what the operations on pins do to each pin. \<open>HAL_GPIO_Init\<close> gives every selected pin of the port the mode, type, speed,
  pull and function that were asked for, as far as the mode has them, and leaves every other pin of every port as it was;
  in an external mode it also takes the line of the same number over for the port, with
  the edges asked for, and in any other mode leaves the line as it was. \<open>HAL_GPIO_DeInit\<close> puts every selected pin, and each of their lines that belongs to the
  port, back into the reset state, and nothing else; \<open>HAL_GPIO_WritePin\<close> sets the output level of the selected pins and changes nothing else.\<close>

theorem gpio_operations_per_pin:
  assumes "init_ok gi" "n < 16"
  shows "pin_of (port (HAL_GPIO_Init gp gi s) q) n =
        (if q = gp \<and> bit (Pin gi) n then pin_init gi (pin_of (port s q) n) else pin_of (port s q) n)
    \<and> line_of (HAL_GPIO_Init gp gi s) n = (if bit (Pin gi) n then line_init gp gi (line_of s n) else line_of s n)
    \<and> pin_of (port (HAL_GPIO_DeInit gp p s) q) n =
        (if q = gp \<and> bit p n then pin_reset (pin_of (port s q) n) else pin_of (port s q) n)
    \<and> line_of (HAL_GPIO_DeInit gp p s) n = (if bit p n then line_reset gp (line_of s n) else line_of s n)
    \<and> pin_of (port (HAL_GPIO_WritePin gp w on s) q) n =
        (if q = gp \<and> bit w n then (pin_of (port s q) n)\<lparr>level := on\<rparr> else pin_of (port s q) n)
    \<and> line_of (HAL_GPIO_WritePin gp w on s) n = line_of s n"
  using assms by (simp add: HAL_GPIO_Init_view HAL_GPIO_DeInit_view HAL_GPIO_WritePin_view)

text \<open>A concrete state.\<close>

definition blank_pins :: pins where
  "blank_pins = \<lparr>port = \<lambda>_. \<lparr>MODER = 0, OTYPER = 0, OSPEEDR = 0, PUPDR = 0, ODR = 0, AFR = \<lambda>_. 0\<rparr>, EXTICR = \<lambda>_. 0, EXTI_IMR = 0,
     EXTI_EMR = 0, EXTI_RTSR = 0, EXTI_FTSR = 0, RCC_AHB1ENR = 0, RCC_AHB2ENR = 0, RCC_APB2ENR = 0, NVIC_ISER = \<lambda>_. 0\<rparr>"

theorem gpio_operations_per_pin_witness:
  "pin_of (port (HAL_GPIO_Init GPIOD \<lparr>Pin = 0x300, PinMode = GPIO_MODE_AF_PP, Pull = 1, PinSpeed = 3, Alternate = 7\<rparr> blank_pins) GPIOD) 9
     = \<lparr>mode = 2, open_drain = False, speed = 3, pull = 1, alternate = 7, level = False\<rparr>"
  using gpio_operations_per_pin [of "\<lparr>Pin = 0x300, PinMode = GPIO_MODE_AF_PP, Pull = 1, PinSpeed = 3, Alternate = 7\<rparr>" 9 GPIOD blank_pins GPIOD]
  by (simp add: init_ok_def is_driven_def is_AF_def pin_init_def pin_of_def blank_pins_def)

end
