(* ===== verification/BoardPins.thy ===== *)
theory BoardPins
  imports Pins Nvic
begin

text \<open>
  The pins of this board: \<open>MX_GPIO_Init\<close> (\<open>Src/gpio.c\<close>), the pins of the USB port (\<open>HAL_PCD_MspInit\<close> and
  \<open>HAL_PCD_MspDeInit\<close>, \<open>Src/usbd_conf.c\<close>) and those of the debug port (\<open>Src/usart.c\<close>).
\<close>

section \<open>The functions\<close>

text \<open>\<open>gi\<close> is what the stack holds at the place of the local \<open>GPIO_InitStruct\<close>, which is not assigned completely.\<close>

definition MX_GPIO_Init :: "gpio_init \<Rightarrow> pins \<Rightarrow> pins" where
  "MX_GPIO_Init gi s =
     (let s1 = fold GPIO_CLK_ENABLE [GPIOC, GPIOH, GPIOA, GPIOB, GPIOD, GPIOG] s;
          s2 = HAL_GPIO_WritePin GPIOB (0x4000 OR 0x80) False s1;
          s3 = HAL_GPIO_WritePin GPIOG 0x40 False s2;
          g1 = gi\<lparr>Pin := 0x2000, PinMode := GPIO_MODE_IT_RISING, Pull := 0\<rparr>;
          s4 = HAL_GPIO_Init GPIOC g1 s3;
          g2 = g1\<lparr>Pin := 0x2 OR 0x10 OR 0x20, PinMode := GPIO_MODE_AF_PP, Pull := 0, PinSpeed := 3, Alternate := 11\<rparr>;
          s5 = HAL_GPIO_Init GPIOC g2 s4;
          g3 = g2\<lparr>Pin := 0x2 OR 0x4 OR 0x80, PinMode := GPIO_MODE_AF_PP, Pull := 0, PinSpeed := 3, Alternate := 11\<rparr>;
          s6 = HAL_GPIO_Init GPIOA g3 s5;
          g4 = g3\<lparr>Pin := 0x2000, PinMode := GPIO_MODE_AF_PP, Pull := 0, PinSpeed := 3, Alternate := 11\<rparr>;
          s7 = HAL_GPIO_Init GPIOB g4 s6;
          g5 = g4\<lparr>Pin := 0x4000 OR 0x80, PinMode := GPIO_MODE_OUTPUT_PP, Pull := 0, PinSpeed := 0\<rparr>;
          s8 = HAL_GPIO_Init GPIOB g5 s7;
          g6 = g5\<lparr>Pin := 0x40, PinMode := GPIO_MODE_OUTPUT_PP, Pull := 0, PinSpeed := 0\<rparr>;
          s9 = HAL_GPIO_Init GPIOG g6 s8;
          g7 = g6\<lparr>Pin := 0x80, PinMode := GPIO_MODE_INPUT, Pull := 0\<rparr>;
          s10 = HAL_GPIO_Init GPIOG g7 s9;
          g8 = g7\<lparr>Pin := 0x800 OR 0x2000, PinMode := GPIO_MODE_AF_PP, Pull := 0, PinSpeed := 3, Alternate := 11\<rparr> in
      HAL_GPIO_Init GPIOG g8 s10)"

definition USB_OTG_FS_CLK_ENABLE :: "pins \<Rightarrow> pins" where
  "USB_OTG_FS_CLK_ENABLE s =
     s\<lparr>RCC_AHB2ENR := RCC_AHB2ENR s OR RCC_AHB2ENR_OTGFSEN, RCC_APB2ENR := RCC_APB2ENR s OR RCC_APB2ENR_SYSCFGEN\<rparr>"

abbreviation (input) OTG_FS_IRQn :: nat where "OTG_FS_IRQn \<equiv> 67"

text \<open>For the handle of the full speed port, the only one there is; the order is that of the code.\<close>

definition HAL_PCD_MspInit :: "nvic \<times> pins \<Rightarrow> nvic \<times> pins" where
  "HAL_PCD_MspInit b =
     (let (i, s) = b;
          g1 = \<lparr>Pin = 0x100 OR 0x400 OR 0x800 OR 0x1000, PinMode = GPIO_MODE_AF_PP, Pull = 0, PinSpeed = 3, Alternate = 10\<rparr>;
          s1 = HAL_GPIO_Init GPIOA g1 s;
          g2 = g1\<lparr>Pin := 0x200, PinMode := GPIO_MODE_INPUT, Pull := 0\<rparr>;
          s2 = HAL_GPIO_Init GPIOA g2 s1 in
      (HAL_NVIC_SetPriority (int OTG_FS_IRQn) 0 0 i, HAL_NVIC_EnableIRQ OTG_FS_IRQn (USB_OTG_FS_CLK_ENABLE s2)))"

text \<open>Writing ones to a clear-enable register disables these interrupts.\<close>

definition HAL_NVIC_DisableIRQ :: "nat \<Rightarrow> pins \<Rightarrow> pins" where
  "HAL_NVIC_DisableIRQ IRQn s =
     s\<lparr>NVIC_ISER := (NVIC_ISER s)(IRQn div 32 := NVIC_ISER s (IRQn div 32) AND NOT (push_bit (IRQn mod 32) 1))\<rparr>"

definition HAL_PCD_MspDeInit :: "pins \<Rightarrow> pins" where
  "HAL_PCD_MspDeInit s =
     HAL_NVIC_DisableIRQ OTG_FS_IRQn
       (HAL_GPIO_DeInit GPIOA (0x100 OR 0x200 OR 0x400 OR 0x800 OR 0x1000)
         (s\<lparr>RCC_AHB2ENR := RCC_AHB2ENR s AND NOT RCC_AHB2ENR_OTGFSEN\<rparr>))"

text \<open>The pins of the debug port; its clock gate is with the clocks.\<close>

definition usart3_pins :: gpio_init where
  "usart3_pins = \<lparr>Pin = 0x100 OR 0x200, PinMode = GPIO_MODE_AF_PP, Pull = 1, PinSpeed = 3, Alternate = 7\<rparr>"

section \<open>Where each pin ends\<close>

lemma GPIO_CLK_ENABLE_view [simp]: "port (GPIO_CLK_ENABLE gp s) = port s" "line_of (GPIO_CLK_ENABLE gp s) = line_of s"
  by (simp_all add: GPIO_CLK_ENABLE_def line_of_def fun_eq_iff)

text \<open>The modes of the pins after the start of the board, by port and number\<close>

definition ethernet_pin :: "gpio_port \<Rightarrow> nat \<Rightarrow> bool" where
  "ethernet_pin p n \<longleftrightarrow> p = GPIOC \<and> n \<in> {1, 4, 5} \<or> p = GPIOA \<and> n \<in> {1, 2, 7} \<or> p = GPIOB \<and> n = 13 \<or> p = GPIOG \<and> n \<in> {11, 13}"

definition output_pin :: "gpio_port \<Rightarrow> nat \<Rightarrow> bool" where
  "output_pin p n \<longleftrightarrow> p = GPIOB \<and> n \<in> {7, 14} \<or> p = GPIOG \<and> n = 6"

definition input_pin :: "gpio_port \<Rightarrow> nat \<Rightarrow> bool" where
  "input_pin p n \<longleftrightarrow> p = GPIOC \<and> n = 13 \<or> p = GPIOG \<and> n = 7"

lemma pin_sets:
  assumes "n < 16"
  shows "bit (0x2000 :: int) n \<longleftrightarrow> n = 13" "bit (0x32 :: int) n \<longleftrightarrow> n \<in> {1, 4, 5}" "bit (0x86 :: int) n \<longleftrightarrow> n \<in> {1, 2, 7}"
    "bit (0x4080 :: int) n \<longleftrightarrow> n \<in> {7, 14}" "bit (0x40 :: int) n \<longleftrightarrow> n = 6" "bit (0x80 :: int) n \<longleftrightarrow> n = 7"
    "bit (0x2800 :: int) n \<longleftrightarrow> n \<in> {11, 13}"
    "bit (0x1D00 :: int) n \<longleftrightarrow> n \<in> {8, 10, 11, 12}" "bit (0x200 :: int) n \<longleftrightarrow> n = 9" "bit (0x300 :: int) n \<longleftrightarrow> n \<in> {8, 9}"
proof -
  have "n = 0 \<or> n = 1 \<or> n = 2 \<or> n = 3 \<or> n = 4 \<or> n = 5 \<or> n = 6 \<or> n = 7 \<or> n = 8 \<or> n = 9 \<or> n = 10 \<or> n = 11
     \<or> n = 12 \<or> n = 13 \<or> n = 14 \<or> n = 15" using assms by presburger
  then show "bit (0x2000 :: int) n \<longleftrightarrow> n = 13" "bit (0x32 :: int) n \<longleftrightarrow> n \<in> {1, 4, 5}" "bit (0x86 :: int) n \<longleftrightarrow> n \<in> {1, 2, 7}"
    "bit (0x4080 :: int) n \<longleftrightarrow> n \<in> {7, 14}" "bit (0x40 :: int) n \<longleftrightarrow> n = 6" "bit (0x80 :: int) n \<longleftrightarrow> n = 7"
    "bit (0x2800 :: int) n \<longleftrightarrow> n \<in> {11, 13}"
    "bit (0x1D00 :: int) n \<longleftrightarrow> n \<in> {8, 10, 11, 12}" "bit (0x200 :: int) n \<longleftrightarrow> n = 9" "bit (0x300 :: int) n \<longleftrightarrow> n \<in> {8, 9}"
    by (elim disjE; simp)+
qed

lemma MX_GPIO_Init_view:
  assumes "n < 16"
  shows "pin_of (port (MX_GPIO_Init gi s) p) n =
     (let old = pin_of (port s p) n in
      if ethernet_pin p n then \<lparr>mode = 2, open_drain = False, speed = 3, pull = 0, alternate = 11, level = level old\<rparr>
      else if output_pin p n then \<lparr>mode = 1, open_drain = False, speed = 0, pull = 0, alternate = alternate old, level = False\<rparr>
      else if input_pin p n then old\<lparr>mode := 0, pull := 0\<rparr>
      else old)"
  using assms
  by (cases p) (simp_all add: MX_GPIO_Init_def Let_def HAL_GPIO_Init_view HAL_GPIO_WritePin_view init_ok_def pin_sets ethernet_pin_def
      output_pin_def input_pin_def pin_init_def is_driven_def is_AF_def)

definition debug_pin :: "gpio_port \<Rightarrow> nat \<Rightarrow> bool" where
  "debug_pin p n \<longleftrightarrow> p = GPIOD \<and> n \<in> {8, 9}"

definition usb_pin :: "gpio_port \<Rightarrow> nat \<Rightarrow> bool" where
  "usb_pin p n \<longleftrightarrow> p = GPIOA \<and> n \<in> {8, 10, 11, 12}"

text \<open>The pins of the board at the end of the start, each from what it was at the reset.\<close>

definition board_pin :: "gpio_port \<Rightarrow> nat \<Rightarrow> pin \<Rightarrow> pin" where
  "board_pin p n old =
     (if ethernet_pin p n then \<lparr>mode = 2, open_drain = False, speed = 3, pull = 0, alternate = 11, level = level old\<rparr>
      else if usb_pin p n then \<lparr>mode = 2, open_drain = False, speed = 3, pull = 0, alternate = 10, level = level old\<rparr>
      else if debug_pin p n then \<lparr>mode = 2, open_drain = False, speed = 3, pull = 1, alternate = 7, level = level old\<rparr>
      else if output_pin p n then \<lparr>mode = 1, open_drain = False, speed = 0, pull = 0, alternate = alternate old, level = False\<rparr>
      else if input_pin p n \<or> p = GPIOA \<and> n = 9 then old\<lparr>mode := 0, pull := 0\<rparr>
      else old)"

lemma HAL_NVIC_EnableIRQ_view [simp]:
  "port (HAL_NVIC_EnableIRQ i s) = port s" "line_of (HAL_NVIC_EnableIRQ i s) = line_of s"
  "port (USB_OTG_FS_CLK_ENABLE s) = port s" "line_of (USB_OTG_FS_CLK_ENABLE s) = line_of s"
  by (simp_all add: HAL_NVIC_EnableIRQ_def USB_OTG_FS_CLK_ENABLE_def line_of_def fun_eq_iff)

lemma board_pins_view:
  assumes "n < 16"
  shows "pin_of (port (snd (HAL_PCD_MspInit (i, HAL_GPIO_Init GPIOD usart3_pins (MX_GPIO_Init gi s)))) p) n
     = board_pin p n (pin_of (port s p) n)"
proof -
  have usb: "pin_of (port (snd (HAL_PCD_MspInit (i, t))) p) n =
     (let old = pin_of (port t p) n in
      if usb_pin p n then \<lparr>mode = 2, open_drain = False, speed = 3, pull = 0, alternate = 10, level = level old\<rparr>
      else if p = GPIOA \<and> n = 9 then old\<lparr>mode := 0, pull := 0\<rparr> else old)" for t
    using assms by (cases p) (simp_all add: HAL_PCD_MspInit_def Let_def HAL_GPIO_Init_view init_ok_def pin_sets usb_pin_def
        pin_init_def is_driven_def is_AF_def)
  have debug: "pin_of (port (HAL_GPIO_Init GPIOD usart3_pins t) p) n =
     (let old = pin_of (port t p) n in
      if debug_pin p n then \<lparr>mode = 2, open_drain = False, speed = 3, pull = 1, alternate = 7, level = level old\<rparr> else old)" for t
    using assms by (cases p) (simp_all add: usart3_pins_def Let_def HAL_GPIO_Init_view init_ok_def pin_sets debug_pin_def
        pin_init_def is_driven_def is_AF_def)
  show ?thesis
    unfolding usb debug MX_GPIO_Init_view [OF assms]
    by (cases p) (simp_all add: Let_def board_pin_def ethernet_pin_def usb_pin_def debug_pin_def output_pin_def input_pin_def)
qed

lemma no_line: "\<lbrakk>init_ok gi; \<not> bit (PinMode gi) 28; n < 16\<rbrakk> \<Longrightarrow> line_of (HAL_GPIO_Init gp gi s) n = line_of s n"
  by (simp add: HAL_GPIO_Init_view line_init_def)

lemma button_line:
  assumes "n < 16"
  shows "line_of (HAL_GPIO_Init GPIOC (gi\<lparr>Pin := 0x2000, PinMode := GPIO_MODE_IT_RISING, Pull := 0\<rparr>) s) n
     = (if n = 13 then \<lparr>source = 2, interrupt = True, event = False, rising = True, falling = False\<rparr> else line_of s n)"
  using assms by (simp add: HAL_GPIO_Init_view init_ok_def is_driven_def is_AF_def pin_sets line_init_def GPIO_GET_INDEX_def)

lemma board_lines_view:
  assumes "n < 16"
  shows "line_of (snd (HAL_PCD_MspInit (i, HAL_GPIO_Init GPIOD usart3_pins (MX_GPIO_Init gi s)))) n
     = (if n = 13 then \<lparr>source = 2, interrupt = True, event = False, rising = True, falling = False\<rparr> else line_of s n)"
  using assms
  by (simp add: MX_GPIO_Init_def HAL_PCD_MspInit_def usart3_pins_def Let_def no_line button_line HAL_GPIO_WritePin_view
      init_ok_def is_driven_def is_AF_def)

section \<open>Gates and interrupts\<close>

lemma fold_keeps: "(\<And>n s. f (g n s) = f s) \<Longrightarrow> f (fold g ns s) = f s"
  by (induction ns arbitrary: s) simp_all

lemma init_position_keeps:
  "RCC_AHB1ENR (init_position gp gi n s) = RCC_AHB1ENR s" "RCC_AHB2ENR (init_position gp gi n s) = RCC_AHB2ENR s"
  "NVIC_ISER (init_position gp gi n s) = NVIC_ISER s"
  by (simp_all add: init_position_def init_line_def Let_def)

lemma HAL_GPIO_Init_keeps [simp]:
  "RCC_AHB1ENR (HAL_GPIO_Init gp gi s) = RCC_AHB1ENR s" "RCC_AHB2ENR (HAL_GPIO_Init gp gi s) = RCC_AHB2ENR s"
  "NVIC_ISER (HAL_GPIO_Init gp gi s) = NVIC_ISER s"
  by (simp_all add: HAL_GPIO_Init_def fold_keeps [of RCC_AHB1ENR] fold_keeps [of RCC_AHB2ENR] fold_keeps [of NVIC_ISER]
      init_position_keeps)

lemma HAL_GPIO_WritePin_keeps [simp]:
  "RCC_AHB1ENR (HAL_GPIO_WritePin gp p on s) = RCC_AHB1ENR s" "RCC_AHB2ENR (HAL_GPIO_WritePin gp p on s) = RCC_AHB2ENR s"
  "NVIC_ISER (HAL_GPIO_WritePin gp p on s) = NVIC_ISER s"
  by (simp_all add: HAL_GPIO_WritePin_def Let_def)

text \<open>Every port with a pin in use is clocked, as are the USB port and the external interrupts; the USB interrupt is the only one
  enabled, so that the line of the button, which is armed, interrupts nothing.\<close>

lemma board_gates:
  fixes i gi s
  defines "t \<equiv> snd (HAL_PCD_MspInit (i, HAL_GPIO_Init GPIOD usart3_pins (MX_GPIO_Init gi s)))"
  shows "RCC_AHB1ENR t = RCC_AHB1ENR s OR 0xCF" "RCC_AHB2ENR t = RCC_AHB2ENR s OR 0x80" "bit (RCC_APB2ENR t) 14"
    "NVIC_ISER t = (NVIC_ISER s)(2 := NVIC_ISER s 2 OR 0x8)"
  unfolding t_def
  by (simp_all add: MX_GPIO_Init_def HAL_PCD_MspInit_def Let_def HAL_NVIC_EnableIRQ_def USB_OTG_FS_CLK_ENABLE_def GPIO_CLK_ENABLE_def
      GPIO_GET_INDEX_def or.assoc bit_or_iff)

end
