(* ===== verification/Uart.thy ===== *)
theory Uart
  imports ClockStart BoardPins
begin

text \<open>
  The debug output of the firmware: \<open>MX_USART3_UART_Init\<close> (\<open>Src/usart.c\<close>), the blocking transmission of
  \<open>stm32f4xx_hal_uart.c\<close> and \<open>_write\<close> (\<open>Src/trace.c\<close>), the function under the C library's \<open>printf\<close>.
  The status register and the tick are functions of the moment. Parameter checks (\<open>assert_param\<close>) are compiled out.
\<close>

section \<open>State\<close>

datatype usart_port = USART1 | USART2 | USART3 | UART4 | UART5 | USART6 | UART7 | UART8

datatype uart_state = HAL_UART_STATE_RESET | HAL_UART_STATE_READY | HAL_UART_STATE_BUSY | HAL_UART_STATE_BUSY_TX
  | HAL_UART_STATE_BUSY_RX | HAL_UART_STATE_BUSY_TX_RX | HAL_UART_STATE_TIMEOUT | HAL_UART_STATE_ERROR

record uart_hw =
  SR_at :: "nat \<Rightarrow> u32"
  uart_tick_at :: "nat \<Rightarrow> u32"

record uart_init =
  BaudRate :: u32
  WordLength :: u32
  StopBits :: u32
  Parity :: u32
  Mode :: u32
  HwFlowCtl :: u32
  OverSampling :: u32

text \<open>\<open>USART_DR\<close> is what was written to the data register, oldest first.\<close>

record uart =
  uart_port :: usart_port
  USART_CR1 :: u32
  USART_CR2 :: u32
  USART_CR3 :: u32
  USART_BRR :: u32
  USART_DR :: "u32 list"
  uart_Init :: uart_init
  TxXferSize :: u16
  TxXferCount :: u16
  uart_Lock :: bool
  gState :: uart_state
  RxState :: uart_state
  ErrorCode :: u32
  look :: nat

abbreviation (input) UART_WORDLENGTH_9B :: u32 where "UART_WORDLENGTH_9B \<equiv> 0x1000"
abbreviation (input) UART_PARITY_NONE :: u32 where "UART_PARITY_NONE \<equiv> 0"
abbreviation (input) UART_OVERSAMPLING_8 :: u32 where "UART_OVERSAMPLING_8 \<equiv> 0x8000"
abbreviation (input) UART_FLAG_TXE :: u32 where "UART_FLAG_TXE \<equiv> 0x80"
abbreviation (input) UART_FLAG_TC :: u32 where "UART_FLAG_TC \<equiv> 0x40"
abbreviation (input) HAL_MAX_DELAY :: u32 where "HAL_MAX_DELAY \<equiv> 0xFFFFFFFF"
abbreviation (input) USART_CR1_UE :: u32 where "USART_CR1_UE \<equiv> 0x2000"

section \<open>Initialisation\<close>

text \<open>The dividers, as the macros \<open>UART_DIV_SAMPLING\<close>, \<open>UART_DIVMANT_SAMPLING\<close> and \<open>UART_DIVFRAQ_SAMPLING\<close> compute them on 32 bits\<close>

definition UART_BRR_SAMPLING16 :: "u32 \<Rightarrow> u32 \<Rightarrow> u32 outcome" where
  "UART_BRR_SAMPLING16 pclk baud =
     (if 4 * baud = 0 then Inl Div_by_zero
      else let d = (pclk * 25) div (4 * baud); mant = d div 100; fraq = ((d - mant * 100) * 16 + 50) div 100 in
        Inr ((push_bit 4 mant + (fraq AND 0xF0)) + (fraq AND 0x0F)))"

definition UART_BRR_SAMPLING8 :: "u32 \<Rightarrow> u32 \<Rightarrow> u32 outcome" where
  "UART_BRR_SAMPLING8 pclk baud =
     (if 2 * baud = 0 then Inl Div_by_zero
      else let d = (pclk * 25) div (2 * baud); mant = d div 100; fraq = ((d - mant * 100) * 8 + 50) div 100 in
        Inr ((push_bit 4 mant + push_bit 1 (fraq AND 0xF8)) + (fraq AND 0x07)))"

definition UART_SetConfig :: "clk \<Rightarrow> uart \<Rightarrow> uart outcome" where
  "UART_SetConfig c u =
     (let i = uart_Init u;
          u1 = u\<lparr>USART_CR2 := modify_reg (USART_CR2 u) 0x3000 (StopBits i),
                 USART_CR1 := modify_reg (USART_CR1 u) (0x1000 OR 0x400 OR 0x200 OR 0x8 OR 0x4 OR 0x8000)
                   (WordLength i OR Parity i OR Mode i OR OverSampling i),
                 USART_CR3 := modify_reg (USART_CR3 u) (0x100 OR 0x200) (HwFlowCtl i)\<rparr>;
          pclk = (if uart_port u = USART1 \<or> uart_port u = USART6 then HAL_RCC_GetPCLK2Freq c else HAL_RCC_GetPCLK1Freq c) in
      obind (if OverSampling i = UART_OVERSAMPLING_8 then UART_BRR_SAMPLING8 pclk (BaudRate i)
             else UART_BRR_SAMPLING16 pclk (BaudRate i))
        (\<lambda>brr. Inr (u1\<lparr>USART_BRR := brr\<rparr>)))"

text \<open>The clock gate and the pins of the debug port; the other ports have none on this board.\<close>

definition HAL_UART_MspInit :: "usart_port \<Rightarrow> clk \<times> pins \<Rightarrow> clk \<times> pins" where
  "HAL_UART_MspInit p b =
     (if p = USART3
      then ((fst b)\<lparr>RCC_APB1ENR := RCC_APB1ENR (fst b) OR 0x40000\<rparr>, HAL_GPIO_Init GPIOD usart3_pins (snd b))
      else b)"

definition HAL_UART_Init :: "clk \<times> pins \<Rightarrow> uart \<Rightarrow> (hal_status \<times> uart \<times> clk \<times> pins) outcome" where
  "HAL_UART_Init b u =
     (let (u1, b1) = (if gState u = HAL_UART_STATE_RESET then (u\<lparr>uart_Lock := False\<rparr>, HAL_UART_MspInit (uart_port u) b) else (u, b));
          u2 = u1\<lparr>gState := HAL_UART_STATE_BUSY, USART_CR1 := USART_CR1 u1 AND NOT USART_CR1_UE\<rparr> in
      obind (UART_SetConfig (fst b1) u2) (\<lambda>u3.
      Inr (HAL_OK, u3\<lparr>USART_CR2 := USART_CR2 u3 AND NOT (0x4000 OR 0x800),
                      USART_CR3 := USART_CR3 u3 AND NOT (0x20 OR 0x8 OR 0x2),
                      USART_CR1 := USART_CR1 u3 OR USART_CR1_UE,
                      ErrorCode := 0, gState := HAL_UART_STATE_READY, RxState := HAL_UART_STATE_READY\<rparr>, b1)))"

definition MX_USART3_UART_Init :: "clk \<times> pins \<Rightarrow> uart \<Rightarrow> (uart \<times> clk \<times> pins) outcome" where
  "MX_USART3_UART_Init b u =
     obind (HAL_UART_Init b (u\<lparr>uart_port := USART3,
         uart_Init := \<lparr>BaudRate = 115200, WordLength = 0, StopBits = 0, Parity = UART_PARITY_NONE, Mode = 0xC,
           HwFlowCtl = 0, OverSampling = 0\<rparr>\<rparr>))
       (\<lambda>(st, u1, b1). if st \<noteq> HAL_OK then Error_Handler else Inr (u1, b1))"

section \<open>Transmission\<close>

text \<open>The loop of \<open>UART_WaitOnFlagUntilTimeout\<close>, which lets every state go when it gives up\<close>

definition UART_WaitOnFlagUntilTimeout ::
  "uart_hw \<Rightarrow> u32 \<Rightarrow> bool \<Rightarrow> u32 \<Rightarrow> u32 \<Rightarrow> uart \<Rightarrow> (hal_status \<times> uart) outcome"
where
  "UART_WaitOnFlagUntilTimeout hw Flag Status Tickstart Timeout u =
     (case wait_until (\<lambda>n. (SR_at hw n AND Flag = Flag) \<noteq> Status)
         (\<lambda>n. Timeout \<noteq> HAL_MAX_DELAY \<and> (Timeout = 0 \<or> Timeout < uart_tick_at hw n - Tickstart)) (look u) of
        None \<Rightarrow> Inl Diverges
      | Some (True, n) \<Rightarrow> Inr (HAL_OK, u\<lparr>look := n\<rparr>)
      | Some (False, n) \<Rightarrow> Inr (HAL_TIMEOUT, u\<lparr>look := n,
          USART_CR1 := USART_CR1 u AND NOT (0x20 OR 0x100 OR 0x80), USART_CR3 := USART_CR3 u AND NOT 0x1,
          gState := HAL_UART_STATE_READY, RxState := HAL_UART_STATE_READY, uart_Lock := False\<rparr>))"

text \<open>\<open>while (TxXferCount > 0)\<close>; \<open>off\<close> is how far \<open>pData\<close> has gone.\<close>

fun transmit_loop :: "uart_hw \<Rightarrow> u32 \<Rightarrow> u32 \<Rightarrow> bytes \<Rightarrow> nat \<Rightarrow> nat \<Rightarrow> uart \<Rightarrow> (hal_status \<times> uart) outcome" where
  "transmit_loop hw tickstart Timeout pData off 0 u = Inr (HAL_OK, u)"
| "transmit_loop hw tickstart Timeout pData off (Suc n) u =
     obind (UART_WaitOnFlagUntilTimeout hw UART_FLAG_TXE False tickstart Timeout (u\<lparr>TxXferCount := TxXferCount u - 1\<rparr>))
       (\<lambda>(st, u1).
         if st \<noteq> HAL_OK then Inr (HAL_TIMEOUT, u1)
         else if WordLength (uart_Init u1) = UART_WORDLENGTH_9B then
           obind (buf_read off 2 pData) (\<lambda>bs.
           transmit_loop hw tickstart Timeout pData (if Parity (uart_Init u1) = UART_PARITY_NONE then off + 2 else off + 1) n
             (u1\<lparr>USART_DR := USART_DR u1 @ [(ucast (bs ! 0) OR push_bit 8 (ucast (bs ! 1))) AND 0x1FF]\<rparr>))
         else
           obind (buf_read off 1 pData) (\<lambda>bs.
           transmit_loop hw tickstart Timeout pData (off + 1) n
             (u1\<lparr>USART_DR := USART_DR u1 @ [ucast (bs ! 0) AND 0xFF]\<rparr>)))"

definition HAL_UART_Transmit :: "uart_hw \<Rightarrow> bytes option \<Rightarrow> u16 \<Rightarrow> u32 \<Rightarrow> uart \<Rightarrow> (hal_status \<times> uart) outcome" where
  "HAL_UART_Transmit hw pData Size Timeout u =
     (if gState u = HAL_UART_STATE_READY then
        (case pData of
           None \<Rightarrow> Inr (HAL_ERROR, u)
         | Some bytes \<Rightarrow>
             if Size = 0 then Inr (HAL_ERROR, u)
             else if uart_Lock u then Inr (HAL_BUSY, u)
             else
               (let tickstart = uart_tick_at hw (look u);
                    u1 = u\<lparr>uart_Lock := True, ErrorCode := 0, gState := HAL_UART_STATE_BUSY_TX, look := look u + 1,
                           TxXferSize := Size, TxXferCount := Size\<rparr> in
                obind (transmit_loop hw tickstart Timeout bytes 0 (unat Size) u1) (\<lambda>(st, u2).
                if st \<noteq> HAL_OK then Inr (HAL_TIMEOUT, u2)
                else obind (UART_WaitOnFlagUntilTimeout hw UART_FLAG_TC False tickstart Timeout u2) (\<lambda>(st, u3).
                  if st \<noteq> HAL_OK then Inr (HAL_TIMEOUT, u3)
                  else Inr (HAL_OK, u3\<lparr>gState := HAL_UART_STATE_READY, uart_Lock := False\<rparr>)))))
      else Inr (HAL_BUSY, u))"

text \<open>\<open>_write\<close> for the only file there is; its \<open>len\<close> becomes the 16-bit size of the transmission.\<close>

definition trace_write :: "uart_hw \<Rightarrow> bytes option \<Rightarrow> int \<Rightarrow> uart \<Rightarrow> (int \<times> uart) outcome" where
  "trace_write hw ptr len u =
     obind (HAL_UART_Transmit hw ptr (of_int len) 1000 u) (\<lambda>(st, u1). Inr (if st = HAL_OK then len else 0, u1))"

end
