(* ===== verification/UartOut.thy ===== *)
theory UartOut
  imports Uart
begin

text \<open>
  What the debug output promises: the baud rate that the divider gives, and what of a text is sent.
\<close>

section \<open>The baud rate\<close>

lemma nibbles:
  assumes "unat x \<le> 16"
  shows "(x AND 0xF0) + (x AND 0x0F) = (x :: u32)"
proof -
  have "(x AND 0xF0) + (x AND 0x0F) = (x AND 0xF0) OR (x AND 0x0F)"
  proof (rule disjunctive_add)
    fix n
    have "(0xF0 AND 0x0F :: u32) = 0" by simp
    then have "\<not> (bit (0xF0 :: u32) n \<and> bit (0x0F :: u32) n)" by (metis bit_and_iff bit_0_eq bot_apply bot_bool_def)
    then show "\<not> bit (x AND 0xF0) n \<or> \<not> bit (x AND 0x0F) n" by (simp only: bit_and_iff) blast
  qed
  also have "\<dots> = x AND (0xF0 OR 0x0F)" by (simp only: bit.conj_disj_distrib)
  also have "\<dots> = take_bit 8 x" by (simp add: take_bit_eq_mask mask_eq_exp_minus_1)
  also have "\<dots> = x" using assms by (simp add: word_unat_eq_iff unsigned_take_bit_eq take_bit_nat_eq_self)
  finally show ?thesis .
qed

lemma BRR16_eq:
  assumes "0 < unat baud" "4 * unat baud < 2 ^ 32" "25 * unat pclk < 2 ^ 32"
  shows "\<exists>brr. UART_BRR_SAMPLING16 pclk baud = Inr brr
     \<and> unat brr = (16 * (25 * unat pclk div (4 * unat baud)) + 50) div 100"
proof -
  define D where "D = 25 * unat pclk div (4 * unat baud)"
  define d where "d = (pclk * 25) div (4 * baud)"
  have u: "unat (pclk * 25) = 25 * unat pclk" "unat (4 * baud) = 4 * unat baud"
    using assms(2,3) by (simp_all add: unat_word_ariths mult.commute)
  have D: "unat d = D" using u by (simp add: d_def D_def unat_div)
  have "D \<le> 25 * unat pclk div 4" using assms(1) by (simp add: D_def div_le_mono2)
  then have D32: "D < 2 ^ 30" using assms(3) by simp
  define mant where "mant = d div 100"
  define r where "r = d - mant * 100"
  define fraq where "fraq = (r * 16 + 50) div 100"
  have mant: "unat mant = D div 100" by (simp add: mant_def unat_div D)
  have m100: "unat (mant * 100) = D div 100 * 100"
    using D32 by (simp add: unat_word_ariths mant)
  have rest: "unat r = D mod 100"
    unfolding r_def using m100 D by (subst unat_sub) (simp_all add: word_le_nat_alt modulo_nat_def)
  have r100: "D mod 100 < 100" by simp
  have fraq: "unat fraq = (D mod 100 * 16 + 50) div 100"
    using r100 by (simp add: fraq_def unat_div unat_word_ariths rest)
  have f16: "unat fraq \<le> 16" using fraq r100 by linarith
  have brr: "(push_bit 4 mant + (fraq AND 0xF0)) + (fraq AND 0x0F) = mant * 16 + fraq"
    using nibbles [OF f16] by (simp add: push_bit_eq_mult add.assoc)
  have "unat (mant * 16 + fraq) = D div 100 * 16 + (D mod 100 * 16 + 50) div 100"
    using D32 f16 by (simp add: unat_word_ariths mant fraq)
  also have "\<dots> = (16 * D + 50) div 100"
  proof -
    have "16 * D + 50 = (D mod 100 * 16 + 50) + 100 * (D div 100 * 16)" using div_mult_mod_eq [of D 100] by linarith
    then show ?thesis by simp
  qed
  finally have "unat (mant * 16 + fraq) = (16 * D + 50) div 100" .
  moreover have "4 * baud \<noteq> 0" using u(2) assms(1) by (auto simp: word_unat_eq_iff)
  ultimately show ?thesis
    unfolding UART_BRR_SAMPLING16_def Let_def d_def [symmetric] mant_def [symmetric] r_def [symmetric] fraq_def [symmetric] brr D_def [symmetric]
    by simp
qed

text \<open>The divider is the nearest one but for the rounding of hundredths.\<close>

lemma BRR16_bounds:
  assumes "0 < b" "n = (16 * (25 * p div (4 * b)) + 50) div (100 :: nat)"
  shows "100 * n * b \<le> 100 * p + 50 * b" "100 * p < 100 * n * b + 66 * b"
proof -
  define D where "D = 25 * p div (4 * b)"
  have D: "4 * b * D \<le> 25 * p" "25 * p < 4 * b * (D + 1)"
    using assms(1) by (simp_all add: D_def dividend_less_times_div)
  have n: "100 * n \<le> 16 * D + 50" "16 * D \<le> 100 * n + 49" using assms(2) D_def by simp_all
  have "100 * n * b \<le> (16 * D + 50) * b" using n(1) by (rule mult_right_mono) simp
  then show "100 * n * b \<le> 100 * p + 50 * b" using D(1) by (simp add: algebra_simps)
  have "16 * D * b \<le> (100 * n + 49) * b" using n(2) by (rule mult_right_mono) simp
  then show "100 * p < 100 * n * b + 66 * b" using D(2) assms(1) by (simp add: algebra_simps)
qed

text \<open>The bus a port hangs on.\<close>

definition port_clock :: "clk \<Rightarrow> usart_port \<Rightarrow> u32" where
  "port_clock c p = (if p = USART1 \<or> p = USART6 then HAL_RCC_GetPCLK2Freq c else HAL_RCC_GetPCLK1Freq c)"

lemma msp_port_clock [simp]: "port_clock (fst (HAL_UART_MspInit q b)) p = port_clock (fst b) p"
  by (simp add: HAL_UART_MspInit_def port_clock_def HAL_RCC_GetPCLK1Freq_def HAL_RCC_GetPCLK2Freq_def HAL_RCC_GetHCLKFreq_def)

lemma uart_init_run:
  assumes "OverSampling (uart_Init u) \<noteq> UART_OVERSAMPLING_8"
    and "UART_BRR_SAMPLING16 (port_clock (fst b) (uart_port u)) (BaudRate (uart_Init u)) = Inr brr"
  shows "HAL_UART_Init b u = Inr (HAL_OK, u
     \<lparr>USART_CR1 := modify_reg (USART_CR1 u AND NOT USART_CR1_UE) 0x960C (WordLength (uart_Init u) OR Parity (uart_Init u)
          OR Mode (uart_Init u) OR OverSampling (uart_Init u)) OR USART_CR1_UE,
      USART_CR2 := modify_reg (USART_CR2 u) 0x3000 (StopBits (uart_Init u)) AND NOT 0x4800,
      USART_CR3 := modify_reg (USART_CR3 u) 0x300 (HwFlowCtl (uart_Init u)) AND NOT 0x2A,
      USART_BRR := brr, uart_Lock := uart_Lock u \<and> gState u \<noteq> HAL_UART_STATE_RESET, ErrorCode := 0,
      gState := HAL_UART_STATE_READY, RxState := HAL_UART_STATE_READY\<rparr>,
      if gState u = HAL_UART_STATE_RESET then HAL_UART_MspInit (uart_port u) b else b)"
proof -
  have "UART_BRR_SAMPLING16 (port_clock (fst (HAL_UART_MspInit (uart_port u) b)) (uart_port u)) (BaudRate (uart_Init u)) = Inr brr"
    using assms(2) by simp
  then show ?thesis
    using assms by (simp add: HAL_UART_Init_def UART_SetConfig_def Let_def port_clock_def split del: if_split split: if_splits)
qed

lemma field_kept: "v AND NOT m = 0 \<Longrightarrow> (modify_reg r m v OR k) AND (m OR k) = v OR k"
  using modify_reg_field [of v m r] by (metis bit.disj_conj_distrib2)

lemma field_cleared: "(modify_reg r m 0 AND NOT k) AND (m OR k) = 0"
  using modify_reg_field [of 0 m r]
  by (simp add: bit.conj_disj_distrib and.assoc) (metis and.left_commute and.commute and_zero_eq)

lemma usart3_init:
  assumes "clocks_168 (fst b)" "gState u = HAL_UART_STATE_RESET"
  shows "\<exists>u1. MX_USART3_UART_Init b u = Inr (u1, HAL_UART_MspInit USART3 b) \<and> USART_BRR u1 = 364
     \<and> USART_CR1 u1 AND 0xB60C = 0x200C \<and> USART_CR2 u1 AND 0x7800 = 0 \<and> USART_CR3 u1 AND 0x32A = 0
     \<and> gState u1 = HAL_UART_STATE_READY \<and> \<not> uart_Lock u1 \<and> WordLength (uart_Init u1) = 0"
proof -
  define u0 where "u0 = u\<lparr>uart_port := USART3,
         uart_Init := \<lparr>BaudRate = 115200, WordLength = 0, StopBits = 0, Parity = UART_PARITY_NONE, Mode = 0xC,
           HwFlowCtl = 0, OverSampling = 0\<rparr>\<rparr>"
  have "port_clock (fst b) USART3 = 42000000" using assms(1) by (simp add: clocks_168_def port_clock_def)
  then have brr: "UART_BRR_SAMPLING16 (port_clock (fst b) (uart_port u0)) (BaudRate (uart_Init u0)) = Inr 364"
    by (simp add: u0_def UART_BRR_SAMPLING16_def Let_def)
  have run: "MX_USART3_UART_Init b u = obind (HAL_UART_Init b u0) (\<lambda>(st, u1, b1). if st \<noteq> HAL_OK then Error_Handler else Inr (u1, b1))"
    by (simp add: MX_USART3_UART_Init_def u0_def)
  have u0: "OverSampling (uart_Init u0) \<noteq> UART_OVERSAMPLING_8" by (simp add: u0_def)
  have regs: "(modify_reg a 0x960C 0xC OR 0x2000) AND 0xB60C = 0x200C" "(modify_reg a 0x3000 0 AND NOT 0x4800) AND 0x7800 = 0"
      "(modify_reg a 0x300 0 AND NOT 0x2A) AND 0x32A = 0" for a
    using field_kept [of "0xC" "0x960C" a "0x2000"] field_cleared [of a "0x3000" "0x4800"] field_cleared [of a "0x300" "0x2A"]
    by simp_all
  show ?thesis
    unfolding run uart_init_run [OF u0 brr] using regs assms(2) by (simp add: u0_def)
qed

text \<open>C30: the baud rate. \<open>HAL_UART_Init\<close> of any port with sixteenfold oversampling, as long as 25 times the
  frequency of its bus fits in 32 bits, ends with a divider that gives the baud rate of the port up to half a
  step above and two thirds of a step below; and from the clocks of \<open>SystemClock_Config\<close>, whatever the registers
  held, \<open>MX_USART3_UART_Init\<close> sets up its pins and clock gate and leaves the debug port ready at eight bits, no parity, one stop bit and
  a divider of 364, which is 115384 baud.\<close>

theorem uart_baud_rate:
  assumes "OverSampling (uart_Init u) \<noteq> UART_OVERSAMPLING_8" "b = unat (BaudRate (uart_Init u))" "p = unat (port_clock (fst c) (uart_port u))"
    and "0 < b" "4 * b < 2 ^ 32" "25 * p < 2 ^ 32"
    and "clocks_168 (fst c')" "gState v = HAL_UART_STATE_RESET"
  shows "(\<exists>u1 c1. HAL_UART_Init c u = Inr (HAL_OK, u1, c1) \<and> gState u1 = HAL_UART_STATE_READY
        \<and> 100 * unat (USART_BRR u1) * b \<le> 100 * p + 50 * b \<and> 100 * p < 100 * unat (USART_BRR u1) * b + 66 * b)
     \<and> (\<exists>v1. MX_USART3_UART_Init c' v = Inr (v1, HAL_UART_MspInit USART3 c') \<and> unat (port_clock (fst c') USART3) div unat (USART_BRR v1) = 115384
        \<and> USART_CR1 v1 AND 0xB60C = 0x200C \<and> USART_CR2 v1 AND 0x7800 = 0 \<and> USART_CR3 v1 AND 0x32A = 0
        \<and> gState v1 = HAL_UART_STATE_READY \<and> \<not> uart_Lock v1)"
proof (intro conjI)
  obtain brr where brr: "UART_BRR_SAMPLING16 (port_clock (fst c) (uart_port u)) (BaudRate (uart_Init u)) = Inr brr"
      "unat brr = (16 * (25 * p div (4 * b)) + 50) div 100"
    using BRR16_eq [of "BaudRate (uart_Init u)" "port_clock (fst c) (uart_port u)"] assms(4-6) unfolding assms(2,3) by blast
  show "\<exists>u1 c1. HAL_UART_Init c u = Inr (HAL_OK, u1, c1) \<and> gState u1 = HAL_UART_STATE_READY
        \<and> 100 * unat (USART_BRR u1) * b \<le> 100 * p + 50 * b \<and> 100 * p < 100 * unat (USART_BRR u1) * b + 66 * b"
    using uart_init_run [OF assms(1) brr(1)] BRR16_bounds [OF assms(4) brr(2)] by simp
  have "port_clock (fst c') USART3 = 42000000" using assms(7) by (simp add: clocks_168_def port_clock_def)
  then show "\<exists>v1. MX_USART3_UART_Init c' v = Inr (v1, HAL_UART_MspInit USART3 c') \<and> unat (port_clock (fst c') USART3) div unat (USART_BRR v1) = 115384
        \<and> USART_CR1 v1 AND 0xB60C = 0x200C \<and> USART_CR2 v1 AND 0x7800 = 0 \<and> USART_CR3 v1 AND 0x32A = 0
        \<and> gState v1 = HAL_UART_STATE_READY \<and> \<not> uart_Lock v1"
    using usart3_init [OF assms(7,8)] by fastforce
qed

section \<open>What of a text is sent\<close>

text \<open>From any look at the tick, it will be more than a second after any start.\<close>

definition uart_ticks :: "uart_hw \<Rightarrow> bool" where
  "uart_ticks hw \<longleftrightarrow> (\<forall>start n. \<exists>m\<ge>n. 1000 < uart_tick_at hw m - start)"

text \<open>From any look on, both flags of the transmitter come while it is not a second after \<open>start\<close>.\<close>

definition uart_prompt :: "uart_hw \<Rightarrow> u32 \<Rightarrow> bool" where
  "uart_prompt hw start \<longleftrightarrow> (\<forall>n. \<exists>m\<ge>n. SR_at hw m AND (UART_FLAG_TXE OR UART_FLAG_TC) = (UART_FLAG_TXE OR UART_FLAG_TC)
     \<and> (\<forall>i. n \<le> i \<and> i < m \<longrightarrow> uart_tick_at hw i - start \<le> 1000))"

lemma uart_wait_1000:
  "UART_WaitOnFlagUntilTimeout hw f False start 1000 u =
     (case wait_until (\<lambda>n. SR_at hw n AND f = f) (\<lambda>n. 1000 < uart_tick_at hw n - start) (look u) of
        None \<Rightarrow> Inl Diverges
      | Some (True, n) \<Rightarrow> Inr (HAL_OK, u\<lparr>look := n\<rparr>)
      | Some (False, n) \<Rightarrow> Inr (HAL_TIMEOUT, u\<lparr>look := n,
          USART_CR1 := USART_CR1 u AND NOT (0x20 OR 0x100 OR 0x80), USART_CR3 := USART_CR3 u AND NOT 0x1,
          gState := HAL_UART_STATE_READY, RxState := HAL_UART_STATE_READY, uart_Lock := False\<rparr>))"
  by (simp add: UART_WaitOnFlagUntilTimeout_def)

text \<open>A wait changes nothing but the moment, or gives up and lets the port go.\<close>

lemma uart_wait:
  assumes "uart_ticks hw"
  obtains n where "UART_WaitOnFlagUntilTimeout hw f False start 1000 u = Inr (HAL_OK, u\<lparr>look := n\<rparr>)"
  | u' where "UART_WaitOnFlagUntilTimeout hw f False start 1000 u = Inr (HAL_TIMEOUT, u')" "gState u' = HAL_UART_STATE_READY"
      "\<not> uart_Lock u'" "USART_DR u' = USART_DR u"
proof -
  obtain m where m: "look u \<le> m" "1000 < uart_tick_at hw m - start" using assms unfolding uart_ticks_def by blast
  from wait_until_ends [where ready = "\<lambda>n. SR_at hw n AND f = f" and late = "\<lambda>n. 1000 < uart_tick_at hw n - start", OF m]
  obtain r k where "wait_until (\<lambda>n. SR_at hw n AND f = f) (\<lambda>n. 1000 < uart_tick_at hw n - start) (look u) = Some (r, Suc k)"
    by blast
  then have w: "UART_WaitOnFlagUntilTimeout hw f False start 1000 u = (if r then Inr (HAL_OK, u\<lparr>look := Suc k\<rparr>)
      else Inr (HAL_TIMEOUT, u\<lparr>look := Suc k,
          USART_CR1 := USART_CR1 u AND NOT (0x20 OR 0x100 OR 0x80), USART_CR3 := USART_CR3 u AND NOT 0x1,
          gState := HAL_UART_STATE_READY, RxState := HAL_UART_STATE_READY, uart_Lock := False\<rparr>))"
    by (simp add: uart_wait_1000)
  show ?thesis
  proof (cases r)
    case True
    with w show ?thesis by (intro that(1)) simp
  next
    case False
    show ?thesis
      by (rule that(2) [OF w [unfolded if_not_P [OF False]]]) simp_all
  qed
qed

lemma uart_wait_prompt:
  assumes "uart_prompt hw start" "f = UART_FLAG_TXE \<or> f = UART_FLAG_TC"
  shows "\<exists>n. UART_WaitOnFlagUntilTimeout hw f False start 1000 u = Inr (HAL_OK, u\<lparr>look := n\<rparr>)"
proof -
  obtain m where m: "look u \<le> m" "SR_at hw m AND 0xC0 = 0xC0" "\<forall>i. look u \<le> i \<and> i < m \<longrightarrow> uart_tick_at hw i - start \<le> 1000"
    using assms(1) unfolding uart_prompt_def by auto
  have f: "0xC0 AND f = f" using assms(2) by auto
  then have "SR_at hw m AND f = (SR_at hw m AND 0xC0) AND f" by (simp only: and.assoc)
  then have "SR_at hw m AND f = f" by (simp only: m(2) f)
  then have "\<exists>k. wait_until (\<lambda>n. SR_at hw n AND f = f) (\<lambda>n. 1000 < uart_tick_at hw n - start) (look u) = Some (True, Suc k)
     \<and> look u \<le> k \<and> k \<le> m \<and> SR_at hw k AND f = f"
    by (intro wait_until_in_time) (use m(1,3) in \<open>auto simp: not_less\<close>)
  then show ?thesis unfolding uart_wait_1000 by auto
qed


lemma ucast_byte: "ucast (b :: u8) AND 0xFF = (ucast b :: u32)"
proof -
  have "ucast b AND 0xFF = take_bit 8 (ucast b :: u32)" by (simp add: take_bit_eq_mask mask_eq_exp_minus_1)
  also have "\<dots> = ucast b" by (rule bit_word_eqI) (auto simp: bit_simps dest: bit_imp_le_length)
  finally show ?thesis .
qed

lemma transmit_ends:
  assumes "uart_ticks hw" "WordLength (uart_Init u) \<noteq> UART_WORDLENGTH_9B" "off + n \<le> length buf"
  shows "\<exists>st u' k. transmit_loop hw start 1000 buf off n u = Inr (st, u')
     \<and> k \<le> n \<and> USART_DR u' = USART_DR u @ map ucast (take k (drop off buf))
     \<and> (st = HAL_OK \<and> k = n \<or> st = HAL_TIMEOUT \<and> gState u' = HAL_UART_STATE_READY \<and> \<not> uart_Lock u')
     \<and> (uart_prompt hw start \<longrightarrow> st = HAL_OK)"
  using assms(2,3)
proof (induction n arbitrary: off u)
  case 0
  then show ?case by (intro exI [of _ HAL_OK] exI [of _ u] exI [of _ 0]) simp
next
  case (Suc n)
  let ?u = "u\<lparr>TxXferCount := TxXferCount u - 1\<rparr>"
  show ?case
  proof (cases rule: uart_wait [OF assms(1), of "UART_FLAG_TXE" start ?u])
    case (1 m)
    have rd: "buf_read off 1 buf = Inr [buf ! off]"
      using Suc.prems(2) by (simp add: buf_read_ok Cons_nth_drop_Suc [symmetric])
    let ?v = "?u\<lparr>look := m, USART_DR := USART_DR u @ [ucast (buf ! off)]\<rparr>"
    obtain st u' k where ih: "transmit_loop hw start 1000 buf (off + 1) n ?v = Inr (st, u')" "k \<le> n"
        "USART_DR u' = USART_DR ?v @ map ucast (take k (drop (off + 1) buf))"
        "st = HAL_OK \<and> k = n \<or> st = HAL_TIMEOUT \<and> gState u' = HAL_UART_STATE_READY \<and> \<not> uart_Lock u'"
        "uart_prompt hw start \<longrightarrow> st = HAL_OK"
      using Suc.IH [of ?v "off + 1"] Suc.prems by auto
    have "transmit_loop hw start 1000 buf off (Suc n) u = Inr (st, u')"
      using 1 rd ih(1) Suc.prems(1) by (simp add: ucast_byte)
    moreover have "drop off buf = buf ! off # drop (off + 1) buf"
      using Suc.prems(2) by (simp add: Cons_nth_drop_Suc)
    ultimately show ?thesis
      using ih(2-5) by (intro exI [of _ st] exI [of _ u'] exI [of _ "Suc k"]) auto
  next
    case (2 u')
    have "\<not> uart_prompt hw start"
    proof
      assume "uart_prompt hw start"
      from uart_wait_prompt [OF this, of "UART_FLAG_TXE" ?u] 2(1) show False by simp
    qed
    then show ?thesis
      using 2 by (intro exI [of _ HAL_TIMEOUT] exI [of _ u'] exI [of _ 0]) simp
  qed
qed

lemma trace_write_ends:
  assumes "uart_ticks hw" "gState u = HAL_UART_STATE_READY" "\<not> uart_Lock u" "WordLength (uart_Init u) \<noteq> UART_WORDLENGTH_9B"
  shows "\<exists>r u' k. trace_write hw (Some buf) (int (length buf)) u = Inr (r, u')
     \<and> gState u' = HAL_UART_STATE_READY \<and> \<not> uart_Lock u'
     \<and> k \<le> length buf mod 65536 \<and> USART_DR u' = USART_DR u @ map ucast (take k buf)
     \<and> (r = 0 \<or> r = int (length buf) \<and> k = length buf mod 65536)
     \<and> (uart_prompt hw (uart_tick_at hw (look u)) \<and> length buf mod 65536 \<noteq> 0 \<longrightarrow> r = int (length buf) \<and> k = length buf mod 65536)
     \<and> (length buf mod 65536 = 0 \<longrightarrow> r = 0 \<and> u' = u)"
proof -
  define size where "size = (of_int (int (length buf)) :: u16)"
  have size: "unat size = length buf mod 65536" by (simp add: size_def unat_of_nat take_bit_nat_def)
  show ?thesis
  proof (cases "size = 0")
    case True
    then have "length buf mod 65536 = 0" using size by simp
    then show ?thesis
      using assms(2,3) True by (intro exI [of _ 0] exI [of _ u] exI [of _ 0])
        (simp add: trace_write_def HAL_UART_Transmit_def size_def)
  next
    case False
    then have nz: "length buf mod 65536 \<noteq> 0" using size by (metis unsigned_0 word_unat_eq_iff)
    let ?start = "uart_tick_at hw (look u)"
    let ?u1 = "u\<lparr>uart_Lock := True, ErrorCode := 0, gState := HAL_UART_STATE_BUSY_TX, look := look u + 1,
                TxXferSize := size, TxXferCount := size\<rparr>"
    have wl: "WordLength (uart_Init ?u1) \<noteq> UART_WORDLENGTH_9B" "0 + unat size \<le> length buf"
      using assms(4) by (simp_all add: size)
    obtain st u2 k where l: "transmit_loop hw ?start 1000 buf 0 (unat size) ?u1 = Inr (st, u2)"
        "k \<le> unat size" "USART_DR u2 = USART_DR u @ map ucast (take k buf)"
        "st = HAL_OK \<and> k = unat size \<or> st = HAL_TIMEOUT \<and> gState u2 = HAL_UART_STATE_READY \<and> \<not> uart_Lock u2"
        "uart_prompt hw ?start \<longrightarrow> st = HAL_OK"
      using transmit_ends [OF assms(1) wl, of ?start] by auto
    have run: "HAL_UART_Transmit hw (Some buf) size 1000 u = (if st \<noteq> HAL_OK then Inr (HAL_TIMEOUT, u2)
        else obind (UART_WaitOnFlagUntilTimeout hw UART_FLAG_TC False ?start 1000 u2) (\<lambda>(st, u3).
          if st \<noteq> HAL_OK then Inr (HAL_TIMEOUT, u3)
          else Inr (HAL_OK, u3\<lparr>gState := HAL_UART_STATE_READY, uart_Lock := False\<rparr>)))"
      using assms(2,3) False l(1) by (simp add: HAL_UART_Transmit_def Let_def)
    show ?thesis
    proof (cases "st = HAL_OK")
      case False
      then have "trace_write hw (Some buf) (int (length buf)) u = Inr (0, u2)"
        using run by (simp add: trace_write_def size_def)
      then show ?thesis
        using l(2-5) False size nz by (intro exI [of _ 0] exI [of _ u2] exI [of _ k]) simp
    next
      case True
      then have k: "k = length buf mod 65536" using l(4) size by simp
      show ?thesis
      proof (cases rule: uart_wait [OF assms(1), of "UART_FLAG_TC" ?start u2])
        case (1 n)
        then have "trace_write hw (Some buf) (int (length buf)) u
            = Inr (int (length buf), u2\<lparr>look := n, gState := HAL_UART_STATE_READY, uart_Lock := False\<rparr>)"
          using run True by (simp add: trace_write_def size_def)
        then show ?thesis
          using l(3) k nz by (intro exI [of _ "int (length buf)"] exI [of _ k]
            exI [of _ "u2\<lparr>look := n, gState := HAL_UART_STATE_READY, uart_Lock := False\<rparr>"]) simp
      next
        case (2 u3)
        then have "trace_write hw (Some buf) (int (length buf)) u = Inr (0, u3)"
          using run True by (simp add: trace_write_def size_def)
        moreover have "\<not> uart_prompt hw ?start"
        proof
          assume "uart_prompt hw ?start"
          from uart_wait_prompt [OF this, of "UART_FLAG_TC" u2] 2(1) show False by simp
        qed
        ultimately show ?thesis
          using l(3) k 2 nz by (intro exI [of _ 0] exI [of _ u3] exI [of _ k]) simp
      qed
    qed
  qed
qed

text \<open>C31: what the debug output makes of a text, on a port that is ready, unlocked and not set to nine-bit words. As
  long as the tick goes on (\<open>uart_ticks\<close>), \<open>_write\<close> returns and leaves the port free; a prefix of the text was
  handed to the transmitter, and it returns the length of the text or zero. When the transmitter raises both its
  flags within the 1000 ticks of the call, again and again (\<open>uart_prompt\<close>), all of a text of 1 to 65535 bytes is sent
  and its length returned; of a longer one only what is left of its length modulo 65536 is sent, and the whole length
  returned. When that is nothing (the length is a multiple of 65536, or zero), the HAL refuses the call: nothing is
  sent, the port is not touched, and \<open>_write\<close> returns zero, whatever the hardware does.\<close>

theorem trace_write_sends_prefix:
  assumes "uart_ticks hw" "gState u = HAL_UART_STATE_READY" "\<not> uart_Lock u" "WordLength (uart_Init u) \<noteq> UART_WORDLENGTH_9B"
  shows "\<exists>r u' k. trace_write hw (Some buf) (int (length buf)) u = Inr (r, u')
     \<and> gState u' = HAL_UART_STATE_READY \<and> \<not> uart_Lock u'
     \<and> k \<le> length buf mod 65536 \<and> USART_DR u' = USART_DR u @ map ucast (take k buf)
     \<and> (r = 0 \<or> r = int (length buf) \<and> k = length buf mod 65536)
     \<and> (uart_prompt hw (uart_tick_at hw (look u)) \<and> length buf mod 65536 \<noteq> 0 \<longrightarrow> r = int (length buf) \<and> k = length buf mod 65536)
     \<and> (length buf mod 65536 = 0 \<longrightarrow> r = 0 \<and> u' = u)"
  by (rule trace_write_ends [OF assms])

text \<open>A transmitter that is always ready.\<close>

definition prompt_uart :: uart_hw where
  "prompt_uart = \<lparr>SR_at = \<lambda>_. 0xC0, uart_tick_at = \<lambda>n. of_nat n\<rparr>"

lemma prompt_uart_ok: "uart_ticks prompt_uart" "uart_prompt prompt_uart start"
proof -
  have "\<exists>m\<ge>n. 1000 < (of_nat m :: u32) - start" for n start
  proof -
    obtain m where m: "n \<le> m" "5000 < (of_nat m :: u32) - start" using ticks_of_nat by blast
    have "(1000 :: u32) < 5000" by simp
    then show ?thesis using m by (blast intro: less_trans)
  qed
  then show "uart_ticks prompt_uart" by (simp add: uart_ticks_def prompt_uart_def)
  show "uart_prompt prompt_uart start" by (auto simp: uart_prompt_def prompt_uart_def)
qed


text \<open>A board whose clocks and port are set up.\<close>

definition cold_clk :: clk where
  "cold_clk = \<lparr>RCC_CR = 0x83, RCC_CFGR = 0, RCC_PLLCFGR = 0, RCC_CIR = 0, RCC_BDCR = 0, RCC_CSR = 0, RCC_APB1ENR = 0,
     PWR_CR = 0, FLASH_ACR = 0, SysTick_LOAD = 0, SysTick_VAL = 0, SysTick_CTRL = 0, core_clock = 16000000, uwTickPrio = 0,
     interrupts = \<lparr>SCB_AIRCR = 0xFA050000, SCB_SHP = \<lambda>_. 0, NVIC_IP = \<lambda>_. 0\<rparr>, SCB_CPACR = 0, SCB_VTOR = 0, moment = 0\<rparr>"

definition cold_uart :: uart where
  "cold_uart = \<lparr>uart_port = USART3, USART_CR1 = 0, USART_CR2 = 0, USART_CR3 = 0, USART_BRR = 0, USART_DR = [],
     uart_Init = \<lparr>BaudRate = 115200, WordLength = 0, StopBits = 0, Parity = 0, Mode = 0xC, HwFlowCtl = 0, OverSampling = 0\<rparr>,
     TxXferSize = 0, TxXferCount = 0, uart_Lock = False, gState = HAL_UART_STATE_RESET, RxState = HAL_UART_STATE_RESET,
     ErrorCode = 0, look = 0\<rparr>"

lemma example_clocks: "\<exists>c. clocks_168 c"
proof -
  fix osc
  let ?s = "HAL_Init (SystemInit cold_clk)"
  obtain c where "SystemClock_Config prompt_rcc osc ?s = Inr c"
    using clock_config_in_time [OF prompt_rcc_ok, of ?s osc] started_on_HSI [of cold_clk] by auto
  then show ?thesis
    using clock_config_ends [OF prompt_rcc_ok(1,2), of osc ?s] by (auto simp: Error_Handler_def)
qed

lemma uart_baud_rate_witness:
  "\<exists>c u1 b1. clocks_168 c \<and> HAL_UART_Init (c, blank_pins) cold_uart = Inr (HAL_OK, u1, b1) \<and> 100 * unat (USART_BRR u1) * 115200 \<le> 100 * 42000000 + 50 * 115200"
proof -
  obtain c where c: "clocks_168 c" using example_clocks by blast
  have "port_clock c USART3 = 42000000" using c by (simp add: clocks_168_def port_clock_def)
  then show ?thesis
    using c uart_baud_rate [of cold_uart 115200 42000000 "(c, blank_pins)" "(c, blank_pins)" cold_uart] by (auto simp: cold_uart_def)
qed

lemma trace_write_sends_prefix_witness:
  "\<exists>u1 u2. trace_write prompt_uart (Some [72, 105]) 2 (cold_uart\<lparr>gState := HAL_UART_STATE_READY\<rparr>) = Inr (2, u1) \<and> USART_DR u1 = [72, 105]
     \<and> trace_write prompt_uart (Some (replicate 65537 65)) 65537 (cold_uart\<lparr>gState := HAL_UART_STATE_READY\<rparr>) = Inr (65537, u2)
     \<and> USART_DR u2 = [65]
     \<and> trace_write prompt_uart (Some (replicate 65536 65)) 65536 (cold_uart\<lparr>gState := HAL_UART_STATE_READY\<rparr>)
         = Inr (0, cold_uart\<lparr>gState := HAL_UART_STATE_READY\<rparr>)"
proof -
  let ?u = "cold_uart\<lparr>gState := HAL_UART_STATE_READY\<rparr>"
  have u: "gState ?u = HAL_UART_STATE_READY" "\<not> uart_Lock ?u" "WordLength (uart_Init ?u) \<noteq> UART_WORDLENGTH_9B"
      "USART_DR ?u = []"
    by (simp_all add: cold_uart_def)
  have "take 1 (replicate 65537 65) = [65 :: u8]" by (simp add: take_replicate)
  then show ?thesis
    using trace_write_sends_prefix [OF prompt_uart_ok(1) u(1-3), of "[72, 105]"]
      trace_write_sends_prefix [OF prompt_uart_ok(1) u(1-3), of "replicate 65537 65"]
      trace_write_sends_prefix [OF prompt_uart_ok(1) u(1-3), of "replicate 65536 65"] prompt_uart_ok(2) u(4)
    by auto
qed

end
