(* ===== verification/Firmware.thy ===== *)
theory Firmware
  imports BoardRuns UsbStart UartOut
begin

text \<open>
  The whole start of the firmware: from the reset (\<open>SystemInit\<close>, before \<open>main\<close>) to the main loop, the clocks, the pins, the debug
  port and the USB device with the application on it.
\<close>

section \<open>From the reset to the loop\<close>

text \<open>
  \<open>main\<close> up to its loop, which starts at the tick \<open>t\<close>. The USB driver computes with the processor clock that
  \<open>SystemClock_Config\<close> left, and \<open>HAL_PCD_Init\<close> calls \<open>HAL_PCD_MspInit\<close> for its pins and its interrupt, on a part of the state that the USB stack
  does not touch otherwise.
\<close>

definition boot ::
  "rcc_hw \<Rightarrow> osc_init \<Rightarrow> gpio_init \<Rightarrow> clk \<Rightarrow> pins \<Rightarrow> uart \<Rightarrow> (u32 \<Rightarrow> 'a usbd) \<Rightarrow> 'a usbd application \<Rightarrow> u32 \<Rightarrow>
   (clk \<times> pins \<times> uart \<times> 'a usbd firmware) outcome"
where
  "boot hw osc gi z p u usb ap t =
     obind (SystemClock_Config hw osc (HAL_Init (SystemInit z))) (\<lambda>c.
     obind (MX_USART3_UART_Init (c, MX_GPIO_Init gi p) u) (\<lambda>(u1, c1, p1).
     obind (main_start ap (MX_USB_DEVICE_Init (usb (HAL_RCC_GetHCLKFreq c1))) t) (\<lambda>f.
     let (i2, p2) = HAL_PCD_MspInit (interrupts c1, p1) in Inr (c1\<lparr>interrupts := i2\<rparr>, p2, u1, f))))"

text \<open>The USB peripheral and the heap at the start, with the global \<open>SystemCoreClock\<close>.\<close>

definition usb_at :: "usb_otg \<Rightarrow> cdc_handle option \<Rightarrow> 'a \<Rightarrow> u32 \<Rightarrow> 'a usbd" where
  "usb_at r m a clock = usb_start (r\<lparr>SystemCoreClock := clock\<rparr>) m a"

lemma USB_CoreReset_clock: "SystemCoreClock (snd (USB_CoreReset r)) = SystemCoreClock r"
  by (simp add: USB_CoreReset_def Let_def split: hal_status.split)

lemma usb_keeps_clock:
  assumes "MX_USB_DEVICE_Init (usb_start r m a) = Inr s"
  shows "SystemCoreClock (Instance (hpcd s)) = SystemCoreClock r"
proof -
  obtain h where s: "board_cfg (Init h)" "Instance h = r"
      "hpcd s = snd (HAL_PCD_Start (HAL_PCDEx_SetTxFiFo 1 0x80 (HAL_PCDEx_SetTxFiFo 0 0x40 (HAL_PCDEx_SetRxFiFo 0x80
         (snd (HAL_PCD_Init h))))))"
    using start_regs [of r m a] assms by auto
  have "SystemCoreClock (Instance (snd (HAL_PCD_Init h))) = SystemCoreClock r"
    using s(1,2)
    by (simp add: HAL_PCD_Init_def Let_def USB_DevInit_eq USB_DevDisconnect_def USB_SetCurrentMode_def USB_CoreInit_def
        USB_CoreReset_clock USB_DisableGlobalInt_def board_cfg_def)
  then show ?thesis
    unfolding s(3)
    by (simp add: HAL_PCD_Start_def HAL_PCDEx_SetTxFiFo_def HAL_PCDEx_SetRxFiFo_def Let_def USB_DevConnect_def USB_EnableGlobalInt_def)
qed

text \<open>The pins, gates and interrupts after the start, from what they were at the reset.\<close>

definition board_ready :: "pins \<Rightarrow> pins \<Rightarrow> bool" where
  "board_ready p0 p \<longleftrightarrow>
     (\<forall>q. \<forall>n<16. pin_of (port p q) n = board_pin q n (pin_of (port p0 q) n))
   \<and> (\<forall>n<16. line_of p n = (if n = 13 then \<lparr>source = 2, interrupt = True, event = False, rising = True, falling = False\<rparr>
                            else line_of p0 n))
   \<and> RCC_AHB1ENR p = RCC_AHB1ENR p0 OR 0xCF \<and> RCC_AHB2ENR p = RCC_AHB2ENR p0 OR 0x80 \<and> bit (RCC_APB2ENR p) 14
   \<and> NVIC_ISER p = (NVIC_ISER p0)(2 := NVIC_ISER p0 2 OR 0x8)"

lemma board_is_ready: "board_ready p (snd (HAL_PCD_MspInit (i, HAL_GPIO_Init GPIOD usart3_pins (MX_GPIO_Init gi p))))"
  unfolding board_ready_def by (simp add: board_pins_view board_lines_view board_gates)

text \<open>What the start ends in once the clocks run.\<close>

definition booted :: "'a usbd usbd_class \<Rightarrow> irq_read \<Rightarrow> u32 \<Rightarrow> pins \<Rightarrow> clk \<Rightarrow> pins \<Rightarrow> uart \<Rightarrow> 'a usbd firmware \<Rightarrow> bool" where
  "booted cls rd t p0 c p u f \<longleftrightarrow> clocks_168 c \<and> board_ready p0 p
     \<and> gState u = HAL_UART_STATE_READY \<and> \<not> uart_Lock u \<and> unat (port_clock c USART3) div unat (USART_BRR u) = 115384
     \<and> bit (RCC_APB1ENR c) 18
     \<and> (\<forall>g. HAL_NVIC_GetPriority SysTick_IRQn g (interrupts c) = (0, 0) \<and> HAL_NVIC_GetPriority (int OTG_FS_IRQn) g (interrupts c) = (0, 0))
     \<and> usb_wf (device f) \<and> dev_state (pdev (device f)) = USBD_STATE_DEFAULT \<and> started_regs cls rd (Instance (hpcd (device f)))
     \<and> SystemCoreClock (Instance (hpcd (device f))) = HAL_RCC_GetHCLKFreq c
     \<and> ulStamp_ms f = t \<and> uwTick f = t"

lemma gated_clocks:
  "clocks_168 (c\<lparr>RCC_APB1ENR := x\<rparr>) = clocks_168 c" "port_clock (c\<lparr>RCC_APB1ENR := x\<rparr>) q = port_clock c q"
  "port_clock (c\<lparr>interrupts := i\<rparr>) q = port_clock c q" "HAL_RCC_GetHCLKFreq (c\<lparr>interrupts := i\<rparr>) = HAL_RCC_GetHCLKFreq c"
  by (simp_all add: clocks_168_def port_clock_def usb_clock_def HAL_RCC_GetPCLK1Freq_def HAL_RCC_GetPCLK2Freq_def HAL_RCC_GetHCLKFreq_def)

lemma boot_after_clocks:
  assumes "clocks_168 c" "gState u = HAL_UART_STATE_RESET" "\<And>d. \<exists>a. weak_call (app_init ap) d = Inr (d\<lparr>app := a\<rparr>)" "NVIC_GetPriority SysTick_IRQn (interrupts c) = 0"
  shows "\<exists>u1 c1 p1 f. MX_USART3_UART_Init (c, MX_GPIO_Init gi p) u = Inr (u1, c1, p1)
     \<and> main_start ap (MX_USB_DEVICE_Init (usb_at r m a (HAL_RCC_GetHCLKFreq c1))) t = Inr f
     \<and> booted cls rd t p (c1\<lparr>interrupts := fst (HAL_PCD_MspInit (interrupts c1, p1))\<rparr>) (snd (HAL_PCD_MspInit (interrupts c1, p1))) u1 f"
proof -
  let ?b = "(c, MX_GPIO_Init gi p)"
  let ?c1 = "c\<lparr>RCC_APB1ENR := RCC_APB1ENR c OR 0x40000\<rparr>"
  obtain u1 where "MX_USART3_UART_Init ?b u = Inr (u1, HAL_UART_MspInit USART3 ?b)"
      and u1: "USART_BRR u1 = 364" "gState u1 = HAL_UART_STATE_READY" "\<not> uart_Lock u1"
    using usart3_init [of ?b u] assms(1,2) by auto
  then have run: "MX_USART3_UART_Init ?b u = Inr (u1, ?c1, HAL_GPIO_Init GPIOD usart3_pins (MX_GPIO_Init gi p))"
    by (simp add: HAL_UART_MspInit_def)
  let ?p = "HAL_PCD_MspInit (interrupts c, HAL_GPIO_Init GPIOD usart3_pins (MX_GPIO_Init gi p))"
  let ?c2 = "?c1\<lparr>interrupts := fst ?p\<rparr>"
  have i: "fst ?p = NVIC_SetPriority (int OTG_FS_IRQn) 0 (interrupts c)"
    by (simp add: HAL_PCD_MspInit_def Let_def zero_priority)
  have prio: "HAL_NVIC_GetPriority SysTick_IRQn g (interrupts ?c2) = (0, 0) \<and> HAL_NVIC_GetPriority (int OTG_FS_IRQn) g (interrupts ?c2) = (0, 0)" for g
    using assms(4) by (simp add: i zero_decoded priority_of_other priority_stored)
  have c1: "clocks_168 ?c1" using assms(1) by (simp add: gated_clocks)
  have baud: "unat (port_clock ?c1 USART3) div unat (USART_BRR u1) = 115384"
    using c1 u1(1) by (simp add: clocks_168_def port_clock_def)
  obtain d where d: "MX_USB_DEVICE_Init (usb_at r m a (HAL_RCC_GetHCLKFreq ?c1)) = Inr d" "usb_wf d"
      "dev_state (pdev d) = USBD_STATE_DEFAULT" "started_regs cls rd (Instance (hpcd d))"
    unfolding usb_at_def using start_ready [of "r\<lparr>SystemCoreClock := HAL_RCC_GetHCLKFreq ?c1\<rparr>" m a cls rd] by auto
  have "SystemCoreClock (Instance (hpcd d)) = HAL_RCC_GetHCLKFreq ?c1"
    using usb_keeps_clock [OF d(1) [unfolded usb_at_def]] by simp
  moreover obtain d1 a1 where d1: "weak_call (app_init ap) d = Inr d1" "d1 = d\<lparr>app := a1\<rparr>"
    using assms(3) [of d] by blast
  moreover have "usb_wf d1" "pdev d1 = pdev d" "hpcd d1 = hpcd d" using d(2) d1(2) by (simp_all add: usb_wf_def)
  moreover have "bit (RCC_APB1ENR ?c1) 18" by (simp add: bit_or_iff)
  ultimately have "booted cls rd t p ?c2 (snd ?p) u1 \<lparr>uwTick = t, ulStamp_ms = t, device = d1\<rparr>"
    unfolding booted_def using u1(2,3) baud d(2-4) c1 board_is_ready prio by (simp add: gated_clocks)
  moreover have "main_start ap (MX_USB_DEVICE_Init (usb_at r m a (HAL_RCC_GetHCLKFreq ?c1))) t
      = Inr \<lparr>uwTick = t, ulStamp_ms = t, device = d1\<rparr>"
    unfolding d(1) main_start_def by (simp only: obind.simps d1(1))
  ultimately show ?thesis
    using run by (intro exI [of _ u1] exI [of _ ?c1] exI [of _ "HAL_GPIO_Init GPIOD usart3_pins (MX_GPIO_Init gi p)"] exI conjI) simp_all
qed

text \<open>C28: the firmware boots. Over clock hardware whose tick goes on, whose status stays on the PLL once it is there and that
  answers within its timeouts, with a debug port in its reset state, from any contents of the other registers and of
  the heap, and with an application whose initialisation returns and leaves the device alone (the protocol slave that
  is selected, and those without one), everything up to
  the main loop returns: the processor runs at 168 MHz, its buses at 42 and 84 MHz, the
  USB peripheral at 48 MHz, the flash with five wait states and the tick at one per millisecond; every pin of the board has its
  function, the pins that no part uses (those of the debugger among them) are as they were, every port in use is clocked, and of the interrupts only
  that of the USB port was enabled, the button's line being armed but not its interrupt; neither the tick nor the USB interrupt preempts the other, under any
  grouping of the priorities; the debug port is ready and runs at 115384
  baud; the USB device is well formed, connected and in the default state, and its driver computes
  with the true processor clock; and the one hertz branch counts from the tick at which the loop starts. When the hardware
  may answer late, but its tick goes on and its status stays on the PLL, the start ends so or in the error handler; no wait of it
  hangs.\<close>

theorem firmware_boots:
  assumes "ticks_go_on hw" "pll_stays hw" "gState u = HAL_UART_STATE_RESET"
    and "\<forall>d. \<exists>a. weak_call (app_init ap) d = Inr (d\<lparr>app := a\<rparr>)"
  shows "(boot hw osc gi z p u (usb_at r m a) ap t = Error_Handler
        \<or> (\<exists>c p1 u1 f. boot hw osc gi z p u (usb_at r m a) ap t = Inr (c, p1, u1, f) \<and> booted cls rd t p c p1 u1 f))
     \<and> (rcc_in_time hw \<longrightarrow>
          (\<exists>c p1 u1 f. boot hw osc gi z p u (usb_at r m a) ap t = Inr (c, p1, u1, f) \<and> booted cls rd t p c p1 u1 f))"
proof -
  let ?s = "HAL_Init (SystemInit z)"
  have after: "\<exists>c p1 u1 f. boot hw osc gi z p u (usb_at r m a) ap t = Inr (c, p1, u1, f) \<and> booted cls rd t p c p1 u1 f"
    if "SystemClock_Config hw osc ?s = Inr c" "clocks_168 c" for c
    using boot_after_clocks [OF that(2) assms(3) assms(4) [rule_format] tick_priority [OF that(1)], of gi p r m a t cls rd] that(1)
    by (auto simp: boot_def case_prod_unfold Let_def)
  have "SystemClock_Config hw osc ?s = Error_Handler \<or> (\<exists>c. SystemClock_Config hw osc ?s = Inr c \<and> clocks_168 c)"
    by (rule clock_config_ends [OF assms(1,2)])
  moreover have "\<exists>c. SystemClock_Config hw osc ?s = Inr c \<and> clocks_168 c" if "rcc_in_time hw"
    using clock_config_in_time [OF assms(1,2) that, of ?s osc] clock_config_ends [OF assms(1,2), of osc ?s] started_on_HSI [of z]
    by (auto simp: Error_Handler_def)
  ultimately show ?thesis
    using after by (auto simp: boot_def Error_Handler_def)
qed

lemma firmware_boots_witness:
  "\<exists>osc gi a c p u1 f. boot prompt_rcc osc gi cold_clk blank_pins cold_uart (usb_at regs0 (Some hcdc0) a) proto_application 7 = Inr (c, p, u1, f)
     \<and> HAL_RCC_GetHCLKFreq c = 168000000 \<and> uwTick f = 7 \<and> mode (pin_of (port p GPIOA) 11) = 2"
proof -
  have u: "gState cold_uart = HAL_UART_STATE_RESET" by (simp add: cold_uart_def)
  have ap: "\<forall>d. \<exists>a. weak_call (app_init proto_application) d = Inr (d\<lparr>app := a\<rparr>)"
    using proto_application_init by (rule allI)
  obtain osc gi a c p u1 f rd where
    b: "boot prompt_rcc osc gi cold_clk blank_pins cold_uart (usb_at regs0 (Some hcdc0) a) proto_application 7 = Inr (c, p, u1, f)"
      "booted (USBD_CDC proto_rx) rd 7 blank_pins c p u1 f"
    using firmware_boots [OF prompt_rcc_ok(1,2) u ap, of _ _ cold_clk blank_pins regs0 "Some hcdc0" _ 7 "USBD_CDC proto_rx"] prompt_rcc_ok(3)
    by blast
  have "pin_of (port p GPIOA) 11 = board_pin GPIOA 11 (pin_of (port blank_pins GPIOA) 11)"
    using b(2) by (simp add: booted_def board_ready_def)
  then have "mode (pin_of (port p GPIOA) 11) = 2"
    by (simp add: board_pin_def ethernet_pin_def usb_pin_def)
  moreover have "HAL_RCC_GetHCLKFreq c = 168000000" "uwTick f = 7"
    using b(2) by (simp_all add: booted_def clocks_168_def)
  ultimately show ?thesis using b(1) by blast
qed

end
