(* ===== verification/Spec2Isabelle.thy ===== *)
theory Spec2Isabelle
  imports Crc8 MasterLate LibTests PtyTests DevGnuLinux Log Devices UsbSafe UsbStart UsbBoard UsbOverflow UsbEcho Firmware
begin

text \<open>
  The repository gives a host a register file behind a serial line: \<open>dllCom/libcomm\<close> is a C library
  that sets and gets one-byte registers of a slave by small checksummed frames, over devices chosen
  at run time, and \<open>TestUSBTerminal\<close> is the firmware of an STM32F429 board that answers these
  frames over its USB port, as a virtual serial port, on ST's USB device library. This development models
  both in C's own terms and proves what each part promises, up to one theorem from the pins of the USB port to the
  abstract register file.

  How the code is read. The state of a part is a record of its static variables and heap objects; a
  C function takes it and returns it. Integers are words of their C width and wrap. A function that can fail
  an \<open>assert\<close>, follow a null pointer, leave an object, use freed memory, wait forever or stop in the error handler
  returns an \<open>outcome\<close> (\<open>Prelude\<close>): \<open>Inl\<close> of the reason, or \<open>Inr\<close> of the result. A status or error code of the source stays a value. What is not
  under \<open>src\<close> or is hardware is an argument: \<open>malloc\<close> (a flag per call), the clock, the
  system calls and libusb (records of functions), the socket of the proxy, the flags that the drivers
  poll (functions of the number of the reading, or of the moment), the registers an interrupt reads, and the memory
  the registers hold at the start.

  The theories, and the files they model.
    \<^item> \<open>Prelude\<close> the words, outcomes and buffers; \<open>Ring\<close> what the two ring buffers share and the contract
      \<open>fifo_queue\<close> of a bounded queue.
    \<^item> \<open>Crc8\<close> (\<open>protocomm_ll.c\<close>, \<open>getCRC\<close>): the checksum equals a schoolbook polynomial division, and what it
      detects.
    \<^item> \<open>ProtoFrame\<close> (\<open>protocomm_ll.h\<close>, \<open>protocomm_ll.c\<close>): frames, \<open>proto_pushToFrame\<close> with its cursor,
      \<open>proto_decodeFrame\<close>. Round trip, independence of how the bytes are cut, refusal of damaged frames,
      memory safety, and that a refused frame stays in the receiver for good.
    \<^item> \<open>ProtoLink\<close> (\<open>proto_iodevice.h\<close>, the handle): a device as a record of functions, and the contracts a
      reader relies on, \<open>rx_whole\<close>, \<open>rx_bounded\<close>, \<open>rx_fifo\<close>, \<open>tx_total\<close>. Every device theory
      interprets those it meets.
    \<^item> \<open>RegFile\<close> the abstract register service; \<open>ProtoSlave\<close> and \<open>ProtoMaster\<close> (\<open>protocomm_slave.c\<close>,
      \<open>protocomm_master.c\<close>) the two ends, with \<open>slave_service\<close>, \<open>register_callback\<close> and \<open>reply_device\<close> for what
      their callers give them.
    \<^item> \<open>EmulSlave\<close> (\<open>device_emulslave.c\<close>): a slave inside a device. A master over it refines the register
      service; its memory safety; its test flag for damaged frames.
    \<^item> \<open>MasterLate\<close>: the master over a slave that answers late; \<open>LibTests\<close> (\<open>libcomm-emulslave-test/main.c\<close>,
      \<open>libcomm-devstm32-test/main.c\<close>): the test programs of the library, whose assertions all hold; \<open>PtyTests\<close>
      (\<open>libcomm-gnulinux-test/main.c\<close>, \<open>test-ptmx/main.c\<close>): those over a pseudo terminal. In the first a master and a
      slave run in two threads, whose turns any schedule may mix; they refine a small automaton of the race for the reply.
    \<^item> \<open>DevStm32\<close>, \<open>DevSerial\<close>, \<open>DevUsbdev\<close>, \<open>DevLibusb\<close>, \<open>DevProxy\<close> (\<open>devices/device_*.c\<close>) and \<open>Devices\<close>
      (\<open>proto_iodevice.c\<close>): the other devices, what their loops deliver and when they do not end; \<open>DevGnuLinux\<close>
      (\<open>protocomm-gnulinux.c\<close>): the first device for Linux, in no build any more, and its descriptors.
    \<^item> \<open>Log\<close> (\<open>log.c\<close>): the message ring refines a bounded queue; its size computation; the global instance.
    \<^item> \<open>TstProtocomm\<close> (\<open>tst/tst_protocomm.c\<close>): the slave of the board over \<open>DevStm32\<close>, with any \<open>CDC_Transmit_FS\<close>; what it
      does with the one of the repository is in \<open>UsbBoard\<close> and \<open>BoardRuns\<close>.
    \<^item> \<open>UsbHal\<close>, \<open>UsbPcd\<close> (\<open>stm32f4xx_ll_usb.c\<close>, \<open>stm32f4xx_hal_pcd.c\<close>, \<open>stm32f4xx_hal_pcd_ex.c\<close>): the registers
      and endpoints of the USB peripheral and their driver.
    \<^item> \<open>UsbDef\<close>, \<open>UsbDesc\<close>, \<open>UsbCore\<close>, \<open>UsbCdc\<close> (\<open>usbd_def.h\<close>, \<open>usbd_conf.c\<close>, \<open>usbd_ioreq.c\<close>, \<open>usbd_desc.c\<close>,
      \<open>usbd_core.c\<close>, \<open>usbd_ctlreq.c\<close>, \<open>usbd_cdc.c\<close>, \<open>usbd_cdc_if.c\<close>): the device library and its class. Pointers
      to bytes are an object and an offset, so that every access is checked against the object's size.
    \<^item> \<open>UsbIrq\<close> (\<open>HAL_PCD_IRQHandler\<close>, \<open>usb_device.c\<close>): the branches of the interrupt handler (\<open>pcd_branches\<close>, in its order) as
      events, one pass of the handler as a run of events, the start of the device; \<open>UsbExample\<close> one concrete device.
    \<^item> \<open>UsbFrame\<close>, \<open>UsbStates\<close>, \<open>UsbReach\<close>: what each operation leaves alone; the stack as the chapter 9
      state machine \<open>ch9\<close>; the reachable states (\<open>usb_reach\<close>, inductive) and their invariant. The locale
      \<open>cdc_application\<close> says what the stack needs of the application's receive callback; \<open>UsbApp\<close>, with the locale
      \<open>app_invariant\<close>, that what this callback keeps of the application's state, every event keeps.
    \<^item> \<open>UsbSafe\<close>, \<open>UsbStrings\<close>, \<open>UsbStart\<close>, \<open>UsbTx\<close>, \<open>UsbRx\<close>, \<open>UsbControl\<close>, \<open>UsbOverflow\<close>: no standard request faults (with the two that
      do); string descriptors; what the start leaves and what a suspend stops; a transmission cut into
      packets, and what the programmed packet count makes the peripheral send of them (\<open>in_transfer\<close>); a packet received; a class request with data both ways, and one with more data than the class has room for.
    \<^item> \<open>UsbBoard\<close>: \<open>TstProtocomm\<close> as the application of the stack, the register service over USB; \<open>BoardRuns\<close>: any run of its
      events and loop iterations, the one fault an iteration can end in, and a request that is lost; \<open>UsbEcho\<close>
      (\<open>tst_usb_echo.c\<close>): the echo of packets, and of packets that come too early; \<open>MainLoop\<close> (\<open>main.c\<close>, \<open>stm32f4xx_it.c\<close>, \<open>tst_helloword_usb.c\<close>): the loop with its one hertz branch.
    \<^item> \<open>Nvic\<close> (\<open>core_cm4.h\<close>, \<open>stm32f4xx_hal_cortex.c\<close>, \<open>stm32f4xx_hal_msp.c\<close>): the priorities of the exceptions, read back as set.
    \<^item> \<open>TickWait\<close>, \<open>Clock\<close>, \<open>ClockStart\<close> (\<open>stm32f4xx_hal_rcc.c\<close>, \<open>system_stm32f4xx.c\<close>, \<open>stm32f4xx_hal.c\<close>, \<open>main.c\<close>): the loops
      that wait for a flag or the tick, the oscillators and dividers, and what \<open>SystemClock_Config\<close> leaves.
    \<^item> \<open>Uart\<close>, \<open>UartOut\<close> (\<open>usart.c\<close>, \<open>trace.c\<close>, \<open>stm32f4xx_hal_uart.c\<close>): the debug port, its baud rate, and what of a text is
      sent; \<open>Gpio\<close>, \<open>Pins\<close>, \<open>BoardPins\<close> (\<open>stm32f4xx_hal_gpio.c\<close>, \<open>gpio.c\<close>, the \<open>MspInit\<close> functions of \<open>usart.c\<close> and \<open>usbd_conf.c\<close>):
      the pins, each as a field of its port's registers, and what the board makes of them; \<open>Firmware\<close> (\<open>main\<close>): the start of
      the firmware from the reset to the loop.

  Loops and bounds. The loops over buffers, endpoints and pending interrupts are total functions, with a
  measure where the recursion is not structural. A polled register flag is read at most 200000 times, as the
  driver does (\<open>poll_flag\<close>). The loops that may not end are \<open>partial_function (option)\<close>: the
  serial and libusb writes, the master's polling, the filling of a transmit FIFO and the waits for a flag of
  the clocks or of the debug port (\<open>wait_until\<close>); that they return,
  or do not, is proved. No fuel is chosen anywhere.

  Interrupts. An interrupt comes between two passes of the main loop, or between two events; the code
  disables none while it is in the application, so a transmission that an interrupt overtakes inside
  \<open>CDC_Transmit_FS\<close> is not covered. A register keeps what was last written to it, except for the flags
  above and the values an interrupt reads; the acknowledgement of interrupt flags has no effect on the state.

  The FIFO of an endpoint (\<open>DFIFO\<close>) is the log of the packets pushed into it; a flush does not take them back. The lock of
  the driver's handle is taken and released inside one operation, which nothing interrupts, so it is always free between
  operations. The array \<open>data\<close> at the start of the class handle is an object of its own.

  Not modelled, and why.
    \<^item> Host mode, DMA, battery charging and link power management of the USB driver: the firmware is a full
      speed device without DMA, nothing calls them or they are compiled out. The other HAL drivers (timers,
      flash and so on), reception, interrupts and DMA of the serial driver, the clock output and the clock security
      system are in the tree, but nothing calls them.
    \<^item> What an unclocked port does with a write.
    \<^item> The Windows half of \<open>device_serial.c\<close>, the Qt client, the C# applications and the Java side: other
      languages and systems.
    \<^item> \<open>libusb-android\<close>: a copy of libusb, an argument here through the functions \<open>device_libusb.c\<close> calls.
\<close>

end
